(* ===== verification/Prelude.thy ===== *)
theory Prelude
  imports Main "HOL-Library.Word"
begin

text \<open>
  Shared vocabulary of the development: the machine integer types, the ranges of the signed
  C++ integers, and the list facts that several components need.

  Unsigned integers that the code lets wrap (frame ids, version ids, generations, counters,
  hashes) are words of their width.  A C++ \<open>int\<close> or \<open>std::int64_t\<close> is an \<open>int\<close> whose range is
  stated where it matters, because signed overflow is undefined behaviour in C++ and not
  wrap-around; \<open>checked_i32\<close> and \<open>checked_i64\<close> make that case a \<open>None\<close>.  Container sizes are
  \<open>nat\<close>.
\<close>

type_synonym u8 = "8 word"
type_synonym u16 = "16 word"
type_synonym u32 = "32 word"
type_synonym u64 = "64 word"

text \<open>Definitions that a proof about one operation unfolds, and facts that carry the invariants.\<close>

named_theorems op_defs "definitions of the modelled operations"
named_theorems inv_simps "simplification rules about the components' invariants"

section \<open>Signed machine integers\<close>

definition i32_range :: "int \<Rightarrow> bool" where
  "i32_range x \<longleftrightarrow> - (2 ^ 31) \<le> x \<and> x < 2 ^ 31"

definition i64_range :: "int \<Rightarrow> bool" where
  "i64_range x \<longleftrightarrow> - (2 ^ 63) \<le> x \<and> x < 2 ^ 63"

definition checked_i32 :: "int \<Rightarrow> int option" where
  "checked_i32 x = (if i32_range x then Some x else None)"

definition checked_i64 :: "int \<Rightarrow> int option" where
  "checked_i64 x = (if i64_range x then Some x else None)"

lemma checked_i32_Some [simp]: "checked_i32 x = Some y \<longleftrightarrow> y = x \<and> i32_range x"
  by (auto simp: checked_i32_def)

lemma checked_i64_Some [simp]: "checked_i64 x = Some y \<longleftrightarrow> y = x \<and> i64_range x"
  by (auto simp: checked_i64_def)

section \<open>Casts and products on unsigned words\<close>

lemma unat_u64_of_int:
  assumes "0 \<le> x" "x < 2 ^ 64"
  shows "unat (word_of_int x :: u64) = nat x"
  using assms by (simp add: unat_eq_nat_uint take_bit_int_eq_self uint_word_of_int_eq)

lemma unat_u64_mult_of_int:
  assumes "0 \<le> x" "0 \<le> y" "x * y < 2 ^ 64"
  shows "unat (word_of_int x * word_of_int y :: u64) = nat x * nat y"
proof -
  have "(word_of_int x * word_of_int y :: u64) = word_of_int (x * y)" by simp
  also have "unat \<dots> = nat (x * y)"
    using assms by (intro unat_u64_of_int) simp_all
  also have "\<dots> = nat x * nat y" using assms by (simp add: nat_mult_distrib)
  finally show ?thesis .
qed

lemma u64_less_Suc:
  fixes g :: u64
  assumes "g \<noteq> - 1"
  shows "g < g + 1" and "g \<le> h \<Longrightarrow> h \<noteq> - 1 \<Longrightarrow> g < h + 1"
proof -
  have less: "x < x + 1" if "x \<noteq> - 1" for x :: u64
  proof -
    have "uint x < 2 ^ 64 - 1"
    proof (rule ccontr)
      assume "\<not> uint x < 2 ^ 64 - 1"
      moreover have "uint x < 2 ^ 64" using uint_lt2p [of x] by simp
      ultimately have "uint x = uint (- 1 :: u64)"
        by (simp add: unsigned_minus_1_eq_mask mask_eq_exp_minus_1)
      then have "x = - 1" by (simp only: word_uint_eq_iff)
      with that show False by simp
    qed
    then show ?thesis by (simp add: word_less_def uint_word_ariths)
  qed
  show "g < g + 1" using assms by (rule less)
  show "g < h + 1" if "g \<le> h" "h \<noteq> - 1" using that less by (meson le_less_trans)
qed

section \<open>Lists\<close>

text \<open>The index loop \<open>for (i = start; i < xs.size(); ++i) out.push_back(xs[i])\<close>.\<close>

lemma map_nth_upt_drop: "map (\<lambda>i. xs ! i) [n..<length xs] = drop n xs"
proof (cases "n \<le> length xs")
  case True
  have "map (\<lambda>i. xs ! i) [n..<length xs] = drop n (map (\<lambda>i. xs ! i) [0..<length xs])"
    by (simp add: drop_map)
  then show ?thesis by (simp add: map_nth)
next
  case False
  then show ?thesis by simp
qed

lemma drop_trim:
  assumes "d \<le> length xs - n"
  shows "drop (length (drop d xs) - n) (drop d xs) = drop (length xs - n) xs"
proof -
  have "length (drop d xs) - n + d = length xs - n" using assms by simp
  then show ?thesis by (simp add: drop_drop)
qed

lemma find_Some_set: "List.find P xs = Some x \<Longrightarrow> x \<in> set xs \<and> P x"
  by (auto simp: find_Some_iff)

lemma find_key_None_iff: "List.find (\<lambda>x. f x = k) xs = None \<longleftrightarrow> k \<notin> f ` set xs"
  by (force simp: find_None_iff)

lemma find_key_SomeD: "List.find (\<lambda>x. f x = k) xs = Some x \<Longrightarrow> x \<in> set xs \<and> f x = k"
  by (force simp: find_Some_iff)

lemma filter_key_neq: "k \<notin> f ` set xs \<Longrightarrow> filter (\<lambda>x. f x \<noteq> k) xs = xs"
  by (force intro: filter_True)

lemma find_key_filter:
  "List.find (\<lambda>x. f x = j) (filter (\<lambda>x. f x \<noteq> i) xs) =
     (if j = i then None else List.find (\<lambda>x. f x = j) xs)"
  by (induction xs) auto

lemma find_append:
  "List.find P (xs @ ys) = (case List.find P xs of None \<Rightarrow> List.find P ys | Some x \<Rightarrow> Some x)"
  by (induction xs) auto

lemma find_key_snoc:
  "f x \<notin> f ` set xs \<Longrightarrow> List.find (\<lambda>y. f y = k) (xs @ [x]) =
     (if k = f x then Some x else List.find (\<lambda>y. f y = k) xs)"
  by (induction xs) auto

lemma last_filter: "xs \<noteq> [] \<Longrightarrow> P (last xs) \<Longrightarrow> last (filter P xs) = last xs"
  by (induction xs rule: rev_induct) auto

lemma length_filter_unique:
  assumes "distinct (map f xs)" "x \<in> set xs"
  shows "Suc (length (filter (\<lambda>y. f y \<noteq> f x) xs)) = length xs"
  using assms
proof (induction xs)
  case Nil
  then show ?case by simp
next
  case (Cons y ys)
  show ?case
  proof (cases "x = y")
    case True
    then have "filter (\<lambda>z. f z \<noteq> f x) ys = ys"
      using Cons.prems by (intro filter_key_neq) simp
    with True show ?thesis by simp
  next
    case False
    with Cons show ?thesis by force
  qed
qed

end
