(* ===== verification/CxxStrings.thy ===== *)
theory CxxStrings
  imports Prelude
begin

text \<open>
  The part of the C++ standard library on strings that the source uses: \<open>std::from_chars\<close> for
  \<open>int\<close> and \<open>std::size_t\<close>, decimal output of an integer (\<open>std::to_string\<close>, \<open>operator<<\<close>),
  \<open>std::string::find\<close> of a substring, and \<open>std::tolower\<close> in the C locale.  A string is a list of
  bytes (\<open>char list\<close>).
\<close>

section \<open>Decimal digits\<close>

definition is_digit :: "char \<Rightarrow> bool" where
  "is_digit c \<longleftrightarrow> 48 \<le> (of_char c :: nat) \<and> (of_char c :: nat) \<le> 57"

definition digit_value :: "char \<Rightarrow> nat" where
  "digit_value c = of_char c - 48"

definition digit_char :: "nat \<Rightarrow> char" where
  "digit_char d = char_of (48 + d)"

definition decimal_value :: "string \<Rightarrow> nat" where
  "decimal_value ds = foldl (\<lambda>n c. 10 * n + digit_value c) 0 ds"

fun decimal :: "nat \<Rightarrow> string" where
  "decimal n = (if n < 10 then [digit_char n] else decimal (n div 10) @ [digit_char (n mod 10)])"

declare decimal.simps [simp del]

text \<open>\<open>std::to_string\<close> and \<open>operator<<\<close> of an integer.\<close>

definition to_string :: "int \<Rightarrow> string" where
  "to_string i = (if i < 0 then CHR ''-'' # decimal (nat (- i)) else decimal (nat i))"

lemma is_digit_digit_char: "d < 10 \<Longrightarrow> is_digit (digit_char d)"
  by (simp add: is_digit_def digit_char_def)

lemma digit_value_digit_char: "d < 10 \<Longrightarrow> digit_value (digit_char d) = d"
  by (simp add: digit_value_def digit_char_def)

lemma decimal_digits: "c \<in> set (decimal n) \<Longrightarrow> is_digit c"
proof (induction n rule: decimal.induct)
  case (1 n)
  then show ?case
    by (cases "n < 10") (auto simp: decimal.simps [of n] is_digit_digit_char)
qed

lemma decimal_nonempty [simp]: "decimal n \<noteq> []"
  by (subst decimal.simps) simp

lemma decimal_value_decimal [simp]: "decimal_value (decimal n) = n"
proof (induction n rule: decimal.induct)
  case (1 n)
  show ?case
  proof (cases "n < 10")
    case True
    then show ?thesis
      by (simp add: decimal.simps [of n] decimal_value_def digit_value_digit_char)
  next
    case False
    then have "decimal_value (decimal n) = 10 * decimal_value (decimal (n div 10)) + n mod 10"
      by (simp add: decimal.simps [of n] decimal_value_def digit_value_digit_char)
    with 1 False show ?thesis by simp
  qed
qed

lemma takeWhile_decimal [simp]: "takeWhile is_digit (decimal n) = decimal n"
  by (simp add: decimal_digits)

lemma dropWhile_decimal [simp]: "dropWhile is_digit (decimal n) = []"
  by (simp add: decimal_digits)

section \<open>\<open>std::from_chars\<close>\<close>

text \<open>
  The error code, the parsed value (meaningful only without an error) and the characters from
  \<open>ptr\<close> on.  A minus sign is read for signed types only; no whitespace and no plus sign is
  skipped; a pattern whose value does not fit is consumed and reported out of range.
\<close>

datatype from_chars_ec = FC_Ok | FC_InvalidArgument | FC_OutOfRange

definition from_chars_int :: "string \<Rightarrow> from_chars_ec \<times> int \<times> string" where
  "from_chars_int s =
     (let neg = (case s of c # _ \<Rightarrow> c = CHR ''-'' | [] \<Rightarrow> False);
          body = (if neg then tl s else s);
          ds = takeWhile is_digit body;
          v = (if neg then - int (decimal_value ds) else int (decimal_value ds))
      in if ds = [] then (FC_InvalidArgument, 0, s)
         else if i32_range v then (FC_Ok, v, dropWhile is_digit body)
         else (FC_OutOfRange, 0, dropWhile is_digit body))"

definition from_chars_size :: "string \<Rightarrow> from_chars_ec \<times> nat \<times> string" where
  "from_chars_size s =
     (let ds = takeWhile is_digit s; v = decimal_value ds
      in if ds = [] then (FC_InvalidArgument, 0, s)
         else if v < 2 ^ 64 then (FC_Ok, v, dropWhile is_digit s)
         else (FC_OutOfRange, 0, dropWhile is_digit s))"

lemma not_minus_if_digit: "is_digit c \<Longrightarrow> c \<noteq> CHR ''-''"
  by (auto simp: is_digit_def)

lemma hd_decimal_not_minus: "decimal n = c # cs \<Longrightarrow> c \<noteq> CHR ''-''"
  using decimal_digits [of c n] not_minus_if_digit by auto

text \<open>Reading what was printed gives the number back and consumes everything.\<close>

lemma from_chars_int_to_string:
  assumes "i32_range i"
  shows "from_chars_int (to_string i) = (FC_Ok, i, [])"
proof (cases "i < 0")
  case True
  then show ?thesis
    using assms by (simp add: from_chars_int_def to_string_def Let_def)
next
  case False
  have "(case decimal (nat i) of c # _ \<Rightarrow> c = CHR ''-'' | [] \<Rightarrow> False) = False"
    by (cases "decimal (nat i)") (auto dest: hd_decimal_not_minus)
  with False show ?thesis
    using assms by (simp add: from_chars_int_def to_string_def Let_def)
qed

lemma from_chars_size_decimal: "n < 2 ^ 64 \<Longrightarrow> from_chars_size (decimal n) = (FC_Ok, n, [])"
  by (simp add: from_chars_size_def)

section \<open>Searching and case\<close>

text \<open>\<open>haystack.find(needle)\<close>: the position of the first occurrence, \<open>None\<close> for \<open>npos\<close>.\<close>

fun starts_with :: "string \<Rightarrow> string \<Rightarrow> bool" where
  "starts_with [] s = True"
| "starts_with (p # ps) [] = False"
| "starts_with (p # ps) (c # cs) = (p = c \<and> starts_with ps cs)"

fun find_substring :: "string \<Rightarrow> string \<Rightarrow> nat option" where
  "find_substring needle [] = (if needle = [] then Some 0 else None)"
| "find_substring needle (c # cs) =
     (if starts_with needle (c # cs) then Some 0
      else map_option Suc (find_substring needle cs))"

definition contains_substring :: "string \<Rightarrow> string \<Rightarrow> bool" where
  "contains_substring needle s \<longleftrightarrow> find_substring needle s \<noteq> None"

lemma starts_with_iff: "starts_with p s \<longleftrightarrow> (\<exists>r. s = p @ r)"
  by (induction p s rule: starts_with.induct) auto

lemma contains_substring_iff: "contains_substring p s \<longleftrightarrow> (\<exists>l r. s = l @ p @ r)"
proof (induction s)
  case Nil
  then show ?case by (simp add: contains_substring_def)
next
  case (Cons c cs)
  have "contains_substring p (c # cs) \<longleftrightarrow> starts_with p (c # cs) \<or> contains_substring p cs"
    by (simp add: contains_substring_def)
  also have "\<dots> \<longleftrightarrow> (\<exists>r. c # cs = p @ r) \<or> (\<exists>l r. cs = l @ p @ r)"
    by (simp add: starts_with_iff Cons.IH)
  also have "\<dots> \<longleftrightarrow> (\<exists>l r. c # cs = l @ p @ r)"
    by (metis append_Cons append_Nil neq_Nil_conv list.inject)
  finally show ?case .
qed

definition to_lower :: "char \<Rightarrow> char" where
  "to_lower c = (let n = of_char c :: nat in if 65 \<le> n \<and> n \<le> 90 then char_of (n + 32) else c)"

end
