(* ===== verification/Config.thy ===== *)
theory Config
  imports CxxStrings
begin

text \<open>
  The configuration module (\<open>src/config\<close>): the value types of \<open>include/config/types\<close> with
  their default values, and the command line parser of \<open>CommandLineParser.cpp\<close>.

  \<open>parse_args\<close> is the \<open>for\<close> loop over \<open>argv[1..]\<close>; its state is the configuration built so far and
  the flag \<open>viewerDumpCountExplicit\<close>.  An option with a value consumes two arguments.  The parse
  result carries the partially overridden configuration also when an error is reported, as the
  code returns it.
\<close>

section \<open>Configuration values\<close>

record ImageSize =
  imgWidth :: int
  imgHeight :: int

datatype CaptureColorFormat = Bgra32

datatype CaptureDepthMode =
  Nfov2x2Binned | NfovUnbinned | Wfov2x2Binned | WfovUnbinned | PassiveIr

datatype CaptureFrameRate = Fps5 | Fps15 | Fps30

record CaptureCameraConfig =
  deviceIndex :: u32
  colorFormat :: CaptureColorFormat
  depthMode :: CaptureDepthMode
  frameRate :: CaptureFrameRate
  synchronizedImagesOnly :: bool

record CaptureRuntimeConfig =
  captureTimeoutMs :: int
  failureBackoffMs :: int

record CaptureConfig =
  captureEnabled :: bool
  captureCamera :: CaptureCameraConfig
  captureRuntime :: CaptureRuntimeConfig

record BuilderRuntimeConfig =
  readyFrameTimeoutMs :: int
  trackerConfig :: string

datatype SceneReadPolicy = Greedy | Balanced

record SceneConfig =
  sceneReadPolicy :: SceneReadPolicy

datatype ViewerLoopPolicy = EventLoop | HotLoop

record ViewerRuntimeConfig =
  loopPolicy :: ViewerLoopPolicy
  loopPeriodMs :: int
  outputHistoryCapacity :: nat

record ViewerDumpConfig =
  dumpEnabled :: bool
  dumpMaxFrames :: nat

record AppDebugConfig =
  viewerDump :: ViewerDumpConfig

record TcpStreamingConfig =
  tcpEnabled :: bool
  tcpPort :: int

record WebRtcStreamingConfig =
  rtcEnabled :: bool
  signallingHost :: string
  signallingPort :: u16
  rtcFps :: u32
  bitrateBps :: u32
  stunServer :: string
  pumpCoreMask :: "int list"

record StreamingConfig =
  streamTcp :: TcpStreamingConfig
  streamWebrtc :: WebRtcStreamingConfig

record AppConfig =
  appImageSize :: ImageSize
  appStreaming :: StreamingConfig
  appCapture :: CaptureConfig
  appBuilder :: BuilderRuntimeConfig
  appScene :: SceneConfig
  appViewer :: ViewerRuntimeConfig
  appDebug :: AppDebugConfig

section \<open>Default values\<close>

definition defaultCaptureConfig :: CaptureConfig where
  "defaultCaptureConfig =
     \<lparr>captureEnabled = True,
      captureCamera = \<lparr>deviceIndex = 0, colorFormat = Bgra32, depthMode = NfovUnbinned,
                       frameRate = Fps30, synchronizedImagesOnly = True\<rparr>,
      captureRuntime = \<lparr>captureTimeoutMs = 1000, failureBackoffMs = 1000 div 60\<rparr>\<rparr>"

definition defaultBuilderConfig :: BuilderRuntimeConfig where
  "defaultBuilderConfig = \<lparr>readyFrameTimeoutMs = 1000 div 20, trackerConfig = []\<rparr>"

definition defaultSceneConfig :: SceneConfig where
  "defaultSceneConfig = \<lparr>sceneReadPolicy = Greedy\<rparr>"

definition defaultViewerConfig :: ViewerRuntimeConfig where
  "defaultViewerConfig =
     \<lparr>loopPolicy = EventLoop, loopPeriodMs = 1000 div 30, outputHistoryCapacity = 8\<rparr>"

definition defaultDebugConfig :: AppDebugConfig where
  "defaultDebugConfig = \<lparr>viewerDump = \<lparr>dumpEnabled = False, dumpMaxFrames = 1\<rparr>\<rparr>"

definition defaultStreamingConfig :: StreamingConfig where
  "defaultStreamingConfig =
     \<lparr>streamTcp = \<lparr>tcpEnabled = False, tcpPort = 6688\<rparr>,
      streamWebrtc = \<lparr>rtcEnabled = True, signallingHost = ''0.0.0.0'', signallingPort = 6689,
                      rtcFps = 30, bitrateBps = 1500000, stunServer = [], pumpCoreMask = [4, 5]\<rparr>\<rparr>"

definition defaultAppConfig :: AppConfig where
  "defaultAppConfig =
     \<lparr>appImageSize = \<lparr>imgWidth = 1280, imgHeight = 720\<rparr>,
      appStreaming = defaultStreamingConfig, appCapture = defaultCaptureConfig,
      appBuilder = defaultBuilderConfig, appScene = defaultSceneConfig,
      appViewer = defaultViewerConfig, appDebug = defaultDebugConfig\<rparr>"

section \<open>Option values\<close>

text \<open>
  Each value parser of the code returns a \<open>bool\<close> and writes its out-parameter only on success:
  \<open>None\<close> is \<open>false\<close>.
\<close>

definition parsePort :: "string \<Rightarrow> int option" where
  "parsePort value =
     (case from_chars_int value of (ec, p, rest) \<Rightarrow>
        if ec \<noteq> FC_Ok \<or> rest \<noteq> [] then None
        else if p \<le> 0 \<or> p > 65535 then None
        else Some p)"

definition parseReadPolicy :: "string \<Rightarrow> SceneReadPolicy option" where
  "parseReadPolicy value =
     (if value = ''greedy'' then Some Greedy
      else if value = ''balanced'' then Some Balanced
      else None)"

definition parseViewerPolicy :: "string \<Rightarrow> ViewerLoopPolicy option" where
  "parseViewerPolicy value =
     (if value = ''event'' then Some EventLoop
      else if value = ''hot-loop'' then Some HotLoop
      else None)"

definition parsePositiveCount :: "string \<Rightarrow> nat option" where
  "parsePositiveCount value =
     (case from_chars_size value of (ec, n, rest) \<Rightarrow>
        if ec \<noteq> FC_Ok \<or> rest \<noteq> [] \<or> n = 0 then None else Some n)"

lemma parsePort_range: "parsePort v = Some p \<Longrightarrow> 1 \<le> p \<and> p \<le> 65535"
  by (auto simp: parsePort_def split: prod.splits if_splits)

lemma parsePort_to_string: "1 \<le> p \<Longrightarrow> p \<le> 65535 \<Longrightarrow> parsePort (to_string p) = Some p"
  by (simp add: parsePort_def from_chars_int_to_string i32_range_def)

lemma parsePositiveCount_pos: "parsePositiveCount v = Some n \<Longrightarrow> 0 < n"
  by (auto simp: parsePositiveCount_def split: prod.splits if_splits)

lemma parsePositiveCount_decimal: "0 < n \<Longrightarrow> n < 2 ^ 64 \<Longrightarrow> parsePositiveCount (decimal n) = Some n"
  by (simp add: parsePositiveCount_def from_chars_size_decimal)

end
