(* ===== verification/CommandLine.thy ===== *)
theory CommandLine
  imports Config
begin

text \<open>
  \<open>parseCommandLine\<close> of \<open>src/config/src/CommandLineParser.cpp\<close>.  \<open>parse_step\<close> is the body of
  the argument loop for one option: \<open>Inl\<close> the error message of an early return, or \<open>Inr\<close> the
  arguments left, the flag \<open>viewerDumpCountExplicit\<close> and the configuration for the next
  iteration.  \<open>argv\<close> is the list of all arguments, the program name first.
\<close>

section \<open>Overrides\<close>

definition setViewerDump :: "(ViewerDumpConfig \<Rightarrow> ViewerDumpConfig) \<Rightarrow> AppConfig \<Rightarrow> AppConfig" where
  "setViewerDump f c = c\<lparr>appDebug := (appDebug c)\<lparr>viewerDump := f (viewerDump (appDebug c))\<rparr>\<rparr>"

definition setTcp :: "(TcpStreamingConfig \<Rightarrow> TcpStreamingConfig) \<Rightarrow> AppConfig \<Rightarrow> AppConfig" where
  "setTcp f c =
     c\<lparr>appStreaming := (appStreaming c)\<lparr>streamTcp := f (streamTcp (appStreaming c))\<rparr>\<rparr>"

definition setWebrtc :: "(WebRtcStreamingConfig \<Rightarrow> WebRtcStreamingConfig) \<Rightarrow> AppConfig \<Rightarrow> AppConfig"
  where
  "setWebrtc f c =
     c\<lparr>appStreaming := (appStreaming c)\<lparr>streamWebrtc := f (streamWebrtc (appStreaming c))\<rparr>\<rparr>"

text \<open>\<open>static_cast<std::uint16_t>(port)\<close> is the low 16 bits.\<close>

definition portToU16 :: "int \<Rightarrow> u16" where
  "portToU16 p = word_of_int p"

section \<open>One option\<close>

type_synonym parse_state = "string list \<times> bool \<times> AppConfig"

definition missing_value :: "string \<Rightarrow> string" where
  "missing_value opt = ''Missing value for '' @ opt"

definition parse_step :: "string \<Rightarrow> string list \<Rightarrow> bool \<Rightarrow> AppConfig \<Rightarrow> string + parse_state" where
  "parse_step arg rest explicit c =
     (if arg = ''--disable-capture'' then
        Inr (rest, explicit, c\<lparr>appCapture := (appCapture c)\<lparr>captureEnabled := False\<rparr>\<rparr>)
      else if arg = ''--enable-debug'' then
        Inr (rest, explicit,
             setViewerDump (\<lambda>d. if explicit then d\<lparr>dumpEnabled := True\<rparr>
                                else d\<lparr>dumpEnabled := True, dumpMaxFrames := 5\<rparr>) c)
      else if arg = ''--port'' then
        (case rest of [] \<Rightarrow> Inl (missing_value ''--port'')
         | v # rest' \<Rightarrow>
             (case parsePort v of None \<Rightarrow> Inl (''Invalid port: '' @ v)
              | Some p \<Rightarrow> Inr (rest', explicit, setTcp (\<lambda>t. t\<lparr>tcpPort := p\<rparr>) c)))
      else if arg = ''--enable-tcp-streaming'' then
        Inr (rest, explicit, setTcp (\<lambda>t. t\<lparr>tcpEnabled := True\<rparr>) c)
      else if arg = ''--disable-webrtc'' then
        Inr (rest, explicit, setWebrtc (\<lambda>w. w\<lparr>rtcEnabled := False\<rparr>) c)
      else if arg = ''--webrtc-port'' then
        (case rest of [] \<Rightarrow> Inl (missing_value ''--webrtc-port'')
         | v # rest' \<Rightarrow>
             (case parsePort v of None \<Rightarrow> Inl (''Invalid WebRTC port: '' @ v)
              | Some p \<Rightarrow>
                  Inr (rest', explicit, setWebrtc (\<lambda>w. w\<lparr>signallingPort := portToU16 p\<rparr>) c)))
      else if arg = ''--webrtc-stun'' then
        (case rest of [] \<Rightarrow> Inl (missing_value ''--webrtc-stun'')
         | v # rest' \<Rightarrow>
             Inr (rest', explicit,
                  setWebrtc (\<lambda>w. w\<lparr>stunServer := (if v = ''none'' then [] else v)\<rparr>) c))
      else if arg = ''--read-policy'' then
        (case rest of [] \<Rightarrow> Inl (missing_value ''--read-policy'')
         | v # rest' \<Rightarrow>
             (case parseReadPolicy v of None \<Rightarrow> Inl (''Invalid read policy: '' @ v)
              | Some p \<Rightarrow>
                  Inr (rest', explicit, c\<lparr>appScene := (appScene c)\<lparr>sceneReadPolicy := p\<rparr>\<rparr>)))
      else if arg = ''--viewer-policy'' then
        (case rest of [] \<Rightarrow> Inl (missing_value ''--viewer-policy'')
         | v # rest' \<Rightarrow>
             (case parseViewerPolicy v of None \<Rightarrow> Inl (''Invalid viewer policy: '' @ v)
              | Some p \<Rightarrow>
                  Inr (rest', explicit, c\<lparr>appViewer := (appViewer c)\<lparr>loopPolicy := p\<rparr>\<rparr>)))
      else if arg = ''--debug-frames'' then
        (case rest of [] \<Rightarrow> Inl (missing_value ''--debug-frames'')
         | v # rest' \<Rightarrow>
             (case parsePositiveCount v of None \<Rightarrow> Inl (''Invalid viewer dump frame count: '' @ v)
              | Some n \<Rightarrow>
                  Inr (rest', True,
                       setViewerDump (\<lambda>d. d\<lparr>dumpEnabled := True, dumpMaxFrames := n\<rparr>) c)))
      else Inl (''Unknown argument: '' @ arg))"

lemma parse_step_shorter:
  assumes "parse_step arg rest explicit c = Inr (rest', e', c')"
  shows "length rest' \<le> length rest"
  using assms unfolding parse_step_def
  by (auto split: if_splits list.splits option.splits)

lemma parse_step_error_nonempty: "parse_step arg rest explicit c = Inl msg \<Longrightarrow> msg \<noteq> []"
  unfolding parse_step_def missing_value_def
  by (auto split: if_splits list.splits option.splits)

section \<open>The loop\<close>

record CommandLineParseResult =
  resultConfig :: AppConfig
  resultError :: string

definition parsed :: "CommandLineParseResult \<Rightarrow> bool" where
  "parsed r \<longleftrightarrow> resultError r = []"

function parse_args :: "string list \<Rightarrow> bool \<Rightarrow> AppConfig \<Rightarrow> CommandLineParseResult" where
  "parse_args [] explicit c = \<lparr>resultConfig = c, resultError = []\<rparr>"
| "parse_args (arg # rest) explicit c =
     (case parse_step arg rest explicit c of
        Inl msg \<Rightarrow> \<lparr>resultConfig = c, resultError = msg\<rparr>
      | Inr (rest', explicit', c') \<Rightarrow> parse_args rest' explicit' c')"
  by pat_completeness auto
termination
  by (relation "measure (\<lambda>(args, _, _). length args)")
    (auto dest!: parse_step_shorter)

definition parseCommandLine :: "string list \<Rightarrow> AppConfig \<Rightarrow> CommandLineParseResult" where
  "parseCommandLine argv defaults = parse_args (drop 1 argv) False defaults"

section \<open>Preserved configuration facts\<close>

text \<open>What every later consumer relies on: ports and the dump count are in range.\<close>

definition config_ok :: "AppConfig \<Rightarrow> bool" where
  "config_ok c \<longleftrightarrow>
     1 \<le> tcpPort (streamTcp (appStreaming c)) \<and> tcpPort (streamTcp (appStreaming c)) \<le> 65535
     \<and> signallingPort (streamWebrtc (appStreaming c)) \<noteq> 0
     \<and> 0 < dumpMaxFrames (viewerDump (appDebug c))"

lemma config_ok_default: "config_ok defaultAppConfig"
  by (simp add: config_ok_def defaultAppConfig_def defaultStreamingConfig_def
      defaultDebugConfig_def)

lemma portToU16_exact:
  assumes "parsePort v = Some p"
  shows "uint (portToU16 p) = p"
  using parsePort_range [OF assms]
  by (simp add: portToU16_def uint_word_of_int_eq take_bit_int_eq_self)

lemma parse_step_config_ok:
  assumes "parse_step arg rest explicit c = Inr (rest', e', c')" "config_ok c"
  shows "config_ok c'"
proof -
  have "portToU16 p \<noteq> 0" if "parsePort v = Some p" for v p
    using portToU16_exact [OF that] parsePort_range [OF that] by auto
  then show ?thesis
    using assms unfolding parse_step_def config_ok_def setViewerDump_def setTcp_def setWebrtc_def
    by (auto split: if_splits list.splits option.splits
        dest: parsePort_range parsePositiveCount_pos)
qed

lemma parse_args_config_ok: "config_ok c \<Longrightarrow> config_ok (resultConfig (parse_args args explicit c))"
proof (induction args explicit c rule: parse_args.induct)
  case (1 explicit c)
  then show ?case by simp
next
  case (2 arg rest explicit c)
  then show ?case
    using parse_step_config_ok [of arg rest explicit c]
    by (cases "parse_step arg rest explicit c") auto
qed

section \<open>Composition\<close>

text \<open>The state in which the loop is after consuming \<open>args\<close>, when no error stops it.\<close>

function parse_run :: "string list \<Rightarrow> bool \<Rightarrow> AppConfig \<Rightarrow> (bool \<times> AppConfig) option" where
  "parse_run [] explicit c = Some (explicit, c)"
| "parse_run (arg # rest) explicit c =
     (case parse_step arg rest explicit c of
        Inl _ \<Rightarrow> None
      | Inr (rest', explicit', c') \<Rightarrow> parse_run rest' explicit' c')"
  by pat_completeness auto
termination
  by (relation "measure (\<lambda>(args, _, _). length args)")
    (auto dest!: parse_step_shorter)

lemma parse_step_append:
  "parse_step arg rest explicit c = Inr (rest', e', c') \<Longrightarrow>
     parse_step arg (rest @ later) explicit c = Inr (rest' @ later, e', c')"
  unfolding parse_step_def by (auto split: if_splits list.splits option.splits)

lemma parse_args_append:
  "parse_run args explicit c = Some (e', c') \<Longrightarrow>
     parse_args (args @ later) explicit c = parse_args later e' c'"
proof (induction args explicit c rule: parse_run.induct)
  case (1 explicit c)
  then show ?case by simp
next
  case (2 arg rest explicit c)
  then obtain rest' e1 c1 where "parse_step arg rest explicit c = Inr (rest', e1, c1)"
    by (auto split: sum.splits prod.splits)
  with 2 show ?case by (simp add: parse_step_append)
qed

lemma parse_args_parsed: "parsed (parse_args args explicit c) \<longleftrightarrow> parse_run args explicit c \<noteq> None"
proof (induction args explicit c rule: parse_args.induct)
  case (1 explicit c)
  then show ?case by (simp add: parsed_def)
next
  case (2 arg rest explicit c)
  then show ?case
    by (auto simp: parsed_def dest: parse_step_error_nonempty split: sum.splits prod.splits)
qed

section \<open>Printing a configuration as arguments\<close>

text \<open>
  The arguments that set every option the command line can set to the values of \<open>c\<close>, as the
  README documents them.
\<close>

definition render_policy :: "SceneReadPolicy \<Rightarrow> string" where
  "render_policy p = (case p of Greedy \<Rightarrow> ''greedy'' | Balanced \<Rightarrow> ''balanced'')"

definition render_loop :: "ViewerLoopPolicy \<Rightarrow> string" where
  "render_loop p = (case p of EventLoop \<Rightarrow> ''event'' | HotLoop \<Rightarrow> ''hot-loop'')"

definition render_streaming :: "StreamingConfig \<Rightarrow> string list" where
  "render_streaming s =
     [''--port'', to_string (tcpPort (streamTcp s))]
     @ (if tcpEnabled (streamTcp s) then [''--enable-tcp-streaming''] else [])
     @ (if rtcEnabled (streamWebrtc s) then [] else [''--disable-webrtc''])
     @ [''--webrtc-port'', to_string (uint (signallingPort (streamWebrtc s)))]
     @ [''--webrtc-stun'',
        if stunServer (streamWebrtc s) = [] then ''none'' else stunServer (streamWebrtc s)]"

definition render_rest :: "AppConfig \<Rightarrow> string list" where
  "render_rest c =
     (if captureEnabled (appCapture c) then [] else [''--disable-capture''])
     @ [''--read-policy'', render_policy (sceneReadPolicy (appScene c))]
     @ [''--viewer-policy'', render_loop (loopPolicy (appViewer c))]
     @ (if dumpEnabled (viewerDump (appDebug c))
        then [''--debug-frames'', decimal (dumpMaxFrames (viewerDump (appDebug c)))] else [])"

definition render_args :: "AppConfig \<Rightarrow> string list" where
  "render_args c = render_streaming (appStreaming c) @ render_rest c"

text \<open>
  The streaming settings reachable from \<open>d\<close> by options: the ports are in range, a switch without
  an opposite is only ever thrown one way, and only the settable fields differ.
\<close>

definition streaming_settable :: "StreamingConfig \<Rightarrow> StreamingConfig \<Rightarrow> bool" where
  "streaming_settable d s \<longleftrightarrow>
     1 \<le> tcpPort (streamTcp s) \<and> tcpPort (streamTcp s) \<le> 65535
     \<and> signallingPort (streamWebrtc s) \<noteq> 0 \<and> stunServer (streamWebrtc s) \<noteq> ''none''
     \<and> (tcpEnabled (streamTcp d) \<longrightarrow> tcpEnabled (streamTcp s))
     \<and> (rtcEnabled (streamWebrtc s) \<longrightarrow> rtcEnabled (streamWebrtc d))
     \<and> (\<exists>p st. streamWebrtc s = (streamWebrtc d)
           \<lparr>rtcEnabled := rtcEnabled (streamWebrtc s), signallingPort := p, stunServer := st\<rparr>)"

text \<open>
  The same for a whole configuration: \<open>c\<close> is \<open>d\<close> with other streaming, scene, viewer-loop,
  capture-switch and debug settings.
\<close>

definition settable :: "AppConfig \<Rightarrow> AppConfig \<Rightarrow> bool" where
  "settable d c \<longleftrightarrow>
     streaming_settable (appStreaming d) (appStreaming c)
     \<and> 0 < dumpMaxFrames (viewerDump (appDebug c))
     \<and> dumpMaxFrames (viewerDump (appDebug c)) < 2 ^ 64
     \<and> (\<not> dumpEnabled (viewerDump (appDebug c)) \<longrightarrow> appDebug c = appDebug d)
     \<and> (captureEnabled (appCapture c) \<longrightarrow> captureEnabled (appCapture d))
     \<and> c = d\<lparr>appStreaming := appStreaming c,
             appCapture := (appCapture d)\<lparr>captureEnabled := captureEnabled (appCapture c)\<rparr>,
             appScene := appScene c,
             appViewer := (appViewer d)\<lparr>loopPolicy := loopPolicy (appViewer c)\<rparr>,
             appDebug := appDebug c\<rparr>"

lemma parse_run_options:
  "parse_run (''--disable-capture'' # r) e c =
     parse_run r e (c\<lparr>appCapture := (appCapture c)\<lparr>captureEnabled := False\<rparr>\<rparr>)"
  "1 \<le> p \<Longrightarrow> p \<le> 65535 \<Longrightarrow> parse_run (''--port'' # to_string p # r) e c =
     parse_run r e (setTcp (\<lambda>t. t\<lparr>tcpPort := p\<rparr>) c)"
  "parse_run (''--enable-tcp-streaming'' # r) e c =
     parse_run r e (setTcp (\<lambda>t. t\<lparr>tcpEnabled := True\<rparr>) c)"
  "parse_run (''--disable-webrtc'' # r) e c =
     parse_run r e (setWebrtc (\<lambda>w. w\<lparr>rtcEnabled := False\<rparr>) c)"
  "1 \<le> p \<Longrightarrow> p \<le> 65535 \<Longrightarrow> parse_run (''--webrtc-port'' # to_string p # r) e c =
     parse_run r e (setWebrtc (\<lambda>w. w\<lparr>signallingPort := portToU16 p\<rparr>) c)"
  "parse_run (''--webrtc-stun'' # v # r) e c =
     parse_run r e (setWebrtc (\<lambda>w. w\<lparr>stunServer := (if v = ''none'' then [] else v)\<rparr>) c)"
  "parse_run (''--read-policy'' # render_policy q # r) e c =
     parse_run r e (c\<lparr>appScene := (appScene c)\<lparr>sceneReadPolicy := q\<rparr>\<rparr>)"
  "parse_run (''--viewer-policy'' # render_loop l # r) e c =
     parse_run r e (c\<lparr>appViewer := (appViewer c)\<lparr>loopPolicy := l\<rparr>\<rparr>)"
  "0 < n \<Longrightarrow> n < 2 ^ 64 \<Longrightarrow> parse_run (''--debug-frames'' # decimal n # r) e c =
     parse_run r True (setViewerDump (\<lambda>d. d\<lparr>dumpEnabled := True, dumpMaxFrames := n\<rparr>) c)"
  "parse_run (''--enable-debug'' # r) e c =
     parse_run r e (setViewerDump (\<lambda>d. if e then d\<lparr>dumpEnabled := True\<rparr>
                                    else d\<lparr>dumpEnabled := True, dumpMaxFrames := 5\<rparr>) c)"
  by (simp_all add: parse_step_def parsePort_to_string parseReadPolicy_def render_policy_def
      parseViewerPolicy_def render_loop_def parsePositiveCount_decimal
      split: SceneReadPolicy.splits ViewerLoopPolicy.splits)

lemma signalling_port_u16:
  "w \<noteq> (0 :: u16) \<Longrightarrow> 1 \<le> uint w \<and> uint w \<le> 65535"
  using uint_lt2p [of w] uint_ge_0 [of w] by (auto simp: le_less uint_0_iff)

lemma portToU16_uint [simp]: "portToU16 (uint w) = w"
  by (simp add: portToU16_def)

lemma run_render_streaming:
  assumes "streaming_settable (appStreaming d) s"
  shows "parse_run (render_streaming s @ later) e d = parse_run later e (d\<lparr>appStreaming := s\<rparr>)"
proof -
  obtain td tw where d: "appStreaming d = \<lparr>streamTcp = td, streamWebrtc = tw\<rparr>"
    by (cases "appStreaming d")
  obtain tcp w where s: "s = \<lparr>streamTcp = tcp, streamWebrtc = w\<rparr>" by (cases s)
  note ports = signalling_port_u16 [of "signallingPort w"]
  show ?thesis
    using assms ports
    by (cases tcp; cases td; cases "rtcEnabled w"; cases "rtcEnabled tw"; cases "tcpEnabled tcp"; cases w; cases tw)
      (auto simp: s d streaming_settable_def render_streaming_def parse_run_options
        setTcp_def setWebrtc_def simp del: parse_run.simps(2))
qed

lemma run_render_rest:
  assumes "0 < dumpMaxFrames (viewerDump (appDebug c))"
    "dumpMaxFrames (viewerDump (appDebug c)) < 2 ^ 64"
    "\<not> dumpEnabled (viewerDump (appDebug c)) \<Longrightarrow> appDebug c = appDebug d"
    "captureEnabled (appCapture c) \<Longrightarrow> captureEnabled (appCapture d)"
  shows "\<exists>e. parse_run (render_rest c) False d =
    Some (e, d\<lparr>appCapture := (appCapture d)\<lparr>captureEnabled := captureEnabled (appCapture c)\<rparr>,
             appScene := appScene c,
             appViewer := (appViewer d)\<lparr>loopPolicy := loopPolicy (appViewer c)\<rparr>,
             appDebug := appDebug c\<rparr>)"
  using assms
  by (cases "captureEnabled (appCapture c)"; cases "dumpEnabled (viewerDump (appDebug c))"; cases "appDebug c"; cases "appDebug d")
     (auto simp: render_rest_def parse_run_options setViewerDump_def simp del: parse_run.simps(2))

lemma run_render_args:
  assumes "settable d c"
  shows "\<exists>e. parse_run (render_args c) False d = Some (e, c)"
proof -
  let ?d' = "d\<lparr>appStreaming := appStreaming c\<rparr>"
  have "parse_run (render_args c) False d = parse_run (render_rest c) False ?d'"
    using assms by (simp add: render_args_def run_render_streaming settable_def)
  moreover have "\<exists>e. parse_run (render_rest c) False ?d' =
    Some (e, ?d'\<lparr>appCapture := (appCapture ?d')\<lparr>captureEnabled := captureEnabled (appCapture c)\<rparr>,
             appScene := appScene c,
             appViewer := (appViewer ?d')\<lparr>loopPolicy := loopPolicy (appViewer c)\<rparr>,
             appDebug := appDebug c\<rparr>)"
    using assms by (intro run_render_rest) (simp_all add: settable_def)
  moreover have "c = ?d'\<lparr>appCapture := (appCapture ?d')\<lparr>captureEnabled := captureEnabled (appCapture c)\<rparr>,
             appScene := appScene c,
             appViewer := (appViewer ?d')\<lparr>loopPolicy := loopPolicy (appViewer c)\<rparr>,
             appDebug := appDebug c\<rparr>"
    using assms by (simp add: settable_def)
  ultimately show ?thesis by metis
qed

section \<open>Properties\<close>

text \<open>C39: Reading back the arguments printed for a configuration yields exactly that
  configuration and no error, for every configuration the options can reach from the defaults.\<close>

theorem parse_render_roundtrip:
  assumes "settable d c"
  shows "parseCommandLine (prog # render_args c) d = \<lparr>resultConfig = c, resultError = []\<rparr>"
proof -
  obtain e where "parse_run (render_args c) False d = Some (e, c)"
    using run_render_args [OF assms] by blast
  then have "parse_args (render_args c @ []) False d = parse_args [] e c"
    by (rule parse_args_append)
  then show ?thesis by (simp add: parseCommandLine_def)
qed

theorem parse_render_roundtrip_witness:
  "parseCommandLine
     (''EdgeVision'' # render_args (setTcp (\<lambda>t. t\<lparr>tcpPort := 7000\<rparr>) defaultAppConfig))
     defaultAppConfig
   = \<lparr>resultConfig = setTcp (\<lambda>t. t\<lparr>tcpPort := 7000\<rparr>) defaultAppConfig, resultError = []\<rparr>"
  by (rule parse_render_roundtrip)
    (simp add: settable_def streaming_settable_def setTcp_def defaultAppConfig_def
      defaultStreamingConfig_def defaultDebugConfig_def defaultCaptureConfig_def
      defaultViewerConfig_def)

text \<open>C40: Whatever the arguments are, and also when an error is reported, the returned
  configuration keeps the ports and the dump count in range.\<close>

theorem parse_keeps_config_ok:
  assumes "config_ok d"
  shows "config_ok (resultConfig (parseCommandLine argv d))"
  using assms by (simp add: parseCommandLine_def parse_args_config_ok)

theorem parse_keeps_config_ok_witness:
  "config_ok (resultConfig (parseCommandLine [''EdgeVision'', ''--port'', ''0''] defaultAppConfig))"
  by (rule parse_keeps_config_ok [OF config_ok_default])

text \<open>The switch \<open>--enable-debug\<close> never overrides an explicit \<open>--debug-frames\<close> count, on
  whichever side of it the switch stands and whatever follows.\<close>

theorem debug_switch_commutes:
  assumes "0 < n" "n < 2 ^ 64"
  shows "parse_args (''--enable-debug'' # ''--debug-frames'' # decimal n # rest) e c
       = parse_args (''--debug-frames'' # decimal n # ''--enable-debug'' # rest) e c"
proof -
  have run: "parse_run [''--enable-debug'', ''--debug-frames'', decimal n] e c =
      parse_run [''--debug-frames'', decimal n, ''--enable-debug''] e c"
    "parse_run [''--debug-frames'', decimal n, ''--enable-debug''] e c \<noteq> None"
    using assms by (auto simp: parse_run_options setViewerDump_def simp del: parse_run.simps(2))
  then obtain e' c' where r: "parse_run [''--debug-frames'', decimal n, ''--enable-debug''] e c = Some (e', c')"
    by auto
  from parse_args_append [OF r, of rest] parse_args_append [OF trans [OF run(1) r], of rest]
  show ?thesis by simp
qed

theorem debug_switch_commutes_witness:
  "parse_args [''--enable-debug'', ''--debug-frames'', decimal 7] False defaultAppConfig
   = parse_args [''--debug-frames'', decimal 7, ''--enable-debug''] False defaultAppConfig"
  by (rule debug_switch_commutes) simp_all

end
