(* ===== verification/Float32.thy ===== *)
theory Float32
  imports Prelude
begin

text \<open>
  The C++ type \<open>float\<close> of the target (IEEE 754 binary32): a 32-bit pattern, with the predicates
  and the arithmetic the source uses (\<open>std::isfinite\<close>, comparison, \<open>*\<close>, \<open>/\<close>, \<open>+\<close>, negation and the
  conversions from a small unsigned integer and to \<open>int\<close>).  Everything computes, so a pose can be evaluated.

  A finite pattern stands for \<open>\<plusminus> m * 2^e\<close> with an integer significand \<open>m\<close>; a product or a sum is
  formed exactly on significands and exponents and then rounded to nearest, ties to even, with
  gradual underflow and overflow to infinity.  Every operation rounds once: a compiler that fuses
  a multiplication with an addition is not modelled.
\<close>

section \<open>Bit patterns\<close>

datatype f32 = F32 (f32_bits: u32)

definition f32_sign :: "f32 \<Rightarrow> bool" where
  "f32_sign x = bit (f32_bits x) 31"

definition f32_exp :: "f32 \<Rightarrow> int" where
  "f32_exp x = uint (take_bit 8 (drop_bit 23 (f32_bits x)))"

definition f32_frac :: "f32 \<Rightarrow> int" where
  "f32_frac x = uint (take_bit 23 (f32_bits x))"

definition f32_mag :: "f32 \<Rightarrow> int" where
  "f32_mag x = uint (take_bit 31 (f32_bits x))"

definition f32_is_nan :: "f32 \<Rightarrow> bool" where
  "f32_is_nan x \<longleftrightarrow> f32_exp x = 255 \<and> f32_frac x \<noteq> 0"

definition f32_is_inf :: "f32 \<Rightarrow> bool" where
  "f32_is_inf x \<longleftrightarrow> f32_exp x = 255 \<and> f32_frac x = 0"

text \<open>\<open>std::isfinite\<close>.\<close>

definition f32_isfinite :: "f32 \<Rightarrow> bool" where
  "f32_isfinite x \<longleftrightarrow> f32_exp x \<noteq> 255"

definition f32_zero :: f32 where "f32_zero = F32 0"
definition f32_one :: f32 where "f32_one = F32 0x3F800000"
definition f32_nan :: f32 where "f32_nan = F32 0x7FC00000"

section \<open>Comparison\<close>

text \<open>
  The magnitude bits order the non-NaN values of one sign; the key of a negative value is the
  negated magnitude, so both zeros have key 0 and compare equal.  A NaN compares false with
  everything, itself included.
\<close>

definition f32_key :: "f32 \<Rightarrow> int" where
  "f32_key x = (if f32_sign x then - f32_mag x else f32_mag x)"

definition f32_eq :: "f32 \<Rightarrow> f32 \<Rightarrow> bool" where
  "f32_eq x y \<longleftrightarrow> \<not> f32_is_nan x \<and> \<not> f32_is_nan y \<and> f32_key x = f32_key y"

definition f32_less :: "f32 \<Rightarrow> f32 \<Rightarrow> bool" where
  "f32_less x y \<longleftrightarrow> \<not> f32_is_nan x \<and> \<not> f32_is_nan y \<and> f32_key x < f32_key y"

definition f32_le :: "f32 \<Rightarrow> f32 \<Rightarrow> bool" where
  "f32_le x y \<longleftrightarrow> \<not> f32_is_nan x \<and> \<not> f32_is_nan y \<and> f32_key x \<le> f32_key y"

lemma f32_eq_refl [simp]: "f32_eq x x \<longleftrightarrow> \<not> f32_is_nan x"
  by (simp add: f32_eq_def)

lemma f32_eq_sym: "f32_eq x y = f32_eq y x"
  by (auto simp: f32_eq_def)

lemma f32_eq_trans: "f32_eq x y \<Longrightarrow> f32_eq y z \<Longrightarrow> f32_eq x z"
  by (auto simp: f32_eq_def)

lemma f32_finite_not_nan: "f32_isfinite x \<Longrightarrow> \<not> f32_is_nan x"
  by (simp add: f32_isfinite_def f32_is_nan_def)

section \<open>Rounding\<close>

function bit_length :: "int \<Rightarrow> int" where
  "bit_length n = (if n \<le> 0 then 0 else 1 + bit_length (n div 2))"
  by pat_completeness auto
termination
  by (relation "measure nat") auto

declare bit_length.simps [simp del]

text \<open>The integer quotient \<open>m / 2^k\<close> rounded to nearest, ties to even.\<close>

definition round_shift :: "int \<Rightarrow> nat \<Rightarrow> int" where
  "round_shift m k =
     (let q = m div 2 ^ k; r = m mod 2 ^ k in
      if 2 * r < 2 ^ k then q
      else if 2 ^ k < 2 * r then q + 1
      else if k = 0 then q
      else if even q then q else q + 1)"

text \<open>
  The pattern with sign \<open>s\<close>, significand \<open>q \<le> 2^24\<close> and exponent \<open>e \<ge> -149\<close>.  A significand that
  rounding carried to \<open>2^24\<close> is the next binade's \<open>2^23\<close>.
\<close>

definition f32_encode :: "bool \<Rightarrow> int \<Rightarrow> int \<Rightarrow> f32" where
  "f32_encode s q e =
     (let (q, e) = (if q = 2 ^ 24 then (2 ^ 23, e + 1) else (q, e));
          sb = (if s then 2 ^ 31 else 0);
          mag = (if q < 2 ^ 23 then q
                 else if 104 < e then 255 * 2 ^ 23
                 else (e + 150) * 2 ^ 23 + (q - 2 ^ 23))
      in F32 (word_of_int (sb + mag)))"

text \<open>The value \<open>\<plusminus> m * 2^e\<close> rounded to binary32.\<close>

definition f32_round :: "bool \<Rightarrow> int \<Rightarrow> int \<Rightarrow> f32" where
  "f32_round s m e =
     (let e' = max (e + bit_length m - 24) (- 149);
          q = (if e' \<le> e then m * 2 ^ nat (e - e') else round_shift m (nat (e' - e)))
      in f32_encode s q e')"

section \<open>Arithmetic\<close>

definition f32_signif :: "f32 \<Rightarrow> int" where
  "f32_signif x = (if f32_exp x = 0 then f32_frac x else 2 ^ 23 + f32_frac x)"

definition f32_lsb :: "f32 \<Rightarrow> int" where
  "f32_lsb x = max (f32_exp x) 1 - 150"

definition f32_inf :: "bool \<Rightarrow> f32" where
  "f32_inf s = F32 (if s then 0xFF800000 else 0x7F800000)"

definition f32_signed_zero :: "bool \<Rightarrow> f32" where
  "f32_signed_zero s = F32 (if s then 0x80000000 else 0)"

definition f32_neg :: "f32 \<Rightarrow> f32" where
  "f32_neg x = F32 (flip_bit 31 (f32_bits x))"

definition f32_mul :: "f32 \<Rightarrow> f32 \<Rightarrow> f32" where
  "f32_mul x y =
     (let s = (f32_sign x \<noteq> f32_sign y) in
      if f32_is_nan x \<or> f32_is_nan y then f32_nan
      else if f32_is_inf x \<or> f32_is_inf y then
        (if f32_mag x = 0 \<or> f32_mag y = 0 then f32_nan else f32_inf s)
      else f32_round s (f32_signif x * f32_signif y) (f32_lsb x + f32_lsb y))"

text \<open>The signed significand of a finite value at the exponent \<open>e \<le> f32_lsb x\<close>.\<close>

definition f32_scaled :: "f32 \<Rightarrow> int \<Rightarrow> int" where
  "f32_scaled x e =
     (if f32_sign x then - 1 else 1) * f32_signif x * 2 ^ nat (f32_lsb x - e)"

definition f32_add :: "f32 \<Rightarrow> f32 \<Rightarrow> f32" where
  "f32_add x y =
     (if f32_is_nan x \<or> f32_is_nan y then f32_nan
      else if f32_is_inf x then
        (if f32_is_inf y \<and> f32_sign x \<noteq> f32_sign y then f32_nan else x)
      else if f32_is_inf y then y
      else
        let e = min (f32_lsb x) (f32_lsb y);
            v = f32_scaled x e + f32_scaled y e
        in if v = 0 then f32_signed_zero (f32_sign x \<and> f32_sign y)
           else f32_round (v < 0) \<bar>v\<bar> e)"

text \<open>\<open>static_cast<float>\<close> of an unsigned integer.\<close>

definition f32_of_uint :: "int \<Rightarrow> f32" where
  "f32_of_uint n = f32_round False n 0"

lemma f32_mul_comm: "f32_mul x y = f32_mul y x"
proof -
  have s: "(f32_sign x \<noteq> f32_sign y) = (f32_sign y \<noteq> f32_sign x)" by auto
  have m: "f32_signif x * f32_signif y = f32_signif y * f32_signif x" by simp
  have e: "f32_lsb x + f32_lsb y = f32_lsb y + f32_lsb x" by simp
  show ?thesis unfolding f32_mul_def Let_def s m e by auto
qed

lemma f32_add_comm: "\<not> (f32_is_inf x \<and> f32_is_inf y) \<Longrightarrow> f32_add x y = f32_add y x"
  by (simp add: f32_add_def Let_def add.commute min.commute conj_commute disj_commute)

section \<open>Division and conversion to an integer\<close>

text \<open>
  The quotient is formed with 60 extra bits and a last bit that tells whether a remainder is left, so
  that rounding it is rounding the exact quotient.
\<close>

definition f32_div :: "f32 \<Rightarrow> f32 \<Rightarrow> f32" where
  "f32_div x y =
     (let s = (f32_sign x \<noteq> f32_sign y) in
      if f32_is_nan x \<or> f32_is_nan y then f32_nan
      else if f32_is_inf x then (if f32_is_inf y then f32_nan else f32_inf s)
      else if f32_is_inf y then f32_signed_zero s
      else if f32_mag y = 0 then (if f32_mag x = 0 then f32_nan else f32_inf s)
      else
        let n = f32_signif x * 2 ^ 60;
            q = 2 * (n div f32_signif y) + (if n mod f32_signif y = 0 then 0 else 1)
        in f32_round s q (f32_lsb x - f32_lsb y - 61))"

text \<open>\<open>static_cast<int>\<close>, which truncates; \<open>None\<close> where the result is no \<open>int\<close>.\<close>

definition f32_to_int :: "f32 \<Rightarrow> int option" where
  "f32_to_int x =
     (if \<not> f32_isfinite x then None
      else
        let m = (if 0 \<le> f32_lsb x then f32_signif x * 2 ^ nat (f32_lsb x)
                 else f32_signif x div 2 ^ nat (- f32_lsb x))
        in checked_i32 (if f32_sign x then - m else m))"

lemma f32_examples:
  "f32_div (F32 0x40400000) (F32 0x40000000) = F32 0x3FC00000"
  "f32_div f32_one (F32 0x40400000) = F32 0x3EAAAAAB"
  "f32_div (F32 1) (F32 0x40000000) = F32 0"
  "f32_to_int (F32 0xC0200000) = Some (- 2)" "f32_to_int (F32 0x44A00000) = Some 1280"
  "f32_to_int (F32 0x4F000000) = None"
  by code_simp+

section \<open>Multiplication by minus one\<close>

definition f32_minus_one :: f32 where "f32_minus_one = F32 0xBF800000"

lemma bit_length_rec: "0 < n \<Longrightarrow> bit_length n = 1 + bit_length (n div 2)"
  by (subst bit_length.simps) simp

lemma bit_length_nonneg: "0 \<le> bit_length n"
proof (induction n rule: bit_length.induct)
  case (1 n)
  show ?case
  proof (cases "0 < n")
    case True
    then show ?thesis using 1 bit_length_rec [OF True] by simp
  next
    case False
    then show ?thesis by (subst bit_length.simps) simp
  qed
qed

lemma bit_length_double: "0 < n \<Longrightarrow> bit_length (n * 2 ^ k) = bit_length n + int k"
proof (induction k)
  case (Suc k)
  have "bit_length (n * 2 ^ Suc k) = 1 + bit_length (n * 2 ^ Suc k div 2)"
    using Suc.prems by (intro bit_length_rec) simp
  also have "n * 2 ^ Suc k div 2 = n * 2 ^ k" by simp
  finally show ?case using Suc by simp
qed simp

lemma bit_length_le: "n < 2 ^ k \<Longrightarrow> bit_length n \<le> int k"
proof (induction k arbitrary: n)
  case 0
  then show ?case by (subst bit_length.simps) simp
next
  case (Suc k)
  have "n div 2 < 2 ^ k" using Suc.prems by simp
  from Suc.IH [OF this] show ?case by (subst bit_length.simps) simp
qed

lemma bit_length_ge: "2 ^ k \<le> n \<Longrightarrow> int k < bit_length n"
proof (induction k arbitrary: n)
  case 0
  then show ?case using bit_length_nonneg [of "n div 2"] by (simp add: bit_length_rec)
next
  case (Suc k)
  have "0 < n" using Suc.prems by (auto intro: less_le_trans [of 0 "2 ^ Suc k"])
  moreover have "2 ^ k \<le> n div 2" using Suc.prems by simp
  ultimately show ?case using Suc.IH [of "n div 2"] by (simp add: bit_length_rec)
qed

lemma f32_sign_uint: "f32_sign x = bit (uint (f32_bits x)) 31"
  by (simp add: f32_sign_def bit_uint_iff)

lemma f32_fields:
  "0 \<le> f32_frac x" "f32_frac x < 2 ^ 23" "0 \<le> f32_exp x" "f32_exp x < 256"
  "f32_mag x = f32_exp x * 2 ^ 23 + f32_frac x"
  "uint (f32_bits x) = (if f32_sign x then 2 ^ 31 else 0) + f32_mag x"
proof -
  let ?u = "uint (f32_bits x)"
  have lt: "0 \<le> ?u" "?u < 2 ^ 32" using uint_bounded [of "f32_bits x"] by simp_all
  have frac: "f32_frac x = ?u mod 2 ^ 23" and e: "f32_exp x = (?u div 2 ^ 23) mod 2 ^ 8"
    and mag: "f32_mag x = ?u mod 2 ^ 31"
    by (simp_all only: f32_frac_def f32_exp_def f32_mag_def unsigned_take_bit_eq unsigned_drop_bit_eq)
      (use lt in \<open>simp_all add: take_bit_eq_mod drop_bit_eq_div\<close>)
  have "?u div 2 ^ 31 = 0 \<or> ?u div 2 ^ 31 = 1"
  proof (cases "2 ^ 31 \<le> ?u")
    case True
    then show ?thesis using lt by (intro disjI2 int_div_pos_eq [where r = "?u - 2 ^ 31"]) auto
  next
    case False
    then show ?thesis using lt by (intro disjI1 div_pos_pos_trivial) auto
  qed
  moreover have "f32_sign x \<longleftrightarrow> odd (?u div 2 ^ 31)" by (simp only: f32_sign_uint bit_iff_odd)
  ultimately have top: "?u div 2 ^ 31 = (if f32_sign x then 1 else 0)" by auto
  show "0 \<le> f32_frac x" "f32_frac x < 2 ^ 23" "0 \<le> f32_exp x" "f32_exp x < 256" by (simp_all add: frac e)
  show "f32_mag x = f32_exp x * 2 ^ 23 + f32_frac x"
    using zmod_zmult2_eq [of "2 ^ 8" ?u "2 ^ 23"] by (simp add: mag e frac)
  show "?u = (if f32_sign x then 2 ^ 31 else 0) + f32_mag x"
    using div_mult_mod_eq [of ?u "2 ^ 31", symmetric] unfolding top mag by (cases "f32_sign x") simp_all
qed

lemma uint_flip_sign:
  "uint (flip_bit 31 (f32_bits x)) = uint (f32_bits x) + (if f32_sign x then - (2 ^ 31) else 2 ^ 31)"
proof -
  let ?u = "uint (f32_bits x)"
  have lt: "0 \<le> ?u" "?u < 2 ^ 32" using uint_bounded [of "f32_bits x"] by simp_all
  have "uint (flip_bit 31 (f32_bits x)) = take_bit 32 (flip_bit 31 ?u)"
    by (rule bit_eqI) (auto simp: bit_unsigned_iff bit_flip_bit_iff Bit_Operations.bit_flip_bit_iff
        bit_take_bit_iff possible_bit_def dest: bit_imp_le_length)
  also have "flip_bit 31 ?u = ?u + (if f32_sign x then - (2 ^ 31) else 2 ^ 31)"
    by (simp add: flip_bit_eq_if set_bit_eq unset_bit_eq f32_sign_uint)
  also have "take_bit 32 \<dots> = \<dots>"
    using lt f32_fields [of x] by (intro take_bit_int_eq_self) (auto split: if_splits)
  finally show ?thesis .
qed

text \<open>The product is exact: it flips the sign.\<close>

lemma f32_mul_minus_one:
  assumes "f32_isfinite x"
  shows "f32_mul x f32_minus_one = f32_neg x"
proof -
  have one: "f32_signif f32_minus_one = 2 ^ 23" "f32_lsb f32_minus_one = - 23" "f32_sign f32_minus_one"
    "\<not> f32_is_nan f32_minus_one" "\<not> f32_is_inf f32_minus_one"
    by code_simp+
  note fields = f32_fields [of x]
  let ?m = "f32_signif x" and ?l = "f32_lsb x"
  have m: "0 \<le> ?m" "?m < 2 ^ 24" using fields by (auto simp: f32_signif_def)
  have l: "- 149 \<le> ?l" "?l \<le> 104" using fields assms by (auto simp: f32_lsb_def f32_isfinite_def)
  have mag: "f32_mag x = (if ?m < 2 ^ 23 then ?m else (?l + 150) * 2 ^ 23 + (?m - 2 ^ 23))"
    using fields by (auto simp: f32_signif_def f32_lsb_def)
  have e': "max (?l - 23 + bit_length (?m * 2 ^ 23) - 24) (- 149) = ?l"
  proof (cases "f32_exp x = 0")
    case True
    then have "?l = - 149" "?m < 2 ^ 23" using fields by (simp_all add: f32_lsb_def f32_signif_def)
    moreover have "bit_length (?m * 2 ^ 23) \<le> 46" using bit_length_le [of "?m * 2 ^ 23" 46] \<open>?m < 2 ^ 23\<close> by simp
    ultimately show ?thesis by simp
  next
    case False
    then have "2 ^ 23 \<le> ?m" using fields by (simp add: f32_signif_def)
    then have "int 46 < bit_length (?m * 2 ^ 23)" "bit_length (?m * 2 ^ 23) \<le> int 47"
      using m by (intro bit_length_ge bit_length_le; simp)+
    then show ?thesis using l by simp
  qed
  have q: "round_shift (?m * 2 ^ 23) 23 = ?m" by (simp add: round_shift_def Let_def)
  have "f32_mul x f32_minus_one = f32_encode (\<not> f32_sign x) ?m ?l"
    using assms one e' q
    by (simp add: f32_mul_def f32_round_def Let_def f32_finite_not_nan f32_is_inf_def f32_isfinite_def
        f32_is_nan_def)
  also have "\<dots> = F32 (word_of_int ((if f32_sign x then 0 else 2 ^ 31) + f32_mag x))"
    using m l by (simp add: f32_encode_def mag)
  also have "\<dots> = f32_neg x"
  proof -
    have "uint (flip_bit 31 (f32_bits x)) = (if f32_sign x then 0 else 2 ^ 31) + f32_mag x"
      using fields(6) uint_bounded [of "f32_bits x"] by (simp add: uint_flip_sign)
    then show ?thesis unfolding f32_neg_def by (metis word_of_int_uint)
  qed
  finally show ?thesis .
qed

lemma f32_neg_neg [simp]: "f32_neg (f32_neg x) = x"
proof (cases x)
  case (F32 w)
  have "flip_bit 31 (flip_bit 31 w) = w" by (rule bit_word_eqI) (auto simp: bit_flip_bit_iff)
  then show ?thesis by (simp add: F32 f32_neg_def)
qed

lemma f32_neg_finite [simp]: "f32_isfinite (f32_neg x) = f32_isfinite x"
proof -
  have "take_bit 8 (drop_bit 23 (flip_bit 31 w)) = take_bit 8 (drop_bit 23 w)" for w :: u32
    by (rule bit_word_eqI) (auto simp: bit_take_bit_iff bit_drop_bit_eq bit_flip_bit_iff)
  then show ?thesis by (simp add: f32_isfinite_def f32_exp_def f32_neg_def)
qed

end
