(* ===== verification/FrameTypes.thy ===== *)
theory FrameTypes
  imports Config Float32
begin

text \<open>
  The value types of the frame model (\<open>src/model/include/model/frame/types\<close>): identities,
  buffers, images, frames, submission results and lifecycles, with the textual names of the two
  enumerations.

  A \<open>FrameBuffer\<close> points into memory owned by a shared owner.  The model keeps the bytes readable
  from \<open>data\<close> (\<open>None\<close> for a null pointer), the byte count the buffer claims, and whether an owner
  is held; the bytes behind a buffer never change, so copies of a buffer are equal values.
\<close>

type_synonym FrameId = u64

section \<open>Timestamps\<close>

datatype FrameTimestamp = FrameTimestamp (ticks: int)

text \<open>Timestamps are compared by their ticks.\<close>

instantiation FrameTimestamp :: linorder
begin

definition less_eq_FrameTimestamp :: "FrameTimestamp \<Rightarrow> FrameTimestamp \<Rightarrow> bool" where
  "less_eq_FrameTimestamp a b \<longleftrightarrow> ticks a \<le> ticks b"

definition less_FrameTimestamp :: "FrameTimestamp \<Rightarrow> FrameTimestamp \<Rightarrow> bool" where
  "less_FrameTimestamp a b \<longleftrightarrow> ticks a < ticks b"

instance
  by standard (auto simp: less_eq_FrameTimestamp_def less_FrameTimestamp_def
      intro: FrameTimestamp.expand)

end

lemma not_less_eq_ticks: "\<not> ticks a \<le> ticks b \<longleftrightarrow> b < a"
  by (auto simp: less_FrameTimestamp_def)

section \<open>Images\<close>

record FrameBuffer =
  bufData :: "u8 list option"
  bufByteCount :: nat
  bufOwner :: bool

definition FrameBuffer_empty :: "FrameBuffer \<Rightarrow> bool" where
  "FrameBuffer_empty b \<longleftrightarrow> bufData b = None \<or> bufByteCount b = 0 \<or> \<not> bufOwner b"

definition emptyBuffer :: FrameBuffer where
  "emptyBuffer = \<lparr>bufData = None, bufByteCount = 0, bufOwner = False\<rparr>"

text \<open>The buffer claims no more bytes than the memory behind its pointer has.\<close>

definition buffer_honest :: "FrameBuffer \<Rightarrow> bool" where
  "buffer_honest b \<longleftrightarrow> (\<forall>bytes. bufData b = Some bytes \<longrightarrow> bufByteCount b \<le> length bytes)"

lemma buffer_honest_code [code]:
  "buffer_honest b = (case bufData b of None \<Rightarrow> True | Some bytes \<Rightarrow> bufByteCount b \<le> length bytes)"
  by (auto simp: buffer_honest_def split: option.split)

record FrameImage =
  fimgSize :: ImageSize
  fimgStrideBytes :: int
  fimgBuffer :: FrameBuffer

record CameraIntrinsics =
  intrFx :: f32
  intrFy :: f32
  intrCx :: f32
  intrCy :: f32

record Frame =
  frameId :: FrameId
  frameTimestamp :: FrameTimestamp
  frameRgb :: FrameImage
  frameDepth :: FrameImage
  frameIntrinsics :: CameraIntrinsics

section \<open>Submissions\<close>

datatype FrameSubmissionCode =
  Accepted | InvalidFrameId | InvalidTimestamp | FrameIdNotNewer | TimestampNotNewer
  | MissingRgbBuffer | MissingDepthBuffer | InvalidRgbDimensions | InvalidDepthDimensions
  | InvalidIntrinsics | ReadyFrameQueueFull | HistoryFull

record FrameSubmissionResult =
  subCode :: FrameSubmissionCode
  subFrameId :: FrameId
  subMessage :: string

definition accepted :: "FrameSubmissionResult \<Rightarrow> bool" where
  "accepted r \<longleftrightarrow> subCode r = Accepted"

definition makeResult :: "FrameSubmissionCode \<Rightarrow> FrameId \<Rightarrow> string \<Rightarrow> FrameSubmissionResult" where
  "makeResult code fid msg = \<lparr>subCode = code, subFrameId = fid, subMessage = msg\<rparr>"

lemma makeResult_simps [simp]:
  "subCode (makeResult c i m) = c" "subFrameId (makeResult c i m) = i"
  "subMessage (makeResult c i m) = m" "accepted (makeResult c i m) \<longleftrightarrow> c = Accepted"
  by (simp_all add: makeResult_def accepted_def)

fun frameSubmissionCodeToString :: "FrameSubmissionCode \<Rightarrow> string" where
  "frameSubmissionCodeToString Accepted = ''accepted''"
| "frameSubmissionCodeToString InvalidFrameId = ''invalid_frame_id''"
| "frameSubmissionCodeToString InvalidTimestamp = ''invalid_timestamp''"
| "frameSubmissionCodeToString FrameIdNotNewer = ''frame_id_not_newer''"
| "frameSubmissionCodeToString TimestampNotNewer = ''timestamp_not_newer''"
| "frameSubmissionCodeToString MissingRgbBuffer = ''missing_rgb_buffer''"
| "frameSubmissionCodeToString MissingDepthBuffer = ''missing_depth_buffer''"
| "frameSubmissionCodeToString InvalidRgbDimensions = ''invalid_rgb_dimensions''"
| "frameSubmissionCodeToString InvalidDepthDimensions = ''invalid_depth_dimensions''"
| "frameSubmissionCodeToString InvalidIntrinsics = ''invalid_intrinsics''"
| "frameSubmissionCodeToString ReadyFrameQueueFull = ''ready_frame_queue_full''"
| "frameSubmissionCodeToString HistoryFull = ''history_full''"

section \<open>Lifecycles\<close>

datatype FrameLifecycleState =
  Captured | Stored | ReadyForConsumer | DispatchedToConsumer | Consumed | Dropped | Invalid
  | Failed

record FrameLifecycle =
  lcFrameId :: FrameId
  lcState :: FrameLifecycleState
  lcCaptured :: bool
  lcStored :: bool
  lcReadyForConsumer :: bool
  lcDispatchedToConsumer :: bool
  lcConsumed :: bool
  lcDropped :: bool
  lcInvalid :: bool
  lcFailed :: bool

text \<open>The default-initialised lifecycle.\<close>

definition emptyLifecycle :: FrameLifecycle where
  "emptyLifecycle =
     \<lparr>lcFrameId = 0, lcState = Captured, lcCaptured = False, lcStored = False,
      lcReadyForConsumer = False, lcDispatchedToConsumer = False, lcConsumed = False,
      lcDropped = False, lcInvalid = False, lcFailed = False\<rparr>"

fun frameLifecycleStateToString :: "FrameLifecycleState \<Rightarrow> string" where
  "frameLifecycleStateToString Captured = ''captured''"
| "frameLifecycleStateToString Stored = ''stored''"
| "frameLifecycleStateToString ReadyForConsumer = ''ready_for_consumer''"
| "frameLifecycleStateToString DispatchedToConsumer = ''dispatched_to_consumer''"
| "frameLifecycleStateToString Consumed = ''consumed''"
| "frameLifecycleStateToString Dropped = ''dropped''"
| "frameLifecycleStateToString Invalid = ''invalid''"
| "frameLifecycleStateToString Failed = ''failed''"

section \<open>Store configuration and status\<close>

record FrameStoreConfig =
  maxStoredFrames :: nat
  maxReadyFrames :: nat

definition defaultFrameStoreConfig :: FrameStoreConfig where
  "defaultFrameStoreConfig = \<lparr>maxStoredFrames = 120, maxReadyFrames = 120\<rparr>"

record FrameStoreStatus =
  stStoredFrameCount :: nat
  stMaxStoredFrames :: nat
  stReadyFrameCount :: nat
  stMaxReadyFrames :: nat
  stAcceptedFrameCount :: u64
  stRejectedFrameCount :: u64
  stDroppedFrameCount :: u64
  stEvictedFrameCount :: u64
  stLatestFrameId :: "FrameId option"
  stLatestTimestamp :: "FrameTimestamp option"
  stLastSubmissionCode :: FrameSubmissionCode
  stLastError :: string
  stLifecycles :: "FrameId \<rightharpoonup> FrameLifecycle"

end
