(* ===== verification/FrameValidator.thy ===== *)
theory FrameValidator
  imports FrameTypes
begin

text \<open>
  \<open>FrameValidator::validate\<close> of \<open>src/model/src/frame/utils/FrameValidator.cpp\<close>: the checks a
  frame passes before the store accepts it, in the code's order, and what acceptance guarantees
  to the readers of the frame's buffers.
\<close>

section \<open>Predicates\<close>

definition kMaxSaneImageDimension :: int where
  "kMaxSaneImageDimension = 16384"

definition isValidSize :: "ImageSize \<Rightarrow> bool" where
  "isValidSize s \<longleftrightarrow>
     imgWidth s > 0 \<and> imgHeight s > 0 \<and> imgWidth s \<le> kMaxSaneImageDimension
     \<and> imgHeight s \<le> kMaxSaneImageDimension"

definition isValidTimestamp :: "FrameTimestamp \<Rightarrow> bool" where
  "isValidTimestamp t \<longleftrightarrow> ticks t > 0"

text \<open>The byte requirement is a product of two \<open>std::uint64_t\<close> casts.\<close>

definition hasSaneImageBytes :: "FrameImage \<Rightarrow> bool" where
  "hasSaneImageBytes im \<longleftrightarrow>
     (if \<not> isValidSize (fimgSize im) \<or> fimgStrideBytes im \<le> 0
         \<or> FrameBuffer_empty (fimgBuffer im) then False
      else if fimgStrideBytes im < imgWidth (fimgSize im) then False
      else unat (word_of_int (fimgStrideBytes im) * word_of_int (imgHeight (fimgSize im)) :: u64)
             \<le> bufByteCount (fimgBuffer im))"

definition isValidIntrinsics :: "CameraIntrinsics \<Rightarrow> bool" where
  "isValidIntrinsics i \<longleftrightarrow>
     f32_isfinite (intrFx i) \<and> f32_isfinite (intrFy i)
     \<and> f32_isfinite (intrCx i) \<and> f32_isfinite (intrCy i)
     \<and> f32_less f32_zero (intrFx i) \<and> f32_less f32_zero (intrFy i)
     \<and> f32_le f32_zero (intrCx i) \<and> f32_le f32_zero (intrCy i)"

section \<open>Validation\<close>

record FrameValidationContext =
  ctxLatestFrameId :: "FrameId option"
  ctxLatestTimestamp :: "FrameTimestamp option"
  ctxHistoryFull :: bool
  ctxHasEvictableFrame :: bool

definition validate :: "Frame \<Rightarrow> FrameValidationContext \<Rightarrow> FrameSubmissionResult" where
  "validate f ctx =
     (if frameId f = 0 then
        makeResult InvalidFrameId (frameId f) ''Frame id must be non-zero''
      else if \<not> isValidTimestamp (frameTimestamp f) then
        makeResult InvalidTimestamp (frameId f) ''Frame timestamp must be positive''
      else if (case ctxLatestFrameId ctx of None \<Rightarrow> False | Some l \<Rightarrow> frameId f \<le> l) then
        makeResult FrameIdNotNewer (frameId f)
          ''Frame id is not newer than the latest accepted frame''
      else if (case ctxLatestTimestamp ctx of None \<Rightarrow> False
               | Some l \<Rightarrow> ticks (frameTimestamp f) \<le> ticks l) then
        makeResult TimestampNotNewer (frameId f)
          ''Frame timestamp is not newer than the latest accepted frame''
      else if FrameBuffer_empty (fimgBuffer (frameRgb f)) then
        makeResult MissingRgbBuffer (frameId f) ''Frame RGB buffer is missing''
      else if FrameBuffer_empty (fimgBuffer (frameDepth f)) then
        makeResult MissingDepthBuffer (frameId f) ''Frame depth buffer is missing''
      else if \<not> hasSaneImageBytes (frameRgb f) then
        makeResult InvalidRgbDimensions (frameId f)
          ''Frame RGB dimensions, stride, or byte count are invalid''
      else if \<not> hasSaneImageBytes (frameDepth f) then
        makeResult InvalidDepthDimensions (frameId f)
          ''Frame depth dimensions, stride, or byte count are invalid''
      else if \<not> isValidIntrinsics (frameIntrinsics f) then
        makeResult InvalidIntrinsics (frameId f) ''Frame camera intrinsics are invalid''
      else if ctxHistoryFull ctx \<and> \<not> ctxHasEvictableFrame ctx then
        makeResult HistoryFull (frameId f)
          ''Frame history is full and no stored frame can be evicted''
      else makeResult Accepted (frameId f) ''Frame accepted'')"

text \<open>What acceptance means: every guard passed.\<close>

definition frame_admissible :: "Frame \<Rightarrow> FrameValidationContext \<Rightarrow> bool" where
  "frame_admissible f ctx \<longleftrightarrow>
     frameId f \<noteq> 0 \<and> 0 < ticks (frameTimestamp f)
     \<and> (\<forall>l. ctxLatestFrameId ctx = Some l \<longrightarrow> l < frameId f)
     \<and> (\<forall>l. ctxLatestTimestamp ctx = Some l \<longrightarrow> l < frameTimestamp f)
     \<and> hasSaneImageBytes (frameRgb f) \<and> hasSaneImageBytes (frameDepth f)
     \<and> isValidIntrinsics (frameIntrinsics f)
     \<and> (ctxHistoryFull ctx \<longrightarrow> ctxHasEvictableFrame ctx)"

lemma hasSaneImageBytes_not_empty: "hasSaneImageBytes im \<Longrightarrow> \<not> FrameBuffer_empty (fimgBuffer im)"
  by (auto simp: hasSaneImageBytes_def split: if_splits)

lemma validate_accepted_iff: "accepted (validate f ctx) \<longleftrightarrow> frame_admissible f ctx"
  by (auto simp: validate_def frame_admissible_def isValidTimestamp_def
      less_FrameTimestamp_def not_le
      dest: hasSaneImageBytes_not_empty split: option.splits)

lemma validate_frameId [simp]: "subFrameId (validate f ctx) = frameId f"
  by (simp add: validate_def)

lemma validate_message_nonempty: "subMessage (validate f ctx) \<noteq> []"
  by (simp add: validate_def)

lemma validate_never_queue_full: "subCode (validate f ctx) \<noteq> ReadyFrameQueueFull"
  by (simp add: validate_def)

section \<open>Memory safety of accepted images\<close>

lemma hasSaneImageBytes_shape:
  assumes "hasSaneImageBytes im"
  shows "0 < imgWidth (fimgSize im)" "imgWidth (fimgSize im) \<le> 16384"
    "0 < imgHeight (fimgSize im)" "imgHeight (fimgSize im) \<le> 16384"
    "imgWidth (fimgSize im) \<le> fimgStrideBytes im" "0 < fimgStrideBytes im"
  using assms
  by (auto simp: hasSaneImageBytes_def isValidSize_def kMaxSaneImageDimension_def split: if_splits)

lemma hasSaneImageBytes_bytes:
  assumes "hasSaneImageBytes im" "i32_range (fimgStrideBytes im)"
  shows "nat (fimgStrideBytes im) * nat (imgHeight (fimgSize im)) \<le> bufByteCount (fimgBuffer im)"
proof -
  note shape = hasSaneImageBytes_shape [OF assms(1)]
  have "fimgStrideBytes im * imgHeight (fimgSize im) \<le> 2 ^ 31 * 16384"
    using shape assms(2) by (intro mult_mono) (simp_all add: i32_range_def)
  then have "unat (word_of_int (fimgStrideBytes im) * word_of_int (imgHeight (fimgSize im)) :: u64)
      = nat (fimgStrideBytes im) * nat (imgHeight (fimgSize im))"
    using shape by (intro unat_u64_mult_of_int) simp_all
  then show ?thesis
    using assms(1) by (auto simp: hasSaneImageBytes_def split: if_splits)
qed

text \<open>Every byte of every row, padding included, lies inside the memory behind the buffer.\<close>

lemma hasSaneImageBytes_in_bounds:
  assumes "hasSaneImageBytes im" "i32_range (fimgStrideBytes im)"
    and "buffer_honest (fimgBuffer im)" "bufData (fimgBuffer im) = Some bytes"
    and "row < nat (imgHeight (fimgSize im))" "col < nat (fimgStrideBytes im)"
  shows "row * nat (fimgStrideBytes im) + col < length bytes"
proof -
  let ?s = "nat (fimgStrideBytes im)" and ?h = "nat (imgHeight (fimgSize im))"
  have "row * ?s + col < Suc row * ?s" using assms(6) by simp
  also have "\<dots> \<le> ?h * ?s" using assms(5) by (intro mult_le_mono1) simp
  also have "\<dots> \<le> length bytes"
    using hasSaneImageBytes_bytes [OF assms(1,2)] assms(3,4)
    by (simp add: buffer_honest_def mult.commute)
  finally show ?thesis .
qed

end
