(* ===== verification/KeyedHistory.thy ===== *)
theory KeyedHistory
  imports Prelude
begin

text \<open>
  The interface that the frame history and the scene version history share: an insertion-ordered
  sequence of entries with an index by key and a separate \<open>latest\<close> entry.  \<open>invar\<close> holds while
  the keys are distinct and the index agrees with the sequence.  Both stores are clients: they
  rely on these laws only.  \<open>ordered_history\<close> extends the interface for stores whose keys grow.
\<close>

locale keyed_history =
  fixes key :: "'e \<Rightarrow> 'k"
    and add :: "'e \<Rightarrow> 'h \<Rightarrow> 'h"
    and remove :: "'k \<Rightarrow> 'h \<Rightarrow> 'h"
    and lookup :: "'h \<Rightarrow> 'k \<Rightarrow> 'e option"
    and latest :: "'h \<Rightarrow> 'e option"
    and entries :: "'h \<Rightarrow> 'e list"
    and invar :: "'h \<Rightarrow> bool"
  assumes invar_add: "invar h \<Longrightarrow> key e \<notin> key ` set (entries h) \<Longrightarrow> invar (add e h)"
    and invar_remove: "invar h \<Longrightarrow> invar (remove k h)"
    and distinct_keys: "invar h \<Longrightarrow> distinct (map key (entries h))"
    and entries_add: "entries (add e h) = entries h @ [e]"
    and entries_remove:
      "invar h \<Longrightarrow> entries (remove k h) = filter (\<lambda>e. key e \<noteq> k) (entries h)"
    and lookup_find: "invar h \<Longrightarrow> lookup h k = List.find (\<lambda>e. key e = k) (entries h)"
    and latest_add: "latest (add e h) = Some e"
    and latest_remove: "latest (remove k h) = latest h"
begin

lemma lookup_Some_iff: "invar h \<Longrightarrow> lookup h k = Some e \<longleftrightarrow> e \<in> set (entries h) \<and> key e = k"
proof
  assume "invar h" "lookup h k = Some e"
  then show "e \<in> set (entries h) \<and> key e = k"
    by (auto simp: lookup_find dest: find_key_SomeD)
next
  assume h: "invar h" and e: "e \<in> set (entries h) \<and> key e = k"
  then obtain e' where e': "lookup h k = Some e'"
    by (cases "lookup h k") (auto simp: lookup_find find_key_None_iff)
  then have "e' \<in> set (entries h)" "key e' = k"
    using h by (auto simp: lookup_find dest: find_key_SomeD)
  with e distinct_keys [OF h] have "e' = e"
    by (auto simp: distinct_map inj_on_def)
  with e' show "lookup h k = Some e" by simp
qed

lemma lookup_None_iff: "invar h \<Longrightarrow> lookup h k = None \<longleftrightarrow> k \<notin> key ` set (entries h)"
  by (simp add: lookup_find find_key_None_iff)

lemma lookup_add:
  assumes "invar h" "key e \<notin> key ` set (entries h)"
  shows "lookup (add e h) k = (if k = key e then Some e else lookup h k)"
  using assms invar_add [OF assms] by (simp add: lookup_find entries_add find_key_snoc)

lemma lookup_remove:
  assumes "invar h"
  shows "lookup (remove k h) k' = (if k' = k then None else lookup h k')"
  using assms invar_remove [OF assms, of k]
  by (simp add: lookup_find entries_remove find_key_filter)

lemma length_remove:
  assumes "invar h" "e \<in> set (entries h)"
  shows "Suc (length (entries (remove (key e) h))) = length (entries h)"
  using assms length_filter_unique [OF distinct_keys [OF assms(1)] assms(2)]
  by (simp add: entries_remove)

lemma set_remove: "invar h \<Longrightarrow> set (entries (remove k h)) = {e \<in> set (entries h). key e \<noteq> k}"
  by (simp add: entries_remove)

text \<open>Removing the front entry of a non-empty history drops exactly the front.\<close>

lemma remove_front:
  assumes "invar h" "entries h = e # es"
  shows "entries (remove (key e) h) = es"
proof -
  have "key e \<notin> key ` set es" using distinct_keys [OF assms(1)] assms(2) by simp
  then have "filter (\<lambda>x. key x \<noteq> key e) es = es" by (rule filter_key_neq)
  with assms show ?thesis by (simp add: entries_remove)
qed

end

locale ordered_history = keyed_history key add remove lookup latest entries invar
  for key :: "'e \<Rightarrow> 'k::linorder"
    and add :: "'e \<Rightarrow> 'h \<Rightarrow> 'h"
    and remove :: "'k \<Rightarrow> 'h \<Rightarrow> 'h"
    and lookup :: "'h \<Rightarrow> 'k \<Rightarrow> 'e option"
    and latest :: "'h \<Rightarrow> 'e option"
    and entries :: "'h \<Rightarrow> 'e list"
    and invar :: "'h \<Rightarrow> bool" +
  fixes sorted_keys :: "'h \<Rightarrow> bool"
  assumes sorted_keys_iff: "sorted_keys h \<longleftrightarrow> sorted_wrt (<) (map key (entries h))"
begin

lemma sorted_add:
  assumes "sorted_keys h" "\<And>x. x \<in> set (entries h) \<Longrightarrow> key x < key e"
  shows "sorted_keys (add e h)" and "key e \<notin> key ` set (entries h)"
  using assms by (force simp: sorted_keys_iff entries_add sorted_wrt_append)+

lemma sorted_remove: "invar h \<Longrightarrow> sorted_keys h \<Longrightarrow> sorted_keys (remove k h)"
  by (simp add: sorted_keys_iff entries_remove sorted_wrt_map sorted_wrt_filter)

lemma sorted_max:
  assumes "sorted_keys h" "entries h \<noteq> []" "x \<in> set (entries h)"
  shows "key x \<le> key (last (entries h))"
proof -
  have "entries h = butlast (entries h) @ [last (entries h)]" using assms(2) by simp
  then have s: "sorted_wrt (<) (map key (butlast (entries h) @ [last (entries h)]))"
    using assms(1) by (simp add: sorted_keys_iff)
  have "x \<in> set (butlast (entries h)) \<or> x = last (entries h)"
    using assms(3) \<open>entries h = _\<close> by (metis Un_iff empty_iff insert_iff list.set set_append)
  then show ?thesis
    using s by (auto simp: sorted_wrt_append intro: less_imp_le)
qed

end

end
