(* ===== verification/FrameHistory.thy ===== *)
theory FrameHistory
  imports FrameTypes KeyedHistory
begin

text \<open>
  \<open>FrameHistory\<close> of \<open>src/model/src/frame/state/FrameHistory.cpp\<close>: the deque of stored frames, the
  map from ids to frames and the latest accepted frame, which survives the removal of its entry.
\<close>

record FrameHistory =
  hLatestFrame :: "Frame option"
  hHistory :: "Frame list"
  hFramesById :: "FrameId \<rightharpoonup> Frame"

definition FrameHistory_init :: FrameHistory where
  "FrameHistory_init = \<lparr>hLatestFrame = None, hHistory = [], hFramesById = Map.empty\<rparr>"

definition FrameHistory_add :: "Frame \<Rightarrow> FrameHistory \<Rightarrow> FrameHistory" where
  "FrameHistory_add f h =
     h\<lparr>hHistory := hHistory h @ [f],
       hFramesById := (hFramesById h)(frameId f \<mapsto> f),
       hLatestFrame := Some f\<rparr>"

text \<open>\<open>std::find_if\<close> followed by \<open>erase\<close>: the first entry with the id goes, if there is one.\<close>

fun eraseFirstFrame :: "FrameId \<Rightarrow> Frame list \<Rightarrow> Frame list" where
  "eraseFirstFrame i [] = []"
| "eraseFirstFrame i (f # fs) = (if frameId f = i then fs else f # eraseFirstFrame i fs)"

definition FrameHistory_remove :: "FrameId \<Rightarrow> FrameHistory \<Rightarrow> FrameHistory" where
  "FrameHistory_remove i h =
     h\<lparr>hHistory := eraseFirstFrame i (hHistory h), hFramesById := (hFramesById h)(i := None)\<rparr>"

definition FrameHistory_latest :: "FrameHistory \<Rightarrow> Frame option" where
  "FrameHistory_latest h = hLatestFrame h"

definition FrameHistory_get :: "FrameHistory \<Rightarrow> FrameId \<Rightarrow> Frame option" where
  "FrameHistory_get h i = hFramesById h i"

text \<open>The index loop from \<open>start\<close> to the end of the deque.\<close>

definition FrameHistory_recent :: "FrameHistory \<Rightarrow> nat \<Rightarrow> Frame list" where
  "FrameHistory_recent h count =
     (let clampedCount = min count (length (hHistory h));
          start = length (hHistory h) - clampedCount
      in map (\<lambda>index. hHistory h ! index) [start..<length (hHistory h)])"

definition FrameHistory_size :: "FrameHistory \<Rightarrow> nat" where
  "FrameHistory_size h = length (hHistory h)"

definition FrameHistory_latestFrameId :: "FrameHistory \<Rightarrow> FrameId option" where
  "FrameHistory_latestFrameId h = map_option frameId (hLatestFrame h)"

definition FrameHistory_latestTimestamp :: "FrameHistory \<Rightarrow> FrameTimestamp option" where
  "FrameHistory_latestTimestamp h = map_option frameTimestamp (hLatestFrame h)"

fun findOldest :: "(FrameId \<Rightarrow> bool) \<Rightarrow> Frame list \<Rightarrow> FrameId option" where
  "findOldest canEvict [] = None"
| "findOldest canEvict (f # fs) =
     (if canEvict (frameId f) then Some (frameId f) else findOldest canEvict fs)"

definition FrameHistory_findOldestEvictable ::
    "FrameHistory \<Rightarrow> (FrameId \<Rightarrow> bool) \<Rightarrow> FrameId option" where
  "FrameHistory_findOldestEvictable h canEvict = findOldest canEvict (hHistory h)"

section \<open>The shared interface\<close>

definition FrameHistory_inv :: "FrameHistory \<Rightarrow> bool" where
  "FrameHistory_inv h \<longleftrightarrow>
     distinct (map frameId (hHistory h))
     \<and> hFramesById h = (\<lambda>i. List.find (\<lambda>f. frameId f = i) (hHistory h))"

definition FrameHistory_sorted :: "FrameHistory \<Rightarrow> bool" where
  "FrameHistory_sorted h \<longleftrightarrow> sorted_wrt (<) (map frameId (hHistory h))"

lemma eraseFirstFrame_filter:
  "distinct (map frameId fs) \<Longrightarrow> eraseFirstFrame i fs = filter (\<lambda>f. frameId f \<noteq> i) fs"
  by (induction fs) (auto simp: filter_key_neq)

interpretation fh: ordered_history frameId FrameHistory_add FrameHistory_remove FrameHistory_get
    FrameHistory_latest hHistory FrameHistory_inv FrameHistory_sorted
proof unfold_locales
  fix h :: FrameHistory and f :: Frame and i :: FrameId
  assume "FrameHistory_inv h"
  note inv = this [unfolded FrameHistory_inv_def]
  show "FrameHistory_inv (FrameHistory_add f h)" if "frameId f \<notin> frameId ` set (hHistory h)"
    using inv that
    by (auto simp: FrameHistory_inv_def FrameHistory_add_def find_key_snoc fun_eq_iff)
  show "FrameHistory_inv (FrameHistory_remove i h)"
    using inv
    by (auto simp: FrameHistory_inv_def FrameHistory_remove_def eraseFirstFrame_filter
        find_key_filter distinct_map_filter)
  show "hHistory (FrameHistory_remove i h) = filter (\<lambda>e. frameId e \<noteq> i) (hHistory h)"
    using inv by (simp add: FrameHistory_remove_def eraseFirstFrame_filter)
qed (simp_all add: FrameHistory_inv_def FrameHistory_add_def FrameHistory_remove_def
    FrameHistory_get_def FrameHistory_latest_def FrameHistory_sorted_def)

section \<open>Reading\<close>

lemma FrameHistory_inv_init [inv_simps]: "FrameHistory_inv FrameHistory_init"
  by (simp add: FrameHistory_inv_def FrameHistory_init_def)

lemma FrameHistory_recent_drop:
  "FrameHistory_recent h count = drop (length (hHistory h) - count) (hHistory h)"
proof -
  have "length (hHistory h) - min count (length (hHistory h)) = length (hHistory h) - count"
    by simp
  then show ?thesis by (simp add: FrameHistory_recent_def map_nth_upt_drop)
qed

lemma findOldest_Some:
  "findOldest P fs = Some i \<Longrightarrow>
     \<exists>as f bs. fs = as @ f # bs \<and> frameId f = i \<and> P i \<and> (\<forall>g \<in> set as. \<not> P (frameId g))"
proof (induction fs)
  case Nil
  then show ?case by simp
next
  case (Cons f fs)
  show ?case
  proof (cases "P (frameId f)")
    case True
    with Cons.prems have "frameId f = i" by simp
    with True show ?thesis
      by (intro exI [of _ "[]"] exI [of _ f] exI [of _ fs]) auto
  next
    case False
    with Cons obtain as g bs where
      "fs = as @ g # bs" "frameId g = i" "P i" "\<forall>g \<in> set as. \<not> P (frameId g)"
      by auto
    with False show ?thesis
      by (intro exI [of _ "f # as"] exI [of _ g] exI [of _ bs]) auto
  qed
qed

lemma findOldest_SomeD: "findOldest P fs = Some i \<Longrightarrow> i \<in> frameId ` set fs \<and> P i"
  using findOldest_Some by fastforce

lemma findOldest_None: "findOldest P fs = None \<longleftrightarrow> (\<forall>f \<in> set fs. \<not> P (frameId f))"
  by (induction fs) auto

lemma length_eraseFirstFrame_less:
  "i \<in> frameId ` set fs \<Longrightarrow> length (eraseFirstFrame i fs) < length fs"
  by (induction fs) auto

end
