(* ===== verification/LifecycleTracker.thy ===== *)
theory LifecycleTracker
  imports FrameTypes
begin

text \<open>
  \<open>FrameLifecycleTracker\<close> of \<open>src/model/src/frame/state/FrameLifecycleTracker.cpp\<close>: the map
  \<open>m_lifecyclesById\<close> and the transitions on it.  Entries are created by acceptance or rejection
  and never erased; a mark on an unknown id does nothing.
\<close>

type_synonym Tracker = "FrameId \<rightharpoonup> FrameLifecycle"

definition recordAcceptedReady :: "FrameId \<Rightarrow> Tracker \<Rightarrow> Tracker" where
  "recordAcceptedReady i m =
     m(i \<mapsto> emptyLifecycle\<lparr>lcFrameId := i, lcState := ReadyForConsumer, lcCaptured := True,
                            lcStored := True, lcReadyForConsumer := True\<rparr>)"

definition recordInvalid :: "FrameId \<Rightarrow> Tracker \<Rightarrow> Tracker" where
  "recordInvalid i m =
     (if i = 0 \<or> m i \<noteq> None then m
      else m(i \<mapsto> emptyLifecycle\<lparr>lcFrameId := i, lcState := Invalid, lcCaptured := True,
                                  lcInvalid := True\<rparr>))"

definition markDispatched :: "FrameId \<Rightarrow> Tracker \<Rightarrow> Tracker" where
  "markDispatched i m =
     (case m i of None \<Rightarrow> m
      | Some l \<Rightarrow> m(i \<mapsto> l\<lparr>lcState := DispatchedToConsumer, lcDispatchedToConsumer := True\<rparr>))"

definition markConsumed :: "FrameId \<Rightarrow> Tracker \<Rightarrow> Tracker" where
  "markConsumed i m =
     (case m i of None \<Rightarrow> m
      | Some l \<Rightarrow> m(i \<mapsto> l\<lparr>lcState := Consumed, lcDispatchedToConsumer := True,
                            lcConsumed := True\<rparr>))"

definition markFailed :: "FrameId \<Rightarrow> Tracker \<Rightarrow> Tracker" where
  "markFailed i m =
     (case m i of None \<Rightarrow> m
      | Some l \<Rightarrow> m(i \<mapsto> l\<lparr>lcState := Failed, lcDispatchedToConsumer := True, lcFailed := True\<rparr>))"

definition markDropped :: "FrameId \<Rightarrow> Tracker \<Rightarrow> Tracker" where
  "markDropped i m =
     (case m i of None \<Rightarrow> m
      | Some l \<Rightarrow> m(i \<mapsto> l\<lparr>lcState := Dropped, lcDropped := True\<rparr>))"

definition isReadyForConsumer :: "Tracker \<Rightarrow> FrameId \<Rightarrow> bool" where
  "isReadyForConsumer m i =
     (case m i of None \<Rightarrow> False | Some l \<Rightarrow> lcState l = ReadyForConsumer)"

definition isProtectedFromEviction :: "Tracker \<Rightarrow> FrameId \<Rightarrow> bool" where
  "isProtectedFromEviction m i =
     (case m i of None \<Rightarrow> False
      | Some l \<Rightarrow> lcState l = ReadyForConsumer \<or> lcState l = DispatchedToConsumer)"

definition tracker_get :: "Tracker \<Rightarrow> FrameId \<Rightarrow> FrameLifecycle option" where
  "tracker_get m i = m i"

definition snapshot :: "Tracker \<Rightarrow> FrameId \<rightharpoonup> FrameLifecycle" where
  "snapshot m = m"

text \<open>The state recorded for an id.\<close>

definition stateOf :: "Tracker \<Rightarrow> FrameId \<Rightarrow> FrameLifecycleState option" where
  "stateOf m i = map_option lcState (m i)"

section \<open>How the operations move the state\<close>

lemma stateOf_recordAcceptedReady [inv_simps]:
  "stateOf (recordAcceptedReady i m) j = (if j = i then Some ReadyForConsumer else stateOf m j)"
  by (simp add: stateOf_def recordAcceptedReady_def)

lemma stateOf_recordInvalid [inv_simps]:
  "stateOf (recordInvalid i m) j =
     (if j = i \<and> i \<noteq> 0 \<and> stateOf m i = None then Some Invalid else stateOf m j)"
  by (auto simp: stateOf_def recordInvalid_def)

lemma stateOf_markDispatched [inv_simps]:
  "stateOf (markDispatched i m) j =
     (if j = i \<and> stateOf m i \<noteq> None then Some DispatchedToConsumer else stateOf m j)"
  by (auto simp: stateOf_def markDispatched_def split: option.splits)

lemma stateOf_markConsumed [inv_simps]:
  "stateOf (markConsumed i m) j =
     (if j = i \<and> stateOf m i \<noteq> None then Some Consumed else stateOf m j)"
  by (auto simp: stateOf_def markConsumed_def split: option.splits)

lemma stateOf_markFailed [inv_simps]:
  "stateOf (markFailed i m) j =
     (if j = i \<and> stateOf m i \<noteq> None then Some Failed else stateOf m j)"
  by (auto simp: stateOf_def markFailed_def split: option.splits)

lemma stateOf_markDropped [inv_simps]:
  "stateOf (markDropped i m) j =
     (if j = i \<and> stateOf m i \<noteq> None then Some Dropped else stateOf m j)"
  by (auto simp: stateOf_def markDropped_def split: option.splits)

lemma isProtected_stateOf:
  "isProtectedFromEviction m i \<longleftrightarrow>
     stateOf m i = Some ReadyForConsumer \<or> stateOf m i = Some DispatchedToConsumer"
  by (auto simp: isProtectedFromEviction_def stateOf_def split: option.splits)

lemma isReady_stateOf: "isReadyForConsumer m i \<longleftrightarrow> stateOf m i = Some ReadyForConsumer"
  by (auto simp: isReadyForConsumer_def stateOf_def split: option.splits)

section \<open>The flags of a lifecycle agree with its state\<close>

text \<open>
  The boolean flags accumulate the history of a frame; the state is the last transition.  A
  lifecycle is consistent when the state's own flag is set, an invalid frame carries no other
  mark and every other frame was captured, stored and made ready.
\<close>

definition lifecycle_consistent :: "FrameLifecycle \<Rightarrow> bool" where
  "lifecycle_consistent l \<longleftrightarrow>
     lcCaptured l
     \<and> (lcInvalid l = (lcState l = Invalid))
     \<and> (lcState l \<noteq> Invalid \<longrightarrow> lcStored l \<and> lcReadyForConsumer l)
     \<and> (lcState l = Invalid \<longrightarrow> \<not> lcStored l \<and> \<not> lcDispatchedToConsumer l)
     \<and> (lcState l \<in> {DispatchedToConsumer, Consumed, Failed} \<longrightarrow> lcDispatchedToConsumer l)
     \<and> (lcState l = Consumed \<longrightarrow> lcConsumed l) \<and> (lcState l = Failed \<longrightarrow> lcFailed l)
     \<and> (lcState l = Dropped \<longrightarrow> lcDropped l)
     \<and> lcState l \<notin> {Captured, Stored}"

definition tracker_consistent :: "Tracker \<Rightarrow> bool" where
  "tracker_consistent m \<longleftrightarrow>
     (\<forall>i l. m i = Some l \<longrightarrow> lcFrameId l = i \<and> lifecycle_consistent l)"

text \<open>
  A transition of an entry is meant for an accepted frame: marking an entry that was recorded
  as invalid would contradict its flags, and no caller does.
\<close>

definition not_invalid :: "Tracker \<Rightarrow> FrameId \<Rightarrow> bool" where
  "not_invalid m i \<longleftrightarrow> stateOf m i \<noteq> Some Invalid"

lemma tracker_consistent_ops [inv_simps]:
  assumes "tracker_consistent m"
  shows "tracker_consistent (recordAcceptedReady i m)"
    and "tracker_consistent (recordInvalid i m)"
    and "not_invalid m i \<Longrightarrow> tracker_consistent (markDispatched i m)"
    and "not_invalid m i \<Longrightarrow> tracker_consistent (markConsumed i m)"
    and "not_invalid m i \<Longrightarrow> tracker_consistent (markFailed i m)"
    and "not_invalid m i \<Longrightarrow> tracker_consistent (markDropped i m)"
  using assms
  by (auto simp: tracker_consistent_def lifecycle_consistent_def recordAcceptedReady_def
      recordInvalid_def markDispatched_def markConsumed_def markFailed_def markDropped_def
      not_invalid_def stateOf_def emptyLifecycle_def split: option.splits if_splits)

end
