(* ===== verification/ReadyFrameQueue.thy ===== *)
theory ReadyFrameQueue
  imports FrameTypes
begin

text \<open>
  \<open>ReadyFrameQueue\<close> of \<open>src/model/src/frame/queue/ReadyFrameQueue.cpp\<close>: a bounded ring buffer of
  frames together with the ids of the frames that are ready and of those handed to a consumer
  and not completed.

  The ring buffer is \<open>moodycamel::BlockingReaderWriterCircularBuffer\<close>, code outside this
  repository: its operations are the parameter \<open>ops\<close>, and \<open>ring_laws\<close> states its documented
  behaviour (a bounded first-in-first-out queue whose try-operations fail without effect) over
  an abstraction to the queued elements.
\<close>

section \<open>The ring buffer\<close>

record 'q ring_ops =
  ringMake :: "nat \<Rightarrow> 'q"
  ringTryEnqueue :: "Frame \<Rightarrow> 'q \<Rightarrow> 'q \<times> bool"
  ringTryDequeue :: "'q \<Rightarrow> 'q \<times> Frame option"
  ringWaitDequeueTimed :: "int \<Rightarrow> 'q \<Rightarrow> 'q \<times> Frame option"
  ringWaitDequeue :: "'q \<Rightarrow> ('q \<times> Frame) option"
  ringSizeApprox :: "'q \<Rightarrow> nat"

text \<open>
  A dequeue that finds the queue empty for the whole of its waiting time reports so; otherwise it
  takes the oldest element.
\<close>

definition dequeue_law :: "('q \<Rightarrow> 'q \<times> Frame option) \<Rightarrow> ('q \<Rightarrow> bool) \<Rightarrow> ('q \<Rightarrow> Frame list) \<Rightarrow>
    ('q \<Rightarrow> nat) \<Rightarrow> bool" where
  "dequeue_law deq valid elems cap \<longleftrightarrow>
     (\<forall>q. valid q \<longrightarrow>
        valid (fst (deq q)) \<and> cap (fst (deq q)) = cap q
        \<and> elems (fst (deq q)) = tl (elems q)
        \<and> snd (deq q) = (case elems q of [] \<Rightarrow> None | x # _ \<Rightarrow> Some x))"

text \<open>
  The untimed wait returns only with a frame; \<open>None\<close> stands for the call that still blocks, which
  leaves the queue as it is.
\<close>

definition blocking :: "('q \<Rightarrow> ('q \<times> Frame) option) \<Rightarrow> 'q \<Rightarrow> 'q \<times> Frame option" where
  "blocking deq q = (case deq q of None \<Rightarrow> (q, None) | Some (q', f) \<Rightarrow> (q', Some f))"

definition ring_laws :: "'q ring_ops \<Rightarrow> ('q \<Rightarrow> bool) \<Rightarrow> ('q \<Rightarrow> Frame list) \<Rightarrow> ('q \<Rightarrow> nat) \<Rightarrow> bool" where
  "ring_laws ops valid elems cap \<longleftrightarrow>
     (\<forall>n. 0 < n \<longrightarrow> valid (ringMake ops n) \<and> elems (ringMake ops n) = [] \<and> cap (ringMake ops n) = n)
     \<and> (\<forall>q f. valid q \<longrightarrow>
          (let r = ringTryEnqueue ops f q in
           valid (fst r) \<and> cap (fst r) = cap q
           \<and> snd r = (length (elems q) < cap q)
           \<and> elems (fst r) = (if length (elems q) < cap q then elems q @ [f] else elems q)))
     \<and> dequeue_law (ringTryDequeue ops) valid elems cap
     \<and> (\<forall>t. dequeue_law (ringWaitDequeueTimed ops t) valid elems cap)
     \<and> dequeue_law (blocking (ringWaitDequeue ops)) valid elems cap
     \<and> (\<forall>q. valid q \<longrightarrow> ringSizeApprox ops q = length (elems q))"

text \<open>The laws hold for a plain list with a capacity.\<close>

definition list_dequeue :: "Frame list \<times> nat \<Rightarrow> (Frame list \<times> nat) \<times> Frame option" where
  "list_dequeue q = (case fst q of [] \<Rightarrow> (q, None) | x # xs \<Rightarrow> ((xs, snd q), Some x))"

definition list_ring :: "(Frame list \<times> nat) ring_ops" where
  "list_ring =
     \<lparr>ringMake = (\<lambda>n. ([], n)),
      ringTryEnqueue =
        (\<lambda>f q. if length (fst q) < snd q then ((fst q @ [f], snd q), True) else (q, False)),
      ringTryDequeue = list_dequeue,
      ringWaitDequeueTimed = (\<lambda>t. list_dequeue),
      ringWaitDequeue = (\<lambda>q. case list_dequeue q of (q', None) \<Rightarrow> None | (q', Some f) \<Rightarrow> Some (q', f)),
      ringSizeApprox = (\<lambda>q. length (fst q))\<rparr>"

lemma list_ring_laws: "ring_laws list_ring (\<lambda>_. True) fst snd"
  by (auto simp: ring_laws_def dequeue_law_def list_ring_def list_dequeue_def blocking_def Let_def
      split: list.splits)

section \<open>The queue\<close>

record 'q ReadyFrameQueue =
  rqQueue :: 'q
  rqReadyFrameIds :: "FrameId set"
  rqInFlightFrameIds :: "FrameId set"

definition ReadyFrameQueue_new :: "'q ring_ops \<Rightarrow> nat \<Rightarrow> 'q ReadyFrameQueue" where
  "ReadyFrameQueue_new ops capacity =
     \<lparr>rqQueue = ringMake ops (max 1 capacity), rqReadyFrameIds = {}, rqInFlightFrameIds = {}\<rparr>"

definition ReadyFrameQueue_tryEnqueue ::
    "'q ring_ops \<Rightarrow> Frame \<Rightarrow> 'q ReadyFrameQueue \<Rightarrow> 'q ReadyFrameQueue \<times> bool" where
  "ReadyFrameQueue_tryEnqueue ops f q =
     (case ringTryEnqueue ops f (rqQueue q) of (ring, ok) \<Rightarrow>
        if \<not> ok then (q\<lparr>rqQueue := ring\<rparr>, False)
        else (q\<lparr>rqQueue := ring, rqReadyFrameIds := insert (frameId f) (rqReadyFrameIds q)\<rparr>, True))"

text \<open>The critical section shared by the three dequeue operations.\<close>

definition ReadyFrameQueue_moveInFlight :: "Frame \<Rightarrow> 'q ReadyFrameQueue \<Rightarrow> 'q ReadyFrameQueue" where
  "ReadyFrameQueue_moveInFlight f q =
     q\<lparr>rqReadyFrameIds := rqReadyFrameIds q - {frameId f},
       rqInFlightFrameIds := insert (frameId f) (rqInFlightFrameIds q)\<rparr>"

definition ReadyFrameQueue_take ::
    "('q \<Rightarrow> 'q \<times> Frame option) \<Rightarrow> 'q ReadyFrameQueue \<Rightarrow> 'q ReadyFrameQueue \<times> Frame option" where
  "ReadyFrameQueue_take deq q =
     (case deq (rqQueue q) of
        (ring, None) \<Rightarrow> (q\<lparr>rqQueue := ring\<rparr>, None)
      | (ring, Some f) \<Rightarrow> (ReadyFrameQueue_moveInFlight f (q\<lparr>rqQueue := ring\<rparr>), Some f))"

definition ReadyFrameQueue_tryDequeue ::
    "'q ring_ops \<Rightarrow> 'q ReadyFrameQueue \<Rightarrow> 'q ReadyFrameQueue \<times> Frame option" where
  "ReadyFrameQueue_tryDequeue ops q = ReadyFrameQueue_take (ringTryDequeue ops) q"

definition ReadyFrameQueue_waitDequeue ::
    "'q ring_ops \<Rightarrow> 'q ReadyFrameQueue \<Rightarrow> ('q ReadyFrameQueue \<times> Frame) option" where
  "ReadyFrameQueue_waitDequeue ops q =
     (case ringWaitDequeue ops (rqQueue q) of
        None \<Rightarrow> None
      | Some (ring, f) \<Rightarrow> Some (ReadyFrameQueue_moveInFlight f (q\<lparr>rqQueue := ring\<rparr>), f))"

definition ReadyFrameQueue_waitDequeueTimed ::
    "'q ring_ops \<Rightarrow> int \<Rightarrow> 'q ReadyFrameQueue \<Rightarrow> 'q ReadyFrameQueue \<times> Frame option" where
  "ReadyFrameQueue_waitDequeueTimed ops timeout q =
     ReadyFrameQueue_take (ringWaitDequeueTimed ops timeout) q"

definition ReadyFrameQueue_markCompleted ::
    "FrameId \<Rightarrow> 'q ReadyFrameQueue \<Rightarrow> 'q ReadyFrameQueue \<times> bool" where
  "ReadyFrameQueue_markCompleted i q =
     (if i \<notin> rqInFlightFrameIds q then (q, False)
      else (q\<lparr>rqInFlightFrameIds := rqInFlightFrameIds q - {i}\<rparr>, True))"

definition ReadyFrameQueue_sizeApprox :: "'q ring_ops \<Rightarrow> 'q ReadyFrameQueue \<Rightarrow> nat" where
  "ReadyFrameQueue_sizeApprox ops q = ringSizeApprox ops (rqQueue q)"

section \<open>The contract of a ready queue\<close>

text \<open>
  What the frame store relies on: frames wait in submission order, a taken frame is in flight
  until it is completed, and completing reports whether the id was in flight.
\<close>

locale ready_queue =
  fixes enqueue :: "Frame \<Rightarrow> 'q \<Rightarrow> 'q \<times> bool"
    and dequeue :: "'q \<Rightarrow> 'q \<times> Frame option"
    and complete :: "FrameId \<Rightarrow> 'q \<Rightarrow> 'q \<times> bool"
    and pending :: "'q \<Rightarrow> Frame list"
    and inFlight :: "'q \<Rightarrow> FrameId set"
    and capacity :: "'q \<Rightarrow> nat"
    and invar :: "'q \<Rightarrow> bool"
  assumes invar_distinct: "invar q \<Longrightarrow> distinct (map frameId (pending q))"
    and invar_bound: "invar q \<Longrightarrow> length (pending q) \<le> capacity q"
    and enqueue_invar:
      "invar q \<Longrightarrow> frameId f \<notin> frameId ` set (pending q) \<Longrightarrow> invar (fst (enqueue f q))"
    and enqueue_result: "invar q \<Longrightarrow> snd (enqueue f q) = (length (pending q) < capacity q)"
    and enqueue_pending: "invar q \<Longrightarrow>
      pending (fst (enqueue f q)) = (if snd (enqueue f q) then pending q @ [f] else pending q)"
    and enqueue_inFlight: "invar q \<Longrightarrow> inFlight (fst (enqueue f q)) = inFlight q"
    and enqueue_capacity: "invar q \<Longrightarrow> capacity (fst (enqueue f q)) = capacity q"
    and dequeue_invar: "invar q \<Longrightarrow> invar (fst (dequeue q))"
    and dequeue_result:
      "invar q \<Longrightarrow> snd (dequeue q) = (case pending q of [] \<Rightarrow> None | f # _ \<Rightarrow> Some f)"
    and dequeue_pending: "invar q \<Longrightarrow> pending (fst (dequeue q)) = tl (pending q)"
    and dequeue_inFlight: "invar q \<Longrightarrow> inFlight (fst (dequeue q)) =
      inFlight q \<union> frameId ` set_option (snd (dequeue q))"
    and dequeue_capacity: "invar q \<Longrightarrow> capacity (fst (dequeue q)) = capacity q"
    and complete_invar: "invar q \<Longrightarrow> invar (fst (complete i q))"
    and complete_result: "snd (complete i q) = (i \<in> inFlight q)"
    and complete_pending: "pending (fst (complete i q)) = pending q"
    and complete_inFlight: "inFlight (fst (complete i q)) = inFlight q - {i}"
    and complete_capacity: "capacity (fst (complete i q)) = capacity q"
begin

lemma dequeue_cases:
  assumes "invar q"
  obtains (empty) "pending q = []" "snd (dequeue q) = None" "pending (fst (dequeue q)) = []"
      "inFlight (fst (dequeue q)) = inFlight q"
    | (front) f fs where "pending q = f # fs" "snd (dequeue q) = Some f"
      "pending (fst (dequeue q)) = fs"
      "inFlight (fst (dequeue q)) = insert (frameId f) (inFlight q)"
  using dequeue_result [OF assms] dequeue_pending [OF assms] dequeue_inFlight [OF assms]
  by (cases "pending q") auto

lemma enqueue_full: "invar q \<Longrightarrow> \<not> snd (enqueue f q) \<Longrightarrow> length (pending q) = capacity q"
  using invar_bound enqueue_result by fastforce

end

section \<open>The model keeps the contract\<close>

definition ReadyFrameQueue_inv ::
    "'q ring_ops \<Rightarrow> ('q \<Rightarrow> bool) \<Rightarrow> ('q \<Rightarrow> Frame list) \<Rightarrow> ('q \<Rightarrow> nat) \<Rightarrow> 'q ReadyFrameQueue \<Rightarrow> bool" where
  "ReadyFrameQueue_inv ops valid elems cap q \<longleftrightarrow>
     ring_laws ops valid elems cap
     \<and> valid (rqQueue q)
     \<and> length (elems (rqQueue q)) \<le> cap (rqQueue q)
     \<and> distinct (map frameId (elems (rqQueue q)))
     \<and> rqReadyFrameIds q = frameId ` set (elems (rqQueue q))"

lemma ReadyFrameQueue_inv_new:
  "ring_laws ops valid elems cap \<Longrightarrow>
     ReadyFrameQueue_inv ops valid elems cap (ReadyFrameQueue_new ops n)
     \<and> elems (rqQueue (ReadyFrameQueue_new ops n)) = []
     \<and> rqInFlightFrameIds (ReadyFrameQueue_new ops n) = {}
     \<and> cap (rqQueue (ReadyFrameQueue_new ops n)) = max 1 n"
  by (simp add: ReadyFrameQueue_inv_def ReadyFrameQueue_new_def ring_laws_def)

lemma ring_enqueue:
  assumes "ring_laws ops valid elems cap" "valid q" "ringTryEnqueue ops f q = (q', ok)"
  shows "valid q'" "cap q' = cap q" "ok = (length (elems q) < cap q)"
    "elems q' = (if ok then elems q @ [f] else elems q)"
  using assms by (auto simp: ring_laws_def Let_def split: if_splits) (metis fst_conv snd_conv)+

lemma take_law:
  assumes "dequeue_law deq valid elems cap" "ReadyFrameQueue_inv ops valid elems cap q"
  shows "ReadyFrameQueue_inv ops valid elems cap (fst (ReadyFrameQueue_take deq q))"
    and "snd (ReadyFrameQueue_take deq q) =
      (case elems (rqQueue q) of [] \<Rightarrow> None | f # _ \<Rightarrow> Some f)"
    and "elems (rqQueue (fst (ReadyFrameQueue_take deq q))) = tl (elems (rqQueue q))"
    and "rqInFlightFrameIds (fst (ReadyFrameQueue_take deq q)) =
      rqInFlightFrameIds q \<union> frameId ` set_option (snd (ReadyFrameQueue_take deq q))"
    and "cap (rqQueue (fst (ReadyFrameQueue_take deq q))) = cap (rqQueue q)"
proof -
  obtain ring r where d: "deq (rqQueue q) = (ring, r)" by fastforce
  have ring: "valid ring" "cap ring = cap (rqQueue q)" "elems ring = tl (elems (rqQueue q))"
    "r = (case elems (rqQueue q) of [] \<Rightarrow> None | x # _ \<Rightarrow> Some x)"
    using assms d by (auto simp: dequeue_law_def ReadyFrameQueue_inv_def dest: spec [of _ "rqQueue q"])
  show "ReadyFrameQueue_inv ops valid elems cap (fst (ReadyFrameQueue_take deq q))"
    using assms(2) ring d
    by (cases "elems (rqQueue q)")
      (auto simp: ReadyFrameQueue_inv_def ReadyFrameQueue_take_def ReadyFrameQueue_moveInFlight_def)
  show "snd (ReadyFrameQueue_take deq q) =
      (case elems (rqQueue q) of [] \<Rightarrow> None | f # _ \<Rightarrow> Some f)"
    "elems (rqQueue (fst (ReadyFrameQueue_take deq q))) = tl (elems (rqQueue q))"
    "rqInFlightFrameIds (fst (ReadyFrameQueue_take deq q)) =
      rqInFlightFrameIds q \<union> frameId ` set_option (snd (ReadyFrameQueue_take deq q))"
    "cap (rqQueue (fst (ReadyFrameQueue_take deq q))) = cap (rqQueue q)"
    using ring d
    by (auto simp: ReadyFrameQueue_take_def ReadyFrameQueue_moveInFlight_def split: list.splits)
qed

lemma ReadyFrameQueue_contract:
  assumes deq: "\<And>q. ReadyFrameQueue_inv ops valid elems cap q \<Longrightarrow> dequeue_law deq valid elems cap"
  shows "ready_queue (ReadyFrameQueue_tryEnqueue ops) (ReadyFrameQueue_take deq)
    ReadyFrameQueue_markCompleted (\<lambda>q. elems (rqQueue q)) rqInFlightFrameIds
    (\<lambda>q. cap (rqQueue q)) (ReadyFrameQueue_inv ops valid elems cap)"
proof unfold_locales
  fix q :: "'a ReadyFrameQueue" and f :: Frame and i :: FrameId
  assume inv: "ReadyFrameQueue_inv ops valid elems cap q"
  note take_law [OF deq [OF inv] inv]
  then show "ReadyFrameQueue_inv ops valid elems cap (fst (ReadyFrameQueue_take deq q))"
    "snd (ReadyFrameQueue_take deq q) = (case elems (rqQueue q) of [] \<Rightarrow> None | f # _ \<Rightarrow> Some f)"
    "elems (rqQueue (fst (ReadyFrameQueue_take deq q))) = tl (elems (rqQueue q))"
    "rqInFlightFrameIds (fst (ReadyFrameQueue_take deq q)) =
      rqInFlightFrameIds q \<union> frameId ` set_option (snd (ReadyFrameQueue_take deq q))"
    "cap (rqQueue (fst (ReadyFrameQueue_take deq q))) = cap (rqQueue q)"
    by simp_all
  obtain ring ok where e: "ringTryEnqueue ops f (rqQueue q) = (ring, ok)" by fastforce
  have laws: "ring_laws ops valid elems cap" "valid (rqQueue q)"
    using inv by (simp_all add: ReadyFrameQueue_inv_def)
  note ring = ring_enqueue [OF laws e]
  show "ReadyFrameQueue_inv ops valid elems cap (fst (ReadyFrameQueue_tryEnqueue ops f q))"
    if "frameId f \<notin> frameId ` set (elems (rqQueue q))"
    using that inv ring e by (auto simp: ReadyFrameQueue_inv_def ReadyFrameQueue_tryEnqueue_def)
  show "snd (ReadyFrameQueue_tryEnqueue ops f q) = (length (elems (rqQueue q)) < cap (rqQueue q))"
    "elems (rqQueue (fst (ReadyFrameQueue_tryEnqueue ops f q))) =
      (if snd (ReadyFrameQueue_tryEnqueue ops f q) then elems (rqQueue q) @ [f] else elems (rqQueue q))"
    "rqInFlightFrameIds (fst (ReadyFrameQueue_tryEnqueue ops f q)) = rqInFlightFrameIds q"
    "cap (rqQueue (fst (ReadyFrameQueue_tryEnqueue ops f q))) = cap (rqQueue q)"
    using ring e by (auto simp: ReadyFrameQueue_tryEnqueue_def)
  show "ReadyFrameQueue_inv ops valid elems cap (fst (ReadyFrameQueue_markCompleted i q))"
    using inv by (simp add: ReadyFrameQueue_inv_def ReadyFrameQueue_markCompleted_def)
qed (auto simp: ReadyFrameQueue_inv_def ReadyFrameQueue_markCompleted_def)

interpretation rq_try: ready_queue "ReadyFrameQueue_tryEnqueue ops" "ReadyFrameQueue_tryDequeue ops"
    ReadyFrameQueue_markCompleted "\<lambda>q. elems (rqQueue q)" rqInFlightFrameIds
    "\<lambda>q. cap (rqQueue q)" "ReadyFrameQueue_inv ops valid elems cap" for ops valid elems cap
  unfolding ReadyFrameQueue_tryDequeue_def [abs_def]
  by (rule ReadyFrameQueue_contract) (simp add: ReadyFrameQueue_inv_def ring_laws_def)

interpretation rq_wait: ready_queue "ReadyFrameQueue_tryEnqueue ops"
    "ReadyFrameQueue_waitDequeueTimed ops timeout"
    ReadyFrameQueue_markCompleted "\<lambda>q. elems (rqQueue q)" rqInFlightFrameIds
    "\<lambda>q. cap (rqQueue q)" "ReadyFrameQueue_inv ops valid elems cap" for ops timeout valid elems cap
  unfolding ReadyFrameQueue_waitDequeueTimed_def [abs_def]
  by (rule ReadyFrameQueue_contract) (simp add: ReadyFrameQueue_inv_def ring_laws_def)

lemma blocking_ReadyFrameQueue_waitDequeue:
  "blocking (ReadyFrameQueue_waitDequeue ops) = ReadyFrameQueue_take (blocking (ringWaitDequeue ops))"
  by (auto simp: blocking_def ReadyFrameQueue_waitDequeue_def ReadyFrameQueue_take_def fun_eq_iff
      split: option.splits)

interpretation rq_block: ready_queue "ReadyFrameQueue_tryEnqueue ops"
    "blocking (ReadyFrameQueue_waitDequeue ops)"
    ReadyFrameQueue_markCompleted "\<lambda>q. elems (rqQueue q)" rqInFlightFrameIds
    "\<lambda>q. cap (rqQueue q)" "ReadyFrameQueue_inv ops valid elems cap" for ops valid elems cap
  unfolding blocking_ReadyFrameQueue_waitDequeue
  by (rule ReadyFrameQueue_contract) (simp add: ReadyFrameQueue_inv_def ring_laws_def)

end
