(* ===== verification/FrameStore.thy ===== *)
theory FrameStore
  imports FrameValidator FrameHistory LifecycleTracker ReadyFrameQueue
begin

text \<open>
  \<open>FrameStore\<close> of \<open>src/model/src/frame/FrameStore.cpp\<close>: the facade over history, lifecycle
  tracker and ready queue.  Every operation runs under the store's mutex, so it is one function
  on the state; the dequeue operations, which touch the queue before they take the mutex, are
  split into their two steps in \<open>FrameStoreConcurrent\<close>.
\<close>

record 'q FrameStore =
  fsConfig :: FrameStoreConfig
  fsHistory :: FrameHistory
  fsTracker :: Tracker
  fsQueue :: "'q ReadyFrameQueue"
  fsAcceptedCount :: u64
  fsRejectedCount :: u64
  fsDroppedCount :: u64
  fsEvictedCount :: u64
  fsLastCode :: FrameSubmissionCode
  fsLastError :: string

definition FrameStore_new :: "'q ring_ops \<Rightarrow> FrameStoreConfig \<Rightarrow> 'q FrameStore" where
  "FrameStore_new ops config =
     (let cfg = \<lparr>maxStoredFrames = max 1 (maxStoredFrames config),
                 maxReadyFrames = max 1 (maxReadyFrames config)\<rparr>
      in \<lparr>fsConfig = cfg, fsHistory = FrameHistory_init, fsTracker = Map.empty,
          fsQueue = ReadyFrameQueue_new ops (maxReadyFrames cfg),
          fsAcceptedCount = 0, fsRejectedCount = 0, fsDroppedCount = 0, fsEvictedCount = 0,
          fsLastCode = InvalidFrameId, fsLastError = []\<rparr>)"

section \<open>Internal operations\<close>

definition recordStatusLocked :: "FrameSubmissionResult \<Rightarrow> 'q FrameStore \<Rightarrow> 'q FrameStore" where
  "recordStatusLocked r s =
     s\<lparr>fsLastCode := subCode r, fsLastError := (if accepted r then [] else subMessage r)\<rparr>"

definition recordRejectedFrameLocked ::
    "Frame \<Rightarrow> FrameSubmissionResult \<Rightarrow> 'q FrameStore \<Rightarrow> 'q FrameStore" where
  "recordRejectedFrameLocked f r s =
     recordStatusLocked r
       (s\<lparr>fsTracker := recordInvalid (frameId f) (fsTracker s),
          fsRejectedCount := fsRejectedCount s + 1\<rparr>)"

text \<open>The candidate test of the eviction loop: not the latest frame and not protected.\<close>

definition canEvict :: "'q FrameStore \<Rightarrow> FrameId \<Rightarrow> bool" where
  "canEvict s c \<longleftrightarrow>
     (case FrameHistory_latestFrameId (fsHistory s) of None \<Rightarrow> True | Some l \<Rightarrow> c \<noteq> l)
     \<and> \<not> isProtectedFromEviction (fsTracker s) c"

definition evictFrame :: "FrameId \<Rightarrow> 'q FrameStore \<Rightarrow> 'q FrameStore" where
  "evictFrame i s =
     s\<lparr>fsTracker := markDropped i (fsTracker s),
       fsHistory := FrameHistory_remove i (fsHistory s),
       fsDroppedCount := fsDroppedCount s + 1,
       fsEvictedCount := fsEvictedCount s + 1\<rparr>"

function evictOldFramesLocked :: "'q FrameStore \<Rightarrow> 'q FrameStore" where
  "evictOldFramesLocked s =
     (if FrameHistory_size (fsHistory s) > maxStoredFrames (fsConfig s) then
        (case FrameHistory_findOldestEvictable (fsHistory s) (canEvict s) of
           None \<Rightarrow> s
         | Some i \<Rightarrow> evictOldFramesLocked (evictFrame i s))
      else s)"
  by pat_completeness auto
termination
proof (relation "measure (\<lambda>s. length (hHistory (fsHistory s)))")
  fix s :: "'q FrameStore" and i
  assume "FrameHistory_findOldestEvictable (fsHistory s) (canEvict s) = Some i"
  then have "i \<in> frameId ` set (hHistory (fsHistory s))"
    using findOldest_SomeD by (auto simp: FrameHistory_findOldestEvictable_def)
  then show "(evictFrame i s, s) \<in> measure (\<lambda>s. length (hHistory (fsHistory s)))"
    by (simp add: evictFrame_def FrameHistory_remove_def length_eraseFirstFrame_less)
qed simp

declare evictOldFramesLocked.simps [simp del]

section \<open>The public operations\<close>

definition submissionContext :: "'q FrameStore \<Rightarrow> FrameValidationContext" where
  "submissionContext s =
     \<lparr>ctxLatestFrameId = FrameHistory_latestFrameId (fsHistory s),
      ctxLatestTimestamp = FrameHistory_latestTimestamp (fsHistory s),
      ctxHistoryFull = (FrameHistory_size (fsHistory s) \<ge> maxStoredFrames (fsConfig s)),
      ctxHasEvictableFrame =
        FrameHistory_findOldestEvictable (fsHistory s)
          (\<lambda>i. \<not> isProtectedFromEviction (fsTracker s) i) \<noteq> None\<rparr>"

text \<open>The bookkeeping of an accepted frame after it entered the ready queue.\<close>

definition acceptFrame ::
    "Frame \<Rightarrow> FrameSubmissionResult \<Rightarrow> 'q FrameStore \<Rightarrow> 'q FrameStore" where
  "acceptFrame f r s =
     recordStatusLocked r
       (evictOldFramesLocked
          (s\<lparr>fsTracker := recordAcceptedReady (frameId f) (fsTracker s),
             fsHistory := FrameHistory_add f (fsHistory s),
             fsAcceptedCount := fsAcceptedCount s + 1\<rparr>))"

definition submitFrame ::
    "'q ring_ops \<Rightarrow> Frame \<Rightarrow> 'q FrameStore \<Rightarrow> 'q FrameStore \<times> FrameSubmissionResult" where
  "submitFrame ops f s =
     (let result = validate f (submissionContext s) in
      if \<not> accepted result then (recordRejectedFrameLocked f result s, result)
      else
        case ReadyFrameQueue_tryEnqueue ops f (fsQueue s) of (q, ok) \<Rightarrow>
          let s = s\<lparr>fsQueue := q\<rparr> in
          if \<not> ok then
            let result = makeResult ReadyFrameQueueFull (frameId f) ''Ready frame queue is full''
            in (recordRejectedFrameLocked f result s, result)
          else (acceptFrame f result s, result))"

definition FrameStore_getLastFrame :: "'q FrameStore \<Rightarrow> Frame option" where
  "FrameStore_getLastFrame s = FrameHistory_latest (fsHistory s)"

definition FrameStore_getFrame :: "'q FrameStore \<Rightarrow> FrameId \<Rightarrow> Frame option" where
  "FrameStore_getFrame s i = FrameHistory_get (fsHistory s) i"

definition FrameStore_getRecentFrames :: "'q FrameStore \<Rightarrow> nat \<Rightarrow> Frame list" where
  "FrameStore_getRecentFrames s n = FrameHistory_recent (fsHistory s) n"

text \<open>The store's part of a dequeue: the lifecycle mark under the store's mutex.\<close>

definition FrameStore_markDispatched :: "Frame \<Rightarrow> 'q FrameStore \<Rightarrow> 'q FrameStore" where
  "FrameStore_markDispatched f s = s\<lparr>fsTracker := markDispatched (frameId f) (fsTracker s)\<rparr>"

definition dispatchTaken ::
    "'q FrameStore \<Rightarrow> 'q ReadyFrameQueue \<times> Frame option \<Rightarrow> 'q FrameStore \<times> Frame option" where
  "dispatchTaken s taken =
     (case taken of
        (q, None) \<Rightarrow> (s\<lparr>fsQueue := q\<rparr>, None)
      | (q, Some f) \<Rightarrow> (FrameStore_markDispatched f (s\<lparr>fsQueue := q\<rparr>), Some f))"

definition tryDequeueReadyFrame ::
    "'q ring_ops \<Rightarrow> 'q FrameStore \<Rightarrow> 'q FrameStore \<times> Frame option" where
  "tryDequeueReadyFrame ops s = dispatchTaken s (ReadyFrameQueue_tryDequeue ops (fsQueue s))"

definition waitDequeueReadyFrame ::
    "'q ring_ops \<Rightarrow> int \<Rightarrow> 'q FrameStore \<Rightarrow> 'q FrameStore \<times> Frame option" where
  "waitDequeueReadyFrame ops timeout s =
     dispatchTaken s (ReadyFrameQueue_waitDequeueTimed ops timeout (fsQueue s))"

text \<open>The untimed wait; \<open>None\<close> stands for a call that still blocks.\<close>

definition blockingDequeueReadyFrame ::
    "'q ring_ops \<Rightarrow> 'q FrameStore \<Rightarrow> ('q FrameStore \<times> Frame) option" where
  "blockingDequeueReadyFrame ops s =
     (case ReadyFrameQueue_waitDequeue ops (fsQueue s) of
        None \<Rightarrow> None
      | Some (q, f) \<Rightarrow> Some (FrameStore_markDispatched f (s\<lparr>fsQueue := q\<rparr>), f))"

definition markFrameConsumed :: "FrameId \<Rightarrow> 'q FrameStore \<Rightarrow> 'q FrameStore \<times> bool" where
  "markFrameConsumed i s =
     (case ReadyFrameQueue_markCompleted i (fsQueue s) of (q, ok) \<Rightarrow>
        if \<not> ok then (s\<lparr>fsQueue := q\<rparr>, False)
        else (evictOldFramesLocked
                (s\<lparr>fsQueue := q, fsTracker := markConsumed i (fsTracker s)\<rparr>), True))"

definition markFrameFailed :: "FrameId \<Rightarrow> 'q FrameStore \<Rightarrow> 'q FrameStore \<times> bool" where
  "markFrameFailed i s =
     (case ReadyFrameQueue_markCompleted i (fsQueue s) of (q, ok) \<Rightarrow>
        if \<not> ok then (s\<lparr>fsQueue := q\<rparr>, False)
        else (evictOldFramesLocked
                (s\<lparr>fsQueue := q, fsTracker := markFailed i (fsTracker s)\<rparr>), True))"

definition FrameStore_getStatus :: "'q ring_ops \<Rightarrow> 'q FrameStore \<Rightarrow> FrameStoreStatus" where
  "FrameStore_getStatus ops s =
     \<lparr>stStoredFrameCount = FrameHistory_size (fsHistory s),
      stMaxStoredFrames = maxStoredFrames (fsConfig s),
      stReadyFrameCount = ReadyFrameQueue_sizeApprox ops (fsQueue s),
      stMaxReadyFrames = maxReadyFrames (fsConfig s),
      stAcceptedFrameCount = fsAcceptedCount s,
      stRejectedFrameCount = fsRejectedCount s,
      stDroppedFrameCount = fsDroppedCount s,
      stEvictedFrameCount = fsEvictedCount s,
      stLatestFrameId = FrameHistory_latestFrameId (fsHistory s),
      stLatestTimestamp = FrameHistory_latestTimestamp (fsHistory s),
      stLastSubmissionCode = fsLastCode s,
      stLastError = fsLastError s,
      stLifecycles = snapshot (fsTracker s)\<rparr>"

definition FrameStore_getFrameLifecycle :: "'q FrameStore \<Rightarrow> FrameId \<Rightarrow> FrameLifecycle option" where
  "FrameStore_getFrameLifecycle s i = tracker_get (fsTracker s) i"

end
