(* ===== verification/FrameStoreInvariant.thy ===== *)
theory FrameStoreInvariant
  imports FrameStore
begin

text \<open>
  The invariant of the frame store and its preservation by every operation.

  \<open>history_ok\<close> is about the history alone (ids and timestamps strictly increase, the latest frame
  is the last entry).  \<open>frames_linked\<close> ties the history, the waiting frames, the ids in flight and
  the lifecycle states together: exactly the waiting frames are ready, exactly the ids in flight
  are dispatched, and exactly the stored ids are in one of the four live states.
\<close>

section \<open>The history of a store\<close>

definition history_ok :: "FrameHistory \<Rightarrow> bool" where
  "history_ok h \<longleftrightarrow>
     FrameHistory_inv h \<and> FrameHistory_sorted h
     \<and> sorted_wrt (<) (map frameTimestamp (hHistory h))
     \<and> hLatestFrame h = (if hHistory h = [] then None else Some (last (hHistory h)))"

definition newer_than_latest :: "FrameHistory \<Rightarrow> Frame \<Rightarrow> bool" where
  "newer_than_latest h f \<longleftrightarrow>
     (\<forall>l. hLatestFrame h = Some l \<longrightarrow> frameId l < frameId f \<and> frameTimestamp l < frameTimestamp f)"

lemma sorted_wrt_map_last:
  fixes g :: "'a \<Rightarrow> 'b::linorder"
  assumes "sorted_wrt (<) (map g xs)" "x \<in> set xs"
  shows "g x \<le> g (last xs)"
proof -
  have "xs \<noteq> []" using assms(2) by auto
  then have split: "xs = butlast xs @ [last xs]" by simp
  then have "sorted_wrt (<) (map g (butlast xs) @ [g (last xs)])"
    using assms(1) by (metis list.simps(8,9) map_append)
  moreover have "x \<in> set (butlast xs) \<or> x = last xs"
    using assms(2) split by (metis Un_iff empty_iff insert_iff list.set set_append)
  ultimately show ?thesis by (auto simp: sorted_wrt_append intro: less_imp_le)
qed

lemma newer_than_all:
  assumes "history_ok h" "newer_than_latest h f" "g \<in> set (hHistory h)"
  shows "frameId g < frameId f" and "frameTimestamp g < frameTimestamp f"
proof -
  have l: "hLatestFrame h = Some (last (hHistory h))"
    using assms(1,3) by (auto simp: history_ok_def)
  have "frameId g \<le> frameId (last (hHistory h))"
    "frameTimestamp g \<le> frameTimestamp (last (hHistory h))"
    using assms(1,3) sorted_wrt_map_last
    by (auto simp: history_ok_def FrameHistory_sorted_def)
  then show "frameId g < frameId f" "frameTimestamp g < frameTimestamp f"
    using l assms(2) by (auto simp: newer_than_latest_def intro: le_less_trans)
qed

lemma history_ok_init [inv_simps]: "history_ok FrameHistory_init"
  by (simp add: history_ok_def FrameHistory_inv_init) (simp add: FrameHistory_init_def FrameHistory_sorted_def)

lemma history_ok_add:
  assumes "history_ok h" "newer_than_latest h f"
  shows "history_ok (FrameHistory_add f h)" and "frameId f \<notin> frameId ` set (hHistory h)"
proof -
  note newer = newer_than_all [OF assms]
  from newer(1) show new: "frameId f \<notin> frameId ` set (hHistory h)" by force
  have "FrameHistory_inv h" "FrameHistory_sorted h"
    using assms(1) by (simp_all add: history_ok_def)
  then have "FrameHistory_inv (FrameHistory_add f h)" "FrameHistory_sorted (FrameHistory_add f h)"
    using new newer(1) fh.invar_add fh.sorted_add(1) by blast+
  then show "history_ok (FrameHistory_add f h)"
    using assms(1) newer(2)
    by (auto simp: history_ok_def FrameHistory_add_def sorted_wrt_append)
qed

lemma history_ok_remove:
  assumes "history_ok h" "FrameHistory_latestFrameId h \<noteq> Some i"
  shows "history_ok (FrameHistory_remove i h)"
proof -
  have inv: "FrameHistory_inv h" "FrameHistory_sorted h"
    using assms(1) by (simp_all add: history_ok_def)
  have entries: "hHistory (FrameHistory_remove i h) = filter (\<lambda>f. frameId f \<noteq> i) (hHistory h)"
    using inv(1) by (rule fh.entries_remove)
  have latest: "hLatestFrame (FrameHistory_remove i h) = hLatestFrame h"
    by (simp add: FrameHistory_remove_def)
  have last: "frameId (last (hHistory h)) \<noteq> i" if "hHistory h \<noteq> []"
    using assms that by (auto simp: history_ok_def FrameHistory_latestFrameId_def)
  then have "(filter (\<lambda>f. frameId f \<noteq> i) (hHistory h) = []) = (hHistory h = [])"
    using last_in_set by (fastforce simp: filter_empty_conv)
  then show ?thesis
    using assms(1) inv last fh.invar_remove fh.sorted_remove
    by (auto simp: history_ok_def entries latest sorted_wrt_map sorted_wrt_filter last_filter)
qed

section \<open>History, queue and lifecycles agree\<close>

definition live :: "FrameLifecycleState option \<Rightarrow> bool" where
  "live x \<longleftrightarrow> x \<in> Some ` {ReadyForConsumer, DispatchedToConsumer, Consumed, Failed}"

lemma live_simps [simp]:
  "live (Some ReadyForConsumer)" "live (Some DispatchedToConsumer)" "live (Some Consumed)"
  "live (Some Failed)" "\<not> live None" "\<not> live (Some Invalid)" "\<not> live (Some Dropped)"
  by (simp_all add: live_def)

definition frames_linked ::
    "Frame list \<Rightarrow> Frame list \<Rightarrow> FrameId set \<Rightarrow> (FrameId \<Rightarrow> FrameLifecycleState option) \<Rightarrow> bool" where
  "frames_linked hist pend infl st \<longleftrightarrow>
     set pend \<subseteq> set hist
     \<and> (\<forall>i. i \<in> frameId ` set pend \<longleftrightarrow> st i = Some ReadyForConsumer)
     \<and> (\<forall>i. i \<in> infl \<longleftrightarrow> st i = Some DispatchedToConsumer)
     \<and> (\<forall>i. i \<in> frameId ` set hist \<longleftrightarrow> live (st i))
     \<and> st 0 = None"

lemma frames_linkedI:
  assumes "set pend \<subseteq> set hist"
    and "\<And>i. i \<in> frameId ` set pend \<longleftrightarrow> st i = Some ReadyForConsumer"
    and "\<And>i. i \<in> infl \<longleftrightarrow> st i = Some DispatchedToConsumer"
    and "\<And>i. i \<in> frameId ` set hist \<longleftrightarrow> live (st i)"
    and "st 0 = None"
  shows "frames_linked hist pend infl st"
  using assms by (simp add: frames_linked_def)

lemma frames_linkedD:
  assumes "frames_linked hist pend infl st"
  shows "set pend \<subseteq> set hist"
    and "i \<in> frameId ` set pend \<longleftrightarrow> st i = Some ReadyForConsumer"
    and "i \<in> infl \<longleftrightarrow> st i = Some DispatchedToConsumer"
    and "i \<in> frameId ` set hist \<longleftrightarrow> live (st i)"
    and "st 0 = None"
  using assms by (simp_all add: frames_linked_def)

lemma image_key_filter_neq: "f ` set (filter (\<lambda>x. f x \<noteq> i) xs) = f ` set xs - {i}"
  by auto

lemma stateOf_upd [inv_simps]:
  "stateOf (recordAcceptedReady i m) = (stateOf m)(i := Some ReadyForConsumer)"
  "stateOf m i \<noteq> None \<Longrightarrow> stateOf (markDispatched i m) = (stateOf m)(i := Some DispatchedToConsumer)"
  "stateOf m i \<noteq> None \<Longrightarrow> stateOf (markConsumed i m) = (stateOf m)(i := Some Consumed)"
  "stateOf m i \<noteq> None \<Longrightarrow> stateOf (markFailed i m) = (stateOf m)(i := Some Failed)"
  "stateOf m i \<noteq> None \<Longrightarrow> stateOf (markDropped i m) = (stateOf m)(i := Some Dropped)"
  by (auto simp: fun_eq_iff inv_simps)

lemma linked_accept:
  assumes "frames_linked hist pend infl st" "frameId f \<notin> frameId ` set hist" "frameId f \<noteq> 0"
  shows "frames_linked (hist @ [f]) (pend @ [f]) infl (st(frameId f := Some ReadyForConsumer))"
proof (rule frames_linkedI)
  note d = frames_linkedD [OF assms(1)]
  have dead: "\<not> live (st (frameId f))" using assms(2) d(4) by blast
  show "set (pend @ [f]) \<subseteq> set (hist @ [f])" using d(1) by auto
  fix i
  show "i \<in> frameId ` set (pend @ [f])
      \<longleftrightarrow> (st(frameId f := Some ReadyForConsumer)) i = Some ReadyForConsumer"
    using d(2) [of i] by auto
  show "i \<in> infl \<longleftrightarrow> (st(frameId f := Some ReadyForConsumer)) i = Some DispatchedToConsumer"
    using d(3) [of i] dead by auto
  show "i \<in> frameId ` set (hist @ [f]) \<longleftrightarrow> live ((st(frameId f := Some ReadyForConsumer)) i)"
    using d(4) [of i] by auto
qed (use frames_linkedD(5) [OF assms(1)] assms(3) in simp)

lemma linked_reject:
  assumes "frames_linked hist pend infl (stateOf m)"
  shows "frames_linked hist pend infl (stateOf (recordInvalid i m))"
  by (rule frames_linkedI) (use frames_linkedD [OF assms] in \<open>simp_all add: stateOf_recordInvalid\<close>)

lemma linked_dispatch:
  assumes "frames_linked hist (f # fs) infl st" "frameId f \<notin> frameId ` set fs"
  shows "frames_linked hist fs (insert (frameId f) infl)
    (st(frameId f := Some DispatchedToConsumer))"
proof (rule frames_linkedI)
  note d = frames_linkedD [OF assms(1)]
  show "set fs \<subseteq> set hist" using d(1) by simp
  have ready: "st (frameId f) = Some ReadyForConsumer" using d(2) [of "frameId f"] by simp
  fix i
  show "i \<in> frameId ` set fs
      \<longleftrightarrow> (st(frameId f := Some DispatchedToConsumer)) i = Some ReadyForConsumer"
    using d(2) [of i] assms(2) by auto
  show "i \<in> insert (frameId f) infl
      \<longleftrightarrow> (st(frameId f := Some DispatchedToConsumer)) i = Some DispatchedToConsumer"
    using d(3) [of i] by simp
  show "i \<in> frameId ` set hist \<longleftrightarrow> live ((st(frameId f := Some DispatchedToConsumer)) i)"
    using d(4) [of i] ready by simp
  show "(st(frameId f := Some DispatchedToConsumer)) 0 = None" using d(5) ready by auto
qed

lemma linked_complete:
  assumes "frames_linked hist pend infl st" "i \<in> infl" "x \<in> {Consumed, Failed}"
  shows "frames_linked hist pend (infl - {i}) (st(i := Some x))"
proof -
  note d = frames_linkedD [OF assms(1)]
  have disp: "st i = Some DispatchedToConsumer" using d(3) assms(2) by simp
  have x: "x \<noteq> ReadyForConsumer" "x \<noteq> DispatchedToConsumer" "live (Some x)"
    using assms(3) by auto
  have zero: "(st(i := Some x)) 0 = None" using d(5) disp by auto
  show ?thesis
    by (rule frames_linkedI) (use d(1) d(2-4) zero disp x in \<open>simp_all only: fun_upd_apply, auto\<close>)
qed

lemma linked_evict:
  assumes "frames_linked hist pend infl st" "st i \<noteq> Some ReadyForConsumer"
    "st i \<noteq> Some DispatchedToConsumer" "i \<in> frameId ` set hist"
  shows "frames_linked (filter (\<lambda>f. frameId f \<noteq> i) hist) pend infl (st(i := Some Dropped))"
proof (rule frames_linkedI)
  note d = frames_linkedD [OF assms(1)]
  show "set pend \<subseteq> set (filter (\<lambda>f. frameId f \<noteq> i) hist)"
    using d(1) d(2) [of i] assms(2) by auto
  fix j
  show "j \<in> frameId ` set pend \<longleftrightarrow> (st(i := Some Dropped)) j = Some ReadyForConsumer"
    using d(2) [of j] assms(2) by simp
  show "j \<in> infl \<longleftrightarrow> (st(i := Some Dropped)) j = Some DispatchedToConsumer"
    using d(3) [of j] assms(3) by simp
  show "j \<in> frameId ` set (filter (\<lambda>f. frameId f \<noteq> i) hist) \<longleftrightarrow> live ((st(i := Some Dropped)) j)"
    unfolding image_key_filter_neq using d(4) [of j] by auto
  have "live (st i)" using assms(4) d(4) by blast
  then show "(st(i := Some Dropped)) 0 = None" using d(5) by auto
qed

lemma linked_pending_known:
  "frames_linked hist (f # fs) infl st \<Longrightarrow> st (frameId f) = Some ReadyForConsumer"
  using frames_linkedD(2) [of hist "f # fs" infl st "frameId f"] by simp

lemma linked_inFlight_known:
  "frames_linked hist pend infl st \<Longrightarrow> i \<in> infl \<Longrightarrow> st i = Some DispatchedToConsumer"
  by (simp add: frames_linkedD(3))

lemma linked_stored_known:
  "frames_linked hist pend infl st \<Longrightarrow> i \<in> frameId ` set hist \<Longrightarrow> st i \<noteq> None \<and> st i \<noteq> Some Invalid"
  using live_simps(5,6) by (metis frames_linkedD(4))

section \<open>The store\<close>

definition queue_ok ::
    "'q ring_ops \<Rightarrow> ('q \<Rightarrow> bool) \<Rightarrow> ('q \<Rightarrow> Frame list) \<Rightarrow> ('q \<Rightarrow> nat) \<Rightarrow> 'q FrameStore \<Rightarrow> bool" where
  "queue_ok ops valid elems cap s \<longleftrightarrow>
     ReadyFrameQueue_inv ops valid elems cap (fsQueue s)
     \<and> cap (rqQueue (fsQueue s)) = maxReadyFrames (fsConfig s)
     \<and> sorted_wrt (<) (map frameId (elems (rqQueue (fsQueue s))))"

definition store_linked :: "('q \<Rightarrow> Frame list) \<Rightarrow> 'q FrameStore \<Rightarrow> bool" where
  "store_linked elems s \<longleftrightarrow>
     frames_linked (hHistory (fsHistory s)) (elems (rqQueue (fsQueue s)))
       (rqInFlightFrameIds (fsQueue s)) (stateOf (fsTracker s))"

definition counters_ok :: "'q FrameStore \<Rightarrow> bool" where
  "counters_ok s \<longleftrightarrow>
     fsDroppedCount s = fsEvictedCount s
     \<and> fsAcceptedCount s = of_nat (length (hHistory (fsHistory s))) + fsEvictedCount s"

text \<open>Everything but the bound on the history, which eviction restores.\<close>

definition FrameStore_core ::
    "'q ring_ops \<Rightarrow> ('q \<Rightarrow> bool) \<Rightarrow> ('q \<Rightarrow> Frame list) \<Rightarrow> ('q \<Rightarrow> nat) \<Rightarrow> 'q FrameStore \<Rightarrow> bool" where
  "FrameStore_core ops valid elems cap s \<longleftrightarrow>
     history_ok (fsHistory s) \<and> queue_ok ops valid elems cap s \<and> store_linked elems s
     \<and> tracker_consistent (fsTracker s) \<and> counters_ok s
     \<and> 1 \<le> maxStoredFrames (fsConfig s) \<and> 1 \<le> maxReadyFrames (fsConfig s)"

definition FrameStore_inv ::
    "'q ring_ops \<Rightarrow> ('q \<Rightarrow> bool) \<Rightarrow> ('q \<Rightarrow> Frame list) \<Rightarrow> ('q \<Rightarrow> nat) \<Rightarrow> 'q FrameStore \<Rightarrow> bool" where
  "FrameStore_inv ops valid elems cap s \<longleftrightarrow>
     FrameStore_core ops valid elems cap s
     \<and> length (hHistory (fsHistory s)) \<le> maxStoredFrames (fsConfig s)"

lemma FrameStore_inv_new:
  assumes "ring_laws ops valid elems cap"
  shows "FrameStore_inv ops valid elems cap (FrameStore_new ops config)"
  using ReadyFrameQueue_inv_new [OF assms, of "max 1 (maxReadyFrames config)"]
  by (simp add: FrameStore_inv_def FrameStore_core_def FrameStore_new_def history_ok_init
      queue_ok_def store_linked_def counters_ok_def frames_linked_def tracker_consistent_def
      stateOf_def)
    (simp add: FrameHistory_init_def)

section \<open>Eviction\<close>

lemma canEvict_iff:
  "canEvict s i \<longleftrightarrow> FrameHistory_latestFrameId (fsHistory s) \<noteq> Some i
     \<and> stateOf (fsTracker s) i \<noteq> Some ReadyForConsumer
     \<and> stateOf (fsTracker s) i \<noteq> Some DispatchedToConsumer"
  by (auto simp: canEvict_def isProtected_stateOf split: option.splits)

lemma evictFrame_core:
  assumes core: "FrameStore_core ops valid elems cap s"
    and i: "canEvict s i" "i \<in> frameId ` set (hHistory (fsHistory s))"
  shows "FrameStore_core ops valid elems cap (evictFrame i s)"
    and "Suc (length (hHistory (fsHistory (evictFrame i s)))) = length (hHistory (fsHistory s))"
    and "hHistory (fsHistory (evictFrame i s)) =
      filter (\<lambda>f. frameId f \<noteq> i) (hHistory (fsHistory s))"
proof -
  have h: "history_ok (fsHistory s)" and inv: "FrameHistory_inv (fsHistory s)"
    and link: "store_linked elems s"
    using core by (simp_all add: FrameStore_core_def history_ok_def)
  show hist: "hHistory (fsHistory (evictFrame i s)) =
      filter (\<lambda>f. frameId f \<noteq> i) (hHistory (fsHistory s))"
    using fh.entries_remove [OF inv] by (simp add: evictFrame_def)
  show len: "Suc (length (hHistory (fsHistory (evictFrame i s)))) = length (hHistory (fsHistory s))"
    using fh.length_remove [OF inv] i(2) by (auto simp: evictFrame_def)
  have known: "stateOf (fsTracker s) i \<noteq> None \<and> stateOf (fsTracker s) i \<noteq> Some Invalid"
    using link i(2) unfolding store_linked_def by (rule linked_stored_known)
  have "history_ok (fsHistory (evictFrame i s))"
    using history_ok_remove [OF h] i(1) by (simp add: evictFrame_def canEvict_iff)
  moreover have "store_linked elems (evictFrame i s)"
    using linked_evict [OF link [unfolded store_linked_def]] i known hist
    by (simp add: store_linked_def canEvict_iff evictFrame_def stateOf_upd)
  moreover have "tracker_consistent (fsTracker (evictFrame i s))"
    using core known by (simp add: FrameStore_core_def evictFrame_def tracker_consistent_ops
        not_invalid_def)
  moreover have "counters_ok (evictFrame i s)"
  proof -
    have "(of_nat (length (hHistory (fsHistory s))) :: u64) =
        of_nat (length (hHistory (fsHistory (evictFrame i s)))) + 1"
      unfolding len [symmetric] by simp
    then show ?thesis
      using core by (simp add: FrameStore_core_def counters_ok_def evictFrame_def)
  qed
  ultimately show "FrameStore_core ops valid elems cap (evictFrame i s)"
    using core by (simp add: FrameStore_core_def queue_ok_def evictFrame_def)
qed

lemma evictOldFrames_core:
  "FrameStore_core ops valid elems cap s \<Longrightarrow>
     FrameStore_core ops valid elems cap (evictOldFramesLocked s)
     \<and> fsQueue (evictOldFramesLocked s) = fsQueue s
     \<and> fsConfig (evictOldFramesLocked s) = fsConfig s
     \<and> hLatestFrame (fsHistory (evictOldFramesLocked s)) = hLatestFrame (fsHistory s)"
proof (induction s rule: evictOldFramesLocked.induct)
  case (1 s)
  show ?case
  proof (cases "FrameHistory_size (fsHistory s) > maxStoredFrames (fsConfig s)
      \<and> FrameHistory_findOldestEvictable (fsHistory s) (canEvict s) \<noteq> None")
    case True
    then obtain i where
      i: "FrameHistory_findOldestEvictable (fsHistory s) (canEvict s) = Some i" by blast
    then have "i \<in> frameId ` set (hHistory (fsHistory s))" "canEvict s i"
      using findOldest_SomeD by (auto simp: FrameHistory_findOldestEvictable_def)
    then have "FrameStore_core ops valid elems cap (evictFrame i s)"
      using evictFrame_core(1) 1(2) by blast
    moreover have "evictOldFramesLocked s = evictOldFramesLocked (evictFrame i s)"
      using True i by (subst evictOldFramesLocked.simps) simp
    ultimately show ?thesis
      using 1(1) [OF _ i] True by (simp add: evictFrame_def FrameHistory_remove_def)
  next
    case False
    then have "evictOldFramesLocked s = s"
      by (subst evictOldFramesLocked.simps) (auto split: option.splits)
    then show ?thesis using 1(2) by simp
  qed
qed

text \<open>Within the bound the loop does nothing; one frame over it, it removes one evictable frame.\<close>

lemma evictOldFrames_noop:
  "length (hHistory (fsHistory s)) \<le> maxStoredFrames (fsConfig s) \<Longrightarrow> evictOldFramesLocked s = s"
  by (subst evictOldFramesLocked.simps) (simp add: FrameHistory_size_def)

lemma evictOldFrames_one:
  assumes core: "FrameStore_core ops valid elems cap s"
    and len: "length (hHistory (fsHistory s)) = Suc (maxStoredFrames (fsConfig s))"
    and f: "f \<in> set (hHistory (fsHistory s))" "canEvict s (frameId f)"
  obtains i where "FrameHistory_findOldestEvictable (fsHistory s) (canEvict s) = Some i"
    "canEvict s i" "i \<in> frameId ` set (hHistory (fsHistory s))"
    "evictOldFramesLocked s = evictFrame i s"
proof -
  obtain i where i: "FrameHistory_findOldestEvictable (fsHistory s) (canEvict s) = Some i"
    using f findOldest_None [of "canEvict s" "hHistory (fsHistory s)"]
    by (fastforce simp: FrameHistory_findOldestEvictable_def)
  then have mem: "i \<in> frameId ` set (hHistory (fsHistory s))" "canEvict s i"
    using findOldest_SomeD by (auto simp: FrameHistory_findOldestEvictable_def)
  have "evictOldFramesLocked s = evictOldFramesLocked (evictFrame i s)"
    using i len by (subst evictOldFramesLocked.simps) (simp add: FrameHistory_size_def)
  also have "\<dots> = evictFrame i s"
    using evictFrame_core(2) [OF core mem(2,1)] len
    by (intro evictOldFrames_noop) (simp add: evictFrame_def)
  finally show thesis using that i mem by blast
qed

section \<open>Submission\<close>

lemma submissionContext_newer:
  assumes "frame_admissible f (submissionContext s)"
  shows "newer_than_latest (fsHistory s) f" "frameId f \<noteq> 0"
  using assms
  by (auto simp: frame_admissible_def submissionContext_def newer_than_latest_def
      FrameHistory_latestFrameId_def FrameHistory_latestTimestamp_def)

lemma recordStatusLocked_simps [simp]:
  "fsHistory (recordStatusLocked r s) = fsHistory s"
  "fsQueue (recordStatusLocked r s) = fsQueue s"
  "fsTracker (recordStatusLocked r s) = fsTracker s"
  "fsConfig (recordStatusLocked r s) = fsConfig s"
  "fsAcceptedCount (recordStatusLocked r s) = fsAcceptedCount s"
  "fsRejectedCount (recordStatusLocked r s) = fsRejectedCount s"
  "fsDroppedCount (recordStatusLocked r s) = fsDroppedCount s"
  "fsEvictedCount (recordStatusLocked r s) = fsEvictedCount s"
  by (simp_all add: recordStatusLocked_def)

lemma recordRejectedFrameLocked_simps [simp]:
  "fsHistory (recordRejectedFrameLocked f r s) = fsHistory s"
  "fsQueue (recordRejectedFrameLocked f r s) = fsQueue s"
  "fsTracker (recordRejectedFrameLocked f r s) = recordInvalid (frameId f) (fsTracker s)"
  "fsConfig (recordRejectedFrameLocked f r s) = fsConfig s"
  "fsAcceptedCount (recordRejectedFrameLocked f r s) = fsAcceptedCount s"
  "fsRejectedCount (recordRejectedFrameLocked f r s) = fsRejectedCount s + 1"
  "fsDroppedCount (recordRejectedFrameLocked f r s) = fsDroppedCount s"
  "fsEvictedCount (recordRejectedFrameLocked f r s) = fsEvictedCount s"
  by (simp_all add: recordRejectedFrameLocked_def)

lemma FrameStore_core_recordStatus [simp]:
  "FrameStore_core ops valid elems cap (recordStatusLocked r s) = FrameStore_core ops valid elems cap s"
  by (simp add: FrameStore_core_def queue_ok_def store_linked_def counters_ok_def)

lemma FrameStore_inv_recordStatus [simp]:
  "FrameStore_inv ops valid elems cap (recordStatusLocked r s) = FrameStore_inv ops valid elems cap s"
  by (simp add: FrameStore_inv_def)

lemma FrameStore_inv_reject:
  assumes "FrameStore_inv ops valid elems cap s"
  shows "FrameStore_inv ops valid elems cap (recordRejectedFrameLocked f r s)"
  using assms linked_reject tracker_consistent_ops(2)
  by (auto simp: FrameStore_inv_def FrameStore_core_def queue_ok_def store_linked_def counters_ok_def)

text \<open>The state between the admission of a frame and the eviction.\<close>

definition admitted :: "Frame \<Rightarrow> 'q ReadyFrameQueue \<Rightarrow> 'q FrameStore \<Rightarrow> 'q FrameStore" where
  "admitted f q s =
     s\<lparr>fsQueue := q, fsTracker := recordAcceptedReady (frameId f) (fsTracker s),
       fsHistory := FrameHistory_add f (fsHistory s), fsAcceptedCount := fsAcceptedCount s + 1\<rparr>"

lemma acceptFrame_admitted:
  "acceptFrame f r (s\<lparr>fsQueue := q\<rparr>) = recordStatusLocked r (evictOldFramesLocked (admitted f q s))"
  by (simp add: acceptFrame_def admitted_def)

lemma admitted_core:
  assumes inv: "FrameStore_inv ops valid elems cap s"
    and adm: "frame_admissible f (submissionContext s)"
    and enq: "ReadyFrameQueue_tryEnqueue ops f (fsQueue s) = (q, True)"
  shows "FrameStore_core ops valid elems cap (admitted f q s)"
proof -
  have core: "FrameStore_core ops valid elems cap s" using inv by (simp add: FrameStore_inv_def)
  then have h: "history_ok (fsHistory s)" and link: "store_linked elems s"
    and rq: "ReadyFrameQueue_inv ops valid elems cap (fsQueue s)"
    by (simp_all add: FrameStore_core_def queue_ok_def)
  note newer = submissionContext_newer [OF adm]
  note hist = history_ok_add [OF h newer(1)]
  have sub: "set (elems (rqQueue (fsQueue s))) \<subseteq> set (hHistory (fsHistory s))"
    using link unfolding store_linked_def by (rule frames_linkedD(1))
  then have new: "frameId f \<notin> frameId ` set (elems (rqQueue (fsQueue s)))"
    using hist(2) by blast
  have q: "ReadyFrameQueue_inv ops valid elems cap q"
    "elems (rqQueue q) = elems (rqQueue (fsQueue s)) @ [f]"
    "rqInFlightFrameIds q = rqInFlightFrameIds (fsQueue s)"
    "cap (rqQueue q) = cap (rqQueue (fsQueue s))"
    using rq_try.enqueue_invar [OF rq new] rq_try.enqueue_pending [OF rq, of f]
      rq_try.enqueue_inFlight [OF rq, of f] rq_try.enqueue_capacity [OF rq, of f] enq
    by simp_all
  have less: "frameId g < frameId f" if "g \<in> set (elems (rqQueue (fsQueue s)))" for g
    using newer_than_all(1) [OF h newer(1)] that sub by blast
  have "queue_ok ops valid elems cap (admitted f q s)"
    using core q less
    by (auto simp: FrameStore_core_def queue_ok_def admitted_def sorted_wrt_append)
  moreover have "store_linked elems (admitted f q s)"
    using linked_accept [OF link [unfolded store_linked_def] hist(2) newer(2)] q
    by (simp add: store_linked_def admitted_def FrameHistory_add_def stateOf_upd)
  moreover have "tracker_consistent (fsTracker (admitted f q s))"
    using core by (simp add: FrameStore_core_def admitted_def tracker_consistent_ops)
  moreover have "counters_ok (admitted f q s)"
    using core by (simp add: FrameStore_core_def counters_ok_def admitted_def FrameHistory_add_def)
  ultimately show ?thesis
    using core hist(1) by (simp add: FrameStore_core_def admitted_def)
qed

text \<open>A full store that passed validation has a frame the eviction can take.\<close>

lemma admitted_evictable:
  assumes inv: "FrameStore_inv ops valid elems cap s"
    and adm: "frame_admissible f (submissionContext s)"
    and full: "length (hHistory (fsHistory s)) = maxStoredFrames (fsConfig s)"
  obtains g where "g \<in> set (hHistory (fsHistory s))" "canEvict (admitted f q s) (frameId g)"
proof -
  have h: "history_ok (fsHistory s)"
    using inv by (simp add: FrameStore_inv_def FrameStore_core_def)
  have "FrameHistory_findOldestEvictable (fsHistory s)
      (\<lambda>i. \<not> isProtectedFromEviction (fsTracker s) i) \<noteq> None"
    using adm full by (simp add: frame_admissible_def submissionContext_def FrameHistory_size_def)
  then obtain g where g: "g \<in> set (hHistory (fsHistory s))"
    "\<not> isProtectedFromEviction (fsTracker s) (frameId g)"
    by (auto simp: FrameHistory_findOldestEvictable_def findOldest_None)
  have "frameId g \<noteq> frameId f"
    using history_ok_add(2) [OF h submissionContext_newer(1) [OF adm]] g(1) by (metis image_eqI)
  then have "canEvict (admitted f q s) (frameId g)"
    using g(2)
    by (auto simp: canEvict_iff isProtected_stateOf admitted_def stateOf_upd
        FrameHistory_latestFrameId_def FrameHistory_add_def)
  then show thesis using that g(1) by blast
qed

text \<open>The three outcomes of a submission.\<close>

lemma submitFrame_cases:
  assumes inv: "FrameStore_inv ops valid elems cap s"
  obtains (rejected) "\<not> frame_admissible f (submissionContext s)"
      "submitFrame ops f s = (recordRejectedFrameLocked f (validate f (submissionContext s)) s,
         validate f (submissionContext s))"
    | (queue_full) q where "frame_admissible f (submissionContext s)"
      "ReadyFrameQueue_tryEnqueue ops f (fsQueue s) = (q, False)"
      "length (elems (rqQueue (fsQueue s))) = maxReadyFrames (fsConfig s)"
      "submitFrame ops f s =
        (recordRejectedFrameLocked f
           (makeResult ReadyFrameQueueFull (frameId f) ''Ready frame queue is full'')
           (s\<lparr>fsQueue := q\<rparr>),
         makeResult ReadyFrameQueueFull (frameId f) ''Ready frame queue is full'')"
    | (accept) q where "frame_admissible f (submissionContext s)"
      "ReadyFrameQueue_tryEnqueue ops f (fsQueue s) = (q, True)"
      "length (elems (rqQueue (fsQueue s))) < maxReadyFrames (fsConfig s)"
      "elems (rqQueue q) = elems (rqQueue (fsQueue s)) @ [f]"
      "rqInFlightFrameIds q = rqInFlightFrameIds (fsQueue s)"
      "submitFrame ops f s =
        (recordStatusLocked (validate f (submissionContext s))
           (evictOldFramesLocked (admitted f q s)), validate f (submissionContext s))"
proof -
  have rq: "ReadyFrameQueue_inv ops valid elems cap (fsQueue s)"
    and cap: "cap (rqQueue (fsQueue s)) = maxReadyFrames (fsConfig s)"
    using inv by (simp_all add: FrameStore_inv_def FrameStore_core_def queue_ok_def)
  obtain q ok where e: "ReadyFrameQueue_tryEnqueue ops f (fsQueue s) = (q, ok)" by fastforce
  show thesis
  proof (cases "frame_admissible f (submissionContext s)")
    case False
    then show thesis
      using rejected by (simp add: submitFrame_def validate_accepted_iff Let_def)
  next
    case adm: True
    show thesis
    proof (cases ok)
      case False
      then show thesis
        using queue_full [OF adm] e cap rq_try.enqueue_full [OF rq, of f] adm
        by (simp add: submitFrame_def validate_accepted_iff Let_def)
    next
      case True
      then show thesis
        using accept [OF adm] e cap rq_try.enqueue_result [OF rq, of f]
          rq_try.enqueue_pending [OF rq, of f] rq_try.enqueue_inFlight [OF rq, of f] adm
        by (simp add: submitFrame_def validate_accepted_iff acceptFrame_admitted Let_def)
    qed
  qed
qed

lemma enqueue_fail_same:
  assumes inv: "FrameStore_inv ops valid elems cap s"
    and e: "ReadyFrameQueue_tryEnqueue ops f (fsQueue s) = (q, False)"
    and new: "frameId f \<notin> frameId ` set (elems (rqQueue (fsQueue s)))"
  shows "FrameStore_inv ops valid elems cap (s\<lparr>fsQueue := q\<rparr>)"
    and "elems (rqQueue q) = elems (rqQueue (fsQueue s))"
    and "rqInFlightFrameIds q = rqInFlightFrameIds (fsQueue s)"
proof -
  have rq: "ReadyFrameQueue_inv ops valid elems cap (fsQueue s)"
    using inv by (simp add: FrameStore_inv_def FrameStore_core_def queue_ok_def)
  have q: "ReadyFrameQueue_inv ops valid elems cap q"
    "elems (rqQueue q) = elems (rqQueue (fsQueue s))"
    "rqInFlightFrameIds q = rqInFlightFrameIds (fsQueue s)"
    "cap (rqQueue q) = cap (rqQueue (fsQueue s))"
    using rq_try.enqueue_invar [OF rq new] rq_try.enqueue_pending [OF rq, of f]
      rq_try.enqueue_inFlight [OF rq, of f] rq_try.enqueue_capacity [OF rq, of f] e
    by simp_all
  then show "elems (rqQueue q) = elems (rqQueue (fsQueue s))"
    "rqInFlightFrameIds q = rqInFlightFrameIds (fsQueue s)" by simp_all
  show "FrameStore_inv ops valid elems cap (s\<lparr>fsQueue := q\<rparr>)"
    using inv q by (simp add: FrameStore_inv_def FrameStore_core_def queue_ok_def store_linked_def
        counters_ok_def)
qed

lemma FrameStore_inv_submit:
  assumes inv: "FrameStore_inv ops valid elems cap s"
  shows "FrameStore_inv ops valid elems cap (fst (submitFrame ops f s))"
proof (cases rule: submitFrame_cases [OF inv, of f, case_names rejected queue_full accept])
  case rejected
  then show ?thesis using FrameStore_inv_reject [OF inv] by simp
next
  case (queue_full q)
  have h: "history_ok (fsHistory s)" and link: "store_linked elems s"
    using inv by (simp_all add: FrameStore_inv_def FrameStore_core_def)
  have "frameId f \<notin> frameId ` set (hHistory (fsHistory s))"
    using history_ok_add(2) [OF h] submissionContext_newer(1) [OF queue_full(1)] by blast
  then have "frameId f \<notin> frameId ` set (elems (rqQueue (fsQueue s)))"
    using frames_linkedD(1) [OF link [unfolded store_linked_def]] by blast
  then show ?thesis
    using queue_full enqueue_fail_same(1) [OF inv] FrameStore_inv_reject by (metis fst_conv)
next
  case (accept q)
  let ?s = "admitted f q s"
  note core = admitted_core [OF inv accept(1,2)]
  have cfg: "fsConfig ?s = fsConfig s"
    and hist: "hHistory (fsHistory ?s) = hHistory (fsHistory s) @ [f]"
    by (simp_all add: admitted_def FrameHistory_add_def)
  have "length (hHistory (fsHistory (evictOldFramesLocked ?s))) \<le> maxStoredFrames (fsConfig s)"
  proof (cases "length (hHistory (fsHistory s)) < maxStoredFrames (fsConfig s)")
    case True
    then show ?thesis using hist cfg evictOldFrames_noop [of ?s] by simp
  next
    case False
    then have full: "length (hHistory (fsHistory s)) = maxStoredFrames (fsConfig s)"
      using inv by (simp add: FrameStore_inv_def)
    obtain g where g: "g \<in> set (hHistory (fsHistory s))" "canEvict ?s (frameId g)"
      using admitted_evictable [OF inv accept(1) full] by blast
    then have "g \<in> set (hHistory (fsHistory ?s))" using hist by simp
    then obtain i where "canEvict ?s i" "i \<in> frameId ` set (hHistory (fsHistory ?s))"
      "evictOldFramesLocked ?s = evictFrame i ?s"
      using evictOldFrames_one [OF core] full hist cfg g(2)
      by (metis length_append_singleton)
    then show ?thesis using evictFrame_core(2) [OF core] full hist
      by (metis Suc_le_mono eq_refl length_append_singleton)
  qed
  then show ?thesis
    using accept(6) evictOldFrames_core [OF core] cfg by (simp add: FrameStore_inv_def)
qed

section \<open>Dequeuing\<close>

definition dispatched :: "Frame \<Rightarrow> 'q ReadyFrameQueue \<Rightarrow> 'q FrameStore \<Rightarrow> 'q FrameStore" where
  "dispatched f q s = FrameStore_markDispatched f (s\<lparr>fsQueue := q\<rparr>)"

lemma FrameStore_inv_queue:
  "FrameStore_inv ops valid elems cap s \<Longrightarrow> ReadyFrameQueue_inv ops valid elems cap (fsQueue s)"
  by (simp add: FrameStore_inv_def FrameStore_core_def queue_ok_def)

lemma dispatchTaken_take:
  assumes contract: "ready_queue (ReadyFrameQueue_tryEnqueue ops) deq ReadyFrameQueue_markCompleted
      (\<lambda>q. elems (rqQueue q)) rqInFlightFrameIds (\<lambda>q. cap (rqQueue q))
      (ReadyFrameQueue_inv ops valid elems cap)"
    and inv: "FrameStore_inv ops valid elems cap s"
    and r: "r = deq (fsQueue s)"
  shows "FrameStore_inv ops valid elems cap (fst (dispatchTaken s r))"
    and "snd (dispatchTaken s r) = (case elems (rqQueue (fsQueue s)) of [] \<Rightarrow> None | f # _ \<Rightarrow> Some f)"
    and "fsHistory (fst (dispatchTaken s r)) = fsHistory s"
    and "elems (rqQueue (fsQueue (fst (dispatchTaken s r)))) = tl (elems (rqQueue (fsQueue s)))"
    and "rqInFlightFrameIds (fsQueue (fst (dispatchTaken s r))) =
      rqInFlightFrameIds (fsQueue s) \<union> frameId ` set_option (snd (dispatchTaken s r))"
    and "fsConfig (fst (dispatchTaken s r)) = fsConfig s"
proof -
  note rq = FrameStore_inv_queue [OF inv]
  note q = ready_queue.dequeue_invar [OF contract rq, folded r]
  note res = ready_queue.dequeue_result [OF contract rq, folded r]
  note el = ready_queue.dequeue_pending [OF contract rq, folded r]
  note infl = ready_queue.dequeue_inFlight [OF contract rq, folded r]
  note cap = ready_queue.dequeue_capacity [OF contract rq, folded r]
  obtain q' r' where r: "r = (q', r')" by fastforce
  have core: "history_ok (fsHistory s)" "queue_ok ops valid elems cap s" "store_linked elems s"
    "tracker_consistent (fsTracker s)" "counters_ok s"
    using inv by (simp_all add: FrameStore_inv_def FrameStore_core_def)
  have queue: "fsQueue (fst (dispatchTaken s r)) = fst r" and snd: "snd (dispatchTaken s r) = snd r"
    by (simp_all add: r dispatchTaken_def FrameStore_markDispatched_def split: option.split)
  show "fsHistory (fst (dispatchTaken s r)) = fsHistory s"
    "fsConfig (fst (dispatchTaken s r)) = fsConfig s"
    by (simp_all add: r dispatchTaken_def FrameStore_markDispatched_def split: option.split)
  show "snd (dispatchTaken s r) = (case elems (rqQueue (fsQueue s)) of [] \<Rightarrow> None | f # _ \<Rightarrow> Some f)"
    "elems (rqQueue (fsQueue (fst (dispatchTaken s r)))) = tl (elems (rqQueue (fsQueue s)))"
    "rqInFlightFrameIds (fsQueue (fst (dispatchTaken s r))) =
      rqInFlightFrameIds (fsQueue s) \<union> frameId ` set_option (snd (dispatchTaken s r))"
    using res el infl by (simp_all add: queue snd)
  show "FrameStore_inv ops valid elems cap (fst (dispatchTaken s r))"
  proof (cases "elems (rqQueue (fsQueue s))")
    case Nil
    then show ?thesis
      using inv q res el infl cap
      by (simp add: r dispatchTaken_def FrameStore_inv_def FrameStore_core_def queue_ok_def
          store_linked_def counters_ok_def)
  next
    case (Cons f fs)
    have link: "frames_linked (hHistory (fsHistory s)) (f # fs) (rqInFlightFrameIds (fsQueue s))
        (stateOf (fsTracker s))"
      using core(3) Cons by (simp add: store_linked_def)
    note ready = linked_pending_known [OF link]
    have "frameId f \<notin> frameId ` set fs"
      using core(2) Cons by (auto simp: queue_ok_def)
    then have "store_linked elems (fst (dispatchTaken s r))"
      using linked_dispatch [OF link] ready Cons res el infl
      by (simp add: r dispatchTaken_def FrameStore_markDispatched_def store_linked_def stateOf_upd)
    moreover have "queue_ok ops valid elems cap (fst (dispatchTaken s r))"
      using core(2) q el cap Cons res
      by (simp add: r dispatchTaken_def FrameStore_markDispatched_def queue_ok_def)
    moreover have "tracker_consistent (fsTracker (fst (dispatchTaken s r)))"
      using core(4) ready res Cons
      by (simp add: r dispatchTaken_def FrameStore_markDispatched_def tracker_consistent_ops
          not_invalid_def)
    ultimately show ?thesis
      using inv res Cons
      by (simp add: r FrameStore_inv_def FrameStore_core_def dispatchTaken_def
          FrameStore_markDispatched_def counters_ok_def)
  qed
qed

lemmas try_taken =
  dispatchTaken_take [where ops = ops and deq = "ReadyFrameQueue_tryDequeue ops"
      and valid = valid and elems = elems and cap = cap,
    OF rq_try.ready_queue_axioms _ refl, folded tryDequeueReadyFrame_def] for ops valid elems cap

lemmas wait_taken =
  dispatchTaken_take [where ops = ops and deq = "ReadyFrameQueue_waitDequeueTimed ops t"
      and valid = valid and elems = elems and cap = cap,
    OF rq_wait.ready_queue_axioms _ refl, folded waitDequeueReadyFrame_def] for ops t valid elems cap

lemma blockingDequeueReadyFrame_Some:
  assumes "FrameStore_inv ops valid elems cap s" "blockingDequeueReadyFrame ops s = Some (s', f)"
  shows "FrameStore_inv ops valid elems cap s'"
    and "elems (rqQueue (fsQueue s)) = f # elems (rqQueue (fsQueue s'))"
    and "fsHistory s' = fsHistory s"
proof -
  let ?r = "blocking (ReadyFrameQueue_waitDequeue ops) (fsQueue s)"
  note taken = dispatchTaken_take [where valid = valid and elems = elems and cap = cap,
    OF rq_block.ready_queue_axioms assms(1) refl]
  have "dispatchTaken s ?r = (s', Some f)"
    using assms(2)
    by (auto simp: blockingDequeueReadyFrame_def blocking_def dispatchTaken_def
        split: option.splits prod.splits)
  then show "FrameStore_inv ops valid elems cap s'"
    "elems (rqQueue (fsQueue s)) = f # elems (rqQueue (fsQueue s'))" "fsHistory s' = fsHistory s"
    using taken(1-4)
    by (auto split: list.splits)
qed

section \<open>Completion\<close>

lemma markFrame_cases:
  assumes inv: "FrameStore_inv ops valid elems cap s"
  shows "markFrameConsumed i s =
      (if i \<in> rqInFlightFrameIds (fsQueue s)
       then (s\<lparr>fsQueue := fst (ReadyFrameQueue_markCompleted i (fsQueue s)),
               fsTracker := markConsumed i (fsTracker s)\<rparr>, True)
       else (s, False))"
    and "markFrameFailed i s =
      (if i \<in> rqInFlightFrameIds (fsQueue s)
       then (s\<lparr>fsQueue := fst (ReadyFrameQueue_markCompleted i (fsQueue s)),
               fsTracker := markFailed i (fsTracker s)\<rparr>, True)
       else (s, False))"
  using inv
  by (simp_all add: markFrameConsumed_def markFrameFailed_def ReadyFrameQueue_markCompleted_def
      evictOldFrames_noop FrameStore_inv_def)

lemma FrameStore_inv_completed:
  assumes inv: "FrameStore_inv ops valid elems cap s" and i: "i \<in> rqInFlightFrameIds (fsQueue s)"
    and x: "x \<in> {Consumed, Failed}"
    and m: "stateOf m = (stateOf (fsTracker s))(i := Some x)" "tracker_consistent m"
  shows "FrameStore_inv ops valid elems cap
    (s\<lparr>fsQueue := fst (ReadyFrameQueue_markCompleted i (fsQueue s)), fsTracker := m\<rparr>)"
proof -
  have rq: "ReadyFrameQueue_inv ops valid elems cap (fsQueue s)"
    and link: "store_linked elems s"
    using inv by (simp_all add: FrameStore_inv_def FrameStore_core_def queue_ok_def)
  show ?thesis
    using inv rq_try.complete_invar [OF rq, of i] m(2)
      linked_complete [OF link [unfolded store_linked_def] i x]
    by (simp add: FrameStore_inv_def FrameStore_core_def queue_ok_def store_linked_def counters_ok_def
        m(1) rq_try.complete_inFlight ReadyFrameQueue_markCompleted_def i)
qed

lemma FrameStore_inv_mark:
  assumes inv: "FrameStore_inv ops valid elems cap s"
  shows "FrameStore_inv ops valid elems cap (fst (markFrameConsumed i s))"
    and "FrameStore_inv ops valid elems cap (fst (markFrameFailed i s))"
proof -
  have con: "tracker_consistent (fsTracker s)" and link: "store_linked elems s"
    using inv by (simp_all add: FrameStore_inv_def FrameStore_core_def)
  note known = linked_inFlight_known [OF link [unfolded store_linked_def], of i]
  show "FrameStore_inv ops valid elems cap (fst (markFrameConsumed i s))"
    using FrameStore_inv_completed [OF inv, of i Consumed] known con inv
    by (simp add: markFrame_cases [OF inv] stateOf_upd tracker_consistent_ops not_invalid_def)
  show "FrameStore_inv ops valid elems cap (fst (markFrameFailed i s))"
    using FrameStore_inv_completed [OF inv, of i Failed] known con inv
    by (simp add: markFrame_cases [OF inv] stateOf_upd tracker_consistent_ops not_invalid_def)
qed

end
