(* ===== verification/FrameStoreSpec.thy ===== *)
theory FrameStoreSpec
  imports FrameStoreInvariant
begin

text \<open>
  What the frame store promises, stated without its index, its latest-frame cell, its lifecycle
  map and its counters: a bounded sequence of stored frames, the frames that wait for a consumer
  and the ids a consumer holds.  Only a frame that neither waits nor is held may be given up.  The
  model of the code refines this specification operation by operation and over whole runs.
\<close>

section \<open>The specification\<close>

record StoreSpec =
  spStored :: "Frame list"
  spWaiting :: "Frame list"
  spHeld :: "FrameId set"
  spMaxStored :: nat
  spMaxWaiting :: nat

definition spec_new :: "nat \<Rightarrow> nat \<Rightarrow> StoreSpec" where
  "spec_new maxStored maxWaiting =
     \<lparr>spStored = [], spWaiting = [], spHeld = {}, spMaxStored = max 1 maxStored,
      spMaxWaiting = max 1 maxWaiting\<rparr>"

definition spec_free :: "StoreSpec \<Rightarrow> Frame \<Rightarrow> bool" where
  "spec_free a f \<longleftrightarrow> frameId f \<notin> frameId ` set (spWaiting a) \<and> frameId f \<notin> spHeld a"

definition spec_admits :: "StoreSpec \<Rightarrow> Frame \<Rightarrow> bool" where
  "spec_admits a f \<longleftrightarrow>
     frameId f \<noteq> 0 \<and> 0 < ticks (frameTimestamp f)
     \<and> (spStored a \<noteq> [] \<longrightarrow>
          frameId (last (spStored a)) < frameId f
          \<and> frameTimestamp (last (spStored a)) < frameTimestamp f)
     \<and> hasSaneImageBytes (frameRgb f) \<and> hasSaneImageBytes (frameDepth f)
     \<and> isValidIntrinsics (frameIntrinsics f)
     \<and> (spMaxStored a \<le> length (spStored a) \<longrightarrow> list_ex (spec_free a) (spStored a))
     \<and> length (spWaiting a) < spMaxWaiting a"

fun dropFirst :: "('a \<Rightarrow> bool) \<Rightarrow> 'a list \<Rightarrow> 'a list" where
  "dropFirst P [] = []"
| "dropFirst P (x # xs) = (if P x then xs else x # dropFirst P xs)"

definition spec_submit :: "Frame \<Rightarrow> StoreSpec \<Rightarrow> StoreSpec \<times> bool" where
  "spec_submit f a =
     (if spec_admits a f then
        (a\<lparr>spStored :=
             (if length (spStored a) < spMaxStored a then spStored a
              else dropFirst (spec_free a) (spStored a)) @ [f],
           spWaiting := spWaiting a @ [f]\<rparr>, True)
      else (a, False))"

definition spec_dequeue :: "StoreSpec \<Rightarrow> StoreSpec \<times> Frame option" where
  "spec_dequeue a =
     (case spWaiting a of
        [] \<Rightarrow> (a, None)
      | f # fs \<Rightarrow> (a\<lparr>spWaiting := fs, spHeld := insert (frameId f) (spHeld a)\<rparr>, Some f))"

definition spec_complete :: "FrameId \<Rightarrow> StoreSpec \<Rightarrow> StoreSpec \<times> bool" where
  "spec_complete i a = (a\<lparr>spHeld := spHeld a - {i}\<rparr>, i \<in> spHeld a)"

section \<open>The abstraction\<close>

definition store_abs :: "('q \<Rightarrow> Frame list) \<Rightarrow> 'q FrameStore \<Rightarrow> StoreSpec" where
  "store_abs elems s =
     \<lparr>spStored = hHistory (fsHistory s), spWaiting = elems (rqQueue (fsQueue s)),
      spHeld = rqInFlightFrameIds (fsQueue s), spMaxStored = maxStoredFrames (fsConfig s),
      spMaxWaiting = maxReadyFrames (fsConfig s)\<rparr>"

lemma FrameStore_invD:
  assumes "FrameStore_inv ops valid elems cap s"
  shows "history_ok (fsHistory s)" "store_linked elems s" "queue_ok ops valid elems cap s"
    "tracker_consistent (fsTracker s)" "counters_ok s"
    "FrameStore_core ops valid elems cap s" "FrameHistory_inv (fsHistory s)"
    "length (hHistory (fsHistory s)) \<le> maxStoredFrames (fsConfig s)"
    "distinct (map frameId (hHistory (fsHistory s)))"
    "hLatestFrame (fsHistory s) =
      (if hHistory (fsHistory s) = [] then None else Some (last (hHistory (fsHistory s))))"
  using assms
  by (simp_all add: FrameStore_inv_def FrameStore_core_def history_ok_def FrameHistory_inv_def)

lemma free_unprotected:
  assumes "FrameStore_inv ops valid elems cap s"
  shows "spec_free (store_abs elems s) f \<longleftrightarrow> \<not> isProtectedFromEviction (fsTracker s) (frameId f)"
  using frames_linkedD(2,3) [OF FrameStore_invD(2) [OF assms, unfolded store_linked_def]]
  by (simp add: spec_free_def store_abs_def isProtected_stateOf)

lemma list_ex_findOldest: "list_ex (\<lambda>f. P (frameId f)) fs \<longleftrightarrow> findOldest P fs \<noteq> None"
  by (induction fs) auto

lemma admits_iff:
  assumes inv: "FrameStore_inv ops valid elems cap s"
  shows "spec_admits (store_abs elems s) f \<longleftrightarrow>
    frame_admissible f (submissionContext s)
    \<and> length (elems (rqQueue (fsQueue s))) < maxReadyFrames (fsConfig s)"
proof -
  have "list_ex (spec_free (store_abs elems s)) (hHistory (fsHistory s)) \<longleftrightarrow>
      ctxHasEvictableFrame (submissionContext s)"
    unfolding free_unprotected [OF inv, abs_def]
      list_ex_findOldest [of "\<lambda>i. \<not> isProtectedFromEviction (fsTracker s) i"]
    by (simp add: submissionContext_def FrameHistory_findOldestEvictable_def)
  then show ?thesis
    using FrameStore_invD(10) [OF inv]
    by (auto simp: spec_admits_def frame_admissible_def submissionContext_def store_abs_def
        FrameHistory_latestFrameId_def FrameHistory_latestTimestamp_def FrameHistory_size_def)
qed

section \<open>Submission\<close>

lemma dropFirst_filter:
  assumes "findOldest P fs = Some i" "distinct (map frameId fs)"
  shows "filter (\<lambda>f. frameId f \<noteq> i) fs = dropFirst (\<lambda>f. P (frameId f)) fs"
  using assms
proof (induction fs)
  case Nil
  then show ?case by simp
next
  case (Cons f fs)
  then have "i \<in> frameId ` set fs" if "\<not> P (frameId f)"
    using that findOldest_SomeD [of P fs i] by (auto split: if_splits)
  with Cons show ?case by (auto simp: filter_key_neq split: if_splits)
qed

lemma dropFirst_cong: "(\<And>x. x \<in> set xs \<Longrightarrow> P x = Q x) \<Longrightarrow> dropFirst P xs = dropFirst Q xs"
  by (induction xs) auto

lemma dropFirst_append: "list_ex P xs \<Longrightarrow> dropFirst P (xs @ ys) = dropFirst P xs @ ys"
  by (induction xs) auto

lemma accept_history:
  assumes inv: "FrameStore_inv ops valid elems cap s"
    and adm: "frame_admissible f (submissionContext s)"
    and enq: "ReadyFrameQueue_tryEnqueue ops f (fsQueue s) = (q, True)"
  shows "hHistory (fsHistory (evictOldFramesLocked (admitted f q s))) =
    (if length (hHistory (fsHistory s)) < maxStoredFrames (fsConfig s) then hHistory (fsHistory s)
     else dropFirst (spec_free (store_abs elems s)) (hHistory (fsHistory s))) @ [f]"
proof -
  let ?s = "admitted f q s" and ?h = "hHistory (fsHistory s)"
  note core = admitted_core [OF inv adm enq]
  have cfg: "fsConfig ?s = fsConfig s" and hist: "hHistory (fsHistory ?s) = ?h @ [f]"
    by (simp_all add: admitted_def FrameHistory_add_def)
  show ?thesis
  proof (cases "length ?h < maxStoredFrames (fsConfig s)")
    case True
    then show ?thesis using hist cfg evictOldFrames_noop [of ?s] by simp
  next
    case False
    then have full: "length ?h = maxStoredFrames (fsConfig s)"
      using FrameStore_invD(8) [OF inv] by simp
    obtain g where g: "g \<in> set ?h" "canEvict ?s (frameId g)"
      using admitted_evictable [OF inv adm full] by blast
    then obtain i where i: "FrameHistory_findOldestEvictable (fsHistory ?s) (canEvict ?s) = Some i"
      "canEvict ?s i" "i \<in> frameId ` set (hHistory (fsHistory ?s))"
      "evictOldFramesLocked ?s = evictFrame i ?s"
      using evictOldFrames_one [OF core] full hist cfg by (metis UnCI length_append_singleton set_append)
    have "distinct (map frameId (?h @ [f]))"
      using core hist by (simp add: FrameStore_core_def history_ok_def FrameHistory_inv_def)
    then have "hHistory (fsHistory (evictFrame i ?s)) =
        dropFirst (\<lambda>f. canEvict ?s (frameId f)) (?h @ [f])"
      unfolding evictFrame_core(3) [OF core i(2,3)] hist
      using i(1) hist by (intro dropFirst_filter) (simp_all add: FrameHistory_findOldestEvictable_def)
    moreover have "list_ex (\<lambda>f. canEvict ?s (frameId f)) ?h" using g by (auto simp: list_ex_iff)
    moreover have "canEvict ?s (frameId x) = spec_free (store_abs elems s) x" if "x \<in> set ?h" for x
    proof -
      have "frameId x \<noteq> frameId f"
        using history_ok_add(2) [OF FrameStore_invD(1) [OF inv] submissionContext_newer(1) [OF adm]]
          that by (metis image_eqI)
      then show ?thesis
        by (auto simp: canEvict_iff free_unprotected [OF inv] isProtected_stateOf admitted_def
            stateOf_upd FrameHistory_latestFrameId_def FrameHistory_add_def)
    qed
    ultimately show ?thesis
      using False i(4) by (simp add: dropFirst_append cong: dropFirst_cong)
  qed
qed

lemma submit_refines:
  assumes inv: "FrameStore_inv ops valid elems cap s"
  shows "store_abs elems (fst (submitFrame ops f s)) = fst (spec_submit f (store_abs elems s))"
    and "accepted (snd (submitFrame ops f s)) = snd (spec_submit f (store_abs elems s))"
proof -
  have "store_abs elems (fst (submitFrame ops f s)) = fst (spec_submit f (store_abs elems s))
    \<and> accepted (snd (submitFrame ops f s)) = snd (spec_submit f (store_abs elems s))"
  proof (cases rule: submitFrame_cases [OF inv, of f, case_names rejected queue_full accept])
    case rejected
    then show ?thesis
      by (simp add: spec_submit_def admits_iff [OF inv] validate_accepted_iff) (simp add: store_abs_def)
  next
    case (queue_full q)
    have "frameId f \<notin> frameId ` set (hHistory (fsHistory s))"
      using history_ok_add(2) [OF FrameStore_invD(1) [OF inv]]
        submissionContext_newer(1) [OF queue_full(1)] by blast
    then have "frameId f \<notin> frameId ` set (elems (rqQueue (fsQueue s)))"
      using frames_linkedD(1) [OF FrameStore_invD(2) [OF inv, unfolded store_linked_def]] by blast
    with queue_full enqueue_fail_same(2,3) [OF inv queue_full(2)] show ?thesis
      by (simp add: spec_submit_def admits_iff [OF inv]) (simp add: store_abs_def)
  next
    case (accept q)
    then show ?thesis
      using accept_history [OF inv accept(1,2)] evictOldFrames_core [OF admitted_core [OF inv accept(1,2)]]
      by (simp add: spec_submit_def admits_iff [OF inv] validate_accepted_iff)
        (simp add: store_abs_def admitted_def)
  qed
  then show "store_abs elems (fst (submitFrame ops f s)) = fst (spec_submit f (store_abs elems s))"
    "accepted (snd (submitFrame ops f s)) = snd (spec_submit f (store_abs elems s))" by simp_all
qed

section \<open>Dequeue and completion\<close>

lemma try_refines:
  assumes inv: "FrameStore_inv ops valid elems cap s"
  shows "store_abs elems (fst (tryDequeueReadyFrame ops s)) = fst (spec_dequeue (store_abs elems s))"
    and "snd (tryDequeueReadyFrame ops s) = snd (spec_dequeue (store_abs elems s))"
  using try_taken(2-6) [OF inv] by (auto simp: spec_dequeue_def store_abs_def split: list.splits)

lemma wait_refines:
  assumes inv: "FrameStore_inv ops valid elems cap s"
  shows "store_abs elems (fst (waitDequeueReadyFrame ops t s)) = fst (spec_dequeue (store_abs elems s))"
    and "snd (waitDequeueReadyFrame ops t s) = snd (spec_dequeue (store_abs elems s))"
  using wait_taken(2-6) [OF inv] by (auto simp: spec_dequeue_def store_abs_def split: list.splits)

lemma mark_refines:
  assumes inv: "FrameStore_inv ops valid elems cap s"
  shows "store_abs elems (fst (markFrameConsumed i s)) = fst (spec_complete i (store_abs elems s))"
    and "snd (markFrameConsumed i s) = snd (spec_complete i (store_abs elems s))"
    and "store_abs elems (fst (markFrameFailed i s)) = fst (spec_complete i (store_abs elems s))"
    and "snd (markFrameFailed i s) = snd (spec_complete i (store_abs elems s))"
  using markFrame_cases [OF inv]
  by (simp_all add: spec_complete_def store_abs_def ReadyFrameQueue_markCompleted_def)

section \<open>Runs\<close>

text \<open>
  The calls that change the store, as its clients issue them, and what each returns.  The store's
  mutex makes every call one step; \<open>FrameStoreConcurrent\<close> splits the dequeue.
\<close>

datatype store_call =
  CallSubmit Frame | CallTryDequeue | CallWaitDequeue int | CallConsumed FrameId | CallFailed FrameId

datatype store_answer = AnsSubmit bool | AnsFrame "Frame option" | AnsMark bool

fun store_call_step ::
    "'q ring_ops \<Rightarrow> store_call \<Rightarrow> 'q FrameStore \<Rightarrow> 'q FrameStore \<times> store_answer" where
  "store_call_step ops (CallSubmit f) s =
     (case submitFrame ops f s of (s', r) \<Rightarrow> (s', AnsSubmit (accepted r)))"
| "store_call_step ops CallTryDequeue s =
     (case tryDequeueReadyFrame ops s of (s', r) \<Rightarrow> (s', AnsFrame r))"
| "store_call_step ops (CallWaitDequeue t) s =
     (case waitDequeueReadyFrame ops t s of (s', r) \<Rightarrow> (s', AnsFrame r))"
| "store_call_step ops (CallConsumed i) s =
     (case markFrameConsumed i s of (s', r) \<Rightarrow> (s', AnsMark r))"
| "store_call_step ops (CallFailed i) s =
     (case markFrameFailed i s of (s', r) \<Rightarrow> (s', AnsMark r))"

fun spec_call_step :: "store_call \<Rightarrow> StoreSpec \<Rightarrow> StoreSpec \<times> store_answer" where
  "spec_call_step (CallSubmit f) a = (case spec_submit f a of (a', r) \<Rightarrow> (a', AnsSubmit r))"
| "spec_call_step CallTryDequeue a = (case spec_dequeue a of (a', r) \<Rightarrow> (a', AnsFrame r))"
| "spec_call_step (CallWaitDequeue t) a = (case spec_dequeue a of (a', r) \<Rightarrow> (a', AnsFrame r))"
| "spec_call_step (CallConsumed i) a = (case spec_complete i a of (a', r) \<Rightarrow> (a', AnsMark r))"
| "spec_call_step (CallFailed i) a = (case spec_complete i a of (a', r) \<Rightarrow> (a', AnsMark r))"

fun run_calls :: "('c \<Rightarrow> 's \<Rightarrow> 's \<times> 'a) \<Rightarrow> 'c list \<Rightarrow> 's \<Rightarrow> 's \<times> 'a list" where
  "run_calls step [] s = (s, [])"
| "run_calls step (c # cs) s =
     (case step c s of (s', x) \<Rightarrow> case run_calls step cs s' of (s'', xs) \<Rightarrow> (s'', x # xs))"

lemma call_step:
  assumes inv: "FrameStore_inv ops valid elems cap s"
  shows "FrameStore_inv ops valid elems cap (fst (store_call_step ops c s))"
    and "spec_call_step c (store_abs elems s) =
      (store_abs elems (fst (store_call_step ops c s)), snd (store_call_step ops c s))"
proof -
  show "FrameStore_inv ops valid elems cap (fst (store_call_step ops c s))"
    using FrameStore_inv_submit [OF inv] try_taken(1) [OF inv] wait_taken(1) [OF inv]
      FrameStore_inv_mark [OF inv]
    by (cases c) (auto split: prod.split simp: prod_eq_iff)
  show "spec_call_step c (store_abs elems s) =
      (store_abs elems (fst (store_call_step ops c s)), snd (store_call_step ops c s))"
    using submit_refines [OF inv] try_refines [OF inv] wait_refines [OF inv] mark_refines [OF inv]
    by (cases c) (auto split: prod.split simp: prod_eq_iff)
qed

lemma run_refines:
  "FrameStore_inv ops valid elems cap s \<Longrightarrow>
     FrameStore_inv ops valid elems cap (fst (run_calls (store_call_step ops) cs s))
     \<and> run_calls spec_call_step cs (store_abs elems s) =
        (store_abs elems (fst (run_calls (store_call_step ops) cs s)),
         snd (run_calls (store_call_step ops) cs s))"
proof (induction cs arbitrary: s)
  case Nil
  then show ?case by simp
next
  case (Cons c cs)
  obtain s' x where e: "store_call_step ops c s = (s', x)" by fastforce
  then have "FrameStore_inv ops valid elems cap s'"
    "spec_call_step c (store_abs elems s) = (store_abs elems s', x)"
    using call_step [OF Cons.prems, of c] by simp_all
  then show ?case using Cons.IH [of s'] e by (simp add: case_prod_beta)
qed

text \<open>A store as its clients see it: any run from a new one.\<close>

definition store_after ::
    "'q ring_ops \<Rightarrow> FrameStoreConfig \<Rightarrow> store_call list \<Rightarrow> 'q FrameStore" where
  "store_after ops config cs = fst (run_calls (store_call_step ops) cs (FrameStore_new ops config))"

definition store_answers ::
    "'q ring_ops \<Rightarrow> FrameStoreConfig \<Rightarrow> store_call list \<Rightarrow> store_answer list" where
  "store_answers ops config cs = snd (run_calls (store_call_step ops) cs (FrameStore_new ops config))"

lemma store_after_inv:
  assumes "ring_laws ops valid elems cap"
  shows "FrameStore_inv ops valid elems cap (store_after ops config cs)"
  using run_refines [OF FrameStore_inv_new [OF assms]] by (simp add: store_after_def)

lemma store_abs_new:
  assumes "ring_laws ops valid elems cap"
  shows "store_abs elems (FrameStore_new ops config) =
    spec_new (maxStoredFrames config) (maxReadyFrames config)"
  using ReadyFrameQueue_inv_new [OF assms, of "max 1 (maxReadyFrames config)"]
  by (simp add: store_abs_def FrameStore_new_def spec_new_def FrameHistory_init_def)

lemma run_calls_invariant:
  assumes "\<And>c a. P a \<Longrightarrow> P (fst (step c a))" "P a"
  shows "P (fst (run_calls step cs a))"
  using assms(2)
proof (induction cs arbitrary: a)
  case (Cons c cs)
  then show ?case using assms(1) [of a c] by (simp add: case_prod_beta)
qed simp

lemma store_after_config:
  assumes "ring_laws ops valid elems cap"
  shows "fsConfig (store_after ops config cs) =
    \<lparr>maxStoredFrames = max 1 (maxStoredFrames config), maxReadyFrames = max 1 (maxReadyFrames config)\<rparr>"
proof -
  let ?s = "store_after ops config cs"
  let ?P = "\<lambda>a. spMaxStored a = max 1 (maxStoredFrames config)
    \<and> spMaxWaiting a = max 1 (maxReadyFrames config)"
  have step: "?P (fst (spec_call_step c a))" if "?P a" for c a
    using that
    by (cases c) (auto simp: spec_submit_def spec_dequeue_def spec_complete_def split: list.split)
  have "store_abs elems ?s = fst (run_calls spec_call_step cs
      (spec_new (maxStoredFrames config) (maxReadyFrames config)))"
    using run_refines [OF FrameStore_inv_new [OF assms], of cs config]
    by (simp add: store_after_def store_abs_new [OF assms])
  moreover have "?P \<dots>"
    by (rule run_calls_invariant [where P = ?P]) (fact step, simp add: spec_new_def)
  ultimately have "?P (store_abs elems ?s)" by simp
  then show ?thesis by (cases "fsConfig ?s") (simp add: store_abs_def)
qed

end
