(* ===== verification/FrameStoreProperties.thy ===== *)
theory FrameStoreProperties
  imports FrameStoreSpec
begin

text \<open>
  The properties of the frame store over every run from a new store: it refines its
  specification, stays within its bounds, keeps the frames its consumers need, delivers in order
  and reports truthfully.  The ring buffer is a parameter with its documented laws; the witnesses
  run the store on the list ring.
\<close>

section \<open>Frames for the witnesses\<close>

definition sampleImage :: FrameImage where
  "sampleImage =
     \<lparr>fimgSize = \<lparr>imgWidth = 2, imgHeight = 2\<rparr>, fimgStrideBytes = 4,
      fimgBuffer = \<lparr>bufData = Some (replicate 8 0), bufByteCount = 8, bufOwner = True\<rparr>\<rparr>"

definition sampleFrame :: "FrameId \<Rightarrow> Frame" where
  "sampleFrame i =
     \<lparr>frameId = i, frameTimestamp = FrameTimestamp (uint i), frameRgb = sampleImage,
      frameDepth = sampleImage,
      frameIntrinsics = \<lparr>intrFx = f32_one, intrFy = f32_one, intrCx = f32_one, intrCy = f32_one\<rparr>\<rparr>"

lemma sampleImage_sane: "hasSaneImageBytes sampleImage"
  by (simp add: hasSaneImageBytes_def sampleImage_def isValidSize_def kMaxSaneImageDimension_def
      FrameBuffer_empty_def)

lemma sampleIntrinsics_valid: "isValidIntrinsics (frameIntrinsics (sampleFrame i))"
  unfolding isValidIntrinsics_def sampleFrame_def by simp code_simp

lemma spec_admits_sample:
  "spec_admits a (sampleFrame i) \<longleftrightarrow>
     i \<noteq> 0 \<and> (spStored a \<noteq> [] \<longrightarrow> frameId (last (spStored a)) < i
        \<and> frameTimestamp (last (spStored a)) < FrameTimestamp (uint i))
     \<and> (spMaxStored a \<le> length (spStored a) \<longrightarrow> list_ex (spec_free a) (spStored a))
     \<and> length (spWaiting a) < spMaxWaiting a"
proof -
  have "0 < uint i \<longleftrightarrow> i \<noteq> 0"
    using uint_ge_0 [of i] by (metis less_le uint_0_iff)
  then show ?thesis
    using sampleIntrinsics_valid [of i]
    by (simp add: spec_admits_def) (simp add: sampleFrame_def sampleImage_sane conj_commute)
qed

lemma frameId_sample [simp]: "frameId (sampleFrame i) = i"
  "frameTimestamp (sampleFrame i) = FrameTimestamp (uint i)"
  by (simp_all add: sampleFrame_def)

lemma FrameTimestamp_less [simp]: "FrameTimestamp a < FrameTimestamp b \<longleftrightarrow> a < b"
  by (simp add: less_FrameTimestamp_def)

text \<open>A run that accepts, delivers, completes, evicts and rejects.\<close>

definition sampleConfig :: FrameStoreConfig where
  "sampleConfig = \<lparr>maxStoredFrames = 2, maxReadyFrames = 2\<rparr>"

definition sampleCalls :: "store_call list" where
  "sampleCalls =
     [CallSubmit (sampleFrame 1), CallSubmit (sampleFrame 2), CallSubmit (sampleFrame 3),
      CallTryDequeue, CallConsumed 1, CallWaitDequeue 5, CallSubmit (sampleFrame 4)]"

lemma sample_spec_run:
  "run_calls spec_call_step sampleCalls (spec_new 2 2) =
     (\<lparr>spStored = [sampleFrame 2, sampleFrame 4], spWaiting = [sampleFrame 4], spHeld = {2},
       spMaxStored = 2, spMaxWaiting = 2\<rparr>,
      [AnsSubmit True, AnsSubmit True, AnsSubmit False, AnsFrame (Some (sampleFrame 1)),
       AnsMark True, AnsFrame (Some (sampleFrame 2)), AnsSubmit True])"
  by (simp add: sampleCalls_def spec_new_def spec_submit_def spec_admits_sample spec_dequeue_def
      spec_complete_def spec_free_def)

lemma sample_store:
  "store_abs fst (store_after list_ring sampleConfig sampleCalls) =
     \<lparr>spStored = [sampleFrame 2, sampleFrame 4], spWaiting = [sampleFrame 4], spHeld = {2},
      spMaxStored = 2, spMaxWaiting = 2\<rparr>"
  "store_answers list_ring sampleConfig sampleCalls =
     [AnsSubmit True, AnsSubmit True, AnsSubmit False, AnsFrame (Some (sampleFrame 1)),
      AnsMark True, AnsFrame (Some (sampleFrame 2)), AnsSubmit True]"
  using run_refines [OF FrameStore_inv_new [OF list_ring_laws], of sampleCalls sampleConfig]
    sample_spec_run
  by (simp_all add: store_abs_new [OF list_ring_laws] sampleConfig_def store_after_def
      store_answers_def)

lemmas sample_fields = sample_store(1) [unfolded store_abs_def, simplified]

section \<open>Refinement\<close>

text \<open>C3: Over every run of calls from a new store, the model of \<open>FrameStore\<close> (history with index,
  latest cell, lifecycle map, ready queue, counters) returns the answers of the specification and
  ends in a state that abstracts to the specification's state: admission, eviction of the oldest
  frame nobody needs, delivery and completion all follow it.\<close>

theorem store_refines_spec:
  assumes "ring_laws ops valid elems cap"
  shows "run_calls spec_call_step cs (spec_new (maxStoredFrames config) (maxReadyFrames config)) =
    (store_abs elems (store_after ops config cs), store_answers ops config cs)"
  using run_refines [OF FrameStore_inv_new [OF assms]]
  by (simp add: store_abs_new [OF assms] store_after_def store_answers_def)

theorem store_refines_spec_witness:
  "ring_laws list_ring (\<lambda>_. True) fst snd
   \<and> store_answers list_ring sampleConfig sampleCalls =
      [AnsSubmit True, AnsSubmit True, AnsSubmit False, AnsFrame (Some (sampleFrame 1)),
       AnsMark True, AnsFrame (Some (sampleFrame 2)), AnsSubmit True]"
  using store_refines_spec [OF list_ring_laws, of sampleCalls sampleConfig] sample_spec_run
    list_ring_laws
  by (simp add: sampleConfig_def)

section \<open>Bounds\<close>

text \<open>C35: The store's bounds hold after every run: the status never reports more stored or waiting
  frames than the configured capacities (raised to one), because a submission that would exceed
  them is refused or evicts exactly one frame.\<close>

theorem store_within_bounds:
  assumes "ring_laws ops valid elems cap"
  shows "stStoredFrameCount (FrameStore_getStatus ops (store_after ops config cs))
      \<le> max 1 (maxStoredFrames config)
    \<and> stReadyFrameCount (FrameStore_getStatus ops (store_after ops config cs))
      \<le> max 1 (maxReadyFrames config)"
proof -
  let ?s = "store_after ops config cs"
  note inv = store_after_inv [OF assms, of config cs]
  note d = FrameStore_invD [OF inv]
  have "ReadyFrameQueue_inv ops valid elems cap (fsQueue ?s)"
    "cap (rqQueue (fsQueue ?s)) = maxReadyFrames (fsConfig ?s)"
    using d(3) by (simp_all add: queue_ok_def)
  then have "ringSizeApprox ops (rqQueue (fsQueue ?s)) \<le> maxReadyFrames (fsConfig ?s)"
    by (simp add: ReadyFrameQueue_inv_def ring_laws_def)
  then show ?thesis
    using d(8) store_after_config [OF assms, of config cs]
    by (simp add: FrameStore_getStatus_def FrameHistory_size_def ReadyFrameQueue_sizeApprox_def)
qed

theorem store_within_bounds_witness:
  "stStoredFrameCount (FrameStore_getStatus list_ring (store_after list_ring sampleConfig sampleCalls))
     \<le> 2"
  using store_within_bounds [OF list_ring_laws, of sampleConfig sampleCalls]
  by (simp add: sampleConfig_def)

section \<open>Frames that are needed\<close>

text \<open>C4: No frame a consumer still needs is evicted: after every run each waiting frame is found
  under its id, and each id a consumer holds is found in the history.\<close>

theorem store_keeps_needed_frames:
  assumes "ring_laws ops valid elems cap"
  shows "(\<forall>f \<in> set (elems (rqQueue (fsQueue (store_after ops config cs)))).
       FrameStore_getFrame (store_after ops config cs) (frameId f) = Some f)
    \<and> (\<forall>i \<in> rqInFlightFrameIds (fsQueue (store_after ops config cs)).
       FrameStore_getFrame (store_after ops config cs) i \<noteq> None)"
proof -
  let ?s = "store_after ops config cs"
  note inv = store_after_inv [OF assms, of config cs]
  note d = FrameStore_invD [OF inv]
  note link = frames_linkedD [OF d(2) [unfolded store_linked_def]]
  have "FrameHistory_get (fsHistory ?s) (frameId f) = Some f"
    if "f \<in> set (elems (rqQueue (fsQueue ?s)))" for f
    using fh.lookup_Some_iff [OF d(7)] link(1) that by blast
  moreover have "FrameHistory_get (fsHistory ?s) i \<noteq> None"
    if "i \<in> rqInFlightFrameIds (fsQueue ?s)" for i
    using fh.lookup_None_iff [OF d(7)] link(3) [of i] link(4) [of i] that by auto
  ultimately show ?thesis by (simp add: FrameStore_getFrame_def)
qed

theorem store_keeps_needed_frames_witness:
  "FrameStore_getFrame (store_after list_ring sampleConfig sampleCalls) 4 = Some (sampleFrame 4)
   \<and> FrameStore_getFrame (store_after list_ring sampleConfig sampleCalls) 2 \<noteq> None"
  using store_keeps_needed_frames [OF list_ring_laws, of sampleConfig sampleCalls]
  by (simp add: sample_fields)

section \<open>Delivery\<close>

definition acceptedFrames :: "store_call list \<Rightarrow> store_answer list \<Rightarrow> Frame list" where
  "acceptedFrames cs ans =
     concat (map2 (\<lambda>c a. case (c, a) of (CallSubmit f, AnsSubmit True) \<Rightarrow> [f] | _ \<Rightarrow> []) cs ans)"

definition deliveredFrames :: "store_answer list \<Rightarrow> Frame list" where
  "deliveredFrames ans = concat (map (\<lambda>a. case a of AnsFrame (Some f) \<Rightarrow> [f] | _ \<Rightarrow> []) ans)"

lemma spec_delivers:
  "run_calls spec_call_step cs a = (a', ans) \<Longrightarrow>
     spWaiting a @ acceptedFrames cs ans = deliveredFrames ans @ spWaiting a'"
proof (induction cs arbitrary: a a' ans)
  case Nil
  then show ?case by (simp add: acceptedFrames_def deliveredFrames_def)
next
  case (Cons c cs)
  obtain a1 x where e: "spec_call_step c a = (a1, x)" by fastforce
  obtain xs where r: "run_calls spec_call_step cs a1 = (a', xs)" and ans: "ans = x # xs"
    using Cons.prems e by (auto split: prod.splits)
  have "spWaiting a @ acceptedFrames [c] [x] = deliveredFrames [x] @ spWaiting a1"
    using e
    by (cases c) (auto simp: acceptedFrames_def deliveredFrames_def spec_submit_def spec_dequeue_def
        spec_complete_def split: list.splits if_splits)
  moreover have "acceptedFrames (c # cs) ans = acceptedFrames [c] [x] @ acceptedFrames cs xs"
    "deliveredFrames ans = deliveredFrames [x] @ deliveredFrames xs"
    by (simp_all add: ans acceptedFrames_def deliveredFrames_def)
  ultimately show ?case using Cons.IH [OF r] by (metis append_assoc)
qed

text \<open>C5: Delivery is first in, first out, without loss or duplication: in every run the accepted
  frames, in submission order, are the frames handed to consumers followed by those waiting.\<close>

theorem store_delivers_in_order:
  assumes "ring_laws ops valid elems cap"
  shows "acceptedFrames cs (store_answers ops config cs) =
    deliveredFrames (store_answers ops config cs)
    @ elems (rqQueue (fsQueue (store_after ops config cs)))"
proof -
  have "run_calls spec_call_step cs (spec_new (maxStoredFrames config) (maxReadyFrames config)) =
      (store_abs elems (store_after ops config cs), store_answers ops config cs)"
    using run_refines [OF FrameStore_inv_new [OF assms]]
    by (simp add: store_abs_new [OF assms] store_after_def store_answers_def)
  from spec_delivers [OF this] show ?thesis by (simp add: spec_new_def store_abs_def)
qed

theorem store_delivers_in_order_witness:
  "acceptedFrames sampleCalls (store_answers list_ring sampleConfig sampleCalls) =
     [sampleFrame 1, sampleFrame 2] @ [sampleFrame 4]"
  using store_delivers_in_order [OF list_ring_laws, of sampleCalls sampleConfig]
  by (simp add: sample_store(2) sample_fields deliveredFrames_def)

section \<open>Lifecycles\<close>

text \<open>C36: The lifecycle map tells the truth after every run: a frame is ready for a consumer iff it
  waits in the queue, dispatched iff a consumer holds it, and in a live state iff the history
  stores it; every entry carries its own id and flags that agree with its state.\<close>

theorem store_lifecycles_truthful:
  assumes "ring_laws ops valid elems cap"
  shows "(isReadyForConsumer (fsTracker (store_after ops config cs)) i =
       (i \<in> frameId ` set (elems (rqQueue (fsQueue (store_after ops config cs))))))
    \<and> (stateOf (fsTracker (store_after ops config cs)) i = Some DispatchedToConsumer) =
       (i \<in> rqInFlightFrameIds (fsQueue (store_after ops config cs)))
    \<and> live (stateOf (fsTracker (store_after ops config cs)) i) =
       (FrameStore_getFrame (store_after ops config cs) i \<noteq> None)
    \<and> pred_option (\<lambda>l. lcFrameId l = i \<and> lifecycle_consistent l)
        (FrameStore_getFrameLifecycle (store_after ops config cs) i)"
proof -
  let ?s = "store_after ops config cs"
  note inv = store_after_inv [OF assms, of config cs]
  note d = FrameStore_invD [OF inv]
  note link = frames_linkedD [OF d(2) [unfolded store_linked_def]]
  have "pred_option (\<lambda>l. lcFrameId l = i \<and> lifecycle_consistent l) (tracker_get (fsTracker ?s) i)"
    using d(4) by (cases "fsTracker ?s i") (auto simp: tracker_consistent_def tracker_get_def)
  then show ?thesis
    using link(2-4) [of i] fh.lookup_None_iff [OF d(7), of i]
    by (simp add: isReady_stateOf FrameStore_getFrame_def FrameStore_getFrameLifecycle_def)
qed

theorem store_lifecycles_truthful_witness:
  "isReadyForConsumer (fsTracker (store_after list_ring sampleConfig sampleCalls)) 4
   \<and> stateOf (fsTracker (store_after list_ring sampleConfig sampleCalls)) 2 = Some DispatchedToConsumer"
  using store_lifecycles_truthful [OF list_ring_laws, of sampleConfig sampleCalls 4]
    store_lifecycles_truthful [OF list_ring_laws, of sampleConfig sampleCalls 2]
  by (simp add: sample_fields)

section \<open>The outcome of one submission\<close>

lemma accept_effect:
  assumes inv: "FrameStore_inv ops valid elems cap s"
    and acc: "accepted (snd (submitFrame ops f s))"
  shows "FrameStore_getLastFrame (fst (submitFrame ops f s)) = Some f
    \<and> FrameStore_getFrame (fst (submitFrame ops f s)) (frameId f) = Some f
    \<and> isReadyForConsumer (fsTracker (fst (submitFrame ops f s))) (frameId f)
    \<and> fsLastError (fst (submitFrame ops f s)) = []"
proof -
  let ?s = "fst (submitFrame ops f s)"
  note inv' = FrameStore_inv_submit [OF inv, of f]
  note d = FrameStore_invD [OF inv']
  have adm: "spec_admits (store_abs elems s) f"
    using acc submit_refines(2) [OF inv] by (auto simp: spec_submit_def split: if_splits)
  then have "store_abs elems ?s = fst (spec_submit f (store_abs elems s))"
    using submit_refines(1) [OF inv] by simp
  then have hist: "last (hHistory (fsHistory ?s)) = f" "hHistory (fsHistory ?s) \<noteq> []"
    and wait: "f \<in> set (elems (rqQueue (fsQueue ?s)))"
    using adm by (simp_all add: spec_submit_def) (simp_all add: store_abs_def)
  have "fsLastError ?s = []"
    using acc
  proof (cases rule: submitFrame_cases [OF inv, of f, case_names rejected queue_full accept])
    case rejected
    then show ?thesis using acc by (simp add: validate_accepted_iff)
  qed (use acc in \<open>simp_all add: recordStatusLocked_def\<close>)
  moreover have "FrameHistory_get (fsHistory ?s) (frameId f) = Some f"
    using fh.lookup_Some_iff [OF d(7)] hist last_in_set by metis
  moreover have "isReadyForConsumer (fsTracker ?s) (frameId f)"
    using frames_linkedD(2) [OF d(2) [unfolded store_linked_def]] wait by (auto simp: isReady_stateOf)
  ultimately show ?thesis
    using d(10) hist
    by (simp add: FrameStore_getLastFrame_def FrameStore_getFrame_def FrameHistory_latest_def)
qed

lemma ready_count:
  "FrameStore_inv ops valid elems cap s \<Longrightarrow>
     stReadyFrameCount (FrameStore_getStatus ops s) = length (elems (rqQueue (fsQueue s)))"
  by (simp add: FrameStore_inv_def FrameStore_core_def queue_ok_def ReadyFrameQueue_inv_def
      ring_laws_def FrameStore_getStatus_def ReadyFrameQueue_sizeApprox_def)

text \<open>A submission is accepted exactly when the frame passes validation against the store's
  latest frame and free space and the ready queue has room; the accepted frame is then the latest
  one, found under its id, ready for a consumer, and the error text is cleared.\<close>

theorem submit_accepts_iff:
  assumes "ring_laws ops valid elems cap" and "s = store_after ops config cs"
  shows "(accepted (snd (submitFrame ops f s)) \<longleftrightarrow>
      frame_admissible f (submissionContext s)
      \<and> stReadyFrameCount (FrameStore_getStatus ops s) < stMaxReadyFrames (FrameStore_getStatus ops s))
    \<and> (accepted (snd (submitFrame ops f s)) \<longrightarrow>
      FrameStore_getLastFrame (fst (submitFrame ops f s)) = Some f
      \<and> FrameStore_getFrame (fst (submitFrame ops f s)) (frameId f) = Some f
      \<and> isReadyForConsumer (fsTracker (fst (submitFrame ops f s))) (frameId f)
      \<and> fsLastError (fst (submitFrame ops f s)) = [])"
proof -
  note inv = store_after_inv [OF assms(1), of config cs, folded assms(2)]
  have "accepted (snd (submitFrame ops f s)) = spec_admits (store_abs elems s) f"
    using submit_refines(2) [OF inv] by (simp add: spec_submit_def)
  then show ?thesis
    using admits_iff [OF inv] ready_count [OF inv] accept_effect [OF inv]
    by (simp add: FrameStore_getStatus_def)
qed

theorem submit_accepts_iff_witness:
  "FrameStore_getLastFrame (fst (submitFrame list_ring (sampleFrame 5)
     (store_after list_ring sampleConfig [CallSubmit (sampleFrame 1)]))) = Some (sampleFrame 5)"
proof -
  let ?s = "store_after list_ring sampleConfig [CallSubmit (sampleFrame 1)]"
  note inv = store_after_inv [OF list_ring_laws, of sampleConfig "[CallSubmit (sampleFrame 1)]"]
  have "run_calls spec_call_step [CallSubmit (sampleFrame 1)] (spec_new 2 2) =
      (\<lparr>spStored = [sampleFrame 1], spWaiting = [sampleFrame 1], spHeld = {}, spMaxStored = 2,
        spMaxWaiting = 2\<rparr>, [AnsSubmit True])"
    by (simp add: spec_new_def spec_submit_def spec_admits_sample)
  then have "store_abs fst ?s = \<lparr>spStored = [sampleFrame 1], spWaiting = [sampleFrame 1], spHeld = {},
      spMaxStored = 2, spMaxWaiting = 2\<rparr>"
    using run_refines [OF FrameStore_inv_new [OF list_ring_laws], of "[CallSubmit (sampleFrame 1)]"
        sampleConfig]
    by (simp add: store_abs_new [OF list_ring_laws] sampleConfig_def store_after_def)
  then have "accepted (snd (submitFrame list_ring (sampleFrame 5) ?s))"
    using submit_refines(2) [OF inv] by (simp add: spec_submit_def spec_admits_sample)
  then show ?thesis
    using submit_accepts_iff [OF list_ring_laws refl, where config = sampleConfig
        and cs = "[CallSubmit (sampleFrame 1)]" and f = "sampleFrame 5"]
    by blast
qed

text \<open>A refused submission changes nothing a consumer sees: the history and the waiting and held
  frames stay, known lifecycles stay, exactly the rejected counter grows, and the status carries
  the refusal's code and a non-empty message.\<close>

theorem submit_refusal_is_harmless:
  assumes "ring_laws ops valid elems cap" and "s = store_after ops config cs"
    and "submitFrame ops f s = (s', r)" and "\<not> accepted r"
  shows "fsHistory s' = fsHistory s \<and> store_abs elems s' = store_abs elems s
    \<and> fsRejectedCount s' = fsRejectedCount s + 1 \<and> fsAcceptedCount s' = fsAcceptedCount s
    \<and> fsLastCode s' = subCode r \<and> fsLastError s' = subMessage r \<and> subMessage r \<noteq> []
    \<and> (\<forall>i. fsTracker s i \<noteq> None \<longrightarrow> fsTracker s' i = fsTracker s i)"
proof -
  note inv = store_after_inv [OF assms(1), of config cs, folded assms(2)]
  have same: "store_abs elems s' = store_abs elems s"
    using submit_refines [OF inv, of f] assms(3,4) by (simp add: spec_submit_def split: if_splits)
  show ?thesis
  proof (cases rule: submitFrame_cases [OF inv, of f, case_names rejected queue_full accept])
    case rejected
    then show ?thesis
      using assms(3,4) same validate_message_nonempty [of f "submissionContext s"]
      by (auto simp: recordRejectedFrameLocked_def recordStatusLocked_def recordInvalid_def)
  next
    case (queue_full q)
    then show ?thesis
      using assms(3,4) same
      by (auto simp: recordRejectedFrameLocked_def recordStatusLocked_def recordInvalid_def)
  next
    case (accept q)
    then show ?thesis using assms(3,4) by (auto simp: validate_accepted_iff)
  qed
qed

theorem submit_refusal_is_harmless_witness:
  "store_abs fst (fst (submitFrame list_ring (sampleFrame 0) (store_after list_ring sampleConfig []))) =
     store_abs fst (store_after list_ring sampleConfig [])"
proof -
  have "\<not> accepted (snd (submitFrame list_ring (sampleFrame 0) (store_after list_ring sampleConfig [])))"
    by (simp add: submitFrame_def validate_def Let_def)
  then show ?thesis
    using submit_refusal_is_harmless [OF list_ring_laws refl, where config = sampleConfig
        and cs = "[]" and f = "sampleFrame 0"]
    by (metis prod.collapse)
qed

section \<open>Completion\<close>

text \<open>A consumer reports the end of a frame exactly once: the report succeeds iff the consumer
  holds the frame, then the frame is consumed and no longer held and any second report, of success
  or failure, is refused without effect; a report on any other id changes nothing.\<close>

theorem frame_completed_once:
  assumes "ring_laws ops valid elems cap" and "s = store_after ops config cs"
    and "markFrameConsumed i s = (s', ok)"
  shows "(ok = (i \<in> rqInFlightFrameIds (fsQueue s))) \<and> (\<not> ok \<longrightarrow> s' = s)
    \<and> (ok \<longrightarrow> stateOf (fsTracker s') i = Some Consumed \<and> fsHistory s' = fsHistory s)
    \<and> markFrameConsumed i s' = (s', False) \<and> markFrameFailed i s' = (s', False)"
proof -
  note inv = store_after_inv [OF assms(1), of config cs, folded assms(2)]
  have inv': "FrameStore_inv ops valid elems cap s'"
    using FrameStore_inv_mark(1) [OF inv, of i] assms(3) by simp
  have known: "stateOf (fsTracker s) i \<noteq> None" if "i \<in> rqInFlightFrameIds (fsQueue s)"
    using frames_linkedD(3) [OF FrameStore_invD(2) [OF inv, unfolded store_linked_def]] that by simp
  have "i \<notin> rqInFlightFrameIds (fsQueue s')"
    using assms(3) markFrame_cases(1) [OF inv, of i]
    by (auto simp: ReadyFrameQueue_markCompleted_def split: if_splits)
  then show ?thesis
    using assms(3) markFrame_cases(1) [OF inv, of i] markFrame_cases [OF inv', of i] known
    by (auto simp: stateOf_upd split: if_splits)
qed

theorem frame_completed_once_witness:
  "snd (markFrameConsumed 2 (store_after list_ring sampleConfig sampleCalls))
   \<and> \<not> snd (markFrameConsumed 2 (fst (markFrameConsumed 2
       (store_after list_ring sampleConfig sampleCalls))))"
  using frame_completed_once [OF list_ring_laws refl, where config = sampleConfig
      and cs = sampleCalls and i = 2]
  by (cases "markFrameConsumed 2 (store_after list_ring sampleConfig sampleCalls)")
    (simp add: sample_fields)

section \<open>Reading the history\<close>

text \<open>The history a client reads is the newest part of a strictly increasing sequence: the recent
  frames are at most as many as asked for, have strictly increasing ids and timestamps, end with
  the latest frame, and every frame of the store not among them is older than each of them.\<close>

theorem recent_frames_are_newest:
  assumes "ring_laws ops valid elems cap" and "s = store_after ops config cs"
  shows "length (FrameStore_getRecentFrames s n) = min n (stStoredFrameCount (FrameStore_getStatus ops s))
    \<and> sorted_wrt (\<lambda>f g. frameId f < frameId g \<and> frameTimestamp f < frameTimestamp g)
        (FrameStore_getRecentFrames s n)
    \<and> (FrameStore_getRecentFrames s n \<noteq> [] \<longrightarrow>
        FrameStore_getLastFrame s = Some (last (FrameStore_getRecentFrames s n)))
    \<and> (\<forall>g i. FrameStore_getFrame s i = Some g \<and> g \<notin> set (FrameStore_getRecentFrames s n) \<longrightarrow>
        (\<forall>f \<in> set (FrameStore_getRecentFrames s n). frameId g < frameId f))"
proof -
  note inv = store_after_inv [OF assms(1), of config cs, folded assms(2)]
  note d = FrameStore_invD [OF inv]
  let ?h = "hHistory (fsHistory s)" and ?k = "length (hHistory (fsHistory s)) - n"
  have sorted: "sorted_wrt (\<lambda>f g. frameId f < frameId g \<and> frameTimestamp f < frameTimestamp g) ?h"
    using d(1) by (auto simp: history_ok_def FrameHistory_sorted_def sorted_wrt_map sorted_wrt_iff_nth_less)
  then have split: "sorted_wrt (\<lambda>f g. frameId f < frameId g \<and> frameTimestamp f < frameTimestamp g)
      (take ?k ?h @ drop ?k ?h)" by simp
  then have older: "frameId g < frameId f" if "g \<in> set (take ?k ?h)" "f \<in> set (drop ?k ?h)" for f g
    using that unfolding sorted_wrt_append by blast
  have "g \<in> set (take ?k ?h)"
    if "FrameHistory_get (fsHistory s) i = Some g" "g \<notin> set (drop ?k ?h)" for g i
  proof -
    have "g \<in> set ?h" using fh.lookup_Some_iff [OF d(7)] that(1) by blast
    then have "g \<in> set (take ?k ?h @ drop ?k ?h)" by (simp only: append_take_drop_id)
    then show ?thesis using that(2) unfolding set_append by blast
  qed
  then have rest: "\<forall>g i. FrameStore_getFrame s i = Some g \<and> g \<notin> set (drop ?k ?h) \<longrightarrow>
      (\<forall>f \<in> set (drop ?k ?h). frameId g < frameId f)"
    using older unfolding FrameStore_getFrame_def by blast
  have "sorted_wrt (\<lambda>f g. frameId f < frameId g \<and> frameTimestamp f < frameTimestamp g) (drop ?k ?h)"
    using split unfolding sorted_wrt_append by blast
  moreover have "drop ?k ?h \<noteq> [] \<longrightarrow> FrameStore_getLastFrame s = Some (last (drop ?k ?h))"
    using d(10) by (auto simp: FrameStore_getLastFrame_def FrameHistory_latest_def)
  moreover have "FrameStore_getRecentFrames s n = drop ?k ?h"
    "stStoredFrameCount (FrameStore_getStatus ops s) = length ?h"
    by (simp_all add: FrameStore_getRecentFrames_def FrameHistory_recent_drop FrameStore_getStatus_def
        FrameHistory_size_def)
  moreover have "length (drop ?k ?h) = min n (length ?h)" by (simp add: min_def)
  ultimately show ?thesis using rest by simp
qed

theorem recent_frames_are_newest_witness:
  "length (FrameStore_getRecentFrames (store_after list_ring sampleConfig sampleCalls) 1) = 1"
  using recent_frames_are_newest [OF list_ring_laws refl, where config = sampleConfig
      and cs = sampleCalls and n = 1]
  by (simp add: FrameStore_getStatus_def FrameHistory_size_def sample_fields)

section \<open>Counters\<close>

text \<open>The counters balance after every run: the accepted frames are those stored plus those
  evicted, and the dropped counter equals the evicted counter (all modulo 2 to the 64).\<close>

theorem store_counters_balance:
  assumes "ring_laws ops valid elems cap"
  shows "stAcceptedFrameCount (FrameStore_getStatus ops (store_after ops config cs)) =
      of_nat (stStoredFrameCount (FrameStore_getStatus ops (store_after ops config cs)))
      + stEvictedFrameCount (FrameStore_getStatus ops (store_after ops config cs))
    \<and> stDroppedFrameCount (FrameStore_getStatus ops (store_after ops config cs)) =
      stEvictedFrameCount (FrameStore_getStatus ops (store_after ops config cs))"
  using FrameStore_invD(5) [OF store_after_inv [OF assms, of config cs]]
  by (simp add: counters_ok_def FrameStore_getStatus_def FrameHistory_size_def)

theorem store_counters_balance_witness:
  "stAcceptedFrameCount (FrameStore_getStatus list_ring (store_after list_ring sampleConfig sampleCalls))
   = 2 + stEvictedFrameCount (FrameStore_getStatus list_ring
       (store_after list_ring sampleConfig sampleCalls))"
  using store_counters_balance [OF list_ring_laws, of sampleConfig sampleCalls]
  by (simp add: FrameStore_getStatus_def FrameHistory_size_def sample_fields)

end
