(* ===== verification/FrameStoreConcurrent.thy ===== *)
theory FrameStoreConcurrent
  imports FrameStoreSpec
begin

text \<open>
  The frame store between its locks.  A submission holds the store's mutex throughout and the queue's
  mutex while the frame enters the ring and its id the set of ready ids; a dequeue takes the frame from
  the ring without any lock, moves its id under the queue's mutex and marks it as dispatched under the
  store's.  Here these are separate steps of the producer and of the consumer thread (the ring is made
  for one of each) that interleave wherever the mutexes allow; a step that runs under a mutex to its
  end is one step.
\<close>

section \<open>Steps\<close>

datatype submit_phase = NoSubmit | FrameInRing Frame FrameSubmissionResult | FrameListed Frame FrameSubmissionResult

datatype take_phase = NoTake | TakenFromRing store_call Frame | TakenInFlight store_call Frame

text \<open>The logs are the calls that have returned, with their answers.\<close>

record 'q ConcurrentStore =
  csStore :: "'q FrameStore"
  csSubmit :: submit_phase
  csTake :: take_phase
  csProducer :: "(store_call \<times> store_answer) list"
  csConsumer :: "(store_call \<times> store_answer) list"

definition ConcurrentStore_new :: "'q ring_ops \<Rightarrow> FrameStoreConfig \<Rightarrow> 'q ConcurrentStore" where
  "ConcurrentStore_new ops config =
     \<lparr>csStore = FrameStore_new ops config, csSubmit = NoSubmit, csTake = NoTake, csProducer = [], csConsumer = []\<rparr>"

definition producerReturns :: "store_call \<Rightarrow> store_answer \<Rightarrow> 'q ConcurrentStore \<Rightarrow> 'q ConcurrentStore" where
  "producerReturns c a C = C\<lparr>csProducer := csProducer C @ [(c, a)]\<rparr>"

definition consumerReturns :: "store_call \<Rightarrow> store_answer \<Rightarrow> 'q ConcurrentStore \<Rightarrow> 'q ConcurrentStore" where
  "consumerReturns c a C = C\<lparr>csConsumer := csConsumer C @ [(c, a)]\<rparr>"

definition putRing :: "'q \<Rightarrow> 'q FrameStore \<Rightarrow> 'q FrameStore" where
  "putRing ring s = s\<lparr>fsQueue := (fsQueue s)\<lparr>rqQueue := ring\<rparr>\<rparr>"

definition listReady :: "Frame \<Rightarrow> 'q FrameStore \<Rightarrow> 'q FrameStore" where
  "listReady f s =
     s\<lparr>fsQueue := (fsQueue s)\<lparr>rqReadyFrameIds := insert (frameId f) (rqReadyFrameIds (fsQueue s))\<rparr>\<rparr>"

definition moveTaken :: "Frame \<Rightarrow> 'q FrameStore \<Rightarrow> 'q FrameStore" where
  "moveTaken g s = s\<lparr>fsQueue := ReadyFrameQueue_moveInFlight g (fsQueue s)\<rparr>"

text \<open>The submission up to the ring; the store's mutex is taken.\<close>

definition beginSubmit :: "'q ring_ops \<Rightarrow> Frame \<Rightarrow> 'q ConcurrentStore \<Rightarrow> 'q ConcurrentStore" where
  "beginSubmit ops f C =
     (let s = csStore C; result = validate f (submissionContext s) in
      if \<not> accepted result then
        producerReturns (CallSubmit f) (AnsSubmit False) (C\<lparr>csStore := recordRejectedFrameLocked f result s\<rparr>)
      else
        case ringTryEnqueue ops f (rqQueue (fsQueue s)) of (ring, ok) \<Rightarrow>
          if \<not> ok then
            producerReturns (CallSubmit f) (AnsSubmit False)
              (C\<lparr>csStore := recordRejectedFrameLocked f
                   (makeResult ReadyFrameQueueFull (frameId f) ''Ready frame queue is full'') (putRing ring s)\<rparr>)
          else C\<lparr>csStore := putRing ring s, csSubmit := FrameInRing f result\<rparr>)"

text \<open>The ring's part of a dequeue; other calls do not dequeue.\<close>

definition takeFromRing :: "('q \<Rightarrow> 'q \<times> Frame option) \<Rightarrow> store_call \<Rightarrow> 'q ConcurrentStore \<Rightarrow> 'q ConcurrentStore" where
  "takeFromRing deq c C =
     (case deq (rqQueue (fsQueue (csStore C))) of
        (ring, None) \<Rightarrow> consumerReturns c (AnsFrame None) (C\<lparr>csStore := putRing ring (csStore C)\<rparr>)
      | (ring, Some g) \<Rightarrow> C\<lparr>csStore := putRing ring (csStore C), csTake := TakenFromRing c g\<rparr>)"

definition completeFrame :: "'q ring_ops \<Rightarrow> store_call \<Rightarrow> 'q ConcurrentStore \<Rightarrow> 'q ConcurrentStore" where
  "completeFrame ops c C =
     (case store_call_step ops c (csStore C) of (s, a) \<Rightarrow> consumerReturns c a (C\<lparr>csStore := s\<rparr>))"

datatype lock_step = BeginSubmit Frame | ListReady | EndSubmit | TakeFromRing store_call | MoveInFlight | EndTake
  | CompleteFrame store_call

text \<open>\<open>None\<close>: not the thread's next step, or a mutex it needs is held.\<close>

fun concurrent_step :: "'q ring_ops \<Rightarrow> lock_step \<Rightarrow> 'q ConcurrentStore \<Rightarrow> 'q ConcurrentStore option" where
  "concurrent_step ops (BeginSubmit f) C = (if csSubmit C = NoSubmit then Some (beginSubmit ops f C) else None)"
| "concurrent_step ops ListReady C =
     (case csSubmit C of
        FrameInRing f r \<Rightarrow> Some (C\<lparr>csStore := listReady f (csStore C), csSubmit := FrameListed f r\<rparr>)
      | _ \<Rightarrow> None)"
| "concurrent_step ops EndSubmit C =
     (case csSubmit C of
        FrameListed f r \<Rightarrow>
          Some (producerReturns (CallSubmit f) (AnsSubmit (accepted r))
            (C\<lparr>csStore := acceptFrame f r (csStore C), csSubmit := NoSubmit\<rparr>))
      | _ \<Rightarrow> None)"
| "concurrent_step ops (TakeFromRing c) C =
     (if csTake C \<noteq> NoTake then None
      else case c of
        CallTryDequeue \<Rightarrow> Some (takeFromRing (ringTryDequeue ops) c C)
      | CallWaitDequeue t \<Rightarrow> Some (takeFromRing (ringWaitDequeueTimed ops t) c C)
      | _ \<Rightarrow> None)"
| "concurrent_step ops MoveInFlight C =
     (case (csTake C, csSubmit C) of
        (TakenFromRing c g, FrameInRing f r) \<Rightarrow> None
      | (TakenFromRing c g, _) \<Rightarrow> Some (C\<lparr>csStore := moveTaken g (csStore C), csTake := TakenInFlight c g\<rparr>)
      | _ \<Rightarrow> None)"
| "concurrent_step ops EndTake C =
     (case (csTake C, csSubmit C) of
        (TakenInFlight c g, NoSubmit) \<Rightarrow>
          Some (consumerReturns c (AnsFrame (Some g))
            (C\<lparr>csStore := FrameStore_markDispatched g (csStore C), csTake := NoTake\<rparr>))
      | _ \<Rightarrow> None)"
| "concurrent_step ops (CompleteFrame c) C =
     (if csTake C \<noteq> NoTake \<or> csSubmit C \<noteq> NoSubmit then None
      else case c of
        CallConsumed i \<Rightarrow> Some (completeFrame ops c C)
      | CallFailed i \<Rightarrow> Some (completeFrame ops c C)
      | _ \<Rightarrow> None)"

fun concurrent_run :: "'q ring_ops \<Rightarrow> lock_step list \<Rightarrow> 'q ConcurrentStore \<Rightarrow> 'q ConcurrentStore option" where
  "concurrent_run ops [] C = Some C"
| "concurrent_run ops (x # xs) C =
     (case concurrent_step ops x C of None \<Rightarrow> None | Some C \<Rightarrow> concurrent_run ops xs C)"

section \<open>Eviction commutes with a dequeue in progress\<close>

lemma evict_queue:
  "evictOldFramesLocked (s\<lparr>fsQueue := q\<rparr>) = (evictOldFramesLocked s)\<lparr>fsQueue := q\<rparr>
   \<and> fsQueue (evictOldFramesLocked s) = fsQueue s"
proof (induction s rule: evictOldFramesLocked.induct)
  case (1 s)
  have can: "canEvict (s\<lparr>fsQueue := q\<rparr>) = canEvict s" by (rule ext) (simp add: canEvict_def)
  have ev: "evictFrame i (s\<lparr>fsQueue := q\<rparr>) = (evictFrame i s)\<lparr>fsQueue := q\<rparr>" "fsQueue (evictFrame i s) = fsQueue s" for i
    by (simp_all add: evictFrame_def)
  show ?case
  proof (cases "FrameHistory_size (fsHistory s) > maxStoredFrames (fsConfig s)
      \<and> FrameHistory_findOldestEvictable (fsHistory s) (canEvict s) \<noteq> None")
    case True
    then obtain i where i: "FrameHistory_findOldestEvictable (fsHistory s) (canEvict s) = Some i" by blast
    then show ?thesis
      using 1 [OF _ i] True
      by (subst (1 2 3) evictOldFramesLocked.simps) (simp add: can ev)
  next
    case False
    then have "evictOldFramesLocked s = s" "evictOldFramesLocked (s\<lparr>fsQueue := q\<rparr>) = s\<lparr>fsQueue := q\<rparr>"
      by (subst evictOldFramesLocked.simps, auto simp: can split: option.splits)+
    then show ?thesis by simp
  qed
qed

definition ready_in :: "'q FrameStore \<Rightarrow> Frame \<Rightarrow> bool" where
  "ready_in s g \<longleftrightarrow> stateOf (fsTracker s) (frameId g) = Some ReadyForConsumer"

lemma protected_dispatched:
  "stateOf m i = Some ReadyForConsumer \<Longrightarrow> isProtectedFromEviction (markDispatched i m) = isProtectedFromEviction m"
  by (rule ext) (auto simp: isProtected_stateOf stateOf_markDispatched)

lemma markDispatched_commutes:
  "i \<noteq> j \<Longrightarrow> markDropped i (markDispatched j m) = markDispatched j (markDropped i m)"
  "i \<noteq> j \<Longrightarrow> recordAcceptedReady i (markDispatched j m) = markDispatched j (recordAcceptedReady i m)"
  "stateOf m j \<noteq> None \<Longrightarrow> recordInvalid i (markDispatched j m) = markDispatched j (recordInvalid i m)"
  by (auto simp: markDropped_def markDispatched_def recordAcceptedReady_def recordInvalid_def stateOf_def
      fun_upd_twist split: option.split)

lemma evict_dispatched:
  "ready_in s g \<Longrightarrow>
     evictOldFramesLocked (FrameStore_markDispatched g s) = FrameStore_markDispatched g (evictOldFramesLocked s)
     \<and> ready_in (evictOldFramesLocked s) g"
proof (induction s rule: evictOldFramesLocked.induct)
  case (1 s)
  let ?s = "FrameStore_markDispatched g s"
  have can: "canEvict ?s = canEvict s"
    using 1(2) by (intro ext) (simp add: canEvict_def FrameStore_markDispatched_def ready_in_def protected_dispatched)
  have same: "fsHistory ?s = fsHistory s" "fsConfig ?s = fsConfig s" by (simp_all add: FrameStore_markDispatched_def)
  show ?case
  proof (cases "FrameHistory_size (fsHistory s) > maxStoredFrames (fsConfig s)
      \<and> FrameHistory_findOldestEvictable (fsHistory s) (canEvict s) \<noteq> None")
    case True
    then obtain i where i: "FrameHistory_findOldestEvictable (fsHistory s) (canEvict s) = Some i" by blast
    then have "canEvict s i" using findOldest_SomeD by (auto simp: FrameHistory_findOldestEvictable_def)
    then have ne: "i \<noteq> frameId g" using 1(2) by (auto simp: canEvict_iff ready_in_def)
    then have ev: "evictFrame i ?s = FrameStore_markDispatched g (evictFrame i s)" "ready_in (evictFrame i s) g"
      using 1(2)
      by (simp_all add: evictFrame_def FrameStore_markDispatched_def markDispatched_commutes ready_in_def
          stateOf_markDropped)
    show ?thesis
      using 1(1) [OF _ i ev(2)] True i
      by (subst (1 2 3) evictOldFramesLocked.simps) (simp add: can same ev)
  next
    case False
    then have "evictOldFramesLocked s = s" "evictOldFramesLocked ?s = ?s"
      by (subst evictOldFramesLocked.simps, auto simp: can same split: option.splits)+
    then show ?thesis using 1(2) by simp
  qed
qed

lemma acceptFrame_queue [simp]:
  "acceptFrame f r (s\<lparr>fsQueue := q\<rparr>) = (acceptFrame f r s)\<lparr>fsQueue := q\<rparr>"
  "fsQueue (acceptFrame f r s) = fsQueue s"
proof -
  let ?s = "s\<lparr>fsTracker := recordAcceptedReady (frameId f) (fsTracker s), fsHistory := FrameHistory_add f (fsHistory s),
    fsAcceptedCount := fsAcceptedCount s + 1\<rparr>"
  show "acceptFrame f r (s\<lparr>fsQueue := q\<rparr>) = (acceptFrame f r s)\<lparr>fsQueue := q\<rparr>"
  proof -
    let ?q = "s\<lparr>fsQueue := q\<rparr>"
    have "?q\<lparr>fsTracker := recordAcceptedReady (frameId f) (fsTracker ?q), fsHistory := FrameHistory_add f (fsHistory ?q),
        fsAcceptedCount := fsAcceptedCount ?q + 1\<rparr> = ?s\<lparr>fsQueue := q\<rparr>"
      by (cases s) simp
    moreover have "recordStatusLocked r (t\<lparr>fsQueue := q\<rparr>) = (recordStatusLocked r t)\<lparr>fsQueue := q\<rparr>" for t :: "'a FrameStore"
      by (cases t) (simp add: recordStatusLocked_def)
    ultimately show ?thesis using evict_queue [where s = ?s and q = q] by (simp only: acceptFrame_def)
  qed
  show "fsQueue (acceptFrame f r s) = fsQueue s"
    using evict_queue [where s = ?s] by (simp add: acceptFrame_def)
qed

lemma acceptFrame_dispatched:
  assumes "ready_in s g" "frameId f \<noteq> frameId g"
  shows "acceptFrame f r (FrameStore_markDispatched g s) = FrameStore_markDispatched g (acceptFrame f r s)"
    and "ready_in (acceptFrame f r s) g"
proof -
  let ?s = "s\<lparr>fsTracker := recordAcceptedReady (frameId f) (fsTracker s), fsHistory := FrameHistory_add f (fsHistory s),
    fsAcceptedCount := fsAcceptedCount s + 1\<rparr>"
  have ready: "ready_in ?s g" using assms by (simp add: ready_in_def stateOf_recordAcceptedReady)
  let ?m = "FrameStore_markDispatched g s"
  have "?m\<lparr>fsTracker := recordAcceptedReady (frameId f) (fsTracker ?m), fsHistory := FrameHistory_add f (fsHistory ?m),
      fsAcceptedCount := fsAcceptedCount ?m + 1\<rparr> = FrameStore_markDispatched g ?s"
    using assms(2) by (cases s) (simp add: FrameStore_markDispatched_def markDispatched_commutes)
  then have "acceptFrame f r ?m = recordStatusLocked r (evictOldFramesLocked (FrameStore_markDispatched g ?s))"
    by (simp add: acceptFrame_def)
  then show "acceptFrame f r (FrameStore_markDispatched g s) = FrameStore_markDispatched g (acceptFrame f r s)"
  proof -
    have "recordStatusLocked r (FrameStore_markDispatched g t) = FrameStore_markDispatched g (recordStatusLocked r t)"
      for t :: "'a FrameStore"
      by (cases t) (simp add: recordStatusLocked_def FrameStore_markDispatched_def)
    then show ?thesis using evict_dispatched [OF ready] \<open>acceptFrame f r ?m = _\<close> by (simp add: acceptFrame_def)
  qed
  show "ready_in (acceptFrame f r s) g"
    using evict_dispatched [OF ready] by (simp add: acceptFrame_def ready_in_def)
qed

section \<open>What a state settles to\<close>

text \<open>The rest of the submission in progress, then the rest of the dequeue in progress.\<close>

fun finishSubmit :: "submit_phase \<Rightarrow> 'q FrameStore \<Rightarrow> 'q FrameStore" where
  "finishSubmit NoSubmit s = s"
| "finishSubmit (FrameInRing f r) s = acceptFrame f r (listReady f s)"
| "finishSubmit (FrameListed f r) s = acceptFrame f r s"

fun finishTake :: "take_phase \<Rightarrow> 'q FrameStore \<Rightarrow> 'q FrameStore" where
  "finishTake NoTake s = s"
| "finishTake (TakenFromRing c g) s = FrameStore_markDispatched g (moveTaken g s)"
| "finishTake (TakenInFlight c g) s = FrameStore_markDispatched g s"

definition submitted_store :: "'q ConcurrentStore \<Rightarrow> 'q FrameStore" where
  "submitted_store C = finishSubmit (csSubmit C) (csStore C)"

definition settled :: "'q ConcurrentStore \<Rightarrow> 'q FrameStore" where
  "settled C = finishTake (csTake C) (submitted_store C)"

text \<open>The calls whose answer is decided.\<close>

definition producer_calls :: "'q ConcurrentStore \<Rightarrow> (store_call \<times> store_answer) list" where
  "producer_calls C = csProducer C
     @ (case csSubmit C of NoSubmit \<Rightarrow> [] | FrameInRing f r \<Rightarrow> [(CallSubmit f, AnsSubmit (accepted r))]
        | FrameListed f r \<Rightarrow> [(CallSubmit f, AnsSubmit (accepted r))])"

definition consumer_calls :: "'q ConcurrentStore \<Rightarrow> (store_call \<times> store_answer) list" where
  "consumer_calls C = csConsumer C
     @ (case csTake C of NoTake \<Rightarrow> [] | TakenFromRing c g \<Rightarrow> [(c, AnsFrame (Some g))]
        | TakenInFlight c g \<Rightarrow> [(c, AnsFrame (Some g))])"

definition conc_inv ::
    "'q ring_ops \<Rightarrow> ('q \<Rightarrow> bool) \<Rightarrow> ('q \<Rightarrow> Frame list) \<Rightarrow> ('q \<Rightarrow> nat) \<Rightarrow> 'q ConcurrentStore \<Rightarrow> bool" where
  "conc_inv ops valid elems cap C \<longleftrightarrow>
     FrameStore_inv ops valid elems cap (settled C)
     \<and> (case csTake C of NoTake \<Rightarrow> True | TakenFromRing c g \<Rightarrow> ready_in (submitted_store C) g
        | TakenInFlight c g \<Rightarrow> ready_in (submitted_store C) g)"

fun is_submit :: "store_call \<Rightarrow> bool" where
  "is_submit (CallSubmit f) = True"
| "is_submit c = False"

text \<open>The step is inside a call that has already taken effect, or it is where call \<open>c\<close> takes effect.\<close>

definition same_calls :: "'q ConcurrentStore \<Rightarrow> 'q ConcurrentStore \<Rightarrow> bool" where
  "same_calls C C' \<longleftrightarrow>
     settled C' = settled C \<and> producer_calls C' = producer_calls C \<and> consumer_calls C' = consumer_calls C"

definition takes_effect :: "'q ring_ops \<Rightarrow> store_call \<Rightarrow> 'q ConcurrentStore \<Rightarrow> 'q ConcurrentStore \<Rightarrow> bool" where
  "takes_effect ops c C C' \<longleftrightarrow>
     settled C' = fst (store_call_step ops c (settled C))
     \<and> producer_calls C' = producer_calls C @ (if is_submit c then [(c, snd (store_call_step ops c (settled C)))] else [])
     \<and> consumer_calls C' = consumer_calls C @ (if is_submit c then [] else [(c, snd (store_call_step ops c (settled C)))])"

lemmas settled_defs = settled_def submitted_store_def

lemma accept_queue_functions [simp]:
  "acceptFrame f r (putRing ring s) = putRing ring (acceptFrame f r s)"
  "acceptFrame f r (listReady h s) = listReady h (acceptFrame f r s)"
  "acceptFrame f r (moveTaken g s) = moveTaken g (acceptFrame f r s)"
  by (simp_all add: putRing_def listReady_def moveTaken_def)

lemma step_inside:
  assumes "concurrent_step ops x C = Some C'" "x \<in> {ListReady, EndSubmit, MoveInFlight, EndTake}"
  shows "same_calls C C' \<and> (csTake C' = NoTake \<or> csTake C' = csTake C \<and> submitted_store C' = submitted_store C
    \<or> (\<exists>c g. csTake C = TakenFromRing c g \<and> csTake C' = TakenInFlight c g
         \<and> submitted_store C' = moveTaken g (submitted_store C)))"
proof -
  note defs = same_calls_def settled_defs producer_calls_def consumer_calls_def producerReturns_def consumerReturns_def
  consider "x = ListReady" | "x = EndSubmit" | "x = MoveInFlight" | "x = EndTake" using assms(2) by blast
  then show ?thesis
  proof cases
    case 1
    then show ?thesis using assms(1) by (cases "csSubmit C") (auto simp: defs)
  next
    case 2
    then show ?thesis using assms(1) by (cases "csSubmit C") (auto simp: defs)
  next
    case 3
    then show ?thesis using assms(1) by (cases "csTake C"; cases "csSubmit C") (auto simp: defs)
  next
    case 4
    then show ?thesis using assms(1) by (cases "csTake C"; cases "csSubmit C") (auto simp: defs)
  qed
qed

section \<open>A submission takes effect at the ring\<close>

fun take_ready :: "take_phase \<Rightarrow> 'q FrameStore \<Rightarrow> bool" where
  "take_ready NoTake s = True"
| "take_ready (TakenFromRing c g) s = ready_in s g"
| "take_ready (TakenInFlight c g) s = ready_in s g"

lemma conc_inv_alt:
  "conc_inv ops valid elems cap C \<longleftrightarrow>
     FrameStore_inv ops valid elems cap (settled C) \<and> take_ready (csTake C) (submitted_store C)"
  by (cases "csTake C") (simp_all add: conc_inv_def)

fun taken_id :: "take_phase \<Rightarrow> FrameId option" where
  "taken_id NoTake = None"
| "taken_id (TakenFromRing c g) = Some (frameId g)"
| "taken_id (TakenInFlight c g) = Some (frameId g)"

lemma submitFrame_ring:
  "submitFrame ops f s =
     (let result = validate f (submissionContext s) in
      if \<not> accepted result then (recordRejectedFrameLocked f result s, result)
      else case ringTryEnqueue ops f (rqQueue (fsQueue s)) of (ring, ok) \<Rightarrow>
        if \<not> ok then
          (let result = makeResult ReadyFrameQueueFull (frameId f) ''Ready frame queue is full''
           in (recordRejectedFrameLocked f result (putRing ring s), result))
        else (acceptFrame f result (listReady f (putRing ring s)), result))"
  by (simp add: submitFrame_def ReadyFrameQueue_tryEnqueue_def putRing_def listReady_def Let_def split: prod.split)

lemma dispatched_context:
  assumes "ready_in s g"
  shows "submissionContext (FrameStore_markDispatched g s) = submissionContext s"
  using assms by (simp add: submissionContext_def FrameStore_markDispatched_def ready_in_def protected_dispatched)

lemma moved_context: "submissionContext (moveTaken g s) = submissionContext s" "ready_in (moveTaken g s) h = ready_in s h"
  by (simp_all add: submissionContext_def moveTaken_def ready_in_def)

lemma rejected_commutes:
  "ready_in s g \<Longrightarrow> recordRejectedFrameLocked f r (FrameStore_markDispatched g s) =
     FrameStore_markDispatched g (recordRejectedFrameLocked f r s)"
  "recordRejectedFrameLocked f r (moveTaken g s) = moveTaken g (recordRejectedFrameLocked f r s)"
  "ready_in s g \<Longrightarrow> ready_in (recordRejectedFrameLocked f r s) g"
proof -
  show "recordRejectedFrameLocked f r (FrameStore_markDispatched g s) =
      FrameStore_markDispatched g (recordRejectedFrameLocked f r s)" if "ready_in s g"
    using that markDispatched_commutes(3) [of "fsTracker s" "frameId g" "frameId f"]
    by (cases s) (auto simp: recordRejectedFrameLocked_def recordStatusLocked_def FrameStore_markDispatched_def ready_in_def)
  show "recordRejectedFrameLocked f r (moveTaken g s) = moveTaken g (recordRejectedFrameLocked f r s)"
    by (cases s) (simp add: recordRejectedFrameLocked_def recordStatusLocked_def moveTaken_def)
  show "ready_in (recordRejectedFrameLocked f r s) g" if "ready_in s g"
    using that by (auto simp: recordRejectedFrameLocked_def recordStatusLocked_def ready_in_def stateOf_recordInvalid)
qed

lemma ring_commutes:
  "putRing ring (FrameStore_markDispatched g s) = FrameStore_markDispatched g (putRing ring s)"
  "putRing ring (moveTaken g s) = moveTaken g (putRing ring s)"
  "listReady f (FrameStore_markDispatched g s) = FrameStore_markDispatched g (listReady f s)"
  "frameId f \<noteq> frameId g \<Longrightarrow> listReady f (moveTaken g s) = moveTaken g (listReady f s)"
  "ready_in (putRing ring s) g = ready_in s g" "ready_in (listReady f s) g = ready_in s g"
  "rqQueue (fsQueue (FrameStore_markDispatched g s)) = rqQueue (fsQueue s)"
  "rqQueue (fsQueue (moveTaken g s)) = rqQueue (fsQueue s)"
proof -
  show "putRing ring (FrameStore_markDispatched g s) = FrameStore_markDispatched g (putRing ring s)"
    by (cases s) (simp add: putRing_def FrameStore_markDispatched_def)
  show "putRing ring (moveTaken g s) = moveTaken g (putRing ring s)"
    by (cases s) (simp add: putRing_def moveTaken_def ReadyFrameQueue_moveInFlight_def)
  show "listReady f (FrameStore_markDispatched g s) = FrameStore_markDispatched g (listReady f s)"
    by (cases s) (simp add: listReady_def FrameStore_markDispatched_def)
  show "listReady f (moveTaken g s) = moveTaken g (listReady f s)" if "frameId f \<noteq> frameId g"
  proof -
    have "insert (frameId f) (rqReadyFrameIds (fsQueue s) - {frameId g}) =
        insert (frameId f) (rqReadyFrameIds (fsQueue s)) - {frameId g}"
      using that by auto
    then show ?thesis by (simp add: listReady_def moveTaken_def ReadyFrameQueue_moveInFlight_def)
  qed
qed (simp_all add: putRing_def listReady_def moveTaken_def ready_in_def FrameStore_markDispatched_def
      ReadyFrameQueue_moveInFlight_def)

lemma finishTake_commutes:
  assumes "take_ready t s"
  shows "submissionContext (finishTake t s) = submissionContext s"
    and "recordRejectedFrameLocked f r (finishTake t s) = finishTake t (recordRejectedFrameLocked f r s)"
    and "take_ready t (recordRejectedFrameLocked f r s)"
    and "putRing ring (finishTake t s) = finishTake t (putRing ring s)" "take_ready t (putRing ring s)"
    and "rqQueue (fsQueue (finishTake t s)) = rqQueue (fsQueue s)"
  using assms
  by (cases t; simp add: dispatched_context moved_context rejected_commutes ring_commutes)+

lemma finishTake_accept:
  assumes "take_ready t s" "taken_id t \<noteq> Some (frameId f)"
  shows "acceptFrame f r (listReady f (finishTake t s)) = finishTake t (acceptFrame f r (listReady f s))"
    and "take_ready t (acceptFrame f r (listReady f s))"
proof -
  show "acceptFrame f r (listReady f (finishTake t s)) = finishTake t (acceptFrame f r (listReady f s))"
  proof (cases t)
    case (TakenFromRing c g)
    then have "ready_in (moveTaken g (listReady f s)) g" "frameId f \<noteq> frameId g"
      using assms by (auto simp: moved_context ring_commutes)
    from acceptFrame_dispatched(1) [OF this, of r] show ?thesis
      using TakenFromRing \<open>frameId f \<noteq> frameId g\<close>
      by (simp only: finishTake.simps ring_commutes(3,4) accept_queue_functions(3) simp_thms)
  next
    case (TakenInFlight c g)
    then have "ready_in (listReady f s) g" "frameId f \<noteq> frameId g" using assms by (auto simp: ring_commutes)
    from acceptFrame_dispatched(1) [OF this, of r] show ?thesis
      using TakenInFlight by (simp only: finishTake.simps ring_commutes(3))
  qed simp
  show "take_ready t (acceptFrame f r (listReady f s))"
    using assms acceptFrame_dispatched(2) [of "listReady f s" _ f r]
    by (cases t) (simp_all add: ring_commutes del: accept_queue_functions)
qed

lemma submission_is_new:
  assumes inv: "FrameStore_inv ops valid elems cap (finishTake t s)" and t: "take_ready t s"
    and adm: "accepted (validate f (submissionContext s))"
  shows "taken_id t \<noteq> Some (frameId f)"
proof
  assume id: "taken_id t = Some (frameId f)"
  let ?S = "finishTake t s"
  have core: "history_ok (fsHistory ?S)" "store_linked elems ?S"
    using inv by (simp_all add: FrameStore_inv_def FrameStore_core_def)
  have "frame_admissible f (submissionContext ?S)"
    using adm finishTake_commutes(1) [OF t] by (simp add: validate_accepted_iff)
  then have "frameId f \<notin> frameId ` set (hHistory (fsHistory ?S))"
    using history_ok_add(2) [OF core(1)] submissionContext_newer(1) by blast
  moreover have "stateOf (fsTracker ?S) (frameId f) = Some DispatchedToConsumer"
    using id t by (cases t) (auto simp: ready_in_def FrameStore_markDispatched_def moveTaken_def stateOf_markDispatched)
  ultimately show False
    using frames_linkedD(4) [OF core(2) [unfolded store_linked_def]] by (metis live_simps(2))
qed

lemma step_begin:
  assumes inv: "conc_inv ops valid elems cap C" and step: "concurrent_step ops (BeginSubmit f) C = Some C'"
  shows "takes_effect ops (CallSubmit f) C C' \<and> take_ready (csTake C') (submitted_store C')"
proof -
  let ?s = "csStore C" and ?t = "csTake C"
  have idle: "csSubmit C = NoSubmit" and C': "C' = beginSubmit ops f C" using step by (auto split: if_splits)
  then have S: "settled C = finishTake ?t ?s" "submitted_store C = ?s" by (simp_all add: settled_defs)
  have t: "take_ready ?t ?s" and store: "FrameStore_inv ops valid elems cap (finishTake ?t ?s)"
    using inv S by (simp_all add: conc_inv_alt)
  let ?result = "validate f (submissionContext ?s)"
  note move = finishTake_commutes [OF t]
  note defs = takes_effect_def settled_defs producer_calls_def consumer_calls_def producerReturns_def
  show ?thesis
  proof (cases "accepted ?result")
    case False
    then have "beginSubmit ops f C =
        producerReturns (CallSubmit f) (AnsSubmit False) (C\<lparr>csStore := recordRejectedFrameLocked f ?result ?s\<rparr>)"
      by (simp add: beginSubmit_def Let_def)
    moreover have "submitFrame ops f (settled C) = (finishTake ?t (recordRejectedFrameLocked f ?result ?s), ?result)"
      using False by (simp add: submitFrame_ring S move(1,2) Let_def)
    ultimately show ?thesis using False idle move(3) by (simp add: C' defs)
  next
    case True
    obtain ring ok where e: "ringTryEnqueue ops f (rqQueue (fsQueue ?s)) = (ring, ok)" by fastforce
    note ring = finishTake_commutes [OF move(5) [of ring]]
    show ?thesis
    proof (cases ok)
      case no: False
      let ?full = "makeResult ReadyFrameQueueFull (frameId f) ''Ready frame queue is full''"
      have "submitFrame ops f (settled C) = (finishTake ?t (recordRejectedFrameLocked f ?full (putRing ring ?s)), ?full)"
        using True no e by (simp add: submitFrame_ring S move(1,4,6) ring(2) Let_def)
      moreover have "\<not> accepted ?full" by (simp add: accepted_def makeResult_def)
      moreover have "C' = producerReturns (CallSubmit f) (AnsSubmit False)
          (C\<lparr>csStore := recordRejectedFrameLocked f ?full (putRing ring ?s)\<rparr>)"
        using True no e by (simp add: C' beginSubmit_def Let_def)
      ultimately show ?thesis using idle ring(3) by (simp add: defs)
    next
      case yes: True
      have new: "taken_id ?t \<noteq> Some (frameId f)" using submission_is_new [OF store t True] .
      note acc = finishTake_accept [OF move(5) [of ring] new, where r = ?result]
      have "submitFrame ops f (settled C) =
          (finishTake ?t (acceptFrame f ?result (listReady f (putRing ring ?s))), ?result)"
        using True yes e acc(1) by (simp add: submitFrame_ring S move(1,4,6) Let_def del: accept_queue_functions)
      moreover have "C' = C\<lparr>csStore := putRing ring ?s, csSubmit := FrameInRing f ?result\<rparr>"
        using True yes e by (simp add: C' beginSubmit_def Let_def)
      ultimately show ?thesis using idle acc(2) by (simp add: defs del: accept_queue_functions)
    qed
  qed
qed

section \<open>A dequeue takes effect at the ring\<close>

lemma finishSubmit_ring:
  "finishSubmit p (putRing ring s) = putRing ring (finishSubmit p s)"
  "rqQueue (fsQueue (finishSubmit p s)) = rqQueue (fsQueue s)"
proof -
  have swap: "listReady f (putRing ring s) = putRing ring (listReady f s)" for f by (simp add: listReady_def putRing_def)
  show "finishSubmit p (putRing ring s) = putRing ring (finishSubmit p s)" by (cases p) (simp_all add: swap)
  show "rqQueue (fsQueue (finishSubmit p s)) = rqQueue (fsQueue s)" by (cases p) (simp_all add: listReady_def)
qed

lemma take_of_ring:
  "dispatchTaken s (ReadyFrameQueue_take deq (fsQueue s)) =
     (case deq (rqQueue (fsQueue s)) of
        (ring, None) \<Rightarrow> (putRing ring s, None)
      | (ring, Some g) \<Rightarrow> (FrameStore_markDispatched g (moveTaken g (putRing ring s)), Some g))"
  by (simp add: dispatchTaken_def ReadyFrameQueue_take_def putRing_def moveTaken_def split: prod.split option.split)

lemma head_is_ready:
  assumes inv: "FrameStore_inv ops valid elems cap s" and law: "dequeue_law deq valid elems cap"
    and deq: "deq (rqQueue (fsQueue s)) = (ring, Some g)"
  shows "ready_in s g"
proof -
  have "valid (rqQueue (fsQueue s))"
    using FrameStore_invD(3) [OF inv] by (simp add: queue_ok_def ReadyFrameQueue_inv_def)
  then have "g \<in> set (elems (rqQueue (fsQueue s)))"
    using law deq unfolding dequeue_law_def by (metis list.case_eq_if list.set_sel(1) option.distinct(1) option.inject snd_conv)
  then show ?thesis
    using frames_linkedD(2) [OF FrameStore_invD(2) [OF inv, unfolded store_linked_def]] by (auto simp: ready_in_def)
qed

lemma take_effect:
  assumes inv: "conc_inv ops valid elems cap C" and idle: "csTake C = NoTake"
    and law: "dequeue_law deq valid elems cap"
    and call: "store_call_step ops c (settled C) =
      (case dispatchTaken (settled C) (ReadyFrameQueue_take deq (fsQueue (settled C))) of (s, r) \<Rightarrow> (s, AnsFrame r))"
    and c: "\<not> is_submit c"
  shows "takes_effect ops c C (takeFromRing deq c C)
    \<and> take_ready (csTake (takeFromRing deq c C)) (submitted_store (takeFromRing deq c C))"
proof -
  have S: "settled C = submitted_store C" using idle by (simp add: settled_def)
  have ring: "rqQueue (fsQueue (settled C)) = rqQueue (fsQueue (csStore C))"
    by (simp add: S submitted_store_def finishSubmit_ring(2))
  obtain q r where d: "deq (rqQueue (fsQueue (csStore C))) = (q, r)" by fastforce
  note defs = takes_effect_def settled_defs producer_calls_def consumer_calls_def consumerReturns_def finishSubmit_ring
  show ?thesis
  proof (cases r)
    case None
    then show ?thesis using call d c idle ring S
      by (simp add: take_of_ring takeFromRing_def) (simp add: defs)
  next
    case (Some g)
    then have "ready_in (settled C) g"
      using head_is_ready [OF _ law, of ops "settled C" q g] inv d ring by (simp add: conc_inv_alt)
    with Some show ?thesis using call d c idle ring S
      by (simp add: take_of_ring takeFromRing_def) (simp add: defs ring_commutes(5))
  qed
qed

lemma ring_dequeue_laws:
  assumes "FrameStore_inv ops valid elems cap s"
  shows "dequeue_law (ringTryDequeue ops) valid elems cap" "dequeue_law (ringWaitDequeueTimed ops t) valid elems cap"
  using FrameStore_invD(3) [OF assms] by (simp_all add: queue_ok_def ReadyFrameQueue_inv_def ring_laws_def)

lemma step_take:
  assumes inv: "conc_inv ops valid elems cap C" and step: "concurrent_step ops (TakeFromRing c) C = Some C'"
  shows "takes_effect ops c C C' \<and> take_ready (csTake C') (submitted_store C')"
proof -
  have idle: "csTake C = NoTake" using step by (auto split: if_splits)
  have laws: "FrameStore_inv ops valid elems cap (settled C)" using inv by (simp add: conc_inv_alt)
  consider (now) "c = CallTryDequeue" | (timed) t where "c = CallWaitDequeue t"
    using step by (cases c) (auto split: if_splits)
  then show ?thesis
  proof cases
    case now
    then have "C' = takeFromRing (ringTryDequeue ops) c C" using step idle by simp
    then show ?thesis using take_effect [OF inv idle ring_dequeue_laws(1) [OF laws], of c] now
      by (simp add: tryDequeueReadyFrame_def ReadyFrameQueue_tryDequeue_def)
  next
    case timed
    then have "C' = takeFromRing (ringWaitDequeueTimed ops t) c C" using step idle by simp
    then show ?thesis using take_effect [OF inv idle ring_dequeue_laws(2) [OF laws], of c t] timed
      by (simp add: waitDequeueReadyFrame_def ReadyFrameQueue_waitDequeueTimed_def)
  qed
qed

lemma step_complete:
  assumes step: "concurrent_step ops (CompleteFrame c) C = Some C'"
  shows "takes_effect ops c C C' \<and> take_ready (csTake C') (submitted_store C')"
proof -
  have idle: "csTake C = NoTake" "csSubmit C = NoSubmit" and C': "C' = completeFrame ops c C" "\<not> is_submit c"
    using step by (cases c; auto split: if_splits)+
  obtain s a where "store_call_step ops c (csStore C) = (s, a)" by fastforce
  then show ?thesis using idle C'
    by (simp add: completeFrame_def takes_effect_def settled_defs producer_calls_def consumer_calls_def consumerReturns_def)
qed

section \<open>Every interleaving is a sequence of calls\<close>

lemma step_serial:
  assumes inv: "conc_inv ops valid elems cap C" and step: "concurrent_step ops x C = Some C'"
  shows "(same_calls C C' \<or> (\<exists>c. takes_effect ops c C C')) \<and> conc_inv ops valid elems cap C'"
proof (cases "x \<in> {ListReady, EndSubmit, MoveInFlight, EndTake}")
  case True
  note inside = step_inside [OF step True]
  have "take_ready (csTake C') (submitted_store C')"
    using inside inv by (auto simp: conc_inv_alt moved_context)
  then show ?thesis using inside inv by (auto simp: conc_inv_alt same_calls_def)
next
  case False
  then obtain c where c: "takes_effect ops c C C'" "take_ready (csTake C') (submitted_store C')"
    using step_begin [OF inv] step_take [OF inv] step_complete step by (cases x) fastforce+
  then show ?thesis using call_step(1) inv by (auto simp: conc_inv_alt takes_effect_def)
qed

definition answered :: "'q ring_ops \<Rightarrow> FrameStoreConfig \<Rightarrow> store_call list \<Rightarrow> (store_call \<times> store_answer) list" where
  "answered ops config cs = zip cs (store_answers ops config cs)"

text \<open>The calls of one run, in one order, explain the state and the answers each thread got.\<close>

definition serial_as :: "'q ring_ops \<Rightarrow> FrameStoreConfig \<Rightarrow> store_call list \<Rightarrow> 'q ConcurrentStore \<Rightarrow> bool" where
  "serial_as ops config cs C \<longleftrightarrow>
     settled C = store_after ops config cs
     \<and> producer_calls C = filter (\<lambda>ca. is_submit (fst ca)) (answered ops config cs)
     \<and> consumer_calls C = filter (\<lambda>ca. \<not> is_submit (fst ca)) (answered ops config cs)"

lemma run_calls_snoc:
  "run_calls step (cs @ [c]) s =
     (case run_calls step cs s of (s', xs) \<Rightarrow> case step c s' of (s'', x) \<Rightarrow> (s'', xs @ [x]))"
  by (induction cs arbitrary: s) (simp_all split: prod.split)

lemma run_calls_length: "length (snd (run_calls step cs s)) = length cs"
  by (induction cs arbitrary: s) (simp_all add: case_prod_beta)

lemma answered_snoc:
  "answered ops config (cs @ [c]) =
     answered ops config cs @ [(c, snd (store_call_step ops c (store_after ops config cs)))]"
  "store_after ops config (cs @ [c]) = fst (store_call_step ops c (store_after ops config cs))"
  using run_calls_length [of "store_call_step ops" cs "FrameStore_new ops config"]
  by (simp_all add: answered_def store_answers_def store_after_def run_calls_snoc case_prod_beta)

lemma serial_step:
  assumes "serial_as ops config cs C" "same_calls C C' \<or> (\<exists>c. takes_effect ops c C C')"
  shows "\<exists>cs. serial_as ops config cs C'"
  using assms(2)
proof
  assume "same_calls C C'"
  then have "serial_as ops config cs C'" using assms(1) by (simp add: serial_as_def same_calls_def)
  then show ?thesis ..
next
  assume "\<exists>c. takes_effect ops c C C'"
  then obtain c where "takes_effect ops c C C'" ..
  then have "serial_as ops config (cs @ [c]) C'"
    using assms(1) by (simp add: serial_as_def takes_effect_def answered_snoc)
  then show ?thesis ..
qed

lemma run_serial:
  "conc_inv ops valid elems cap C \<Longrightarrow> serial_as ops config cs C \<Longrightarrow> concurrent_run ops xs C = Some C'
     \<Longrightarrow> \<exists>cs. serial_as ops config cs C'"
proof (induction xs arbitrary: C cs)
  case (Cons x xs)
  then obtain C1 where C1: "concurrent_step ops x C = Some C1" "concurrent_run ops xs C1 = Some C'"
    by (auto split: option.splits)
  note step = step_serial [OF Cons.prems(1) C1(1)]
  then obtain cs' where "serial_as ops config cs' C1" using serial_step [OF Cons.prems(2)] by blast
  then show ?case using Cons.IH step C1(2) by blast
qed auto

lemma concurrent_new:
  assumes "ring_laws ops valid elems cap"
  shows "conc_inv ops valid elems cap (ConcurrentStore_new ops config)"
    and "serial_as ops config [] (ConcurrentStore_new ops config)"
  using FrameStore_inv_new [OF assms, of config]
  by (simp_all add: conc_inv_alt settled_defs ConcurrentStore_new_def serial_as_def producer_calls_def consumer_calls_def
      answered_def store_after_def)

lemma interleaving_serial:
  assumes "ring_laws ops valid elems cap"
    and "concurrent_run ops xs (ConcurrentStore_new ops config) = Some C"
    and "csSubmit C = NoSubmit" "csTake C = NoTake"
  shows "\<exists>cs. csStore C = store_after ops config cs
    \<and> csProducer C = filter (\<lambda>ca. is_submit (fst ca)) (answered ops config cs)
    \<and> csConsumer C = filter (\<lambda>ca. \<not> is_submit (fst ca)) (answered ops config cs)"
proof -
  obtain cs where "serial_as ops config cs C" using run_serial [OF concurrent_new [OF assms(1)] assms(2)] by blast
  then show ?thesis using assms(3,4) by (auto simp: serial_as_def settled_defs producer_calls_def consumer_calls_def)
qed

end
