(* ===== verification/FrameStoreConcurrentProperties.thy ===== *)
theory FrameStoreConcurrentProperties
  imports FrameStoreConcurrent FrameStoreProperties
begin

text \<open>
  The frame store between its locks behaves as one call after the other: the properties of
  \<open>FrameStoreProperties\<close>, stated for sequences of calls, hold for the interleavings of a producer and
  a consumer thread.
\<close>

definition finishSteps :: "'q ConcurrentStore \<Rightarrow> lock_step list" where
  "finishSteps C =
     (case csSubmit C of NoSubmit \<Rightarrow> [] | FrameInRing f r \<Rightarrow> [ListReady, EndSubmit] | FrameListed f r \<Rightarrow> [EndSubmit])
     @ (case csTake C of NoTake \<Rightarrow> [] | TakenFromRing c g \<Rightarrow> [MoveInFlight, EndTake] | TakenInFlight c g \<Rightarrow> [EndTake])"

lemma finishSteps_run:
  "length (finishSteps C) \<le> 4 \<and> set (finishSteps C) \<subseteq> {ListReady, EndSubmit, MoveInFlight, EndTake}
   \<and> (\<exists>C'. concurrent_run ops (finishSteps C) C = Some C' \<and> csSubmit C' = NoSubmit \<and> csTake C' = NoTake)"
  by (cases "csSubmit C"; cases "csTake C") (auto simp: finishSteps_def producerReturns_def consumerReturns_def)

lemma concurrent_run_append:
  "concurrent_run ops (xs @ ys) C = Option.bind (concurrent_run ops xs C) (concurrent_run ops ys)"
  by (induction xs arbitrary: C) (auto split: option.splits)

text \<open>C6: However the locked and unlocked parts of submissions and dequeues interleave, the store
  never gets stuck: the calls in progress return after at most four more steps of their own, and then
  there is an order of all the calls, keeping the order of each thread, in which running them one
  after the other gives the same store and the same answers.\<close>

theorem store_calls_serializable:
  assumes "ring_laws ops valid elems cap"
    and "concurrent_run ops xs (ConcurrentStore_new ops config) = Some C"
  shows "\<exists>ys C' cs. length ys \<le> 4 \<and> set ys \<subseteq> {ListReady, EndSubmit, MoveInFlight, EndTake}
    \<and> concurrent_run ops ys C = Some C' \<and> csSubmit C' = NoSubmit \<and> csTake C' = NoTake
    \<and> csStore C' = store_after ops config cs
    \<and> csProducer C' = filter (\<lambda>ca. is_submit (fst ca)) (answered ops config cs)
    \<and> csConsumer C' = filter (\<lambda>ca. \<not> is_submit (fst ca)) (answered ops config cs)"
proof -
  obtain C' where C': "concurrent_run ops (finishSteps C) C = Some C'" "csSubmit C' = NoSubmit" "csTake C' = NoTake"
    using finishSteps_run [of C ops] by blast
  then have "concurrent_run ops (xs @ finishSteps C) (ConcurrentStore_new ops config) = Some C'"
    using assms(2) by (simp add: concurrent_run_append)
  from interleaving_serial [OF assms(1) this C'(2,3)] show ?thesis using C' finishSteps_run [of C ops] by blast
qed

definition sampleInterleaving :: "lock_step list" where
  "sampleInterleaving =
     [BeginSubmit (sampleFrame 1), TakeFromRing CallTryDequeue, ListReady, MoveInFlight, EndSubmit, EndTake]"

lemma sample_interleaving:
  "\<exists>C. concurrent_run list_ring sampleInterleaving (ConcurrentStore_new list_ring sampleConfig) = Some C
     \<and> csSubmit C = NoSubmit \<and> csTake C = NoTake
     \<and> csProducer C = [(CallSubmit (sampleFrame 1), AnsSubmit True)]
     \<and> csConsumer C = [(CallTryDequeue, AnsFrame (Some (sampleFrame 1)))]"
proof -
  let ?C = "ConcurrentStore_new list_ring sampleConfig"
  have "accepted (snd (submitFrame list_ring (sampleFrame 1) (FrameStore_new list_ring sampleConfig)))"
    using submit_refines(2) [OF FrameStore_inv_new [OF list_ring_laws], of "sampleFrame 1" sampleConfig]
    by (simp add: store_abs_new [OF list_ring_laws] spec_submit_def spec_admits_sample spec_new_def sampleConfig_def)
  then have acc: "accepted (validate (sampleFrame 1) (submissionContext (csStore ?C)))"
    by (auto simp: submitFrame_def ConcurrentStore_new_def Let_def split: if_splits prod.splits)
  have ring: "rqQueue (fsQueue (csStore ?C)) = ([], 2)" "csSubmit ?C = NoSubmit" "csTake ?C = NoTake"
    "csProducer ?C = []" "csConsumer ?C = []"
    by (simp_all add: ConcurrentStore_new_def FrameStore_new_def ReadyFrameQueue_new_def list_ring_def sampleConfig_def)
  show ?thesis
    using acc ring
    by (simp add: sampleInterleaving_def beginSubmit_def Let_def takeFromRing_def putRing_def list_ring_def
        list_dequeue_def producerReturns_def consumerReturns_def)
qed

theorem store_calls_serializable_witness:
  "\<exists>C cs. concurrent_run list_ring sampleInterleaving (ConcurrentStore_new list_ring sampleConfig) = Some C
     \<and> csConsumer C = [(CallTryDequeue, AnsFrame (Some (sampleFrame 1)))]
     \<and> csStore C = store_after list_ring sampleConfig cs"
proof -
  obtain C where C: "concurrent_run list_ring sampleInterleaving (ConcurrentStore_new list_ring sampleConfig) = Some C"
    "csSubmit C = NoSubmit" "csTake C = NoTake"
    "csConsumer C = [(CallTryDequeue, AnsFrame (Some (sampleFrame 1)))]"
    using sample_interleaving by blast
  obtain ys C' cs where *: "set ys \<subseteq> {ListReady, EndSubmit, MoveInFlight, EndTake}"
    "concurrent_run list_ring ys C = Some C'" "csStore C' = store_after list_ring sampleConfig cs"
    using store_calls_serializable [OF list_ring_laws C(1)] by blast
  have "ys = []" using *(1,2) C(2,3) by (cases ys) auto
  then show ?thesis using * C by auto
qed

end
