(* ===== verification/SceneTypes.thy ===== *)
theory SceneTypes
  imports FrameTypes
begin

text \<open>
  The value types of the scene and viewer models (\<open>src/model/include/model/scene/types\<close>,
  \<open>src/model/include/model/viewer/types\<close>): poses as sixteen floats, scene versions, viewer pose
  requests and render outputs, with the code's equality on them (float equality, so a pose with a
  NaN differs from itself).
\<close>

type_synonym SceneVersionId = u64
type_synonym ViewerPoseGeneration = u64

section \<open>Poses\<close>

datatype Pose4f = Pose4f (poseMatrix: "f32 list")

text \<open>The \<open>std::array\<close> of sixteen floats.\<close>

definition pose_shaped :: "Pose4f \<Rightarrow> bool" where
  "pose_shaped p \<longleftrightarrow> length (poseMatrix p) = 16"

definition zeroPose :: Pose4f where
  "zeroPose = Pose4f (replicate 16 f32_zero)"

definition pose_eq :: "Pose4f \<Rightarrow> Pose4f \<Rightarrow> bool" where
  "pose_eq a b \<longleftrightarrow> list_all2 f32_eq (poseMatrix a) (poseMatrix b)"

section \<open>Scene versions\<close>

datatype TrackingStatus = NotRun | Tracked | Lost

datatype IntegrationStatus = Skipped | Integrated | IntegrationFailed

record SceneVersion =
  svVersionId :: SceneVersionId
  svTimestamp :: FrameTimestamp
  svLastIntegratedFrameId :: FrameId
  svCameraToWorld :: Pose4f
  svTrackingStatus :: TrackingStatus
  svIntegrationStatus :: IntegrationStatus

section \<open>Viewer poses and outputs\<close>

record ViewerPose =
  vpPose :: Pose4f
  vpIntrinsics :: CameraIntrinsics
  vpImageSize :: ImageSize
  vpGeneration :: ViewerPoseGeneration

record RenderOutput =
  roRgb :: FrameBuffer
  roImageSize :: ImageSize
  roPoseGeneration :: ViewerPoseGeneration
  roSceneVersionId :: SceneVersionId
  roRenderTimestamp :: int
  roCached :: bool

definition hasRgb :: "RenderOutput \<Rightarrow> bool" where
  "hasRgb r \<longleftrightarrow> \<not> FrameBuffer_empty (roRgb r)"

definition emptyRenderOutput :: RenderOutput where
  "emptyRenderOutput =
     \<lparr>roRgb = emptyBuffer, roImageSize = \<lparr>imgWidth = 0, imgHeight = 0\<rparr>, roPoseGeneration = 0,
      roSceneVersionId = 0, roRenderTimestamp = 0, roCached = False\<rparr>"

end
