(* ===== verification/SceneLock.thy ===== *)
theory SceneLock
  imports SceneTypes
begin

text \<open>
  The shared scene: \<open>SharedSceneState\<close>, \<open>SceneAccessLease\<close>, \<open>SceneAccess\<close> and \<open>SharedScene\<close> of
  \<open>src/model/src/scene\<close>.  The scene itself is an InfiniTAM object, a type parameter here.

  The operations are split where the code gives up the mutex.  Acquiring is one critical section
  that ends with a lease or parked in \<open>condition.wait\<close>; each return from the wait is another
  attempt, allowed at any time because waits may wake spuriously; releasing is the critical
  section of the destructor followed, outside the mutex, by \<open>notify_all\<close>.
\<close>

section \<open>State\<close>

datatype SceneLockMode = ReadMode | WriteMode

record SceneAccessLease =
  lsOwner :: nat
  lsMode :: SceneLockMode
  lsVersion :: SceneVersionId

record 's SharedSceneState =
  activeReaderCount :: nat
  waitingWriterCount :: nat
  writerActive :: bool
  blockedPriorityReadPending :: bool
  lockPolicy :: SceneReadPolicy
  sceneVersionId :: SceneVersionId
  sceneContents :: 's

definition SharedSceneState_new :: "SceneReadPolicy \<Rightarrow> 's \<Rightarrow> 's SharedSceneState" where
  "SharedSceneState_new policy sc =
     \<lparr>activeReaderCount = 0, waitingWriterCount = 0, writerActive = False,
      blockedPriorityReadPending = False, lockPolicy = policy, sceneVersionId = 0,
      sceneContents = sc\<rparr>"

section \<open>Acquiring and releasing\<close>

definition canAcquireRead :: "'s SharedSceneState \<Rightarrow> bool" where
  "canAcquireRead s =
     (case lockPolicy s of
        Greedy \<Rightarrow> \<not> writerActive s
      | Balanced \<Rightarrow>
          \<not> writerActive s \<and> (waitingWriterCount s = 0 \<or> blockedPriorityReadPending s))"

definition canAcquireWrite :: "'s SharedSceneState \<Rightarrow> bool" where
  "canAcquireWrite s \<longleftrightarrow>
     \<not> writerActive s \<and> activeReaderCount s = 0 \<and> \<not> blockedPriorityReadPending s"

text \<open>The statements before the wait.\<close>

definition announceRead :: "'s SharedSceneState \<Rightarrow> 's SharedSceneState" where
  "announceRead s = (if writerActive s then s\<lparr>blockedPriorityReadPending := True\<rparr> else s)"

definition announceWrite :: "'s SharedSceneState \<Rightarrow> 's SharedSceneState" where
  "announceWrite s = s\<lparr>waitingWriterCount := waitingWriterCount s + 1\<rparr>"

text \<open>One evaluation of the wait's predicate; \<open>None\<close> means that the thread parks again.\<close>

definition attemptRead ::
    "nat \<Rightarrow> 's SharedSceneState \<Rightarrow> ('s SharedSceneState \<times> SceneAccessLease) option" where
  "attemptRead this s =
     (if canAcquireRead s then
        Some (s\<lparr>activeReaderCount := activeReaderCount s + 1, blockedPriorityReadPending := False\<rparr>,
              \<lparr>lsOwner = this, lsMode = ReadMode, lsVersion = sceneVersionId s\<rparr>)
      else None)"

definition attemptWrite ::
    "nat \<Rightarrow> 's SharedSceneState \<Rightarrow> ('s SharedSceneState \<times> SceneAccessLease) option" where
  "attemptWrite this s =
     (if canAcquireWrite s then
        Some (s\<lparr>waitingWriterCount := waitingWriterCount s - 1, writerActive := True\<rparr>,
              \<lparr>lsOwner = this, lsMode = WriteMode, lsVersion = sceneVersionId s\<rparr>)
      else None)"

text \<open>The critical section of the lease's destructor.\<close>

definition releaseLease :: "SceneAccessLease \<Rightarrow> 's SharedSceneState \<Rightarrow> 's SharedSceneState" where
  "releaseLease l s =
     (case lsMode l of
        ReadMode \<Rightarrow>
          if activeReaderCount s > 0 then s\<lparr>activeReaderCount := activeReaderCount s - 1\<rparr> else s
      | WriteMode \<Rightarrow> s\<lparr>writerActive := False\<rparr>)"

section \<open>Access handles and publication\<close>

datatype scene_error = LogicError string | InvalidArgument string

definition requireLease ::
    "SceneAccessLease option \<Rightarrow> string \<Rightarrow> scene_error + SceneAccessLease" where
  "requireLease lease msg = (case lease of None \<Rightarrow> Inl (LogicError msg) | Some l \<Rightarrow> Inr l)"

definition readVersion :: "SceneAccessLease option \<Rightarrow> scene_error + SceneVersionId" where
  "readVersion lease =
     (case requireLease lease ''Scene read access handle is empty'' of
        Inl e \<Rightarrow> Inl e | Inr l \<Rightarrow> Inr (lsVersion l))"

definition writeVersion :: "SceneAccessLease option \<Rightarrow> scene_error + SceneVersionId" where
  "writeVersion lease =
     (case requireLease lease ''Scene write access handle is empty'' of
        Inl e \<Rightarrow> Inl e | Inr l \<Rightarrow> Inr (lsVersion l))"

definition readScene :: "SceneAccessLease option \<Rightarrow> 's SharedSceneState \<Rightarrow> scene_error + 's" where
  "readScene lease s =
     (case requireLease lease ''Scene read access handle is empty'' of
        Inl e \<Rightarrow> Inl e | Inr l \<Rightarrow> Inr (sceneContents s))"

text \<open>Mutable access, as the replacement of the contents through the handle.\<close>

definition writeScene ::
    "SceneAccessLease option \<Rightarrow> 's \<Rightarrow> 's SharedSceneState \<Rightarrow> scene_error + 's SharedSceneState" where
  "writeScene lease sc s =
     (case requireLease lease ''Scene write access handle is empty'' of
        Inl e \<Rightarrow> Inl e | Inr l \<Rightarrow> Inr (s\<lparr>sceneContents := sc\<rparr>))"

definition SharedScene_version :: "'s SharedSceneState \<Rightarrow> SceneVersionId" where
  "SharedScene_version s = sceneVersionId s"

definition publishScene ::
    "nat \<Rightarrow> SceneAccessLease option \<Rightarrow> 's SharedSceneState \<Rightarrow>
       scene_error + 's SharedSceneState \<times> SceneAccessLease \<times> SceneVersionId" where
  "publishScene this access s =
     (case access of
        None \<Rightarrow> Inl (InvalidArgument ''Scene version publication requires a valid write access'')
      | Some lease \<Rightarrow>
          if lsMode lease \<noteq> WriteMode \<or> lsOwner lease \<noteq> this then
            Inl (InvalidArgument ''Scene version publication requires this scene write access'')
          else
            let s = s\<lparr>sceneVersionId := sceneVersionId s + 1\<rparr> in
            Inr (s, lease\<lparr>lsVersion := sceneVersionId s\<rparr>, sceneVersionId s))"

section \<open>Threads on one scene\<close>

text \<open>
  A thread is outside, parked in a wait (with a flag that tells whether it has been notified since
  it parked), in possession of a lease, or between the two halves of a release.
\<close>

datatype client = Outside | ReadParked bool | WriteParked bool | Holding SceneAccessLease | Releasing

record 's SceneSystem =
  sysState :: "'s SharedSceneState"
  sysClients :: "nat \<Rightarrow> client"

definition SceneSystem_new :: "SceneReadPolicy \<Rightarrow> 's \<Rightarrow> 's SceneSystem" where
  "SceneSystem_new policy sc =
     \<lparr>sysState = SharedSceneState_new policy sc, sysClients = (\<lambda>_. Outside)\<rparr>"

text \<open>\<open>this\<close> is the address of the scene's state.\<close>

definition this_scene :: nat where
  "this_scene = 0"

definition moveTo ::
    "nat \<Rightarrow> 's SharedSceneState \<Rightarrow> client \<Rightarrow> 's SceneSystem \<Rightarrow> 's SceneSystem" where
  "moveTo c s p S = S\<lparr>sysState := s, sysClients := (sysClients S)(c := p)\<rparr>"

definition tryRead :: "nat \<Rightarrow> 's SharedSceneState \<Rightarrow> 's SceneSystem \<Rightarrow> 's SceneSystem" where
  "tryRead c s S =
     (case attemptRead this_scene s of
        None \<Rightarrow> moveTo c s (ReadParked False) S
      | Some (s', l) \<Rightarrow> moveTo c s' (Holding l) S)"

definition tryWrite :: "nat \<Rightarrow> 's SharedSceneState \<Rightarrow> 's SceneSystem \<Rightarrow> 's SceneSystem" where
  "tryWrite c s S =
     (case attemptWrite this_scene s of
        None \<Rightarrow> moveTo c s (WriteParked False) S
      | Some (s', l) \<Rightarrow> moveTo c s' (Holding l) S)"

fun notified :: "client \<Rightarrow> client" where
  "notified (ReadParked _) = ReadParked True"
| "notified (WriteParked _) = WriteParked True"
| "notified p = p"

definition notifyAll :: "'s SceneSystem \<Rightarrow> 's SceneSystem" where
  "notifyAll S = S\<lparr>sysClients := notified \<circ> sysClients S\<rparr>"

datatype 's scene_event =
  EnterRead nat | EnterWrite nat | WakeUp nat | Mutate nat 's | Publish nat | Release nat
  | NotifyAll nat

text \<open>One step of one thread; \<open>None\<close> when the thread is not at that point of the code.\<close>

fun scene_step :: "'s scene_event \<Rightarrow> 's SceneSystem \<Rightarrow> 's SceneSystem option" where
  "scene_step (EnterRead c) S =
     (if sysClients S c = Outside then Some (tryRead c (announceRead (sysState S)) S) else None)"
| "scene_step (EnterWrite c) S =
     (if sysClients S c = Outside then Some (tryWrite c (announceWrite (sysState S)) S) else None)"
| "scene_step (WakeUp c) S =
     (case sysClients S c of
        ReadParked _ \<Rightarrow> Some (tryRead c (sysState S) S)
      | WriteParked _ \<Rightarrow> Some (tryWrite c (sysState S) S)
      | _ \<Rightarrow> None)"
| "scene_step (Mutate c sc) S =
     (case sysClients S c of
        Holding l \<Rightarrow>
          (if lsMode l = WriteMode then
             (case writeScene (Some l) sc (sysState S) of
                Inl _ \<Rightarrow> None | Inr s \<Rightarrow> Some (moveTo c s (Holding l) S))
           else None)
      | _ \<Rightarrow> None)"
| "scene_step (Publish c) S =
     (case sysClients S c of
        Holding l \<Rightarrow>
          (case publishScene this_scene (Some l) (sysState S) of
             Inl _ \<Rightarrow> None | Inr (s, l', _) \<Rightarrow> Some (moveTo c s (Holding l') S))
      | _ \<Rightarrow> None)"
| "scene_step (Release c) S =
     (case sysClients S c of
        Holding l \<Rightarrow> Some (moveTo c (releaseLease l (sysState S)) Releasing S)
      | _ \<Rightarrow> None)"
| "scene_step (NotifyAll c) S =
     (if sysClients S c = Releasing then Some (notifyAll (moveTo c (sysState S) Outside S)) else None)"

inductive scene_reachable :: "SceneReadPolicy \<Rightarrow> 's \<Rightarrow> 's SceneSystem \<Rightarrow> bool" for policy sc where
  start: "scene_reachable policy sc (SceneSystem_new policy sc)"
| step: "scene_reachable policy sc S \<Longrightarrow> scene_step e S = Some S' \<Longrightarrow> scene_reachable policy sc S'"

inductive_cases scene_reachableE: "scene_reachable policy sc S"

fun scene_run :: "'s scene_event list \<Rightarrow> 's SceneSystem \<Rightarrow> 's SceneSystem option" where
  "scene_run [] S = Some S"
| "scene_run (e # es) S = (case scene_step e S of None \<Rightarrow> None | Some S' \<Rightarrow> scene_run es S')"

lemma scene_run_reachable:
  "scene_reachable policy sc S \<Longrightarrow> scene_run es S = Some S' \<Longrightarrow> scene_reachable policy sc S'"
  by (induction es arbitrary: S) (auto split: option.splits intro: scene_reachable.step)

end
