(* ===== verification/SceneLockInvariant.thy ===== *)
theory SceneLockInvariant
  imports SceneLock
begin

text \<open>
  The invariant of the shared scene under every interleaving of its threads: the counters count,
  writers exclude everyone, a pending priority reader exists, leases carry the current version,
  and no thread sleeps through a wake-up (a parked thread whose condition holds has been notified,
  or a release is about to notify).
\<close>

section \<open>Counting clients\<close>

fun is_reader :: "client \<Rightarrow> bool" where
  "is_reader (Holding l) = (lsMode l = ReadMode)"
| "is_reader _ = False"

fun is_writer :: "client \<Rightarrow> bool" where
  "is_writer (Holding l) = (lsMode l = WriteMode)"
| "is_writer _ = False"

fun parked_read :: "client \<Rightarrow> bool" where
  "parked_read (ReadParked _) = True"
| "parked_read _ = False"

fun parked_write :: "client \<Rightarrow> bool" where
  "parked_write (WriteParked _) = True"
| "parked_write _ = False"

definition clients_finite :: "(nat \<Rightarrow> client) \<Rightarrow> bool" where
  "clients_finite cl \<longleftrightarrow> finite {c. cl c \<noteq> Outside}"

definition countOf :: "(client \<Rightarrow> bool) \<Rightarrow> (nat \<Rightarrow> client) \<Rightarrow> nat" where
  "countOf P cl = card {c. P (cl c)}"

lemma clients_finite_sub: "clients_finite cl \<Longrightarrow> \<not> P Outside \<Longrightarrow> finite {c. P (cl c)}"
  unfolding clients_finite_def by (rule finite_subset [rotated]) auto

lemma clients_finite_upd [simp]: "clients_finite cl \<Longrightarrow> clients_finite (cl(c := p))"
  unfolding clients_finite_def by (rule finite_subset [of _ "insert c {c. cl c \<noteq> Outside}"]) auto

lemma countOf_upd:
  assumes "clients_finite cl" "\<not> P Outside"
  shows "countOf P (cl(c := p)) + (if P (cl c) then 1 else 0) =
    countOf P cl + (if P p then 1 else 0)"
proof -
  let ?A = "{c. P (cl c)}"
  have fin: "finite ?A" using assms by (rule clients_finite_sub)
  have set: "{x. P ((cl(c := p)) x)} = (if P p then insert c (?A - {c}) else ?A - {c})" by auto
  show ?thesis
  proof (cases "P (cl c)")
    case True
    then have "Suc (card (?A - {c})) = card ?A" using fin by (intro card_Suc_Diff1) auto
    then show ?thesis using True fin unfolding countOf_def set by (simp add: insert_absorb)
  next
    case False
    then have "?A - {c} = ?A" by auto
    then show ?thesis using False fin unfolding countOf_def set by simp
  qed
qed

lemma countOf_zero: "clients_finite cl \<Longrightarrow> \<not> P Outside \<Longrightarrow> countOf P cl = 0 \<longleftrightarrow> (\<forall>c. \<not> P (cl c))"
  using clients_finite_sub by (auto simp: countOf_def card_eq_0_iff)

section \<open>The invariant\<close>

definition no_missed_wakeup :: "'s SharedSceneState \<Rightarrow> (nat \<Rightarrow> client) \<Rightarrow> bool" where
  "no_missed_wakeup s cl \<longleftrightarrow>
     (\<exists>c. cl c = Releasing)
     \<or> ((canAcquireRead s \<longrightarrow> (\<forall>c. cl c \<noteq> ReadParked False))
        \<and> (canAcquireWrite s \<longrightarrow> (\<forall>c. cl c \<noteq> WriteParked False)))"

definition lock_inv :: "'s SharedSceneState \<Rightarrow> (nat \<Rightarrow> client) \<Rightarrow> bool" where
  "lock_inv s cl \<longleftrightarrow>
     clients_finite cl
     \<and> activeReaderCount s = countOf is_reader cl
     \<and> waitingWriterCount s = countOf parked_write cl
     \<and> (if writerActive s then 1 else 0) = countOf is_writer cl
     \<and> (writerActive s \<longrightarrow> activeReaderCount s = 0)
     \<and> (blockedPriorityReadPending s \<longrightarrow> (\<exists>c. parked_read (cl c)))
     \<and> (\<forall>c l. cl c = Holding l \<longrightarrow> lsOwner l = this_scene \<and> lsVersion l = sceneVersionId s)
     \<and> no_missed_wakeup s cl"

lemmas count_rules = countOf_upd [of _ is_reader] countOf_upd [of _ is_writer]
  countOf_upd [of _ parked_write]

text \<open>A step of one thread that opens no condition keeps the promise.\<close>

lemma no_missed_wakeup_step:
  assumes "no_missed_wakeup s cl" "cl c \<noteq> Releasing"
    and "canAcquireRead s' \<Longrightarrow> canAcquireRead s" "canAcquireWrite s' \<Longrightarrow> canAcquireWrite s"
    and "p = ReadParked False \<Longrightarrow> \<not> canAcquireRead s'" "p = WriteParked False \<Longrightarrow> \<not> canAcquireWrite s'"
  shows "no_missed_wakeup s' (cl(c := p))"
proof (cases "\<exists>d. cl d = Releasing")
  case True
  then obtain d where "cl d = Releasing" ..
  then have "(cl(c := p)) d = Releasing" using assms(2) by auto
  then show ?thesis unfolding no_missed_wakeup_def by blast
next
  case False
  then have "(canAcquireRead s' \<longrightarrow> (\<forall>d. (cl(c := p)) d \<noteq> ReadParked False))
      \<and> (canAcquireWrite s' \<longrightarrow> (\<forall>d. (cl(c := p)) d \<noteq> WriteParked False))"
    using assms(3-6) False assms(1) unfolding no_missed_wakeup_def by auto
  then show ?thesis unfolding no_missed_wakeup_def by blast
qed

lemma ex_client_upd: "\<exists>d. P (cl d) \<Longrightarrow> \<not> P (cl c) \<or> P p \<Longrightarrow> \<exists>d. P ((cl(c := p)) d)"
  by (metis fun_upd_other fun_upd_same)

lemma lock_invI:
  assumes "clients_finite cl" "activeReaderCount s = countOf is_reader cl"
    and "waitingWriterCount s = countOf parked_write cl"
    and "(if writerActive s then 1 else 0) = countOf is_writer cl"
    and "writerActive s \<Longrightarrow> activeReaderCount s = 0"
    and "blockedPriorityReadPending s \<Longrightarrow> \<exists>c. parked_read (cl c)"
    and "\<And>c l. cl c = Holding l \<Longrightarrow> lsOwner l = this_scene \<and> lsVersion l = sceneVersionId s"
    and "no_missed_wakeup s cl"
  shows "lock_inv s cl"
  using assms by (simp add: lock_inv_def)

lemma lock_invD:
  assumes "lock_inv s cl"
  shows "clients_finite cl" "activeReaderCount s = countOf is_reader cl"
    "waitingWriterCount s = countOf parked_write cl"
    "(if writerActive s then 1 else 0) = countOf is_writer cl"
    "writerActive s \<Longrightarrow> activeReaderCount s = 0"
    "blockedPriorityReadPending s \<Longrightarrow> \<exists>c. parked_read (cl c)"
    "cl c = Holding l \<Longrightarrow> lsOwner l = this_scene \<and> lsVersion l = sceneVersionId s"
    "no_missed_wakeup s cl"
  using assms by (simp_all add: lock_inv_def)

lemma writerActive_blocks: "writerActive s \<Longrightarrow> \<not> canAcquireRead s \<and> \<not> canAcquireWrite s"
  by (simp add: canAcquireRead_def canAcquireWrite_def split: SceneReadPolicy.splits)

lemma lock_inv_new: "lock_inv (SharedSceneState_new policy sc) (\<lambda>_. Outside)"
  by (simp add: lock_inv_def SharedSceneState_new_def clients_finite_def countOf_def
      no_missed_wakeup_def)

lemma lock_inv_announceRead:
  assumes "lock_inv s cl"
  shows "canAcquireRead (announceRead s) = canAcquireRead s"
    and "canAcquireRead s \<Longrightarrow> announceRead s = s"
  using assms by (auto simp: announceRead_def canAcquireRead_def split: SceneReadPolicy.splits)

lemma lock_inv_park_read:
  assumes inv: "lock_inv s cl" and c: "cl c = Outside \<or> parked_read (cl c)"
    and no: "\<not> canAcquireRead s"
  shows "lock_inv (announceRead s) (cl(c := ReadParked False))"
    and "lock_inv s (cl(c := ReadParked False))"
proof -
  note d = lock_invD [OF inv]
  note counts = count_rules [OF d(1), of c "ReadParked False"]
  have kind: "\<not> is_reader (cl c)" "\<not> is_writer (cl c)" "\<not> parked_write (cl c)" "cl c \<noteq> Releasing"
    using c by (cases "cl c"; simp)+
  show base: "lock_inv s (cl(c := ReadParked False))"
  proof (rule lock_invI)
    show "no_missed_wakeup s (cl(c := ReadParked False))"
      by (rule no_missed_wakeup_step [OF d(8)]) (use kind no in simp_all)
    show "\<exists>d. parked_read ((cl(c := ReadParked False)) d)" by (rule exI [of _ c]) simp
  qed (use d(1-5) counts kind d(7) in \<open>auto split: if_splits\<close>)
  show "lock_inv (announceRead s) (cl(c := ReadParked False))"
  proof (rule lock_invI)
    show "no_missed_wakeup (announceRead s) (cl(c := ReadParked False))"
      by (rule no_missed_wakeup_step [OF d(8)])
        (use kind no lock_inv_announceRead(1) [OF inv] in
          \<open>simp_all add: announceRead_def canAcquireWrite_def split: if_splits\<close>)
    show "\<exists>d. parked_read ((cl(c := ReadParked False)) d)" by (rule exI [of _ c]) simp
  qed (use lock_invD [OF base] in \<open>simp_all add: announceRead_def split: if_splits\<close>)
qed

lemma lock_inv_take_read:
  assumes inv: "lock_inv s cl" and c: "cl c = Outside \<or> parked_read (cl c)"
    and yes: "attemptRead this_scene s = Some (s', l)"
  shows "lock_inv s' (cl(c := Holding l))"
proof -
  note d = lock_invD [OF inv]
  note counts = count_rules [OF d(1), of c "Holding l"]
  have s': "s' = s\<lparr>activeReaderCount := activeReaderCount s + 1, blockedPriorityReadPending := False\<rparr>"
    and l: "l = \<lparr>lsOwner = this_scene, lsMode = ReadMode, lsVersion = sceneVersionId s\<rparr>"
    and can: "canAcquireRead s"
    using yes by (auto simp: attemptRead_def split: if_splits)
  have w: "\<not> writerActive s" using can writerActive_blocks by blast
  have kind: "\<not> is_reader (cl c)" "\<not> is_writer (cl c)" "\<not> parked_write (cl c)" "cl c \<noteq> Releasing"
    using c by (cases "cl c"; simp)+
  show ?thesis
  proof (rule lock_invI)
    show "no_missed_wakeup s' (cl(c := Holding l))"
      by (rule no_missed_wakeup_step [OF d(8)])
        (use kind can in \<open>simp_all add: s' canAcquireWrite_def\<close>)
  qed (use d(1-5,7) counts kind w in \<open>auto simp: s' l split: if_splits\<close>)
qed

lemma lock_inv_park_write:
  assumes inv: "lock_inv s cl" and no: "\<not> canAcquireWrite s"
  shows "cl c = Outside \<Longrightarrow> lock_inv (announceWrite s) (cl(c := WriteParked False))"
    and "parked_write (cl c) \<Longrightarrow> lock_inv s (cl(c := WriteParked False))"
proof -
  note d = lock_invD [OF inv]
  note counts = count_rules [OF d(1), of c "WriteParked False"]
  show "lock_inv (announceWrite s) (cl(c := WriteParked False))" if c: "cl c = Outside"
  proof (rule lock_invI)
    show "no_missed_wakeup (announceWrite s) (cl(c := WriteParked False))"
      by (rule no_missed_wakeup_step [OF d(8)])
        (use c no in \<open>auto simp: announceWrite_def canAcquireRead_def canAcquireWrite_def
          split: SceneReadPolicy.splits\<close>)
    show "\<exists>x. parked_read ((cl(c := WriteParked False)) x)"
      if "blockedPriorityReadPending (announceWrite s)"
      using ex_client_upd [of parked_read cl c] d(6) that c by (simp add: announceWrite_def)
  qed (use d(1-5,7) counts c in \<open>auto simp: announceWrite_def split: if_splits\<close>)
  show "lock_inv s (cl(c := WriteParked False))" if c: "parked_write (cl c)"
  proof (rule lock_invI)
    have kind: "\<not> is_reader (cl c)" "\<not> is_writer (cl c)" "cl c \<noteq> Releasing" "\<not> parked_read (cl c)"
      using c by (cases "cl c"; simp)+
    show "no_missed_wakeup s (cl(c := WriteParked False))"
      by (rule no_missed_wakeup_step [OF d(8)]) (use kind no in simp_all)
    show "\<exists>x. parked_read ((cl(c := WriteParked False)) x)" if "blockedPriorityReadPending s"
      using ex_client_upd [of parked_read cl c] d(6) that kind by simp
    show "activeReaderCount s = countOf is_reader (cl(c := WriteParked False))"
      "waitingWriterCount s = countOf parked_write (cl(c := WriteParked False))"
      "(if writerActive s then 1 else 0) = countOf is_writer (cl(c := WriteParked False))"
      using d(2-4) counts kind c by simp_all
  qed (use d(1,5,7) in \<open>auto split: if_splits\<close>)
qed

lemma lock_inv_take_write:
  assumes inv: "lock_inv s cl" and can: "canAcquireWrite s"
    and cs: "(cl c = Outside \<and> n = waitingWriterCount s) \<or>
      (parked_write (cl c) \<and> n = waitingWriterCount s - 1)"
    and l: "l = \<lparr>lsOwner = this_scene, lsMode = WriteMode, lsVersion = sceneVersionId s\<rparr>"
  shows "lock_inv (s\<lparr>waitingWriterCount := n, writerActive := True\<rparr>) (cl(c := Holding l))"
proof (rule lock_invI)
  note d = lock_invD [OF inv]
  note counts = count_rules [OF d(1), of c "Holding l"]
  let ?s = "s\<lparr>waitingWriterCount := n, writerActive := True\<rparr>"
  have kind: "\<not> is_reader (cl c)" "\<not> is_writer (cl c)" using cs by (cases "cl c"; simp)+
  have free: "\<not> writerActive s" "activeReaderCount s = 0" "\<not> blockedPriorityReadPending s"
    using can by (simp_all add: canAcquireWrite_def)
  show "no_missed_wakeup ?s (cl(c := Holding l))"
    using writerActive_blocks [of ?s] by (simp add: no_missed_wakeup_def)
  show "activeReaderCount ?s = countOf is_reader (cl(c := Holding l))"
    "(if writerActive ?s then 1 else 0) = countOf is_writer (cl(c := Holding l))"
    using d(2,4) counts kind free l by simp_all
  show "waitingWriterCount ?s = countOf parked_write (cl(c := Holding l))"
    using d(3) counts(3) cs by auto
  show "lsOwner k = this_scene \<and> lsVersion k = sceneVersionId ?s" if "(cl(c := Holding l)) x = Holding k" for x k
    using d(7) [of x k] that l by (auto split: if_splits)
  show "clients_finite (cl(c := Holding l))" using d(1) by simp
  show "activeReaderCount ?s = 0" using free by simp
  show "\<exists>x. parked_read ((cl(c := Holding l)) x)" if "blockedPriorityReadPending ?s"
    using that free by simp
qed

lemma lock_inv_release:
  assumes inv: "lock_inv s cl" and c: "cl c = Holding l"
  shows "lock_inv (releaseLease l s) (cl(c := Releasing))"
proof (rule lock_invI)
  note d = lock_invD [OF inv]
  note counts = count_rules [OF d(1), of c Releasing]
  show "no_missed_wakeup (releaseLease l s) (cl(c := Releasing))"
    unfolding no_missed_wakeup_def by (intro disjI1 exI [of _ c]) simp
  have same: "blockedPriorityReadPending (releaseLease l s) = blockedPriorityReadPending s"
    "sceneVersionId (releaseLease l s) = sceneVersionId s"
    by (simp_all add: releaseLease_def split: SceneLockMode.split)
  show "\<exists>x. parked_read ((cl(c := Releasing)) x)"
    if "blockedPriorityReadPending (releaseLease l s)"
    using ex_client_upd [of parked_read cl c] d(6) that c same by simp
  show "lsOwner k = this_scene \<and> lsVersion k = sceneVersionId (releaseLease l s)"
    if "(cl(c := Releasing)) x = Holding k" for x k
    using d(7) [of x k] that same by (auto split: if_splits)
  show "clients_finite (cl(c := Releasing))" using d(1) by simp
  show "activeReaderCount (releaseLease l s) = countOf is_reader (cl(c := Releasing))"
    "waitingWriterCount (releaseLease l s) = countOf parked_write (cl(c := Releasing))"
    using d(2,3) counts c by (cases "lsMode l"; simp add: releaseLease_def)+
  show "(if writerActive (releaseLease l s) then 1 else 0) = countOf is_writer (cl(c := Releasing))"
    using d(4) counts c by (cases "lsMode l") (auto simp: releaseLease_def split: if_splits)
  show "activeReaderCount (releaseLease l s) = 0" if "writerActive (releaseLease l s)"
    using that d(5) by (cases "lsMode l") (auto simp: releaseLease_def split: if_splits)
qed

end
