(* ===== verification/SceneLockProperties.thy ===== *)
theory SceneLockProperties
  imports SceneLockInvariant
begin

text \<open>
  The guarantees of the shared scene: exclusion, stable views for readers, versions that count
  publications, progress, and the fairness of the balanced policy with its limits.
\<close>

section \<open>Every step keeps the invariant\<close>

lemma tryRead_inv:
  assumes inv: "lock_inv s (sysClients S)"
    and c: "sysClients S c = Outside \<or> parked_read (sysClients S c)"
  shows "lock_inv (sysState (tryRead c (announceRead s) S)) (sysClients (tryRead c (announceRead s) S))"
    and "lock_inv (sysState (tryRead c s S)) (sysClients (tryRead c s S))"
proof -
  have a: "announceRead s = s" if "canAcquireRead s"
    using lock_inv_announceRead(2) [OF inv that] .
  show "lock_inv (sysState (tryRead c s S)) (sysClients (tryRead c s S))"
    using lock_inv_park_read(2) [OF inv c] lock_inv_take_read [OF inv c]
    by (auto simp: tryRead_def moveTo_def attemptRead_def split: option.split)
  show "lock_inv (sysState (tryRead c (announceRead s) S))
      (sysClients (tryRead c (announceRead s) S))"
    using lock_inv_park_read(1) [OF inv c] lock_inv_take_read [OF inv c] a
      lock_inv_announceRead(1) [OF inv]
    by (auto simp: tryRead_def moveTo_def attemptRead_def split: option.split)
qed

lemma announceWrite_simps [simp]:
  "canAcquireWrite (announceWrite s) = canAcquireWrite s"
  "waitingWriterCount (announceWrite s) = Suc (waitingWriterCount s)"
  "sceneVersionId (announceWrite s) = sceneVersionId s"
  by (simp_all add: announceWrite_def canAcquireWrite_def)

lemma tryWrite_inv:
  assumes inv: "lock_inv s (sysClients S)"
  shows "sysClients S c = Outside \<Longrightarrow>
      lock_inv (sysState (tryWrite c (announceWrite s) S)) (sysClients (tryWrite c (announceWrite s) S))"
    and "parked_write (sysClients S c) \<Longrightarrow>
      lock_inv (sysState (tryWrite c s S)) (sysClients (tryWrite c s S))"
proof -
  show "lock_inv (sysState (tryWrite c (announceWrite s) S))
      (sysClients (tryWrite c (announceWrite s) S))" if c: "sysClients S c = Outside"
  proof (cases "canAcquireWrite s")
    case True
    have "(announceWrite s)\<lparr>waitingWriterCount := waitingWriterCount s, writerActive := True\<rparr> =
        s\<lparr>waitingWriterCount := waitingWriterCount s, writerActive := True\<rparr>"
      by (simp add: announceWrite_def)
    then show ?thesis
      using lock_inv_take_write [OF inv True, of c "waitingWriterCount s"] c True
      by (simp add: tryWrite_def moveTo_def attemptWrite_def)
  next
    case False
    then show ?thesis
      using lock_inv_park_write(1) [OF inv False c]
      by (simp add: tryWrite_def moveTo_def attemptWrite_def)
  qed
  show "lock_inv (sysState (tryWrite c s S)) (sysClients (tryWrite c s S))"
    if c: "parked_write (sysClients S c)"
  proof (cases "canAcquireWrite s")
    case True
    then show ?thesis
      using lock_inv_take_write [OF inv True, of c "waitingWriterCount s - 1"] c
      by (simp add: tryWrite_def moveTo_def attemptWrite_def)
  next
    case False
    then show ?thesis
      using lock_inv_park_write(2) [OF inv False c]
      by (simp add: tryWrite_def moveTo_def attemptWrite_def)
  qed
qed

lemma writer_alone:
  assumes inv: "lock_inv s cl" and c: "is_writer (cl c)"
  shows "writerActive s" "is_writer (cl d) \<Longrightarrow> d = c" "\<not> is_reader (cl d)"
proof -
  note d = lock_invD [OF inv]
  have "countOf is_writer cl \<noteq> 0" using countOf_zero [OF d(1), of is_writer] c by auto
  then show w: "writerActive s" using d(4) by (simp split: if_splits)
  have one: "card {c. is_writer (cl c)} = 1" using d(4) w by (simp add: countOf_def)
  show "d = c" if "is_writer (cl d)"
  proof -
    obtain x where "{c. is_writer (cl c)} = {x}" using one by (auto simp: card_1_singleton_iff)
    then have "d \<in> {x}" "c \<in> {x}" using that c by blast+
    then show ?thesis by simp
  qed
  show "\<not> is_reader (cl d)"
    using countOf_zero [OF d(1), of is_reader] d(2,5) w by auto
qed

lemma held_update_inv:
  assumes inv: "lock_inv s cl" and c: "cl c = Holding l" "lsMode l = WriteMode"
    and l': "lsMode l' = WriteMode" "lsOwner l' = this_scene" "lsVersion l' = v"
    and s': "s' = s\<lparr>sceneVersionId := v, sceneContents := x\<rparr>"
  shows "lock_inv s' (cl(c := Holding l'))"
proof (rule lock_invI)
  note d = lock_invD [OF inv]
  note alone = writer_alone [OF inv, of c]
  note counts = count_rules [OF d(1), of c "Holding l'"]
  have can: "canAcquireRead s' = canAcquireRead s" "canAcquireWrite s' = canAcquireWrite s"
    by (simp_all add: s' canAcquireRead_def canAcquireWrite_def split: SceneReadPolicy.split)
  show "no_missed_wakeup s' (cl(c := Holding l'))"
    by (rule no_missed_wakeup_step [OF d(8)]) (use can c in simp_all)
  show "\<exists>x. parked_read ((cl(c := Holding l')) x)" if "blockedPriorityReadPending s'"
    using ex_client_upd [of parked_read cl c] d(6) that c by (simp add: s')
  show "lsOwner k = this_scene \<and> lsVersion k = sceneVersionId s'"
    if k: "(cl(c := Holding l')) x = Holding k" for x k
  proof (cases "x = c")
    case True
    then show ?thesis using k l' by (simp add: s')
  next
    case False
    then have "cl x = Holding k" using k by simp
    moreover have "is_reader (Holding k) \<or> is_writer (Holding k)"
      by (cases "lsMode k") simp_all
    ultimately have False using alone(2,3) [of x] c False by (metis is_writer.simps(1))
    then show ?thesis ..
  qed
  show "activeReaderCount s' = countOf is_reader (cl(c := Holding l'))"
    "waitingWriterCount s' = countOf parked_write (cl(c := Holding l'))"
    "(if writerActive s' then 1 else 0) = countOf is_writer (cl(c := Holding l'))"
    using d(2-4) counts c l' by (simp_all add: s')
qed (use lock_invD [OF inv] in \<open>simp_all add: s'\<close>)

lemma notified_simps [simp]:
  "is_reader (notified p) = is_reader p" "is_writer (notified p) = is_writer p"
  "parked_write (notified p) = parked_write p" "parked_read (notified p) = parked_read p"
  "(notified p = Outside) = (p = Outside)" "(notified p = Holding l) = (p = Holding l)"
  "notified p \<noteq> ReadParked False" "notified p \<noteq> WriteParked False"
  by (cases p; simp)+

lemma notified_inv:
  assumes inv: "lock_inv s cl"
  shows "lock_inv s (notified \<circ> cl)"
proof (rule lock_invI)
  note d = lock_invD [OF inv]
  show "clients_finite (notified \<circ> cl)" using d(1) by (simp add: clients_finite_def)
  show "no_missed_wakeup s (notified \<circ> cl)" by (simp add: no_missed_wakeup_def)
qed (use lock_invD [OF inv] in \<open>simp_all add: countOf_def\<close>)

lemma leave_inv:
  assumes inv: "lock_inv s cl" and c: "cl c = Releasing"
  shows "lock_inv s (notified \<circ> cl(c := Outside))"
proof (rule lock_invI)
  note d = lock_invD [OF notified_inv [OF inv]]
  have upd: "notified \<circ> cl(c := Outside) = (notified \<circ> cl)(c := Outside)" by auto
  note counts = count_rules [OF d(1), of c Outside]
  show "clients_finite (notified \<circ> cl(c := Outside))"
    unfolding upd using clients_finite_upd [OF d(1)] .
  show "no_missed_wakeup s (notified \<circ> cl(c := Outside))" by (simp add: no_missed_wakeup_def)
  show "\<exists>x. parked_read ((notified \<circ> cl(c := Outside)) x)" if "blockedPriorityReadPending s"
    unfolding upd using ex_client_upd [of parked_read "notified \<circ> cl" c] d(6) that c by simp
  show "lsOwner k = this_scene \<and> lsVersion k = sceneVersionId s"
    if "(notified \<circ> cl(c := Outside)) x = Holding k" for x k
    using d(7) [of x k] that by (simp split: if_splits)
  show "activeReaderCount s = countOf is_reader (notified \<circ> cl(c := Outside))"
    "waitingWriterCount s = countOf parked_write (notified \<circ> cl(c := Outside))"
    "(if writerActive s then 1 else 0) = countOf is_writer (notified \<circ> cl(c := Outside))"
    unfolding upd using d(2-4) counts c by simp_all
  show "activeReaderCount s = 0" if "writerActive s" using d(5) that .
qed

lemma scene_step_inv:
  assumes inv: "lock_inv (sysState S) (sysClients S)" and step: "scene_step e S = Some S'"
  shows "lock_inv (sysState S') (sysClients S')"
proof (cases e)
  case (EnterRead c)
  then show ?thesis using step tryRead_inv(1) [OF inv, of c] by (auto split: if_splits)
next
  case (EnterWrite c)
  then show ?thesis using step tryWrite_inv(1) [OF inv, of c] by (auto split: if_splits)
next
  case (WakeUp c)
  then show ?thesis
    using step tryRead_inv(2) [OF inv, of c] tryWrite_inv(2) [OF inv, of c]
    by (auto split: client.splits)
next
  case (Mutate c sc)
  then obtain l where l: "sysClients S c = Holding l" "lsMode l = WriteMode"
    and S': "S' = moveTo c ((sysState S)\<lparr>sceneContents := sc\<rparr>) (Holding l) S"
    using step by (auto simp: writeScene_def requireLease_def split: client.splits if_splits)
  show ?thesis
    using held_update_inv [OF inv l l(2), of "sceneVersionId (sysState S)"
        "(sysState S)\<lparr>sceneContents := sc\<rparr>" sc] lock_invD(7) [OF inv l(1)]
    by (simp add: S' moveTo_def)
next
  case (Publish c)
  then obtain l where l: "sysClients S c = Holding l" "lsMode l = WriteMode" "lsOwner l = this_scene"
    and S': "S' = moveTo c ((sysState S)\<lparr>sceneVersionId := sceneVersionId (sysState S) + 1\<rparr>)
      (Holding (l\<lparr>lsVersion := sceneVersionId (sysState S) + 1\<rparr>)) S"
    using step by (auto simp: publishScene_def Let_def split: client.splits if_splits)
  show ?thesis
    using held_update_inv [OF inv l(1,2), of "l\<lparr>lsVersion := sceneVersionId (sysState S) + 1\<rparr>"
        "sceneVersionId (sysState S) + 1"
        "(sysState S)\<lparr>sceneVersionId := sceneVersionId (sysState S) + 1\<rparr>"
        "sceneContents (sysState S)"] l
    by (simp add: S' moveTo_def)
next
  case (Release c)
  then show ?thesis
    using step lock_inv_release [OF inv, of c] by (auto simp: moveTo_def split: client.splits)
next
  case (NotifyAll c)
  then show ?thesis
    using step leave_inv [OF inv, of c] by (auto simp: moveTo_def notifyAll_def split: if_splits)
qed

lemma scene_reachable_inv:
  "scene_reachable policy sc S \<Longrightarrow> lock_inv (sysState S) (sysClients S)"
  by (induction rule: scene_reachable.induct)
    (auto simp: SceneSystem_new_def lock_inv_new intro: scene_step_inv)

section \<open>Exclusion and stable views\<close>

text \<open>C7: The scene has one writer or any number of readers: in every reachable state a thread that
  holds a write lease is the only thread that holds a lease.\<close>

theorem scene_mutual_exclusion:
  assumes "scene_reachable policy sc S"
    and "sysClients S c = Holding l" "lsMode l = WriteMode" "sysClients S d = Holding k"
  shows "d = c"
proof -
  note inv = scene_reachable_inv [OF assms(1)]
  have "is_reader (sysClients S d) \<or> is_writer (sysClients S d)"
    using assms(4) by (cases "lsMode k") simp_all
  then show ?thesis using writer_alone(2,3) [OF inv, of c d] assms(2,3) by simp
qed

theorem scene_mutual_exclusion_witness:
  "\<exists>S. scene_run [EnterWrite 1, EnterRead 2] (SceneSystem_new Greedy ()) = Some S
     \<and> (\<forall>d k. sysClients S d = Holding k \<longrightarrow> d = 1)"
proof -
  obtain S where S: "scene_run [EnterWrite 1, EnterRead 2] (SceneSystem_new Greedy ()) = Some S"
    "sysClients S 1 = Holding \<lparr>lsOwner = this_scene, lsMode = WriteMode, lsVersion = 0\<rparr>"
    by (simp add: tryWrite_def tryRead_def attemptWrite_def attemptRead_def announceWrite_def
        announceRead_def canAcquireWrite_def canAcquireRead_def moveTo_def SceneSystem_new_def
        SharedSceneState_new_def)
  have "scene_reachable Greedy () S"
    using scene_run_reachable [OF scene_reachable.start S(1)] .
  with scene_mutual_exclusion [OF this S(2)] S(1) show ?thesis by auto
qed

lemma step_under_reader:
  assumes inv: "lock_inv (sysState S) (sysClients S)" and step: "scene_step e S = Some S'"
    and c: "sysClients S c = Holding l" "lsMode l = ReadMode" and c': "sysClients S' c = Holding l'"
  shows "l' = l" "sceneContents (sysState S') = sceneContents (sysState S)"
    "sceneVersionId (sysState S') = sceneVersionId (sysState S)"
proof -
  have no: "lsMode k \<noteq> WriteMode" if "sysClients S d = Holding k" for d k
    using writer_alone(3) [OF inv, of d c] that c by auto
  have "l' = l \<and> sceneContents (sysState S') = sceneContents (sysState S)
      \<and> sceneVersionId (sysState S') = sceneVersionId (sysState S)"
  proof (cases e)
    case (EnterRead d)
    then show ?thesis using step c c'
      by (auto simp: tryRead_def moveTo_def announceRead_def attemptRead_def split: if_splits)
  next
    case (EnterWrite d)
    then show ?thesis using step c c'
      by (auto simp: tryWrite_def moveTo_def announceWrite_def attemptWrite_def split: if_splits)
  next
    case (WakeUp d)
    then show ?thesis using step c c'
      by (auto simp: tryRead_def tryWrite_def moveTo_def attemptRead_def attemptWrite_def
          split: if_splits client.splits)
  next
    case (Mutate d x)
    then show ?thesis using step no [of d] by (auto split: client.splits if_splits)
  next
    case (Publish d)
    then show ?thesis
      using step no [of d] by (auto simp: publishScene_def split: client.splits if_splits)
  next
    case (Release d)
    then show ?thesis using step c c'
      by (auto simp: moveTo_def releaseLease_def split: client.splits if_splits SceneLockMode.splits)
  next
    case (NotifyAll d)
    then show ?thesis using step c c' by (auto simp: moveTo_def notifyAll_def split: if_splits)
  qed
  then show "l' = l" "sceneContents (sysState S') = sceneContents (sysState S)"
    "sceneVersionId (sysState S') = sceneVersionId (sysState S)" by simp_all
qed

text \<open>C8: A reader sees one version: while a thread keeps its read lease, whatever the other threads
  do, its lease, the scene it reads and the published version stay the same, and the version it
  reads is the published one.\<close>

theorem scene_reader_view_stable:
  assumes "scene_reachable policy sc S" and "scene_step e S = Some S'"
    and "sysClients S c = Holding l" "lsMode l = ReadMode" "sysClients S' c = Holding l'"
  shows "readScene (Some l') (sysState S') = readScene (Some l) (sysState S)
    \<and> readVersion (Some l') = Inr (SharedScene_version (sysState S'))
    \<and> readVersion (Some l') = readVersion (Some l)"
proof -
  note inv = scene_reachable_inv [OF assms(1)]
  note same = step_under_reader [OF inv assms(2-5)]
  show ?thesis
    using same lock_invD(7) [OF inv assms(3)]
    by (simp add: readScene_def readVersion_def requireLease_def SharedScene_version_def)
qed

theorem scene_reader_view_stable_witness:
  "\<exists>S S'. scene_run [EnterRead 1] (SceneSystem_new Balanced ()) = Some S
     \<and> scene_step (EnterWrite 2) S = Some S'
     \<and> readVersion (Some \<lparr>lsOwner = this_scene, lsMode = ReadMode, lsVersion = 0\<rparr>) =
        Inr (SharedScene_version (sysState S'))"
proof -
  let ?l = "\<lparr>lsOwner = this_scene, lsMode = ReadMode, lsVersion = 0\<rparr>"
  obtain S S' where S: "scene_run [EnterRead 1] (SceneSystem_new Balanced ()) = Some S"
    "sysClients S 1 = Holding ?l" "scene_step (EnterWrite 2) S = Some S'" "sysClients S' 1 = Holding ?l"
    by (simp add: tryWrite_def tryRead_def attemptWrite_def attemptRead_def announceWrite_def
        announceRead_def canAcquireWrite_def canAcquireRead_def moveTo_def SceneSystem_new_def
        SharedSceneState_new_def)
  have "scene_reachable Balanced () S"
    using scene_run_reachable [OF scene_reachable.start S(1)] .
  from scene_reader_view_stable [OF this S(3,2) _ S(4)] S(1,3) show ?thesis by auto
qed

section \<open>Progress\<close>

text \<open>C37: No deadlock and no lost wake-up: whenever threads are parked while no thread holds a lease
  and no release is under way, some parked thread has already been notified and obtains its lease
  on its next evaluation of the wait's condition.\<close>

theorem scene_no_deadlock:
  assumes "scene_reachable policy sc S"
    and "parked_read (sysClients S p) \<or> parked_write (sysClients S p)"
    and "\<forall>c. sysClients S c \<noteq> Releasing \<and> (\<forall>l. sysClients S c \<noteq> Holding l)"
  shows "\<exists>c S' l. sysClients S c \<in> {ReadParked True, WriteParked True}
    \<and> scene_step (WakeUp c) S = Some S' \<and> sysClients S' c = Holding l"
proof -
  let ?s = "sysState S" and ?cl = "sysClients S"
  note inv = scene_reachable_inv [OF assms(1)]
  note d = lock_invD [OF inv]
  have none: "\<not> is_reader (?cl c)" "\<not> is_writer (?cl c)" for c
    using assms(3) by (cases "?cl c"; simp)+
  have idle: "\<not> writerActive ?s" "activeReaderCount ?s = 0"
    using d(2,4) countOf_zero [OF d(1), of is_reader] countOf_zero [OF d(1), of is_writer] none
    by (auto split: if_splits)
  have awake: "canAcquireRead ?s \<longrightarrow> (\<forall>c. ?cl c \<noteq> ReadParked False)"
    "canAcquireWrite ?s \<longrightarrow> (\<forall>c. ?cl c \<noteq> WriteParked False)"
    using d(8) assms(3) by (auto simp: no_missed_wakeup_def)
  have reader: ?thesis if "canAcquireRead ?s" "parked_read (?cl c)" for c
  proof -
    have "?cl c = ReadParked True" using that awake by (metis (full_types) parked_read.elims(2))
    then show ?thesis
      using that(1) by (intro exI [of _ c]) (auto simp: tryRead_def attemptRead_def moveTo_def)
  qed
  have writer: ?thesis if "canAcquireWrite ?s" "parked_write (?cl c)" for c
  proof -
    have "?cl c = WriteParked True" using that awake by (metis (full_types) parked_write.elims(2))
    then show ?thesis
      using that(1) by (intro exI [of _ c]) (auto simp: tryWrite_def attemptWrite_def moveTo_def)
  qed
  show ?thesis
  proof (cases "blockedPriorityReadPending ?s")
    case True
    then obtain c where "parked_read (?cl c)" using d(6) by blast
    moreover have "canAcquireRead ?s"
      using True idle by (simp add: canAcquireRead_def split: SceneReadPolicy.split)
    ultimately show ?thesis using reader by blast
  next
    case False
    then have w: "canAcquireWrite ?s" using idle by (simp add: canAcquireWrite_def)
    show ?thesis
    proof (cases "\<exists>c. parked_write (?cl c)")
      case True
      then show ?thesis using writer [OF w] by blast
    next
      case none_waits: False
      then have "waitingWriterCount ?s = 0"
        using d(3) countOf_zero [OF d(1), of parked_write] by simp
      then have "canAcquireRead ?s"
        using idle by (simp add: canAcquireRead_def split: SceneReadPolicy.split)
      then show ?thesis using reader assms(2) none_waits by blast
    qed
  qed
qed

theorem scene_no_deadlock_witness:
  "\<exists>S. scene_run [EnterWrite 1, EnterRead 2, Release 1, NotifyAll 1] (SceneSystem_new Balanced ()) = Some S
     \<and> (\<exists>c S' l. scene_step (WakeUp c) S = Some S' \<and> sysClients S' c = Holding l)"
proof -
  obtain S where S: "scene_run [EnterWrite 1, EnterRead 2, Release 1, NotifyAll 1]
      (SceneSystem_new Balanced ()) = Some S" "sysClients S = (\<lambda>_. Outside)(2 := ReadParked True)"
    by (simp add: tryWrite_def tryRead_def attemptWrite_def attemptRead_def announceWrite_def
        announceRead_def canAcquireWrite_def canAcquireRead_def moveTo_def SceneSystem_new_def
        SharedSceneState_new_def releaseLease_def notifyAll_def fun_eq_iff)
  have "scene_reachable Balanced () S"
    using scene_run_reachable [OF scene_reachable.start S(1)] .
  moreover have "parked_read (sysClients S 2) \<or> parked_write (sysClients S 2)" using S(2) by simp
  moreover have "\<forall>c. sysClients S c \<noteq> Releasing \<and> (\<forall>l. sysClients S c \<noteq> Holding l)" using S(2) by simp
  ultimately have "\<exists>c S' l. sysClients S c \<in> {ReadParked True, WriteParked True}
      \<and> scene_step (WakeUp c) S = Some S' \<and> sysClients S' c = Holding l"
    by (rule scene_no_deadlock)
  then show ?thesis using S(1) by blast
qed

section \<open>Versions\<close>

fun is_publish :: "'s scene_event \<Rightarrow> bool" where
  "is_publish (Publish c) = True"
| "is_publish _ = False"

lemma step_version:
  assumes "scene_step e S = Some S'"
  shows "sceneVersionId (sysState S') =
      sceneVersionId (sysState S) + (if is_publish e then 1 else 0)"
    and "lockPolicy (sysState S') = lockPolicy (sysState S)"
  using assms
  by (cases e; auto simp: tryRead_def tryWrite_def attemptRead_def attemptWrite_def announceRead_def
      announceWrite_def moveTo_def notifyAll_def releaseLease_def publishScene_def writeScene_def
      requireLease_def Let_def split: if_splits client.splits SceneLockMode.splits)+

lemma run_version:
  "scene_run es S = Some S' \<Longrightarrow> sceneVersionId (sysState S') =
     sceneVersionId (sysState S) + of_nat (length (filter is_publish es))"
  by (induction es arbitrary: S) (auto split: option.splits dest!: step_version(1))

text \<open>The published version counts publications: after any run it is the number of successful
  publications modulo 2 to the 64, so it never goes back before a wrap-around, and every lease
  held at that point reports exactly this version.\<close>

theorem scene_version_counts_publications:
  assumes "scene_run es (SceneSystem_new policy sc) = Some S"
  shows "SharedScene_version (sysState S) = of_nat (length (filter is_publish es))
    \<and> (\<forall>c l. sysClients S c = Holding l \<longrightarrow>
        lsVersion l = of_nat (length (filter is_publish es)))"
proof -
  have "scene_reachable policy sc S"
    using scene_run_reachable [OF scene_reachable.start assms] .
  from lock_invD(7) [OF scene_reachable_inv [OF this]] run_version [OF assms]
  show ?thesis
    by (auto simp: SharedScene_version_def SceneSystem_new_def SharedSceneState_new_def)
qed

theorem scene_version_counts_publications_witness:
  "\<exists>S. scene_run [EnterWrite 1, Publish 1, Mutate 1 (), Publish 1] (SceneSystem_new Greedy ()) = Some S
     \<and> SharedScene_version (sysState S) = 2"
proof -
  obtain S where S: "scene_run [EnterWrite 1, Publish 1, Mutate 1 (), Publish 1]
      (SceneSystem_new Greedy ()) = Some S"
    by (simp add: tryWrite_def attemptWrite_def announceWrite_def canAcquireWrite_def moveTo_def
        SceneSystem_new_def SharedSceneState_new_def publishScene_def writeScene_def
        requireLease_def Let_def)
  from scene_version_counts_publications [OF this] S show ?thesis by auto
qed

text \<open>Publication is refused, with the code's exceptions and no effect, for an empty handle, for
  a read lease and for a lease of another scene; for the scene's own write lease it advances the
  version by one and the lease and the caller see the new version.\<close>

theorem publish_guards:
  "publishScene this None s =
     Inl (InvalidArgument ''Scene version publication requires a valid write access'')
   \<and> (lsMode l = ReadMode \<or> lsOwner l \<noteq> this \<longrightarrow> publishScene this (Some l) s =
     Inl (InvalidArgument ''Scene version publication requires this scene write access''))
   \<and> (lsMode l = WriteMode \<and> lsOwner l = this \<longrightarrow>
     (\<exists>s' l'. publishScene this (Some l) s = Inr (s', l', sceneVersionId s + 1)
        \<and> SharedScene_version s' = sceneVersionId s + 1
        \<and> writeVersion (Some l') = Inr (sceneVersionId s + 1)
        \<and> sceneContents s' = sceneContents s \<and> writerActive s' = writerActive s))"
  by (auto simp: publishScene_def SharedScene_version_def writeVersion_def requireLease_def Let_def)

theorem publish_guards_witness:
  "publishScene 3 (Some \<lparr>lsOwner = 3, lsMode = ReadMode, lsVersion = 7\<rparr>)
     (SharedSceneState_new Greedy ()) =
   Inl (InvalidArgument ''Scene version publication requires this scene write access'')"
  using publish_guards [of 3 "SharedSceneState_new Greedy ()"
      "\<lparr>lsOwner = 3, lsMode = ReadMode, lsVersion = 7\<rparr>"]
  by simp

section \<open>The balanced policy\<close>

lemma reachable_policy: "scene_reachable policy sc S \<Longrightarrow> lockPolicy (sysState S) = policy"
  by (induction rule: scene_reachable.induct)
    (auto simp: SceneSystem_new_def SharedSceneState_new_def dest: step_version(2))

text \<open>Under the balanced policy neither side is overtaken unfairly: while a writer waits and no
  priority reader is pending, no reader obtains the scene (by entering or by waking), and while
  a priority reader is pending no writer obtains it.\<close>

theorem balanced_turns:
  assumes "scene_reachable Balanced sc S" and "scene_step e S = Some S'"
    and "sysClients S' c = Holding l" "\<forall>k. sysClients S c \<noteq> Holding k"
  shows "(lsMode l = ReadMode \<longrightarrow>
      waitingWriterCount (sysState S) = 0 \<or> blockedPriorityReadPending (sysState S))
    \<and> (lsMode l = WriteMode \<longrightarrow> \<not> blockedPriorityReadPending (sysState S))"
proof -
  have pol: "lockPolicy (sysState S) = Balanced" using reachable_policy [OF assms(1)] .
  note inv = scene_reachable_inv [OF assms(1)]
  show ?thesis
  proof (cases e)
    case (EnterRead d)
    then show ?thesis
      using assms(2-4) lock_inv_announceRead(2) [OF inv] pol lock_inv_announceRead(1) [OF inv]
      by (auto simp: tryRead_def moveTo_def attemptRead_def canAcquireRead_def split: if_splits)
  next
    case (EnterWrite d)
    then show ?thesis
      using assms(2-4)
      by (auto simp: tryWrite_def moveTo_def attemptWrite_def canAcquireWrite_def announceWrite_def
          split: if_splits)
  next
    case (WakeUp d)
    then show ?thesis
      using assms(2-4) pol
      by (auto simp: tryRead_def tryWrite_def moveTo_def attemptRead_def attemptWrite_def
          canAcquireRead_def canAcquireWrite_def split: if_splits client.splits)
  next
    case (Mutate d x)
    then show ?thesis
      using assms(2-4) by (auto simp: moveTo_def writeScene_def requireLease_def
          split: client.splits if_splits)
  next
    case (Publish d)
    then show ?thesis
      using assms(2-4) by (auto simp: moveTo_def publishScene_def Let_def
          split: client.splits if_splits)
  next
    case (Release d)
    then show ?thesis
      using assms(2-4) by (auto simp: moveTo_def split: client.splits if_splits)
  next
    case (NotifyAll d)
    then show ?thesis
      using assms(2-4) by (auto simp: moveTo_def notifyAll_def split: if_splits)
  qed
qed

theorem balanced_turns_witness:
  "\<exists>S S' l. scene_run [EnterWrite 1, EnterRead 2, Release 1] (SceneSystem_new Balanced ()) = Some S
     \<and> scene_step (WakeUp 2) S = Some S' \<and> sysClients S' 2 = Holding l \<and> lsMode l = ReadMode
     \<and> (waitingWriterCount (sysState S) = 0 \<or> blockedPriorityReadPending (sysState S))"
proof -
  let ?l = "\<lparr>lsOwner = this_scene, lsMode = ReadMode, lsVersion = 0\<rparr>"
  obtain S S' where S: "scene_run [EnterWrite 1, EnterRead 2, Release 1]
      (SceneSystem_new Balanced ()) = Some S" "scene_step (WakeUp 2) S = Some S'"
    "sysClients S' 2 = Holding ?l" "\<forall>k. sysClients S 2 \<noteq> Holding k"
    by (simp add: tryWrite_def tryRead_def attemptWrite_def attemptRead_def announceWrite_def
        announceRead_def canAcquireWrite_def canAcquireRead_def moveTo_def SceneSystem_new_def
        SharedSceneState_new_def releaseLease_def)
  have "scene_reachable Balanced () S"
    using scene_run_reachable [OF scene_reachable.start S(1)] .
  from balanced_turns [OF this S(2-4)] S show ?thesis by auto
qed

text \<open>The priority of a blocked reader can be taken by another reader: under the balanced policy
  a reader that was blocked by a writer and notified can find, when it runs, that a reader which
  arrived later has used up the priority, and it parks again behind the next waiting writer.\<close>

theorem balanced_priority_can_be_taken:
  "\<exists>S S'. scene_reachable Balanced sc S
     \<and> scene_run [EnterWrite 1, EnterRead 2, EnterWrite 3, Release 1, NotifyAll 1, EnterRead 4]
         (SceneSystem_new Balanced sc) = Some S
     \<and> sysClients S 2 = ReadParked True
     \<and> scene_step (WakeUp 2) S = Some S' \<and> sysClients S' 2 = ReadParked False
     \<and> (\<exists>l. sysClients S' 4 = Holding l) \<and> parked_write (sysClients S' 3)"
proof -
  obtain S S' where S: "scene_run [EnterWrite 1, EnterRead 2, EnterWrite 3, Release 1, NotifyAll 1,
      EnterRead 4] (SceneSystem_new Balanced sc) = Some S"
    "sysClients S 2 = ReadParked True" "scene_step (WakeUp 2) S = Some S'"
    "sysClients S' 2 = ReadParked False" "\<exists>l. sysClients S' 4 = Holding l"
    "parked_write (sysClients S' 3)"
    by (simp add: tryWrite_def tryRead_def attemptWrite_def attemptRead_def announceWrite_def
        announceRead_def canAcquireWrite_def canAcquireRead_def moveTo_def SceneSystem_new_def
        SharedSceneState_new_def releaseLease_def notifyAll_def)
  then show ?thesis
    using scene_run_reachable [OF scene_reachable.start S(1)] by blast
qed

end
