(* ===== verification/SceneAccess.thy ===== *)
theory SceneAccess
  imports SceneLock
begin

text \<open>
  The access handles of \<open>SceneAccess.hpp\<close> and \<open>SharedScene\<close> as objects: move-only values that own
  a lease.  Moving a handle leaves an empty one behind, assigning to a handle releases the lease it
  had, destroying it releases the lease it has.  The objects of all threads are one map; acquiring
  is a step when it does not have to wait (the waiting is in \<open>SceneLock\<close>).  There may be several
  scenes, told apart by the address of their state.
\<close>

section \<open>Handles\<close>

datatype access = ReadAccess (accessLease: "SceneAccessLease option") | WriteAccess (accessLease: "SceneAccessLease option")

record 's SceneHandles =
  hsStates :: "nat \<Rightarrow> 's SharedSceneState"
  hsObjects :: "nat \<Rightarrow> access option"

definition SceneHandles_new :: "SceneReadPolicy \<Rightarrow> (nat \<Rightarrow> 's) \<Rightarrow> 's SceneHandles" where
  "SceneHandles_new policy scs = \<lparr>hsStates = (\<lambda>k. SharedSceneState_new policy (scs k)), hsObjects = (\<lambda>v. None)\<rparr>"

fun movedFrom :: "access \<Rightarrow> access" where
  "movedFrom (ReadAccess l) = ReadAccess None"
| "movedFrom (WriteAccess l) = WriteAccess None"

fun same_type :: "access \<Rightarrow> access \<Rightarrow> bool" where
  "same_type (ReadAccess _) (ReadAccess _) = True"
| "same_type (WriteAccess _) (WriteAccess _) = True"
| "same_type _ _ = False"

definition setState :: "nat \<Rightarrow> 's SharedSceneState \<Rightarrow> 's SceneHandles \<Rightarrow> 's SceneHandles" where
  "setState k s H = H\<lparr>hsStates := (hsStates H)(k := s)\<rparr>"

definition setObject :: "nat \<Rightarrow> access option \<Rightarrow> 's SceneHandles \<Rightarrow> 's SceneHandles" where
  "setObject v a H = H\<lparr>hsObjects := (hsObjects H)(v := a)\<rparr>"

text \<open>The end of a handle's \<open>shared_ptr\<close>: it is the lease's only owner.\<close>

definition dropLease :: "SceneAccessLease option \<Rightarrow> 's SceneHandles \<Rightarrow> 's SceneHandles" where
  "dropLease lease H =
     (case lease of None \<Rightarrow> H | Some l \<Rightarrow> setState (lsOwner l) (releaseLease l (hsStates H (lsOwner l))) H)"

section \<open>Operations\<close>

datatype 's handle_op =
  OpRead nat nat | OpWrite nat nat | OpMoveConstruct nat nat | OpMoveAssign nat nat | OpDestroy nat
  | OpVersion nat | OpScene nat | OpMutate nat 's | OpPublish nat nat

datatype 's handle_answer = Done | VersionIs SceneVersionId | SceneIs 's | Throws scene_error

definition SharedScene_read :: "nat \<Rightarrow> nat \<Rightarrow> 's SceneHandles \<Rightarrow> 's SceneHandles option" where
  "SharedScene_read k v H =
     (case attemptRead k (announceRead (hsStates H k)) of
        None \<Rightarrow> None
      | Some (s, l) \<Rightarrow> Some (setObject v (Some (ReadAccess (Some l))) (setState k s H)))"

definition SharedScene_write :: "nat \<Rightarrow> nat \<Rightarrow> 's SceneHandles \<Rightarrow> 's SceneHandles option" where
  "SharedScene_write k v H =
     (case attemptWrite k (announceWrite (hsStates H k)) of
        None \<Rightarrow> None
      | Some (s, l) \<Rightarrow> Some (setObject v (Some (WriteAccess (Some l))) (setState k s H)))"

definition moveConstruct :: "nat \<Rightarrow> nat \<Rightarrow> access \<Rightarrow> 's SceneHandles \<Rightarrow> 's SceneHandles" where
  "moveConstruct v w b H = setObject v (Some b) (setObject w (Some (movedFrom b)) H)"

text \<open>A \<open>shared_ptr\<close> assigned from itself keeps its value.\<close>

definition moveAssign :: "nat \<Rightarrow> nat \<Rightarrow> access \<Rightarrow> access \<Rightarrow> 's SceneHandles \<Rightarrow> 's SceneHandles" where
  "moveAssign v w a b H = (if v = w then H else dropLease (accessLease a) (moveConstruct v w b H))"

definition destroyAccess :: "nat \<Rightarrow> access \<Rightarrow> 's SceneHandles \<Rightarrow> 's SceneHandles" where
  "destroyAccess v a H = dropLease (accessLease a) (setObject v None H)"

definition accessVersion :: "access \<Rightarrow> 's handle_answer" where
  "accessVersion a =
     (case (case a of ReadAccess l \<Rightarrow> readVersion l | WriteAccess l \<Rightarrow> writeVersion l) of
        Inl e \<Rightarrow> Throws e | Inr i \<Rightarrow> VersionIs i)"

text \<open>The scene of an empty handle is never looked at.\<close>

definition ownerState :: "access \<Rightarrow> 's SceneHandles \<Rightarrow> 's SharedSceneState" where
  "ownerState a H = hsStates H (case accessLease a of None \<Rightarrow> 0 | Some l \<Rightarrow> lsOwner l)"

definition accessScene :: "access \<Rightarrow> 's SceneHandles \<Rightarrow> 's handle_answer" where
  "accessScene a H =
     (case (case a of
          ReadAccess l \<Rightarrow> readScene l (ownerState a H)
        | WriteAccess l \<Rightarrow>
            (case requireLease l ''Scene write access handle is empty'' of
               Inl e \<Rightarrow> Inl e | Inr _ \<Rightarrow> Inr (sceneContents (ownerState a H)))) of
        Inl e \<Rightarrow> Throws e | Inr sc \<Rightarrow> SceneIs sc)"

definition mutateScene :: "access \<Rightarrow> 's \<Rightarrow> 's SceneHandles \<Rightarrow> 's SceneHandles \<times> 's handle_answer" where
  "mutateScene a sc H =
     (case writeScene (accessLease a) sc (ownerState a H) of
        Inl e \<Rightarrow> (H, Throws e)
      | Inr s \<Rightarrow> (setState (case accessLease a of None \<Rightarrow> 0 | Some l \<Rightarrow> lsOwner l) s H, Done))"

definition publishAccess :: "nat \<Rightarrow> nat \<Rightarrow> access \<Rightarrow> 's SceneHandles \<Rightarrow> 's SceneHandles \<times> 's handle_answer" where
  "publishAccess k v a H =
     (case publishScene k (accessLease a) (hsStates H k) of
        Inl e \<Rightarrow> (H, Throws e)
      | Inr (s, l, i) \<Rightarrow> (setObject v (Some (WriteAccess (Some l))) (setState k s H), VersionIs i))"

text \<open>\<open>None\<close>: the acquisition would wait, or the program does not type-check.\<close>

fun handle_step :: "'s handle_op \<Rightarrow> 's SceneHandles \<Rightarrow> ('s SceneHandles \<times> 's handle_answer) option" where
  "handle_step (OpRead k v) H =
     (case (hsObjects H v, SharedScene_read k v H) of (None, Some H) \<Rightarrow> Some (H, Done) | _ \<Rightarrow> None)"
| "handle_step (OpWrite k v) H =
     (case (hsObjects H v, SharedScene_write k v H) of (None, Some H) \<Rightarrow> Some (H, Done) | _ \<Rightarrow> None)"
| "handle_step (OpMoveConstruct v w) H =
     (case (hsObjects H v, hsObjects H w) of (None, Some b) \<Rightarrow> Some (moveConstruct v w b H, Done) | _ \<Rightarrow> None)"
| "handle_step (OpMoveAssign v w) H =
     (case (hsObjects H v, hsObjects H w) of
        (Some a, Some b) \<Rightarrow> if same_type a b then Some (moveAssign v w a b H, Done) else None
      | _ \<Rightarrow> None)"
| "handle_step (OpDestroy v) H =
     (case hsObjects H v of None \<Rightarrow> None | Some a \<Rightarrow> Some (destroyAccess v a H, Done))"
| "handle_step (OpVersion v) H =
     (case hsObjects H v of None \<Rightarrow> None | Some a \<Rightarrow> Some (H, accessVersion a))"
| "handle_step (OpScene v) H =
     (case hsObjects H v of None \<Rightarrow> None | Some a \<Rightarrow> Some (H, accessScene a H))"
| "handle_step (OpMutate v sc) H =
     (case hsObjects H v of Some (WriteAccess l) \<Rightarrow> Some (mutateScene (WriteAccess l) sc H) | _ \<Rightarrow> None)"
| "handle_step (OpPublish k v) H =
     (case hsObjects H v of Some (WriteAccess l) \<Rightarrow> Some (publishAccess k v (WriteAccess l) H) | _ \<Rightarrow> None)"

fun handle_run :: "'s handle_op list \<Rightarrow> 's SceneHandles \<Rightarrow> 's SceneHandles option" where
  "handle_run [] H = Some H"
| "handle_run (x # xs) H = (case handle_step x H of None \<Rightarrow> None | Some (H, _) \<Rightarrow> handle_run xs H)"

section \<open>Who holds a scene\<close>

definition leaseOf :: "access option \<Rightarrow> SceneAccessLease option" where
  "leaseOf a = Option.bind a accessLease"

definition holds :: "nat \<Rightarrow> SceneLockMode \<Rightarrow> access option \<Rightarrow> bool" where
  "holds k m a \<longleftrightarrow> (\<exists>l. leaseOf a = Some l \<and> lsOwner l = k \<and> lsMode l = m)"

definition holders :: "nat \<Rightarrow> SceneLockMode \<Rightarrow> 's SceneHandles \<Rightarrow> nat set" where
  "holders k m H = {v. holds k m (hsObjects H v)}"

lemma leaseOf_simps [simp]:
  "leaseOf None = None" "leaseOf (Some a) = accessLease a" "accessLease (movedFrom a) = None"
  by (cases a; simp add: leaseOf_def)+

lemma holds_simps [simp]:
  "holds k m None = False"
  "holds k m (Some a) = (case accessLease a of None \<Rightarrow> False | Some l \<Rightarrow> lsOwner l = k \<and> lsMode l = m)"
  by (auto simp: holds_def split: option.splits)

fun typed_lease :: "access option \<Rightarrow> bool" where
  "typed_lease (Some (ReadAccess (Some l))) = (lsMode l = ReadMode)"
| "typed_lease (Some (WriteAccess (Some l))) = (lsMode l = WriteMode)"
| "typed_lease _ = True"

text \<open>The scene's counters against the handles; nobody waits in these runs.\<close>

definition counts_ok :: "'s SharedSceneState \<Rightarrow> nat \<Rightarrow> nat \<Rightarrow> bool" where
  "counts_ok s r w \<longleftrightarrow>
     activeReaderCount s = r \<and> of_bool (writerActive s) = w \<and> (writerActive s \<longrightarrow> r = 0)
     \<and> waitingWriterCount s = 0 \<and> \<not> blockedPriorityReadPending s"

text \<open>\<open>x\<close> is a handle whose lease is about to be released.\<close>

definition handles_inv :: "access option \<Rightarrow> 's SceneHandles \<Rightarrow> bool" where
  "handles_inv x H \<longleftrightarrow>
     finite (dom (hsObjects H))
     \<and> (\<forall>k. counts_ok (hsStates H k) (card (holders k ReadMode H) + of_bool (holds k ReadMode x))
          (card (holders k WriteMode H) + of_bool (holds k WriteMode x)))
     \<and> (\<forall>a. a = x \<or> a \<in> range (hsObjects H) \<longrightarrow> typed_lease a
          \<and> (\<forall>l. leaseOf a = Some l \<longrightarrow> lsVersion l = sceneVersionId (hsStates H (lsOwner l))))"

lemma set_simps [simp]:
  "hsStates (setState k s H) = (hsStates H)(k := s)" "hsObjects (setState k s H) = hsObjects H"
  "hsStates (setObject v a H) = hsStates H" "hsObjects (setObject v a H) = (hsObjects H)(v := a)"
  "holders k m (setState j s H) = holders k m H"
  by (simp_all add: setState_def setObject_def holders_def)

lemma holders_set:
  assumes "finite (dom (hsObjects H))"
  shows "card (holders k m (setObject v a H)) + of_bool (holds k m (hsObjects H v)) =
    card (holders k m H) + of_bool (holds k m a)"
proof -
  have fin: "finite (holders k m H)"
    using assms by (rule finite_subset [rotated]) (auto simp: holders_def holds_def leaseOf_def bind_eq_Some_conv)
  have eq: "holders k m (setObject v a H) =
      (if holds k m a then insert v (holders k m H - {v}) else holders k m H - {v})"
    by (auto simp: holders_def)
  have mem: "v \<in> holders k m H \<longleftrightarrow> holds k m (hsObjects H v)" by (simp add: holders_def)
  show ?thesis
  proof (cases "v \<in> holders k m H")
    case True
    then have "Suc (card (holders k m H - {v})) = card (holders k m H)"
      using fin by (intro card_Suc_Diff1) auto
    with True mem fin show ?thesis by (simp add: eq insert_absorb)
  next
    case False
    with mem fin show ?thesis by (simp add: eq)
  qed
qed

section \<open>Every operation keeps the balance\<close>

lemma handles_inv_new: "handles_inv None (SceneHandles_new policy scs)"
  by (simp add: handles_inv_def SceneHandles_new_def holders_def counts_ok_def SharedSceneState_new_def image_iff)

lemma range_upd: "a \<in> range (f(v := x)) \<Longrightarrow> a = x \<or> a \<in> range f"
  by (auto split: if_splits)

lemma handles_invI:
  assumes "handles_inv x H" "hsStates H' = hsStates H" "finite (dom (hsObjects H'))"
    and "\<And>k m. card (holders k m H') + of_bool (holds k m y) = card (holders k m H) + (of_bool (holds k m x) :: nat)"
    and "\<And>a l. a = y \<or> a \<in> range (hsObjects H') \<Longrightarrow> a = x \<or> a \<in> range (hsObjects H) \<or> leaseOf a = None"
  shows "handles_inv y H'"
proof -
  have "typed_lease a" if "leaseOf a = None" for a using that by (cases a rule: typed_lease.cases) auto
  then show ?thesis using assms unfolding handles_inv_def by (metis option.distinct(1))
qed

lemma inv_take:
  assumes "handles_inv None H" "hsObjects H v = Some a"
  shows "handles_inv (Some a) (setObject v None H)"
proof (rule handles_invI [OF assms(1)])
  have fin: "finite (dom (hsObjects H))" using assms(1) by (simp add: handles_inv_def)
  show "finite (dom (hsObjects (setObject v None H)))" using fin by simp
  show "card (holders k m (setObject v None H)) + of_bool (holds k m (Some a)) =
      card (holders k m H) + (of_bool (holds k m None) :: nat)" for k m
    using holders_set [OF fin, of k m v None] by (simp add: assms(2))
  show "b = None \<or> b \<in> range (hsObjects H) \<or> leaseOf b = None"
    if "b = Some a \<or> b \<in> range (hsObjects (setObject v None H))" for b :: "access option"
    using that assms(2) range_upd [of b "hsObjects H" v None] by (metis rangeI set_simps(4))
qed simp

lemma inv_move:
  assumes "handles_inv None H" "hsObjects H w = Some b" "v \<noteq> w"
  shows "handles_inv (hsObjects H v) (moveConstruct v w b H)"
proof (rule handles_invI [OF assms(1)])
  let ?H = "setObject w (Some (movedFrom b)) H"
  have fin: "finite (dom (hsObjects H))" using assms(1) by (simp add: handles_inv_def)
  then have fin': "finite (dom (hsObjects ?H))" by simp
  then show "finite (dom (hsObjects (moveConstruct v w b H)))" by (simp add: moveConstruct_def)
  show "card (holders k m (moveConstruct v w b H)) + of_bool (holds k m (hsObjects H v)) =
      card (holders k m H) + (of_bool (holds k m None) :: nat)" for k m
    using holders_set [OF fin, of k m w "Some (movedFrom b)"] holders_set [OF fin', of k m v "Some b"]
    by (simp add: moveConstruct_def assms(2,3))
  show "a = None \<or> a \<in> range (hsObjects H) \<or> leaseOf a = None"
    if a: "a = hsObjects H v \<or> a \<in> range (hsObjects (moveConstruct v w b H))" for a
  proof -
    consider "a \<in> range (hsObjects H)" | "a = Some b" | "a = Some (movedFrom b)"
      using a range_upd [of a "(hsObjects H)(w := Some (movedFrom b))" v "Some b"]
        range_upd [of a "hsObjects H" w "Some (movedFrom b)"]
      unfolding moveConstruct_def set_simps by blast
    then show ?thesis using assms(2) by cases (metis rangeI, metis rangeI, simp)
  qed
qed (simp add: moveConstruct_def)

lemma inv_drop:
  assumes "handles_inv (Some a) H"
  shows "handles_inv None (dropLease (accessLease a) H)"
proof (cases "accessLease a")
  case None
  show ?thesis
    by (rule handles_invI [OF assms]) (use assms None in \<open>auto simp: dropLease_def handles_inv_def\<close>)
next
  case (Some l)
  have counts: "counts_ok (hsStates H k) (card (holders k ReadMode H) + of_bool (holds k ReadMode (Some a)))
      (card (holders k WriteMode H) + of_bool (holds k WriteMode (Some a)))" for k
    using assms by (simp add: handles_inv_def)
  have "counts_ok (hsStates (dropLease (accessLease a) H) k) (card (holders k ReadMode H)) (card (holders k WriteMode H))" for k
    using counts [of k] Some
    by (cases "lsMode l") (auto simp: dropLease_def releaseLease_def counts_ok_def of_bool_def split: if_splits)
  moreover have "sceneVersionId (hsStates (dropLease (accessLease a) H) k) = sceneVersionId (hsStates H k)" for k
    by (simp add: dropLease_def Some releaseLease_def split: SceneLockMode.split)
  ultimately show ?thesis using assms Some by (auto simp: handles_inv_def dropLease_def)
qed

lemma inv_acquire:
  assumes "handles_inv None H" "hsObjects H v = None"
    and "leaseOf (Some a) = Some l" "lsOwner l = k" "typed_lease (Some a)" "lsVersion l = sceneVersionId (hsStates H k)"
    and "\<not> writerActive (hsStates H k)" "lsMode l = WriteMode \<Longrightarrow> activeReaderCount (hsStates H k) = 0"
    and "activeReaderCount s = activeReaderCount (hsStates H k) + of_bool (lsMode l = ReadMode)"
      "writerActive s = (lsMode l = WriteMode)" "waitingWriterCount s = 0" "\<not> blockedPriorityReadPending s"
      "sceneVersionId s = sceneVersionId (hsStates H k)"
  shows "handles_inv None (setObject v (Some a) (setState k s H))"
proof -
  let ?H = "setState k s H"
  have fin: "finite (dom (hsObjects ?H))" using assms(1) by (simp add: handles_inv_def)
  have card: "card (holders j m (setObject v (Some a) ?H)) = card (holders j m H) + of_bool (j = k \<and> m = lsMode l)" for j m
    using holders_set [OF fin, of j m v "Some a"] assms(2-4) by (auto simp: of_bool_def split: if_splits)
  have old: "counts_ok (hsStates H j) (card (holders j ReadMode H)) (card (holders j WriteMode H))" for j
    using assms(1) by (simp add: handles_inv_def)
  have "counts_ok (hsStates (setObject v (Some a) ?H) j) (card (holders j ReadMode (setObject v (Some a) ?H)))
      (card (holders j WriteMode (setObject v (Some a) ?H)))" for j
  proof (cases "j = k")
    case True
    then show ?thesis using old [of k] assms(7-12) unfolding card
      by (cases "lsMode l") (simp_all add: counts_ok_def)
  next
    case False
    then show ?thesis using old [of j] unfolding card by simp
  qed
  moreover have "typed_lease b \<and> (\<forall>l'. leaseOf b = Some l' \<longrightarrow>
      lsVersion l' = sceneVersionId (hsStates (setObject v (Some a) ?H) (lsOwner l')))"
    if "b = None \<or> b \<in> range (hsObjects (setObject v (Some a) ?H))" for b
  proof -
    have "b = Some a \<or> b = None \<or> b \<in> range (hsObjects H)" using that range_upd [of b "hsObjects H" v "Some a"] by auto
    then consider "b = Some a" | "b = None" | "b \<in> range (hsObjects H)" by blast
    then show ?thesis
    proof cases
      case 1
      then show ?thesis using assms(3-6,13) by simp
    next
      case 3
      then have "typed_lease b" "\<And>l'. leaseOf b = Some l' \<Longrightarrow> lsVersion l' = sceneVersionId (hsStates H (lsOwner l'))"
        using assms(1) unfolding handles_inv_def by blast+
      then show ?thesis using assms(13) by simp
    qed simp
  qed
  ultimately show ?thesis using fin unfolding handles_inv_def by simp
qed

lemma inv_counts:
  assumes "handles_inv None H"
  shows "waitingWriterCount (hsStates H k) = 0" "\<not> blockedPriorityReadPending (hsStates H k)"
    "activeReaderCount (hsStates H k) = card (holders k ReadMode H)"
    "of_bool (writerActive (hsStates H k)) = card (holders k WriteMode H)"
    "writerActive (hsStates H k) \<Longrightarrow> card (holders k ReadMode H) = 0"
  using assms unfolding handles_inv_def counts_ok_def by auto

lemma inv_read:
  assumes "handles_inv None H" "hsObjects H v = None" "SharedScene_read k v H = Some H'"
  shows "handles_inv None H'"
proof -
  let ?s = "hsStates H k"
  note counts = inv_counts [OF assms(1), of k]
  have idle: "\<not> writerActive ?s" and s: "announceRead ?s = ?s" and can: "canAcquireRead ?s"
    using assms(3) by (auto simp: SharedScene_read_def attemptRead_def announceRead_def canAcquireRead_def
        split: if_splits SceneReadPolicy.splits)
  let ?l = "\<lparr>lsOwner = k, lsMode = ReadMode, lsVersion = sceneVersionId ?s\<rparr>"
  let ?s' = "?s\<lparr>activeReaderCount := activeReaderCount ?s + 1, blockedPriorityReadPending := False\<rparr>"
  have "H' = setObject v (Some (ReadAccess (Some ?l))) (setState k ?s' H)"
    using assms(3) s can by (simp add: SharedScene_read_def attemptRead_def)
  then show ?thesis
    using inv_acquire [OF assms(1,2), of "ReadAccess (Some ?l)" ?l k ?s'] counts idle by simp
qed

lemma inv_write:
  assumes "handles_inv None H" "hsObjects H v = None" "SharedScene_write k v H = Some H'"
  shows "handles_inv None H'"
proof -
  let ?s = "hsStates H k"
  note counts = inv_counts [OF assms(1), of k]
  have can: "canAcquireWrite (announceWrite ?s)" and idle: "\<not> writerActive ?s" "activeReaderCount ?s = 0"
    using assms(3) by (auto simp: SharedScene_write_def attemptWrite_def announceWrite_def canAcquireWrite_def
        split: if_splits)
  let ?l = "\<lparr>lsOwner = k, lsMode = WriteMode, lsVersion = sceneVersionId ?s\<rparr>"
  let ?s' = "?s\<lparr>waitingWriterCount := waitingWriterCount ?s, writerActive := True\<rparr>"
  have "H' = setObject v (Some (WriteAccess (Some ?l))) (setState k ?s' H)"
    using assms(3) can by (simp add: SharedScene_write_def attemptWrite_def announceWrite_def)
  then show ?thesis
    using inv_acquire [OF assms(1,2), of "WriteAccess (Some ?l)" ?l k ?s'] counts idle by simp
qed

lemma inv_state:
  assumes "handles_inv None H" "s = (hsStates H k)\<lparr>sceneContents := sc\<rparr>"
  shows "handles_inv None (setState k s H)"
  using assms by (auto simp: handles_inv_def counts_ok_def)

lemma inv_publish:
  assumes inv: "handles_inv None H" and v: "hsObjects H v = Some (WriteAccess (Some l))"
    and owner: "lsOwner l = k"
  shows "handles_inv None (setObject v (Some (WriteAccess (Some (l\<lparr>lsVersion := i\<rparr>))))
    (setState k ((hsStates H k)\<lparr>sceneVersionId := i\<rparr>) H))" (is "handles_inv None ?H")
proof -
  have fin: "finite (dom (hsObjects H))" using inv by (simp add: handles_inv_def)
  have mode: "lsMode l = WriteMode" using inv v unfolding handles_inv_def by (metis rangeI typed_lease.simps(2))
  have same: "holders j m ?H = holders j m H" for j m
    using v by (auto simp: holders_def)
  have "v \<in> holders k WriteMode H" using v owner mode by (simp add: holders_def)
  moreover have finh: "finite (holders k m H)" for m
    using fin by (rule finite_subset [rotated]) (auto simp: holders_def holds_def leaseOf_def bind_eq_Some_conv)
  ultimately have "card (holders k WriteMode H) \<noteq> 0" by (metis card_0_eq empty_iff)
  then have "writerActive (hsStates H k)" using inv_counts(4) [OF inv, of k] by (cases "writerActive (hsStates H k)") simp_all
  then have w: "writerActive (hsStates H k)" "holders k ReadMode H = {}"
    using inv_counts(5) [OF inv] finh card_0_eq by blast+
  then have one: "card (holders k WriteMode H) = 1" using inv_counts(4) [OF inv, of k] by simp
  have only: "u = v" if "leaseOf (hsObjects H u) = Some l'" "lsOwner l' = k" for u l'
  proof -
    have "u \<in> holders k ReadMode H \<or> u \<in> holders k WriteMode H"
      using that by (cases "lsMode l'") (auto simp: holders_def holds_def)
    then show ?thesis using w(2) one \<open>v \<in> holders k WriteMode H\<close> by (auto simp: card_1_singleton_iff)
  qed
  have "typed_lease b \<and> (\<forall>l'. leaseOf b = Some l' \<longrightarrow> lsVersion l' = sceneVersionId (hsStates ?H (lsOwner l')))"
    if b: "b = None \<or> b \<in> range (hsObjects ?H)" for b
  proof (cases "b = None")
    case False
    then have "b \<in> range (hsObjects ?H)" using b by blast
    then obtain u where u: "b = hsObjects ?H u" by (rule rangeE)
    show ?thesis
    proof (cases "u = v")
      case True
      then show ?thesis using u owner mode by simp
    next
      case False
      then have b: "b = hsObjects H u" using u by simp
      then have "typed_lease b" "\<And>l'. leaseOf b = Some l' \<Longrightarrow> lsVersion l' = sceneVersionId (hsStates H (lsOwner l'))"
        using inv unfolding handles_inv_def by blast+
      then show ?thesis using only [of u] False b by auto
    qed
  qed simp
  moreover have "counts_ok (hsStates ?H j) r w = counts_ok (hsStates H j) r w" for j r w by (simp add: counts_ok_def)
  ultimately show ?thesis using inv fin unfolding handles_inv_def same by simp
qed

lemma handle_step_inv:
  assumes inv: "handles_inv None H" and step: "handle_step x H = Some (H', r)"
  shows "handles_inv None H'"
proof (cases x)
  case (OpRead k v)
  then show ?thesis using step inv_read [OF inv] by (auto split: option.splits)
next
  case (OpWrite k v)
  then show ?thesis using step inv_write [OF inv] by (auto split: option.splits)
next
  case (OpMoveConstruct v w)
  then obtain b where b: "hsObjects H v = None" "hsObjects H w = Some b" "H' = moveConstruct v w b H"
    using step by (auto split: option.splits)
  then show ?thesis using inv_move [OF inv b(2), of v] by (cases "v = w") auto
next
  case (OpMoveAssign v w)
  then obtain a b where b: "hsObjects H v = Some a" "hsObjects H w = Some b" "H' = moveAssign v w a b H"
    using step by (auto split: option.splits if_splits)
  then show ?thesis using inv inv_drop inv_move [OF inv b(2), of v] by (cases "v = w") (auto simp: moveAssign_def)
next
  case (OpDestroy v)
  then obtain a where "hsObjects H v = Some a" "H' = destroyAccess v a H" using step by (auto split: option.splits)
  then show ?thesis using inv_drop [OF inv_take [OF inv]] by (simp add: destroyAccess_def)
next
  case (OpMutate v sc)
  then obtain l where "mutateScene (WriteAccess l) sc H = (H', r)" using step by (auto split: option.splits access.splits)
  then show ?thesis using inv inv_state [OF inv]
    by (cases l) (auto simp: mutateScene_def writeScene_def requireLease_def ownerState_def)
next
  case (OpPublish k v)
  then obtain l where l: "hsObjects H v = Some (WriteAccess l)" "publishAccess k v (WriteAccess l) H = (H', r)"
    using step by (auto split: option.splits access.splits)
  then show ?thesis using inv inv_publish [OF inv, of v _ k]
    by (cases l) (auto simp: publishAccess_def publishScene_def Let_def split: if_splits)
qed (use step inv in \<open>auto split: option.splits\<close>)

lemma handle_run_inv: "handles_inv None H \<Longrightarrow> handle_run xs H = Some H' \<Longrightarrow> handles_inv None H'"
  by (induction xs arbitrary: H) (auto split: option.splits dest: handle_step_inv)

section \<open>Handles own their leases\<close>

text \<open>C38: Whatever is done with access handles (acquired, moved, assigned over, moved into themselves,
  destroyed, published through), every scene counts exactly the handles that have a lease on it:
  readers and writer are the handles with a lease, a writer is alone, a handle shows the scene's
  current version, a read handle never has a write lease, an empty handle answers with an error,
  and when no handle has a lease on a scene, readers and writers get it at once.\<close>

theorem access_handles_own_leases:
  assumes "handle_run xs (SceneHandles_new policy scs) = Some H"
  shows "activeReaderCount (hsStates H k) = card {v. holds k ReadMode (hsObjects H v)}
    \<and> of_bool (writerActive (hsStates H k)) = card {v. holds k WriteMode (hsObjects H v)}
    \<and> (writerActive (hsStates H k) \<longrightarrow> activeReaderCount (hsStates H k) = 0)
    \<and> (\<forall>v a l. hsObjects H v = Some a \<and> accessLease a = Some l \<longrightarrow>
        accessVersion a = VersionIs (SharedScene_version (hsStates H (lsOwner l)))
        \<and> (lsMode l = ReadMode \<longleftrightarrow> a = ReadAccess (Some l)))
    \<and> (\<forall>v a. hsObjects H v = Some a \<and> accessLease a = None \<longrightarrow> (\<exists>e. accessVersion a = Throws (LogicError e)))
    \<and> ((\<forall>v m. \<not> holds k m (hsObjects H v)) \<longrightarrow>
        canAcquireRead (hsStates H k) \<and> canAcquireWrite (hsStates H k))"
proof -
  have inv: "handles_inv None H" using handle_run_inv [OF handles_inv_new assms] .
  note counts = inv_counts [OF inv, of k, unfolded holders_def]
  have "accessVersion a = VersionIs (SharedScene_version (hsStates H (lsOwner l)))
      \<and> (lsMode l = ReadMode \<longleftrightarrow> a = ReadAccess (Some l))"
    if "hsObjects H v = Some a" "accessLease a = Some l" for v a l
  proof -
    have "typed_lease (Some a)" "lsVersion l = sceneVersionId (hsStates H (lsOwner l))"
      using inv that unfolding handles_inv_def by (metis rangeI, metis leaseOf_simps(2) rangeI)
    then show ?thesis using that(2)
      by (cases a) (auto simp: accessVersion_def readVersion_def writeVersion_def requireLease_def SharedScene_version_def)
  qed
  moreover have "\<exists>e. accessVersion a = Throws (LogicError e)" if "accessLease a = None" for a
    using that by (cases a) (auto simp: accessVersion_def readVersion_def writeVersion_def requireLease_def)
  moreover have "writerActive (hsStates H k) \<longrightarrow> activeReaderCount (hsStates H k) = 0" using counts(3,5) by simp
  moreover have "canAcquireRead (hsStates H k) \<and> canAcquireWrite (hsStates H k)"
    if "\<forall>v m. \<not> holds k m (hsObjects H v)"
    using counts that by (cases "writerActive (hsStates H k)")
      (simp_all add: canAcquireRead_def canAcquireWrite_def split: SceneReadPolicy.split)
  ultimately show ?thesis using counts(3,4) by blast
qed

definition sampleHandleOps :: "unit handle_op list" where
  "sampleHandleOps =
     [OpRead 0 1, OpRead 0 2, OpMoveConstruct 3 1, OpMoveAssign 2 3, OpVersion 1, OpDestroy 1, OpMoveAssign 2 2,
      OpWrite 7 4, OpPublish 7 4]"

lemma sample_handles:
  "map_option (\<lambda>H. (activeReaderCount (hsStates H 0), writerActive (hsStates H 7), sceneVersionId (hsStates H 7)))
     (handle_run sampleHandleOps (SceneHandles_new Greedy (\<lambda>_. ()))) = Some (1, True, 1)"
  by code_simp

theorem access_handles_own_leases_witness:
  "\<exists>H. handle_run sampleHandleOps (SceneHandles_new Greedy (\<lambda>_. ())) = Some H
     \<and> card {v. holds 0 ReadMode (hsObjects H v)} = 1 \<and> card {v. holds 7 WriteMode (hsObjects H v)} = 1"
proof -
  obtain H where H: "handle_run sampleHandleOps (SceneHandles_new Greedy (\<lambda>_. ())) = Some H"
    "activeReaderCount (hsStates H 0) = 1" "writerActive (hsStates H 7)"
    using sample_handles by auto
  have "card {v. holds 0 ReadMode (hsObjects H v)} = 1" "card {v. holds 7 WriteMode (hsObjects H v)} = 1"
    using access_handles_own_leases [OF H(1), of 0, THEN conjunct1] H(2,3)
      access_handles_own_leases [OF H(1), of 7, THEN conjunct2, THEN conjunct1] by (simp_all only: of_bool_eq)
  then show ?thesis using H(1) by blast
qed

end
