(* ===== verification/SceneVersions.thy ===== *)
theory SceneVersions
  imports SceneTypes KeyedHistory
begin

text \<open>
  \<open>SceneVersionHistory\<close> and \<open>SceneVersionStore\<close> of \<open>src/model/src/scene\<close>: the bounded record of
  published scene versions.  The history is the second provider of the keyed history interface;
  the store trims it from the front.
\<close>

section \<open>The history\<close>

record SceneVersionHistory =
  vhLatest :: "SceneVersion option"
  vhHistory :: "SceneVersion list"
  vhVersionsById :: "SceneVersionId \<rightharpoonup> SceneVersion"

definition SceneVersionHistory_init :: SceneVersionHistory where
  "SceneVersionHistory_init = \<lparr>vhLatest = None, vhHistory = [], vhVersionsById = Map.empty\<rparr>"

definition SceneVersionHistory_add :: "SceneVersion \<Rightarrow> SceneVersionHistory \<Rightarrow> SceneVersionHistory" where
  "SceneVersionHistory_add v h =
     h\<lparr>vhHistory := vhHistory h @ [v],
       vhVersionsById := (vhVersionsById h)(svVersionId v \<mapsto> v),
       vhLatest := Some v\<rparr>"

fun eraseFirstVersion :: "SceneVersionId \<Rightarrow> SceneVersion list \<Rightarrow> SceneVersion list" where
  "eraseFirstVersion i [] = []"
| "eraseFirstVersion i (v # vs) = (if svVersionId v = i then vs else v # eraseFirstVersion i vs)"

definition SceneVersionHistory_remove ::
    "SceneVersionId \<Rightarrow> SceneVersionHistory \<Rightarrow> SceneVersionHistory" where
  "SceneVersionHistory_remove i h =
     h\<lparr>vhHistory := eraseFirstVersion i (vhHistory h),
       vhVersionsById := (vhVersionsById h)(i := None)\<rparr>"

definition SceneVersionHistory_latest :: "SceneVersionHistory \<Rightarrow> SceneVersion option" where
  "SceneVersionHistory_latest h = vhLatest h"

definition SceneVersionHistory_get ::
    "SceneVersionHistory \<Rightarrow> SceneVersionId \<Rightarrow> SceneVersion option" where
  "SceneVersionHistory_get h i = vhVersionsById h i"

definition SceneVersionHistory_size :: "SceneVersionHistory \<Rightarrow> nat" where
  "SceneVersionHistory_size h = length (vhHistory h)"

definition oldestVersionId :: "SceneVersionHistory \<Rightarrow> SceneVersionId option" where
  "oldestVersionId h = (case vhHistory h of [] \<Rightarrow> None | v # _ \<Rightarrow> Some (svVersionId v))"

definition SceneVersionHistory_inv :: "SceneVersionHistory \<Rightarrow> bool" where
  "SceneVersionHistory_inv h \<longleftrightarrow>
     distinct (map svVersionId (vhHistory h))
     \<and> vhVersionsById h = (\<lambda>i. List.find (\<lambda>v. svVersionId v = i) (vhHistory h))"

lemma eraseFirstVersion_filter:
  "distinct (map svVersionId vs) \<Longrightarrow> eraseFirstVersion i vs = filter (\<lambda>v. svVersionId v \<noteq> i) vs"
  by (induction vs) (auto simp: filter_key_neq)

interpretation vh: keyed_history svVersionId SceneVersionHistory_add SceneVersionHistory_remove
    SceneVersionHistory_get SceneVersionHistory_latest vhHistory SceneVersionHistory_inv
proof unfold_locales
  fix h :: SceneVersionHistory and v :: SceneVersion and i :: SceneVersionId
  assume "SceneVersionHistory_inv h"
  note inv = this [unfolded SceneVersionHistory_inv_def]
  show "SceneVersionHistory_inv (SceneVersionHistory_add v h)"
    if "svVersionId v \<notin> svVersionId ` set (vhHistory h)"
    using inv that
    by (auto simp: SceneVersionHistory_inv_def SceneVersionHistory_add_def find_key_snoc fun_eq_iff)
  show "SceneVersionHistory_inv (SceneVersionHistory_remove i h)"
    using inv
    by (auto simp: SceneVersionHistory_inv_def SceneVersionHistory_remove_def
        eraseFirstVersion_filter find_key_filter distinct_map_filter)
  show "vhHistory (SceneVersionHistory_remove i h) = filter (\<lambda>e. svVersionId e \<noteq> i) (vhHistory h)"
    using inv by (simp add: SceneVersionHistory_remove_def eraseFirstVersion_filter)
qed (simp_all add: SceneVersionHistory_inv_def SceneVersionHistory_add_def
    SceneVersionHistory_remove_def SceneVersionHistory_get_def SceneVersionHistory_latest_def)

section \<open>The store\<close>

record SceneVersionStore =
  vsCapacity :: nat
  vsHistory :: SceneVersionHistory

definition SceneVersionStore_new :: "nat \<Rightarrow> SceneVersionStore" where
  "SceneVersionStore_new capacity =
     \<lparr>vsCapacity = max 1 capacity, vsHistory = SceneVersionHistory_init\<rparr>"

definition defaultVersionCapacity :: nat where
  "defaultVersionCapacity = 32"

function trimVersions :: "nat \<Rightarrow> SceneVersionHistory \<Rightarrow> SceneVersionHistory" where
  "trimVersions capacity h =
     (if SceneVersionHistory_size h > capacity then
        (case oldestVersionId h of
           None \<Rightarrow> h
         | Some i \<Rightarrow> trimVersions capacity (SceneVersionHistory_remove i h))
      else h)"
  by pat_completeness auto
termination
  by (relation "measure (\<lambda>(c, h). length (vhHistory h))")
    (auto simp: oldestVersionId_def SceneVersionHistory_remove_def split: list.splits)

declare trimVersions.simps [simp del]

definition SceneVersionStore_add :: "SceneVersion \<Rightarrow> SceneVersionStore \<Rightarrow> SceneVersionStore" where
  "SceneVersionStore_add v s =
     s\<lparr>vsHistory := trimVersions (vsCapacity s) (SceneVersionHistory_add v (vsHistory s))\<rparr>"

definition SceneVersionStore_latest :: "SceneVersionStore \<Rightarrow> SceneVersion option" where
  "SceneVersionStore_latest s = SceneVersionHistory_latest (vsHistory s)"

definition SceneVersionStore_get :: "SceneVersionStore \<Rightarrow> SceneVersionId \<Rightarrow> SceneVersion option" where
  "SceneVersionStore_get s i = SceneVersionHistory_get (vsHistory s) i"

section \<open>Trimming keeps the newest versions\<close>

lemma trimVersions_spec:
  "SceneVersionHistory_inv h \<Longrightarrow>
     SceneVersionHistory_inv (trimVersions n h)
     \<and> vhHistory (trimVersions n h) = drop (length (vhHistory h) - n) (vhHistory h)
     \<and> vhLatest (trimVersions n h) = vhLatest h"
proof (induction n h rule: trimVersions.induct)
  case (1 n h)
  show ?case
  proof (cases "SceneVersionHistory_size h > n")
    case True
    then obtain v vs where h: "vhHistory h = v # vs"
      by (cases "vhHistory h") (auto simp: SceneVersionHistory_size_def)
    let ?h = "SceneVersionHistory_remove (svVersionId v) h"
    have front: "vhHistory ?h = vs" using vh.remove_front [OF 1(2) h] .
    have "trimVersions n h = trimVersions n ?h"
      using True h by (subst trimVersions.simps) (simp add: oldestVersionId_def)
    moreover have "length (vhHistory h) - n = Suc (length vs - n)"
      using True h by (simp add: SceneVersionHistory_size_def Suc_diff_le)
    moreover have "vhLatest ?h = vhLatest h" by (simp add: SceneVersionHistory_remove_def)
    moreover have old: "oldestVersionId h = Some (svVersionId v)"
      using h by (simp add: oldestVersionId_def)
    ultimately show ?thesis
      using 1(1) [OF True old vh.invar_remove [OF 1(2)]] front h by simp
  next
    case False
    then show ?thesis
      using 1(2) by (subst trimVersions.simps; subst trimVersions.simps; subst trimVersions.simps)
        (simp add: SceneVersionHistory_size_def)
  qed
qed

definition storeVersions :: "nat \<Rightarrow> SceneVersion list \<Rightarrow> SceneVersionStore" where
  "storeVersions capacity vs = fold SceneVersionStore_add vs (SceneVersionStore_new capacity)"

lemma fold_add_spec:
  assumes "SceneVersionHistory_inv (vsHistory s)" "1 \<le> vsCapacity s"
    and "length (vhHistory (vsHistory s)) \<le> vsCapacity s"
    and "distinct (map svVersionId (vhHistory (vsHistory s) @ vs))"
    and "s' = fold SceneVersionStore_add vs s"
  shows "SceneVersionHistory_inv (vsHistory s')
    \<and> vhHistory (vsHistory s') =
        drop (length (vhHistory (vsHistory s) @ vs) - vsCapacity s) (vhHistory (vsHistory s) @ vs)
    \<and> vhLatest (vsHistory s') = (if vs = [] then vhLatest (vsHistory s) else Some (last vs))"
  using assms
proof (induction vs arbitrary: s)
  case Nil
  then show ?case by simp
next
  case (Cons v vs)
  let ?h = "SceneVersionHistory_add v (vsHistory s)" and ?s = "SceneVersionStore_add v s"
  have new: "svVersionId v \<notin> svVersionId ` set (vhHistory (vsHistory s))"
    using Cons.prems(4) by auto
  have inv: "SceneVersionHistory_inv ?h" using vh.invar_add [OF Cons.prems(1) new] .
  note t = trimVersions_spec [OF inv, of "vsCapacity s"]
  have hist: "vhHistory ?h = vhHistory (vsHistory s) @ [v]" by (simp add: vh.entries_add)
  let ?d = "length (vhHistory (vsHistory s) @ [v]) - vsCapacity s"
  have s: "vsHistory ?s = trimVersions (vsCapacity s) ?h" "vsCapacity ?s = vsCapacity s"
    by (simp_all add: SceneVersionStore_add_def)
  have cut: "vhHistory (vsHistory ?s) = drop ?d (vhHistory (vsHistory s) @ [v])"
    using t hist by (simp add: s)
  have d: "?d \<le> length (vhHistory (vsHistory s))" using Cons.prems(2) by simp
  have app: "vhHistory (vsHistory ?s) @ vs = drop ?d (vhHistory (vsHistory s) @ v # vs)"
    using d by (simp add: cut)
  have "distinct (map svVersionId (vhHistory (vsHistory ?s) @ vs))"
    unfolding app using Cons.prems(4) by (simp only: drop_map [symmetric] distinct_drop)
  moreover have "length (vhHistory (vsHistory ?s)) \<le> vsCapacity ?s" using cut s by simp
  moreover have "s' = fold SceneVersionStore_add vs ?s" using Cons.prems(5) by simp
  ultimately have "SceneVersionHistory_inv (vsHistory s')
      \<and> vhHistory (vsHistory s') =
          drop (length (vhHistory (vsHistory ?s) @ vs) - vsCapacity s) (vhHistory (vsHistory ?s) @ vs)
      \<and> vhLatest (vsHistory s') = (if vs = [] then vhLatest (vsHistory ?s) else Some (last vs))"
    using Cons.IH [of ?s] t s Cons.prems(2) by simp
  moreover have "drop (length (vhHistory (vsHistory ?s) @ vs) - vsCapacity s)
        (vhHistory (vsHistory ?s) @ vs) =
      drop (length (vhHistory (vsHistory s) @ v # vs) - vsCapacity s)
        (vhHistory (vsHistory s) @ v # vs)"
    unfolding app by (rule drop_trim) simp
  moreover have "vhLatest (vsHistory ?s) = Some v"
    using t s vh.latest_add [of v "vsHistory s"] by (simp add: SceneVersionHistory_latest_def)
  ultimately show ?case by simp
qed

text \<open>The version store keeps exactly the newest versions: after publishing versions with
  distinct ids it looks up each of the last \<open>capacity\<close> (at least one) of them under its id,
  nothing else, and its latest version is the last one published.\<close>

theorem version_store_keeps_newest:
  assumes "distinct (map svVersionId vs)"
  shows "SceneVersionStore_latest (storeVersions capacity vs) = (if vs = [] then None else Some (last vs))
    \<and> (SceneVersionStore_get (storeVersions capacity vs) i = Some v \<longleftrightarrow>
        svVersionId v = i \<and> v \<in> set (drop (length vs - max 1 capacity) vs))"
proof -
  have new: "SceneVersionHistory_inv (vsHistory (SceneVersionStore_new capacity))"
    "vsCapacity (SceneVersionStore_new capacity) = max 1 capacity"
    "vhHistory (vsHistory (SceneVersionStore_new capacity)) = []"
    "vhLatest (vsHistory (SceneVersionStore_new capacity)) = None"
    by (simp_all add: SceneVersionStore_new_def SceneVersionHistory_init_def
        SceneVersionHistory_inv_def)
  have "SceneVersionHistory_inv (vsHistory (storeVersions capacity vs))
    \<and> vhHistory (vsHistory (storeVersions capacity vs)) = drop (length vs - max 1 capacity) vs
    \<and> vhLatest (vsHistory (storeVersions capacity vs)) = (if vs = [] then None else Some (last vs))"
    unfolding storeVersions_def
    using fold_add_spec [OF _ _ _ _ refl, of "SceneVersionStore_new capacity" vs] assms new
    by simp
  then show ?thesis
    using vh.lookup_Some_iff
    by (auto simp: SceneVersionStore_latest_def SceneVersionStore_get_def SceneVersionHistory_latest_def)
qed

definition sampleVersion :: "SceneVersionId \<Rightarrow> SceneVersion" where
  "sampleVersion i =
     \<lparr>svVersionId = i, svTimestamp = FrameTimestamp 1, svLastIntegratedFrameId = i,
      svCameraToWorld = zeroPose, svTrackingStatus = Tracked, svIntegrationStatus = Integrated\<rparr>"

theorem version_store_keeps_newest_witness:
  "SceneVersionStore_get (storeVersions 2 (map sampleVersion [1, 2, 3])) 3 = Some (sampleVersion 3)
   \<and> SceneVersionStore_get (storeVersions 2 (map sampleVersion [1, 2, 3])) 1 \<noteq> Some (sampleVersion 1)"
  using version_store_keeps_newest [of "map sampleVersion [1, 2, 3]" 2 3 "sampleVersion 3"]
    version_store_keeps_newest [of "map sampleVersion [1, 2, 3]" 2 1 "sampleVersion 1"]
  by (simp add: sampleVersion_def)

end
