(* ===== verification/ViewerStores.thy ===== *)
theory ViewerStores
  imports SceneTypes
begin

text \<open>
  \<open>ViewerPoseStore\<close> and \<open>RenderOutputStore\<close> of \<open>src/model/src/viewer\<close>.  Both run their operations
  under a mutex, so each is one function on the state.  The timed wait for a newer pose gives the
  mutex up: its model takes the state at the call and the state when the wait ends.
\<close>

section \<open>Pose arithmetic\<close>

text \<open>
  The three nested loops, with the code's order of the additions and each operation rounded on its
  own (a compiler may contract \<open>value += l * r\<close> into one rounding).
\<close>

definition dotRowColumn :: "f32 list \<Rightarrow> f32 list \<Rightarrow> nat \<Rightarrow> nat \<Rightarrow> f32" where
  "dotRowColumn lhs rhs row column =
     fold (\<lambda>index val. f32_add val (f32_mul (lhs ! (row * 4 + index)) (rhs ! (index * 4 + column))))
       [0..<4] f32_zero"

definition multiplyRowMajor :: "Pose4f \<Rightarrow> Pose4f \<Rightarrow> Pose4f" where
  "multiplyRowMajor lhs rhs =
     Pose4f (map (\<lambda>k. dotRowColumn (poseMatrix lhs) (poseMatrix rhs) (k div 4) (k mod 4)) [0..<16])"

lemma multiplyRowMajor_shaped [simp]: "pose_shaped (multiplyRowMajor a b)"
  by (simp add: pose_shaped_def multiplyRowMajor_def)

lemma multiplyRowMajor_entry:
  "row < 4 \<Longrightarrow> column < 4 \<Longrightarrow>
     poseMatrix (multiplyRowMajor a b) ! (row * 4 + column) =
       dotRowColumn (poseMatrix a) (poseMatrix b) row column"
proof -
  assume "row < 4" "column < 4"
  moreover from this have "row * 4 + column < 16" by linarith
  ultimately show ?thesis by (simp add: multiplyRowMajor_def)
qed

definition imageSize_eq :: "ImageSize \<Rightarrow> ImageSize \<Rightarrow> bool" where
  "imageSize_eq a b \<longleftrightarrow> imgWidth a = imgWidth b \<and> imgHeight a = imgHeight b"

definition intrinsics_eq :: "CameraIntrinsics \<Rightarrow> CameraIntrinsics \<Rightarrow> bool" where
  "intrinsics_eq a b \<longleftrightarrow>
     f32_eq (intrFx a) (intrFx b) \<and> f32_eq (intrFy a) (intrFy b)
     \<and> f32_eq (intrCx a) (intrCx b) \<and> f32_eq (intrCy a) (intrCy b)"

definition samePoseRequest :: "ViewerPose \<Rightarrow> ViewerPose \<Rightarrow> bool" where
  "samePoseRequest a b \<longleftrightarrow>
     pose_eq (vpPose a) (vpPose b) \<and> intrinsics_eq (vpIntrinsics a) (vpIntrinsics b)
     \<and> imageSize_eq (vpImageSize a) (vpImageSize b)"

definition hasNewerGeneration :: "ViewerPose option \<Rightarrow> ViewerPoseGeneration \<Rightarrow> bool" where
  "hasNewerGeneration latest g = (case latest of None \<Rightarrow> False | Some p \<Rightarrow> vpGeneration p > g)"

section \<open>The pose store\<close>

record ViewerPoseStore =
  psLatestPose :: "ViewerPose option"
  psRelativeBaselinePose :: "ViewerPose option"
  psNextGeneration :: ViewerPoseGeneration

definition ViewerPoseStore_new :: ViewerPoseStore where
  "ViewerPoseStore_new =
     \<lparr>psLatestPose = None, psRelativeBaselinePose = None, psNextGeneration = 1\<rparr>"

text \<open>The block that both publishing operations share.\<close>

definition publishPose :: "ViewerPose \<Rightarrow> ViewerPoseStore \<Rightarrow> ViewerPoseStore \<times> ViewerPose" where
  "publishPose p s =
     (let p = (if vpGeneration p < psNextGeneration s then p\<lparr>vpGeneration := psNextGeneration s\<rparr> else p)
      in (s\<lparr>psNextGeneration := vpGeneration p + 1, psLatestPose := Some p\<rparr>, p))"

definition ViewerPoseStore_update :: "ViewerPose \<Rightarrow> ViewerPoseStore \<Rightarrow> ViewerPoseStore \<times> ViewerPose" where
  "ViewerPoseStore_update p s = publishPose p s"

definition resetRelativeBaseline :: "ViewerPoseStore \<Rightarrow> ViewerPoseStore \<times> bool" where
  "resetRelativeBaseline s =
     (case psLatestPose s of
        None \<Rightarrow> (s\<lparr>psRelativeBaselinePose := None\<rparr>, False)
      | Some p \<Rightarrow> (s\<lparr>psRelativeBaselinePose := Some p\<rparr>, True))"

definition applyRelativePose :: "Pose4f \<Rightarrow> ViewerPoseStore \<Rightarrow> ViewerPoseStore \<times> ViewerPose option" where
  "applyRelativePose relative s =
     (case psRelativeBaselinePose s of
        None \<Rightarrow> (s, None)
      | Some base \<Rightarrow>
          let nextPose = base\<lparr>vpPose := multiplyRowMajor relative (vpPose base)\<rparr> in
          if (case psLatestPose s of None \<Rightarrow> False | Some l \<Rightarrow> samePoseRequest l nextPose) then (s, None)
          else case publishPose nextPose s of (s', p) \<Rightarrow> (s', Some p))"

definition ViewerPoseStore_latest :: "ViewerPoseStore \<Rightarrow> ViewerPose option" where
  "ViewerPoseStore_latest s = psLatestPose s"

definition waitForNewer ::
    "ViewerPoseGeneration \<Rightarrow> int \<Rightarrow> ViewerPoseStore \<Rightarrow> ViewerPoseStore \<Rightarrow> ViewerPose option" where
  "waitForNewer g timeout entry ending =
     (if hasNewerGeneration (psLatestPose entry) g then psLatestPose entry
      else if timeout \<le> 0 then None
      else if hasNewerGeneration (psLatestPose ending) g then psLatestPose ending
      else None)"

section \<open>The render output store\<close>

record RenderOutputStore =
  osCapacity :: nat
  osHistory :: "RenderOutput list"
  osLatestOutput :: "RenderOutput option"

definition RenderOutputStore_new :: "nat \<Rightarrow> RenderOutputStore" where
  "RenderOutputStore_new capacity =
     \<lparr>osCapacity = max 1 capacity, osHistory = [], osLatestOutput = None\<rparr>"

text \<open>The loop that pops the front while the history is over capacity.\<close>

fun trimOutputs :: "nat \<Rightarrow> RenderOutput list \<Rightarrow> RenderOutput list" where
  "trimOutputs capacity [] = []"
| "trimOutputs capacity (x # xs) =
     (if length (x # xs) > capacity then trimOutputs capacity xs else x # xs)"

definition RenderOutputStore_publish :: "RenderOutput \<Rightarrow> RenderOutputStore \<Rightarrow> RenderOutputStore" where
  "RenderOutputStore_publish r s =
     s\<lparr>osHistory := trimOutputs (osCapacity s) (osHistory s @ [r]), osLatestOutput := Some r\<rparr>"

definition RenderOutputStore_latest :: "RenderOutputStore \<Rightarrow> RenderOutput option" where
  "RenderOutputStore_latest s = osLatestOutput s"

definition RenderOutputStore_recent :: "nat \<Rightarrow> RenderOutputStore \<Rightarrow> RenderOutput list" where
  "RenderOutputStore_recent count s =
     (let clampedCount = min count (length (osHistory s));
          start = length (osHistory s) - clampedCount
      in map (\<lambda>index. osHistory s ! index) [start..<length (osHistory s)])"

lemma trimOutputs_drop: "trimOutputs n xs = drop (length xs - n) xs"
  by (induction xs) (auto simp: Suc_diff_le)

lemma recent_drop: "RenderOutputStore_recent n s = drop (length (osHistory s) - n) (osHistory s)"
proof -
  have "length (osHistory s) - min n (length (osHistory s)) = length (osHistory s) - n" by simp
  then show ?thesis by (simp add: RenderOutputStore_recent_def map_nth_upt_drop)
qed

definition storeOutputs :: "nat \<Rightarrow> RenderOutput list \<Rightarrow> RenderOutputStore" where
  "storeOutputs capacity rs = fold RenderOutputStore_publish rs (RenderOutputStore_new capacity)"

lemma fold_publish:
  assumes "length (osHistory s) \<le> osCapacity s"
  shows "osHistory (fold RenderOutputStore_publish rs s) =
      drop (length (osHistory s @ rs) - osCapacity s) (osHistory s @ rs)
    \<and> osLatestOutput (fold RenderOutputStore_publish rs s) =
      (if rs = [] then osLatestOutput s else Some (last rs))"
  using assms
proof (induction rs arbitrary: s)
  case Nil
  then show ?case by simp
next
  case (Cons r rs)
  let ?s = "RenderOutputStore_publish r s"
  let ?d = "length (osHistory s @ [r]) - osCapacity s"
  have hist: "osHistory ?s = drop ?d (osHistory s @ [r])"
    by (simp add: RenderOutputStore_publish_def trimOutputs_drop)
  have cap: "osCapacity ?s = osCapacity s" by (simp add: RenderOutputStore_publish_def)
  have len: "length (osHistory ?s) \<le> osCapacity ?s" by (simp add: hist cap)
  have "?d \<le> length (osHistory s @ [r])" by simp
  then have "drop ?d ((osHistory s @ [r]) @ rs) = drop ?d (osHistory s @ [r]) @ rs"
    by (simp only: drop_append) simp
  then have app: "osHistory ?s @ rs = drop ?d (osHistory s @ r # rs)" by (simp add: hist)
  have "drop (length (osHistory ?s @ rs) - osCapacity s) (osHistory ?s @ rs) =
      drop (length (osHistory s @ r # rs) - osCapacity s) (osHistory s @ r # rs)"
    unfolding app by (rule drop_trim) simp
  then show ?case
    using Cons.IH [OF len] cap by (simp add: RenderOutputStore_publish_def)
qed

lemma storeOutputs_window:
  "osHistory (storeOutputs capacity rs) = drop (length rs - max 1 capacity) rs"
  "RenderOutputStore_latest (storeOutputs capacity rs) = (if rs = [] then None else Some (last rs))"
  using fold_publish [of "RenderOutputStore_new capacity" rs]
  by (simp_all add: RenderOutputStore_new_def storeOutputs_def RenderOutputStore_latest_def)

text \<open>The render output store is a bounded window on what was published: after any publications
  the latest output is the last one and the recent outputs are the newest ones, oldest first, as
  many as asked for, stored and allowed by the capacity (at least one).\<close>

theorem output_store_window:
  "RenderOutputStore_latest (storeOutputs capacity rs) = (if rs = [] then None else Some (last rs))
   \<and> RenderOutputStore_recent n (storeOutputs capacity rs) =
       drop (length rs - min n (max 1 capacity)) rs"
proof -
  let ?k = "max 1 capacity"
  note f = storeOutputs_window [of capacity rs]
  have "length (drop (length rs - ?k) rs) - n + (length rs - ?k) = length rs - min n ?k"
    by simp
  then have "drop (length (drop (length rs - ?k) rs) - n) (drop (length rs - ?k) rs) =
      drop (length rs - min n ?k) rs"
    by (simp only: drop_drop)
  then show ?thesis using f by (simp add: recent_drop)
qed

section \<open>Generations\<close>

datatype pose_call = CallUpdate ViewerPose | CallResetBaseline | CallApplyRelative Pose4f

fun pose_call_step :: "pose_call \<Rightarrow> ViewerPoseStore \<Rightarrow> ViewerPoseStore \<times> ViewerPose list" where
  "pose_call_step (CallUpdate p) s = (case ViewerPoseStore_update p s of (s', r) \<Rightarrow> (s', [r]))"
| "pose_call_step CallResetBaseline s = (fst (resetRelativeBaseline s), [])"
| "pose_call_step (CallApplyRelative m) s =
     (case applyRelativePose m s of (s', r) \<Rightarrow> (s', case r of None \<Rightarrow> [] | Some p \<Rightarrow> [p]))"

fun pose_calls :: "pose_call list \<Rightarrow> ViewerPoseStore \<Rightarrow> ViewerPoseStore \<times> ViewerPose list" where
  "pose_calls [] s = (s, [])"
| "pose_calls (c # cs) s =
     (case pose_call_step c s of (s', ps) \<Rightarrow> case pose_calls cs s' of (s'', qs) \<Rightarrow> (s'', ps @ qs))"

lemma publishPose_generation:
  assumes "publishPose p s = (s', r)"
  shows "psNextGeneration s \<le> vpGeneration r" "vpGeneration p \<le> vpGeneration r"
    "psNextGeneration s' = vpGeneration r + 1" "psLatestPose s' = Some r"
    "psRelativeBaselinePose s' = psRelativeBaselinePose s"
    "vpPose r = vpPose p" "vpIntrinsics r = vpIntrinsics p" "vpImageSize r = vpImageSize p"
  using assms by (auto simp: publishPose_def Let_def split: if_splits)

text \<open>The three outcomes of a relative move.\<close>

lemma applyRelativePose_cases:
  obtains (no_baseline) "psRelativeBaselinePose s = None" "applyRelativePose m s = (s, None)"
    | (repeated) base l where "psRelativeBaselinePose s = Some base" "psLatestPose s = Some l"
      "samePoseRequest l (base\<lparr>vpPose := multiplyRowMajor m (vpPose base)\<rparr>)"
      "applyRelativePose m s = (s, None)"
    | (moved) base s' p where "psRelativeBaselinePose s = Some base"
      "publishPose (base\<lparr>vpPose := multiplyRowMajor m (vpPose base)\<rparr>) s = (s', p)"
      "applyRelativePose m s = (s', Some p)"
proof (cases "psRelativeBaselinePose s")
  case None
  then show thesis using no_baseline by (simp add: applyRelativePose_def)
next
  case (Some base)
  let ?next = "base\<lparr>vpPose := multiplyRowMajor m (vpPose base)\<rparr>"
  obtain s' p where pub: "publishPose ?next s = (s', p)" by fastforce
  show thesis
  proof (cases "\<exists>l. psLatestPose s = Some l \<and> samePoseRequest l ?next")
    case True
    then show thesis using repeated Some by (auto simp: applyRelativePose_def Let_def)
  next
    case False
    then have "applyRelativePose m s = (s', Some p)"
      using Some pub by (auto simp: applyRelativePose_def Let_def split: option.splits)
    then show thesis using moved Some pub by blast
  qed
qed

lemma pose_call_step_generation:
  assumes "pose_call_step c s = (s', ps)"
  shows "(ps = [] \<and> psNextGeneration s' = psNextGeneration s \<and> psLatestPose s' = psLatestPose s)
    \<or> (\<exists>r. ps = [r] \<and> psNextGeneration s \<le> vpGeneration r
        \<and> psNextGeneration s' = vpGeneration r + 1 \<and> psLatestPose s' = Some r)"
proof (cases c)
  case (CallUpdate p)
  obtain s1 r where pub: "publishPose p s = (s1, r)" by fastforce
  then have "s' = s1" "ps = [r]"
    using assms CallUpdate by (simp_all add: ViewerPoseStore_update_def)
  then show ?thesis using publishPose_generation [OF pub] by simp
next
  case CallResetBaseline
  then show ?thesis using assms by (auto simp: resetRelativeBaseline_def split: option.splits)
next
  case (CallApplyRelative m)
  show ?thesis
  proof (cases rule: applyRelativePose_cases [of s m, case_names no_baseline repeated moved])
    case (moved base s1 p)
    then show ?thesis using assms CallApplyRelative publishPose_generation [OF moved(2)] by auto
  qed (use assms CallApplyRelative in auto)
qed

lemma pose_calls_generations:
  "pose_calls cs s = (s', ps) \<Longrightarrow> \<forall>p \<in> set ps. vpGeneration p \<noteq> - 1 \<Longrightarrow>
     sorted_wrt (<) (map vpGeneration ps) \<and> (\<forall>p \<in> set ps. psNextGeneration s \<le> vpGeneration p)
     \<and> (ps \<noteq> [] \<longrightarrow> psLatestPose s' = Some (last ps)) \<and> (ps = [] \<longrightarrow> psLatestPose s' = psLatestPose s)"
proof (induction cs arbitrary: s s' ps)
  case Nil
  then show ?case by simp
next
  case (Cons c cs)
  obtain s1 qs rs where c: "pose_call_step c s = (s1, qs)" and cs: "pose_calls cs s1 = (s', rs)"
    and ps: "ps = qs @ rs"
    using Cons.prems(1) by (auto split: prod.splits)
  have IH: "sorted_wrt (<) (map vpGeneration rs)" "\<forall>p \<in> set rs. psNextGeneration s1 \<le> vpGeneration p"
    "rs \<noteq> [] \<longrightarrow> psLatestPose s' = Some (last rs)" "rs = [] \<longrightarrow> psLatestPose s' = psLatestPose s1"
    using Cons.IH [OF cs] Cons.prems(2) ps by auto
  from pose_call_step_generation [OF c] show ?case
  proof
    assume "qs = [] \<and> psNextGeneration s1 = psNextGeneration s \<and> psLatestPose s1 = psLatestPose s"
    with IH ps show ?thesis by simp
  next
    assume "\<exists>r. qs = [r] \<and> psNextGeneration s \<le> vpGeneration r
      \<and> psNextGeneration s1 = vpGeneration r + 1 \<and> psLatestPose s1 = Some r"
    then obtain r where r: "qs = [r]" "psNextGeneration s \<le> vpGeneration r"
      "psNextGeneration s1 = vpGeneration r + 1" "psLatestPose s1 = Some r" by blast
    have "vpGeneration r < vpGeneration r + 1"
      using Cons.prems(2) ps r(1) by (intro u64_less_Suc(1)) simp
    then have later: "vpGeneration r < vpGeneration p" if "p \<in> set rs" for p
      using IH(2) that r(3) by (metis less_le_trans)
    have "psNextGeneration s \<le> vpGeneration p" if "p \<in> set rs" for p
      using later [OF that] r(2) by (meson le_less_trans less_imp_le)
    with IH ps r later show ?thesis by auto
  qed
qed

text \<open>Generations tell pose requests apart: over any sequence of updates, baseline resets and
  relative moves from a new store, the published poses have strictly increasing generations,
  provided none of them uses the largest 64-bit value; the latest pose is the last one published
  and every waiter that has seen an earlier generation gets a newer one at once.\<close>

theorem pose_generations_increase:
  assumes "pose_calls cs ViewerPoseStore_new = (s, ps)" and "\<forall>p \<in> set ps. vpGeneration p \<noteq> - 1"
  shows "sorted_wrt (<) (map vpGeneration ps) \<and> (\<forall>p \<in> set ps. 1 \<le> vpGeneration p)
    \<and> ViewerPoseStore_latest s = (if ps = [] then None else Some (last ps))
    \<and> (\<forall>p \<in> set (butlast ps). waitForNewer (vpGeneration p) t s s' = Some (last ps))"
proof -
  note g = pose_calls_generations [OF assms]
  have latest: "psLatestPose s = (if ps = [] then None else Some (last ps))"
    using g by (simp add: ViewerPoseStore_new_def)
  have "waitForNewer (vpGeneration p) t s s' = Some (last ps)" if p: "p \<in> set (butlast ps)" for p
  proof -
    have ne: "ps \<noteq> []" using p by auto
    then have "sorted_wrt (<) (map vpGeneration (butlast ps) @ [vpGeneration (last ps)])"
      using g by (metis append_butlast_last_id list.simps(8,9) map_append)
    then have "vpGeneration p < vpGeneration (last ps)" using p by (simp add: sorted_wrt_append)
    then show ?thesis using latest ne by (simp add: waitForNewer_def hasNewerGeneration_def)
  qed
  then show ?thesis
    using g latest by (simp add: ViewerPoseStore_latest_def ViewerPoseStore_new_def)
qed

definition samplePose :: "ViewerPoseGeneration \<Rightarrow> ViewerPose" where
  "samplePose g =
     \<lparr>vpPose = zeroPose,
      vpIntrinsics = \<lparr>intrFx = f32_one, intrFy = f32_one, intrCx = f32_one, intrCy = f32_one\<rparr>,
      vpImageSize = \<lparr>imgWidth = 4, imgHeight = 2\<rparr>, vpGeneration = g\<rparr>"

theorem pose_generations_increase_witness:
  "\<exists>s ps. pose_calls [CallUpdate (samplePose 0), CallUpdate (samplePose 0)] ViewerPoseStore_new = (s, ps)
     \<and> map vpGeneration ps = [1, 2] \<and> waitForNewer 1 0 s s = Some (last ps)"
proof -
  obtain s ps where r: "pose_calls [CallUpdate (samplePose 0), CallUpdate (samplePose 0)]
      ViewerPoseStore_new = (s, ps)" by fastforce
  then have ps: "ps = [samplePose 1, samplePose 2]"
    by (auto simp: ViewerPoseStore_update_def publishPose_def ViewerPoseStore_new_def samplePose_def
        Let_def)
  then have "\<forall>p \<in> set ps. vpGeneration p \<noteq> - 1" by (simp add: samplePose_def)
  from pose_generations_increase [OF r this, of 0 s] r ps show ?thesis by (simp add: samplePose_def)
qed

text \<open>At the largest generation the order breaks: after a request with generation
  \<open>UINT64_MAX\<close> the store's next generation wraps to zero, so the next request keeps its small
  generation and a waiter that saw the first one is not woken by it.\<close>

theorem pose_generation_wraps:
  "\<exists>s p. pose_calls [CallUpdate (samplePose (- 1)), CallUpdate (samplePose 0)] ViewerPoseStore_new =
      (s, [samplePose (- 1), p])
     \<and> vpGeneration p < vpGeneration (samplePose (- 1)) \<and> ViewerPoseStore_latest s = Some p
     \<and> waitForNewer (vpGeneration (samplePose (- 1))) timeout s s = None"
  by (simp add: ViewerPoseStore_update_def publishPose_def ViewerPoseStore_new_def samplePose_def
      Let_def ViewerPoseStore_latest_def waitForNewer_def hasNewerGeneration_def word_gt_0)

section \<open>Relative poses\<close>

lemma apply_keeps_baseline:
  "psRelativeBaselinePose (fst (applyRelativePose m s)) = psRelativeBaselinePose s"
  by (cases rule: applyRelativePose_cases [of s m, case_names no_baseline repeated moved]) (auto dest: publishPose_generation(5))

lemma fold_apply_baseline:
  "psRelativeBaselinePose (fold (\<lambda>m s. fst (applyRelativePose m s)) ms s) = psRelativeBaselinePose s"
  by (induction ms arbitrary: s) (simp_all add: apply_keeps_baseline)

text \<open>Relative moves do not accumulate: once a baseline is captured, a relative move gives the
  product with the baseline whatever moves came before it; it is either published as the latest
  pose under the baseline's intrinsics and size, or dropped because the latest request is already
  that one, and repeating it is dropped (unless a NaN makes the request differ from itself).\<close>

theorem relative_moves_do_not_accumulate:
  assumes "ViewerPoseStore_latest s = Some b"
    and "s1 = fold (\<lambda>m s. fst (applyRelativePose m s)) ms (fst (resetRelativeBaseline s))"
    and "target = b\<lparr>vpPose := multiplyRowMajor m (vpPose b)\<rparr>"
    and "applyRelativePose m s1 = (s2, r)"
  shows "(case r of
        None \<Rightarrow> s2 = s1 \<and> (\<exists>l. ViewerPoseStore_latest s2 = Some l \<and> samePoseRequest l target)
      | Some p \<Rightarrow> ViewerPoseStore_latest s2 = Some p \<and> p = target\<lparr>vpGeneration := vpGeneration p\<rparr>
          \<and> vpGeneration b \<le> vpGeneration p
          \<and> (samePoseRequest p target \<longrightarrow> applyRelativePose m s2 = (s2, None)))"
proof -
  have base: "psRelativeBaselinePose s1 = Some b"
    using assms(1,2) by (simp add: fold_apply_baseline resetRelativeBaseline_def
        ViewerPoseStore_latest_def)
  show ?thesis
  proof (cases rule: applyRelativePose_cases [of s1 m, case_names no_baseline repeated moved])
    case no_baseline
    then show ?thesis using base by simp
  next
    case (repeated base' l)
    then show ?thesis using base assms(3,4) by (auto simp: ViewerPoseStore_latest_def)
  next
    case (moved base' s' p)
    then have b: "base' = b" "s2 = s'" "r = Some p" using base assms(4) by auto
    note g = publishPose_generation [OF moved(2)]
    have base2: "psRelativeBaselinePose s2 = Some b" using g(5) b base by simp
    have "applyRelativePose m s2 = (s2, None)" if "samePoseRequest p target"
      using that g(4) b base2 assms(3) by (simp add: applyRelativePose_def Let_def)
    moreover have "p = target\<lparr>vpGeneration := vpGeneration p\<rparr>"
      using moved(2) b assms(3) by (auto simp: publishPose_def Let_def split: if_splits)
    ultimately show ?thesis
      using b g assms(3) by (simp add: ViewerPoseStore_latest_def)
  qed
qed

theorem relative_moves_do_not_accumulate_witness:
  "\<exists>s2 r. applyRelativePose zeroPose
      (fst (resetRelativeBaseline (fst (ViewerPoseStore_update (samplePose 5) ViewerPoseStore_new)))) = (s2, r)
     \<and> (case r of None \<Rightarrow> \<exists>l. ViewerPoseStore_latest s2 = Some l
         | Some p \<Rightarrow> ViewerPoseStore_latest s2 = Some p)"
proof -
  let ?s = "fst (ViewerPoseStore_update (samplePose 5) ViewerPoseStore_new)"
  have l: "ViewerPoseStore_latest ?s = Some (samplePose 5)"
    by (simp add: ViewerPoseStore_update_def publishPose_def ViewerPoseStore_new_def samplePose_def
        Let_def ViewerPoseStore_latest_def)
  obtain s2 r where r: "applyRelativePose zeroPose (fst (resetRelativeBaseline ?s)) = (s2, r)"
    by fastforce
  from relative_moves_do_not_accumulate [OF l _ refl, of "fst (resetRelativeBaseline ?s)" "[]"
      zeroPose s2 r] r
  show ?thesis by (auto split: option.splits)
qed

end
