(* ===== verification/K4a.thy ===== *)
theory K4a
  imports FrameTypes "HOL-Library.Multiset"
begin

text \<open>
  The camera SDK as the capture code sees it (\<open>K4aInterface\<close>), the device configuration
  (\<open>K4aConfig.cpp\<close>) and the camera state machine (\<open>CameraCapture.cpp\<close>).

  The SDK is code outside this repository: the record \<open>k4a_ops\<close> has one field per virtual function
  of \<open>K4aInterface\<close>, over a world \<open>'w\<close> that holds whatever state the SDK keeps.  Handles are
  numbers with 0 for the null handle; a result code is whether the call succeeded.  \<open>k4a_laws\<close>
  states the documented ownership rules: a function that returns a handle gives the caller one
  reference, the release functions give one back, the other functions keep the references, an
  image keeps its geometry while it is referenced, and a created image has the size asked for.
\<close>

section \<open>The SDK interface\<close>

datatype k4a_image_format = COLOR_BGRA32 | DEPTH16 | OtherFormat nat

datatype k4a_color_resolution =
  RESOLUTION_720P | RESOLUTION_1080P | RESOLUTION_1440P | RESOLUTION_1536P | RESOLUTION_2160P
  | RESOLUTION_3072P | RESOLUTION_OFF

datatype k4a_depth_mode =
  NFOV_2X2BINNED | NFOV_UNBINNED | WFOV_2X2BINNED | WFOV_UNBINNED | PASSIVE_IR | DEPTH_OFF

datatype k4a_fps = FPS_5 | FPS_15 | FPS_30

record k4a_device_configuration =
  k4aColorFormat :: k4a_image_format
  k4aColorResolution :: k4a_color_resolution
  k4aDepthMode :: k4a_depth_mode
  k4aCameraFps :: k4a_fps
  k4aSynchronizedImagesOnly :: bool

text \<open>The calibration, of which the code reads the color camera's parameters.\<close>

record k4a_calibration =
  calFx :: f32
  calFy :: f32
  calCx :: f32
  calCy :: f32

datatype k4a_wait_result = WAIT_SUCCEEDED | WAIT_FAILED | WAIT_TIMEOUT

record 'w k4a_ops =
  deviceOpen :: "u32 \<Rightarrow> 'w \<Rightarrow> 'w \<times> bool \<times> nat"
  deviceClose :: "nat \<Rightarrow> 'w \<Rightarrow> 'w"
  deviceStartCameras :: "nat \<Rightarrow> k4a_device_configuration \<Rightarrow> 'w \<Rightarrow> 'w \<times> bool"
  deviceStopCameras :: "nat \<Rightarrow> 'w \<Rightarrow> 'w"
  deviceGetCapture :: "nat \<Rightarrow> int \<Rightarrow> 'w \<Rightarrow> 'w \<times> k4a_wait_result \<times> nat"
  deviceGetCalibration ::
    "nat \<Rightarrow> k4a_depth_mode \<Rightarrow> k4a_color_resolution \<Rightarrow> 'w \<Rightarrow> 'w \<times> bool \<times> k4a_calibration"
  captureGetColorImage :: "nat \<Rightarrow> 'w \<Rightarrow> 'w \<times> nat"
  captureGetDepthImage :: "nat \<Rightarrow> 'w \<Rightarrow> 'w \<times> nat"
  captureRelease :: "nat \<Rightarrow> 'w \<Rightarrow> 'w"
  imageRelease :: "nat \<Rightarrow> 'w \<Rightarrow> 'w"
  imageGetBuffer :: "nat \<Rightarrow> 'w \<Rightarrow> u8 list option"
  imageGetSize :: "nat \<Rightarrow> 'w \<Rightarrow> nat"
  imageGetWidthPixels :: "nat \<Rightarrow> 'w \<Rightarrow> int"
  imageGetHeightPixels :: "nat \<Rightarrow> 'w \<Rightarrow> int"
  imageGetStrideBytes :: "nat \<Rightarrow> 'w \<Rightarrow> int"
  imageGetFormat :: "nat \<Rightarrow> 'w \<Rightarrow> k4a_image_format"
  imageCreate :: "k4a_image_format \<Rightarrow> int \<Rightarrow> int \<Rightarrow> int \<Rightarrow> 'w \<Rightarrow> 'w \<times> bool \<times> nat"
  transformationCreate :: "k4a_calibration \<Rightarrow> 'w \<Rightarrow> 'w \<times> nat"
  transformationDestroy :: "nat \<Rightarrow> 'w \<Rightarrow> 'w"
  transformationDepthImageToColorCamera :: "nat \<Rightarrow> nat \<Rightarrow> nat \<Rightarrow> 'w \<Rightarrow> 'w \<times> bool"

section \<open>Ownership rules\<close>

datatype handle = DeviceRef nat | CaptureRef nat | ImageRef nat | TransformationRef nat

definition acquired :: "(nat \<Rightarrow> handle) \<Rightarrow> nat \<Rightarrow> handle multiset" where
  "acquired k h = (if h = 0 then {#} else {#k h#})"

text \<open>What the code relies on about an image: the same geometry and as many readable bytes.\<close>

definition same_image :: "'w k4a_ops \<Rightarrow> nat \<Rightarrow> 'w \<Rightarrow> 'w \<Rightarrow> bool" where
  "same_image ops i w w' \<longleftrightarrow>
     imageGetSize ops i w' = imageGetSize ops i w
     \<and> imageGetWidthPixels ops i w' = imageGetWidthPixels ops i w
     \<and> imageGetHeightPixels ops i w' = imageGetHeightPixels ops i w
     \<and> imageGetStrideBytes ops i w' = imageGetStrideBytes ops i w
     \<and> imageGetFormat ops i w' = imageGetFormat ops i w
     \<and> map_option length (imageGetBuffer ops i w') = map_option length (imageGetBuffer ops i w)"

definition keeps_images :: "'w k4a_ops \<Rightarrow> ('w \<Rightarrow> handle multiset) \<Rightarrow> 'w \<Rightarrow> 'w \<Rightarrow> bool" where
  "keeps_images ops live w w' \<longleftrightarrow> (\<forall>i. ImageRef i \<in># live w \<longrightarrow> same_image ops i w w')"

definition device_laws :: "'w k4a_ops \<Rightarrow> ('w \<Rightarrow> handle multiset) \<Rightarrow> bool" where
  "device_laws ops live \<longleftrightarrow>
     (\<forall>i w w' ok d. deviceOpen ops i w = (w', ok, d) \<longrightarrow>
        live w' = live w + (if ok then acquired DeviceRef d else {#}) \<and> (ok \<longrightarrow> d \<noteq> 0))
     \<and> (\<forall>d w. live (deviceClose ops d w) = live w - {#DeviceRef d#})
     \<and> (\<forall>d c w. live (fst (deviceStartCameras ops d c w)) = live w)
     \<and> (\<forall>d w. live (deviceStopCameras ops d w) = live w)
     \<and> (\<forall>d t w w' r c. deviceGetCapture ops d t w = (w', r, c) \<longrightarrow>
        live w' = live w + (if r = WAIT_SUCCEEDED then acquired CaptureRef c else {#}))
     \<and> (\<forall>d m r w. live (fst (deviceGetCalibration ops d m r w)) = live w)"

definition image_laws :: "'w k4a_ops \<Rightarrow> ('w \<Rightarrow> handle multiset) \<Rightarrow> bool" where
  "image_laws ops live \<longleftrightarrow>
     (\<forall>c w w' i. captureGetColorImage ops c w = (w', i) \<longrightarrow>
        live w' = live w + acquired ImageRef i \<and> keeps_images ops live w w')
     \<and> (\<forall>c w w' i. captureGetDepthImage ops c w = (w', i) \<longrightarrow>
        live w' = live w + acquired ImageRef i \<and> keeps_images ops live w w')
     \<and> (\<forall>c w. live (captureRelease ops c w) = live w - {#CaptureRef c#})
     \<and> (\<forall>i w. live (imageRelease ops i w) = live w - {#ImageRef i#})
     \<and> (\<forall>f x y s w w' ok i. imageCreate ops f x y s w = (w', ok, i) \<longrightarrow>
        live w' = live w + (if ok then acquired ImageRef i else {#}) \<and> keeps_images ops live w w'
        \<and> (ok \<longrightarrow> imageGetWidthPixels ops i w' = x \<and> imageGetHeightPixels ops i w' = y))
     \<and> (\<forall>i w. i32_range (imageGetStrideBytes ops i w))
     \<and> (\<forall>w i bytes. ImageRef i \<in># live w \<longrightarrow> imageGetBuffer ops i w = Some bytes \<longrightarrow>
        imageGetSize ops i w \<le> length bytes)"

definition transformation_laws :: "'w k4a_ops \<Rightarrow> ('w \<Rightarrow> handle multiset) \<Rightarrow> bool" where
  "transformation_laws ops live \<longleftrightarrow>
     (\<forall>c w w' t. transformationCreate ops c w = (w', t) \<longrightarrow>
        live w' = live w + acquired TransformationRef t \<and> keeps_images ops live w w')
     \<and> (\<forall>t w. live (transformationDestroy ops t w) = live w - {#TransformationRef t#}
        \<and> keeps_images ops live w (transformationDestroy ops t w))
     \<and> (\<forall>t a b w. live (fst (transformationDepthImageToColorCamera ops t a b w)) = live w
        \<and> keeps_images ops live w (fst (transformationDepthImageToColorCamera ops t a b w)))"

definition k4a_laws :: "'w k4a_ops \<Rightarrow> ('w \<Rightarrow> handle multiset) \<Rightarrow> bool" where
  "k4a_laws ops live \<longleftrightarrow>
     device_laws ops live \<and> image_laws ops live \<and> transformation_laws ops live"

section \<open>The device configuration\<close>

definition k4aFormatOf :: "CaptureColorFormat \<Rightarrow> k4a_image_format" where
  "k4aFormatOf f = (case f of Bgra32 \<Rightarrow> COLOR_BGRA32)"

definition k4aResolutionOf :: "ImageSize \<Rightarrow> k4a_color_resolution option" where
  "k4aResolutionOf s =
     (if (imgWidth s, imgHeight s) = (1280, 720) then Some RESOLUTION_720P
      else if (imgWidth s, imgHeight s) = (1920, 1080) then Some RESOLUTION_1080P
      else if (imgWidth s, imgHeight s) = (2560, 1440) then Some RESOLUTION_1440P
      else if (imgWidth s, imgHeight s) = (2048, 1536) then Some RESOLUTION_1536P
      else if (imgWidth s, imgHeight s) = (3840, 2160) then Some RESOLUTION_2160P
      else if (imgWidth s, imgHeight s) = (4096, 3072) then Some RESOLUTION_3072P
      else None)"

fun k4aModeOf :: "CaptureDepthMode \<Rightarrow> k4a_depth_mode" where
  "k4aModeOf Nfov2x2Binned = NFOV_2X2BINNED"
| "k4aModeOf NfovUnbinned = NFOV_UNBINNED"
| "k4aModeOf Wfov2x2Binned = WFOV_2X2BINNED"
| "k4aModeOf WfovUnbinned = WFOV_UNBINNED"
| "k4aModeOf PassiveIr = PASSIVE_IR"

fun k4aRateOf :: "CaptureFrameRate \<Rightarrow> k4a_fps" where
  "k4aRateOf Fps5 = FPS_5"
| "k4aRateOf Fps15 = FPS_15"
| "k4aRateOf Fps30 = FPS_30"

text \<open>\<open>init\<close> is the SDK's \<open>K4A_DEVICE_CONFIG_INIT_DISABLE_ALL\<close>.\<close>

definition makeK4aDeviceConfig ::
    "k4a_device_configuration \<Rightarrow> CaptureCameraConfig \<Rightarrow> ImageSize \<Rightarrow> k4a_device_configuration option"
  where
  "makeK4aDeviceConfig init config imageSize =
     (case k4aResolutionOf imageSize of
        None \<Rightarrow> None
      | Some res \<Rightarrow>
          Some (init\<lparr>k4aColorFormat := k4aFormatOf (colorFormat config),
                     k4aColorResolution := res,
                     k4aDepthMode := k4aModeOf (depthMode config),
                     k4aCameraFps := k4aRateOf (frameRate config),
                     k4aSynchronizedImagesOnly := synchronizedImagesOnly config\<rparr>))"

section \<open>The camera\<close>

record CameraCapture =
  camDevice :: nat
  camStarted :: bool
  camConfig :: k4a_device_configuration

definition CameraCapture_new :: "k4a_device_configuration \<Rightarrow> CameraCapture" where
  "CameraCapture_new init = \<lparr>camDevice = 0, camStarted = False, camConfig = init\<rparr>"

definition CameraCapture_status :: "CameraCapture \<Rightarrow> int" where
  "CameraCapture_status c = (if camDevice c \<noteq> 0 then 1 else 0)"

definition CameraCapture_open ::
    "'w k4a_ops \<Rightarrow> u32 \<Rightarrow> 'w \<times> CameraCapture \<Rightarrow> ('w \<times> CameraCapture) \<times> bool" where
  "CameraCapture_open ops i S =
     (case S of (w, c) \<Rightarrow>
        if camDevice c \<noteq> 0 then ((w, c), True)
        else case deviceOpen ops i w of (w', ok, d) \<Rightarrow>
          if \<not> ok then ((w', c\<lparr>camDevice := 0\<rparr>), False)
          else ((w', c\<lparr>camDevice := d\<rparr>), True))"

definition CameraCapture_start ::
    "'w k4a_ops \<Rightarrow> k4a_device_configuration \<Rightarrow> 'w \<times> CameraCapture \<Rightarrow> ('w \<times> CameraCapture) \<times> bool"
  where
  "CameraCapture_start ops config S =
     (case S of (w, c) \<Rightarrow>
        if camDevice c = 0 then ((w, c), False)
        else if camStarted c then ((w, c), True)
        else case deviceStartCameras ops (camDevice c) config w of (w', ok) \<Rightarrow>
          if \<not> ok then ((w', c), False)
          else ((w', c\<lparr>camConfig := config, camStarted := True\<rparr>), True))"

definition CameraCapture_stop :: "'w k4a_ops \<Rightarrow> 'w \<times> CameraCapture \<Rightarrow> 'w \<times> CameraCapture" where
  "CameraCapture_stop ops S =
     (case S of (w, c) \<Rightarrow>
        if camDevice c = 0 \<or> \<not> camStarted c then (w, c)
        else (deviceStopCameras ops (camDevice c) w, c\<lparr>camStarted := False\<rparr>))"

definition CameraCapture_close :: "'w k4a_ops \<Rightarrow> 'w \<times> CameraCapture \<Rightarrow> 'w \<times> CameraCapture" where
  "CameraCapture_close ops S =
     (case S of (w, c) \<Rightarrow>
        if camDevice c = 0 then (w, c)
        else (deviceClose ops (camDevice c) w, c\<lparr>camDevice := 0, camStarted := False\<rparr>))"

definition CameraCapture_destroy :: "'w k4a_ops \<Rightarrow> 'w \<times> CameraCapture \<Rightarrow> 'w \<times> CameraCapture" where
  "CameraCapture_destroy ops S = CameraCapture_close ops (CameraCapture_stop ops S)"

definition CameraCapture_isOpen :: "CameraCapture \<Rightarrow> bool" where
  "CameraCapture_isOpen c \<longleftrightarrow> camDevice c \<noteq> 0"

definition CameraCapture_isStarted :: "CameraCapture \<Rightarrow> bool" where
  "CameraCapture_isStarted c \<longleftrightarrow> camStarted c"

text \<open>The out parameter is the second result: the handle the SDK stored, 0 when it stored none.\<close>

definition CameraCapture_capture ::
    "'w k4a_ops \<Rightarrow> CameraCapture \<Rightarrow> int \<Rightarrow> 'w \<Rightarrow> 'w \<times> bool \<times> nat" where
  "CameraCapture_capture ops c timeout w =
     (if camDevice c = 0 \<or> \<not> camStarted c then (w, False, 0)
      else case deviceGetCapture ops (camDevice c) timeout w of (w', r, h) \<Rightarrow>
        (w', r = WAIT_SUCCEEDED, h))"

definition CameraCapture_getCalibration ::
    "'w k4a_ops \<Rightarrow> CameraCapture \<Rightarrow> 'w \<Rightarrow> 'w \<times> k4a_calibration option" where
  "CameraCapture_getCalibration ops c w =
     (if camDevice c = 0 then (w, None)
      else case deviceGetCalibration ops (camDevice c) (k4aDepthMode (camConfig c))
          (k4aColorResolution (camConfig c)) w of
        (w', ok, cal) \<Rightarrow> (w', if ok then Some cal else None))"

section \<open>The camera gives its device back\<close>

datatype camera_call = OpenCamera u32 | StartCamera k4a_device_configuration | StopCamera | CloseCamera

fun camera_step :: "'w k4a_ops \<Rightarrow> camera_call \<Rightarrow> 'w \<times> CameraCapture \<Rightarrow> 'w \<times> CameraCapture" where
  "camera_step ops (OpenCamera i) S = fst (CameraCapture_open ops i S)"
| "camera_step ops (StartCamera cfg) S = fst (CameraCapture_start ops cfg S)"
| "camera_step ops StopCamera S = CameraCapture_stop ops S"
| "camera_step ops CloseCamera S = CameraCapture_close ops S"

definition camera_inv ::
    "('w \<Rightarrow> handle multiset) \<Rightarrow> handle multiset \<Rightarrow> 'w \<times> CameraCapture \<Rightarrow> bool" where
  "camera_inv live base S \<longleftrightarrow>
     live (fst S) = base + acquired DeviceRef (camDevice (snd S))
     \<and> (camStarted (snd S) \<longrightarrow> camDevice (snd S) \<noteq> 0)"

lemma camera_step_inv:
  assumes "device_laws ops live" "camera_inv live base S"
  shows "camera_inv live base (camera_step ops call S)"
proof (cases call)
  case (OpenCamera i)
  obtain w c where S: "S = (w, c)" by fastforce
  obtain w' ok d where o: "deviceOpen ops i w = (w', ok, d)" by (metis prod.exhaust)
  from assms(1) [unfolded device_laws_def, THEN conjunct1, rule_format, OF o]
  show ?thesis
    using assms(2) o
    by (auto simp: OpenCamera S CameraCapture_open_def camera_inv_def acquired_def)
next
  case (StartCamera cfg)
  obtain w c where S: "S = (w, c)" by fastforce
  have "live (fst (deviceStartCameras ops (camDevice c) cfg w)) = live w"
    using assms(1) by (simp add: device_laws_def)
  then show ?thesis
    using assms(2)
    by (auto simp: StartCamera S CameraCapture_start_def camera_inv_def split: prod.split)
next
  case StopCamera
  then show ?thesis
    using assms by (auto simp: CameraCapture_stop_def camera_inv_def device_laws_def split: prod.split)
next
  case CloseCamera
  then show ?thesis
    using assms
    by (auto simp: CameraCapture_close_def camera_inv_def device_laws_def acquired_def
        split: prod.split)
qed

lemma camera_run_inv:
  assumes "device_laws ops live"
  shows "camera_inv live base S \<Longrightarrow> camera_inv live base (fold (camera_step ops) calls S)"
  by (induction calls arbitrary: S) (simp_all add: camera_step_inv [OF assms])

end
