(* ===== verification/FrameBuild.thy ===== *)
theory FrameBuild
  imports K4a FrameValidator
begin

text \<open>
  Building a frame from a capture: \<open>K4aFrameValidator\<close>, \<open>K4aDepthAlignmentValidator\<close>,
  \<open>K4aDepthAligner\<close>, \<open>K4aFrameAssembler\<close> and \<open>K4aFrameBuilder\<close> of \<open>src/capture/src/frame\<close>.

  The scope guards \<open>ImageHandle\<close> and \<open>TransformationHandle\<close> become a release on the way out of the
  function that models their scope, in the order in which C++ destroys them.  Copying an image's
  bytes reads as many bytes as the SDK reports; reading more than the buffer has, or from a null
  pointer, is undefined behaviour and a \<open>None\<close> of the model.
\<close>

section \<open>Results\<close>

datatype FrameBuildCode =
  Built | BuildInvalidFrameId | BuildInvalidTimestamp | MissingColorImage | MissingDepthImage
  | UnsupportedColorFormat | UnsupportedDepthFormat | InvalidColorImage | InvalidDepthImage
  | TransformationCreateFailed | TransformedDepthImageCreateFailed | DepthAlignmentFailed
  | BuildInvalidIntrinsics

record CaptureBuildResult =
  fbCode :: FrameBuildCode
  fbFrameId :: FrameId
  fbMessage :: string
  fbFrame :: "Frame option"

definition built :: "CaptureBuildResult \<Rightarrow> bool" where
  "built r \<longleftrightarrow> fbCode r = Built \<and> fbFrame r \<noteq> None"

definition makeFrameBuildFailure :: "FrameBuildCode \<Rightarrow> FrameId \<Rightarrow> string \<Rightarrow> CaptureBuildResult" where
  "makeFrameBuildFailure code i msg =
     \<lparr>fbCode = code, fbFrameId = i, fbMessage = msg, fbFrame = None\<rparr>"

definition makeFrameBuildSuccess :: "Frame \<Rightarrow> CaptureBuildResult" where
  "makeFrameBuildSuccess f =
     \<lparr>fbCode = Built, fbFrameId = frameId f, fbMessage = ''Frame built'', fbFrame = Some f\<rparr>"

lemma built_simps [simp]:
  "\<not> built (makeFrameBuildFailure code i msg)" "built (makeFrameBuildSuccess f)"
  "fbFrame (makeFrameBuildSuccess f) = Some f"
  by (simp_all add: built_def makeFrameBuildFailure_def makeFrameBuildSuccess_def)

section \<open>Validation\<close>

definition isSaneImageShape :: "'w k4a_ops \<Rightarrow> nat \<Rightarrow> int \<Rightarrow> 'w \<Rightarrow> bool" where
  "isSaneImageShape ops i bytesPerPixel w =
     (let size = \<lparr>imgWidth = imageGetWidthPixels ops i w, imgHeight = imageGetHeightPixels ops i w\<rparr>;
          strideBytes = imageGetStrideBytes ops i w;
          byteCount = imageGetSize ops i w
      in if \<not> isValidSize size \<or> strideBytes \<le> 0 \<or> byteCount = 0 \<or> imageGetBuffer ops i w = None
         then False
         else if strideBytes < imgWidth size * bytesPerPixel then False
         else unat (word_of_int strideBytes * word_of_int (imgHeight size) :: u64) \<le> byteCount)"

definition validateRequest ::
    "nat \<Rightarrow> FrameId \<Rightarrow> FrameTimestamp \<Rightarrow> CaptureBuildResult option" where
  "validateRequest capture i ts =
     (if i = 0 then
        Some (makeFrameBuildFailure BuildInvalidFrameId i ''Frame id must be non-zero'')
      else if \<not> isValidTimestamp ts then
        Some (makeFrameBuildFailure BuildInvalidTimestamp i ''Frame timestamp must be positive'')
      else if capture = 0 then
        Some (makeFrameBuildFailure MissingColorImage i ''K4A capture handle is missing'')
      else None)"

definition validateColorImage ::
    "'w k4a_ops \<Rightarrow> nat \<Rightarrow> FrameId \<Rightarrow> 'w \<Rightarrow> CaptureBuildResult option" where
  "validateColorImage ops img i w =
     (if img = 0 then
        Some (makeFrameBuildFailure MissingColorImage i ''K4A capture has no color image'')
      else if imageGetFormat ops img w \<noteq> COLOR_BGRA32 then
        Some (makeFrameBuildFailure UnsupportedColorFormat i ''K4A color image format is not BGRA32'')
      else if \<not> isSaneImageShape ops img 4 w then
        Some (makeFrameBuildFailure InvalidColorImage i
          ''K4A color image dimensions, stride, or byte count are invalid'')
      else None)"

definition validateDepthImage ::
    "'w k4a_ops \<Rightarrow> nat \<Rightarrow> FrameId \<Rightarrow> 'w \<Rightarrow> CaptureBuildResult option" where
  "validateDepthImage ops img i w =
     (if img = 0 then
        Some (makeFrameBuildFailure MissingDepthImage i ''K4A capture has no depth image'')
      else if imageGetFormat ops img w \<noteq> DEPTH16 then
        Some (makeFrameBuildFailure UnsupportedDepthFormat i ''K4A depth image format is not DEPTH16'')
      else if \<not> isSaneImageShape ops img 2 w then
        Some (makeFrameBuildFailure InvalidDepthImage i
          ''K4A depth image dimensions, stride, or byte count are invalid'')
      else None)"

definition validateIntrinsics :: "CameraIntrinsics \<Rightarrow> FrameId \<Rightarrow> CaptureBuildResult option" where
  "validateIntrinsics intr i =
     (if \<not> isValidIntrinsics intr then
        Some (makeFrameBuildFailure BuildInvalidIntrinsics i ''K4A color camera intrinsics are invalid'')
      else None)"

definition validateTransformationCreate :: "nat \<Rightarrow> FrameId \<Rightarrow> CaptureBuildResult option" where
  "validateTransformationCreate t i =
     (if t = 0 then
        Some (makeFrameBuildFailure TransformationCreateFailed i
          ''K4A depth-to-color transformation could not be created'')
      else None)"

definition validateTransformedDepthImageCreate ::
    "bool \<Rightarrow> nat \<Rightarrow> FrameId \<Rightarrow> CaptureBuildResult option" where
  "validateTransformedDepthImageCreate ok img i =
     (if \<not> ok \<or> img = 0 then
        Some (makeFrameBuildFailure TransformedDepthImageCreateFailed i
          ''K4A transformed depth image could not be created'')
      else None)"

definition validateDepthAlignment :: "bool \<Rightarrow> FrameId \<Rightarrow> CaptureBuildResult option" where
  "validateDepthAlignment ok i =
     (if \<not> ok then
        Some (makeFrameBuildFailure DepthAlignmentFailed i
          ''K4A depth image could not be transformed into color camera geometry'')
      else None)"

section \<open>Scope guards\<close>

definition releaseImage :: "'w k4a_ops \<Rightarrow> nat \<Rightarrow> 'w \<Rightarrow> 'w" where
  "releaseImage ops i w = (if i \<noteq> 0 then imageRelease ops i w else w)"

definition releaseCapture :: "'w k4a_ops \<Rightarrow> nat \<Rightarrow> 'w \<Rightarrow> 'w" where
  "releaseCapture ops c w = (if c \<noteq> 0 then captureRelease ops c w else w)"

definition destroyTransformation :: "'w k4a_ops \<Rightarrow> nat \<Rightarrow> 'w \<Rightarrow> 'w" where
  "destroyTransformation ops t w = (if t \<noteq> 0 then transformationDestroy ops t w else w)"

section \<open>Alignment\<close>

text \<open>
  A successful alignment moves the image handle into the result, so the caller's scope releases
  it; on failure the local handle is released here.
\<close>

definition alignWithTransformation ::
    "'w k4a_ops \<Rightarrow> nat \<Rightarrow> nat \<Rightarrow> nat \<Rightarrow> FrameId \<Rightarrow> 'w \<Rightarrow> 'w \<times> (CaptureBuildResult + nat)" where
  "alignWithTransformation ops t color depth i w =
     (case validateTransformationCreate t i of
        Some failure \<Rightarrow> (w, Inl failure)
      | None \<Rightarrow>
          let width = imageGetWidthPixels ops color w;
              height = imageGetHeightPixels ops color w;
              strideBytes = width * 2
          in case imageCreate ops DEPTH16 width height strideBytes w of (w, ok, out) \<Rightarrow>
            (case validateTransformedDepthImageCreate ok out i of
               Some failure \<Rightarrow> (w, Inl failure)
             | None \<Rightarrow>
                 case transformationDepthImageToColorCamera ops t depth out w of (w, ok) \<Rightarrow>
                   (case validateDepthAlignment ok i of
                      Some failure \<Rightarrow> (releaseImage ops out w, Inl failure)
                    | None \<Rightarrow> (w, Inr out))))"

definition alignDepthToColor ::
    "'w k4a_ops \<Rightarrow> k4a_calibration \<Rightarrow> nat \<Rightarrow> nat \<Rightarrow> FrameId \<Rightarrow> 'w \<Rightarrow> 'w \<times> (CaptureBuildResult + nat)" where
  "alignDepthToColor ops cal color depth i w =
     (case transformationCreate ops cal w of (w, t) \<Rightarrow>
        case alignWithTransformation ops t color depth i w of (w, r) \<Rightarrow>
          (destroyTransformation ops t w, r))"

section \<open>Assembly\<close>

definition makeIntrinsics :: "k4a_calibration \<Rightarrow> CameraIntrinsics" where
  "makeIntrinsics cal =
     \<lparr>intrFx = calFx cal, intrFy = calFy cal, intrCx = calCx cal, intrCy = calCy cal\<rparr>"

definition copyImageBuffer :: "'w k4a_ops \<Rightarrow> nat \<Rightarrow> 'w \<Rightarrow> FrameBuffer option" where
  "copyImageBuffer ops img w =
     (let byteCount = imageGetSize ops img w in
      case imageGetBuffer ops img w of
        None \<Rightarrow> None
      | Some source \<Rightarrow>
          if length source < byteCount then None
          else Some \<lparr>bufData = Some (take byteCount source), bufByteCount = byteCount, bufOwner = True\<rparr>)"

definition makeFrameImage :: "'w k4a_ops \<Rightarrow> nat \<Rightarrow> 'w \<Rightarrow> FrameImage option" where
  "makeFrameImage ops img w =
     (case copyImageBuffer ops img w of
        None \<Rightarrow> None
      | Some buf \<Rightarrow>
          Some \<lparr>fimgSize = \<lparr>imgWidth = imageGetWidthPixels ops img w,
                           imgHeight = imageGetHeightPixels ops img w\<rparr>,
                fimgStrideBytes = imageGetStrideBytes ops img w, fimgBuffer = buf\<rparr>)"

definition assemble ::
    "'w k4a_ops \<Rightarrow> nat \<Rightarrow> nat \<Rightarrow> CameraIntrinsics \<Rightarrow> FrameId \<Rightarrow> FrameTimestamp \<Rightarrow> 'w \<Rightarrow> Frame option"
  where
  "assemble ops color depth intr i ts w =
     (case makeFrameImage ops color w of
        None \<Rightarrow> None
      | Some rgb \<Rightarrow>
          (case makeFrameImage ops depth w of
             None \<Rightarrow> None
           | Some dep \<Rightarrow>
               Some \<lparr>frameId = i, frameTimestamp = ts, frameRgb = rgb, frameDepth = dep,
                     frameIntrinsics = intr\<rparr>))"

section \<open>The builder\<close>

text \<open>One function per scope, innermost first.\<close>

definition buildAligned ::
    "'w k4a_ops \<Rightarrow> k4a_calibration \<Rightarrow> nat \<Rightarrow> nat \<Rightarrow> FrameId \<Rightarrow> FrameTimestamp \<Rightarrow> 'w \<Rightarrow>
       CaptureBuildResult option" where
  "buildAligned ops cal color aligned i ts w =
     (case validateDepthImage ops aligned i w of
        Some failure \<Rightarrow> Some failure
      | None \<Rightarrow>
          let intr = makeIntrinsics cal in
          (case validateIntrinsics intr i of
             Some failure \<Rightarrow> Some failure
           | None \<Rightarrow> map_option makeFrameBuildSuccess (assemble ops color aligned intr i ts w)))"

definition buildWithDepth ::
    "'w k4a_ops \<Rightarrow> k4a_calibration \<Rightarrow> nat \<Rightarrow> nat \<Rightarrow> FrameId \<Rightarrow> FrameTimestamp \<Rightarrow> 'w \<Rightarrow>
       'w \<times> CaptureBuildResult option" where
  "buildWithDepth ops cal color depth i ts w =
     (case validateDepthImage ops depth i w of
        Some failure \<Rightarrow> (w, Some failure)
      | None \<Rightarrow>
          case alignDepthToColor ops cal color depth i w of
            (w, Inl failure) \<Rightarrow> (w, Some failure)
          | (w, Inr aligned) \<Rightarrow>
              (releaseImage ops aligned w, buildAligned ops cal color aligned i ts w))"

definition buildWithColor ::
    "'w k4a_ops \<Rightarrow> nat \<Rightarrow> k4a_calibration \<Rightarrow> nat \<Rightarrow> FrameId \<Rightarrow> FrameTimestamp \<Rightarrow> 'w \<Rightarrow>
       'w \<times> CaptureBuildResult option" where
  "buildWithColor ops capture cal color i ts w =
     (case validateColorImage ops color i w of
        Some failure \<Rightarrow> (w, Some failure)
      | None \<Rightarrow>
          case captureGetDepthImage ops capture w of (w, depth) \<Rightarrow>
            case buildWithDepth ops cal color depth i ts w of (w, r) \<Rightarrow>
              (releaseImage ops depth w, r))"

definition K4aFrameBuilder_build ::
    "'w k4a_ops \<Rightarrow> nat \<Rightarrow> k4a_calibration \<Rightarrow> FrameId \<Rightarrow> FrameTimestamp \<Rightarrow> 'w \<Rightarrow>
       'w \<times> CaptureBuildResult option" where
  "K4aFrameBuilder_build ops capture cal i ts w =
     (case validateRequest capture i ts of
        Some failure \<Rightarrow> (w, Some failure)
      | None \<Rightarrow>
          case captureGetColorImage ops capture w of (w, color) \<Rightarrow>
            case buildWithColor ops capture cal color i ts w of (w, r) \<Rightarrow>
              (releaseImage ops color w, r))"

end
