(* ===== verification/FrameBuildProofs.thy ===== *)
theory FrameBuildProofs
  imports FrameBuild
begin

text \<open>
  What building a frame guarantees: every SDK reference taken on the way is given back on every
  path, no byte is read outside an image, and a built frame satisfies all checks of the frame
  store that do not depend on the store's state.
\<close>

section \<open>The ownership rules one by one\<close>

lemma k4a_rules:
  assumes "k4a_laws ops live"
  shows color_law: "captureGetColorImage ops c w = (w', i) \<Longrightarrow>
      live w' = live w + acquired ImageRef i \<and> keeps_images ops live w w'"
    and depth_law: "captureGetDepthImage ops c w = (w', i) \<Longrightarrow>
      live w' = live w + acquired ImageRef i \<and> keeps_images ops live w w'"
    and capture_release_law: "live (captureRelease ops c w) = live w - {#CaptureRef c#}"
    and image_release_law: "live (imageRelease ops i w) = live w - {#ImageRef i#}"
    and create_law: "imageCreate ops f x y s w = (w', ok, i) \<Longrightarrow>
      live w' = live w + (if ok then acquired ImageRef i else {#}) \<and> keeps_images ops live w w'
      \<and> (ok \<longrightarrow> imageGetWidthPixels ops i w' = x \<and> imageGetHeightPixels ops i w' = y)"
    and stride_law: "i32_range (imageGetStrideBytes ops i w)"
    and size_law: "ImageRef i \<in># live w \<Longrightarrow> imageGetBuffer ops i w = Some bytes \<Longrightarrow>
      imageGetSize ops i w \<le> length bytes"
    and transformation_law: "transformationCreate ops cal w = (w', t) \<Longrightarrow>
      live w' = live w + acquired TransformationRef t \<and> keeps_images ops live w w'"
    and destroy_law: "live (transformationDestroy ops t w) = live w - {#TransformationRef t#}"
      "keeps_images ops live w (transformationDestroy ops t w)"
    and align_law: "transformationDepthImageToColorCamera ops t a b w = (w', ok) \<Longrightarrow>
      live w' = live w \<and> keeps_images ops live w w'"
    and capture_law: "deviceGetCapture ops d timeout w = (w', r, c) \<Longrightarrow>
      live w' = live w + (if r = WAIT_SUCCEEDED then acquired CaptureRef c else {#})"
    and calibration_law: "live (fst (deviceGetCalibration ops d m res w)) = live w"
  using assms unfolding k4a_laws_def device_laws_def image_laws_def transformation_laws_def
  by (fast, fast, fast, fast, fast, fast, fast, fast, fast, fast, metis fst_conv, fast, fast)

lemma keeps_images_refl: "keeps_images ops live w w"
  by (simp add: keeps_images_def same_image_def)

lemma keeps_images_trans:
  assumes "keeps_images ops live w w1" "keeps_images ops live w1 w2" "live w \<subseteq># live w1"
  shows "keeps_images ops live w w2"
  using assms mset_subset_eqD [OF assms(3)]
  by (auto simp: keeps_images_def same_image_def)

lemma live_releaseImage:
  "k4a_laws ops live \<Longrightarrow> live w = base + acquired ImageRef i \<Longrightarrow> live (releaseImage ops i w) = base"
  by (simp add: releaseImage_def acquired_def image_release_law)

section \<open>Images that passed validation\<close>

lemma saneShape_iff:
  "isSaneImageShape ops i bpp w \<longleftrightarrow>
     isValidSize \<lparr>imgWidth = imageGetWidthPixels ops i w, imgHeight = imageGetHeightPixels ops i w\<rparr>
     \<and> 0 < imageGetStrideBytes ops i w \<and> imageGetSize ops i w \<noteq> 0 \<and> imageGetBuffer ops i w \<noteq> None
     \<and> imageGetWidthPixels ops i w * bpp \<le> imageGetStrideBytes ops i w
     \<and> unat (word_of_int (imageGetStrideBytes ops i w) * word_of_int (imageGetHeightPixels ops i w) :: u64)
         \<le> imageGetSize ops i w"
  by (auto simp: isSaneImageShape_def Let_def)

lemma saneShape_same:
  assumes "same_image ops i w w'"
  shows "isSaneImageShape ops i bpp w' = isSaneImageShape ops i bpp w"
proof -
  have "(imageGetBuffer ops i w' = None) = (imageGetBuffer ops i w = None)"
    using assms by (cases "imageGetBuffer ops i w"; cases "imageGetBuffer ops i w'")
      (auto simp: same_image_def)
  then show ?thesis using assms by (simp add: saneShape_iff same_image_def)
qed

text \<open>The layout that the converter relies on, for a given number of bytes per pixel.\<close>

definition image_layout :: "int \<Rightarrow> FrameImage \<Rightarrow> bool" where
  "image_layout bpp im \<longleftrightarrow>
     hasSaneImageBytes im \<and> imgWidth (fimgSize im) * bpp \<le> fimgStrideBytes im
     \<and> i32_range (fimgStrideBytes im) \<and> buffer_honest (fimgBuffer im) \<and> bufData (fimgBuffer im) \<noteq> None"

lemma makeFrameImage_sane:
  assumes laws: "k4a_laws ops live" and i: "ImageRef i \<in># live w"
    and sane: "isSaneImageShape ops i bpp w" and bpp: "1 \<le> bpp"
  obtains im where "makeFrameImage ops i w = Some im" "image_layout bpp im"
    "imgWidth (fimgSize im) = imageGetWidthPixels ops i w"
    "imgHeight (fimgSize im) = imageGetHeightPixels ops i w"
proof -
  note s = sane [unfolded saneShape_iff]
  obtain bytes where b: "imageGetBuffer ops i w = Some bytes" using s by blast
  have len: "imageGetSize ops i w \<le> length bytes" using size_law [OF laws i b] .
  let ?n = "imageGetSize ops i w"
  let ?buf = "\<lparr>bufData = Some (take ?n bytes), bufByteCount = ?n, bufOwner = True\<rparr>"
  let ?im = "\<lparr>fimgSize = \<lparr>imgWidth = imageGetWidthPixels ops i w,
      imgHeight = imageGetHeightPixels ops i w\<rparr>,
      fimgStrideBytes = imageGetStrideBytes ops i w, fimgBuffer = ?buf\<rparr>"
  have w: "0 < imageGetWidthPixels ops i w" using s by (simp add: isValidSize_def)
  then have "imageGetWidthPixels ops i w * 1 \<le> imageGetWidthPixels ops i w * bpp"
    using bpp by (intro mult_left_mono) simp_all
  then have "imageGetWidthPixels ops i w \<le> imageGetStrideBytes ops i w" using s by simp
  then have "image_layout bpp ?im"
    using s len stride_law [OF laws] by (simp add: image_layout_def hasSaneImageBytes_def FrameBuffer_empty_def
        buffer_honest_def)
  moreover have "makeFrameImage ops i w = Some ?im"
    using b len by (simp add: makeFrameImage_def copyImageBuffer_def Let_def)
  ultimately show thesis using that by simp
qed

lemma validateImage_None:
  "validateColorImage ops img i w = None \<Longrightarrow> img \<noteq> 0 \<and> isSaneImageShape ops img 4 w"
  "validateDepthImage ops img i w = None \<Longrightarrow> img \<noteq> 0 \<and> isSaneImageShape ops img 2 w"
  by (auto simp: validateColorImage_def validateDepthImage_def split: if_splits)

lemma validate_failure_not_built:
  "validateColorImage ops img i w = Some r \<Longrightarrow> \<not> built r"
  "validateDepthImage ops img i w = Some r \<Longrightarrow> \<not> built r"
  "validateRequest c i ts = Some r \<Longrightarrow> \<not> built r"
  "validateIntrinsics intr i = Some r \<Longrightarrow> \<not> built r"
  by (auto simp: validateColorImage_def validateDepthImage_def validateRequest_def
      validateIntrinsics_def split: if_splits)

section \<open>Alignment\<close>

definition same_size :: "'w k4a_ops \<Rightarrow> nat \<Rightarrow> nat \<Rightarrow> 'w \<Rightarrow> bool" where
  "same_size ops i j w \<longleftrightarrow>
     imageGetWidthPixels ops i w = imageGetWidthPixels ops j w
     \<and> imageGetHeightPixels ops i w = imageGetHeightPixels ops j w"

lemma same_size_kept:
  "same_size ops i j w \<Longrightarrow> keeps_images ops live w w' \<Longrightarrow> ImageRef i \<in># live w \<Longrightarrow> ImageRef j \<in># live w \<Longrightarrow>
     same_size ops i j w'"
  by (simp add: same_size_def keeps_images_def same_image_def)

lemma alignWithTransformation_live:
  assumes laws: "k4a_laws ops live"
    and r: "alignWithTransformation ops t color depth i w = (w', r)"
  shows "case r of
      Inl failure \<Rightarrow> live w' = live w \<and> \<not> built failure
    | Inr out \<Rightarrow> out \<noteq> 0 \<and> live w' = live w + {#ImageRef out#} \<and> keeps_images ops live w w'
        \<and> (ImageRef color \<in># live w \<longrightarrow> same_size ops out color w')"
proof (cases "validateTransformationCreate t i")
  case (Some failure)
  then show ?thesis
    using r by (auto simp: alignWithTransformation_def validateTransformationCreate_def
        split: if_splits)
next
  case t: None
  let ?x = "imageGetWidthPixels ops color w" and ?y = "imageGetHeightPixels ops color w"
  obtain w1 ok out where c: "imageCreate ops DEPTH16 ?x ?y (?x * 2) w = (w1, ok, out)"
    by (metis prod.exhaust)
  note law = create_law [OF laws c]
  show ?thesis
  proof (cases "validateTransformedDepthImageCreate ok out i")
    case (Some failure)
    then have "r = Inl failure" "w' = w1" "\<not> ok \<or> out = 0" "\<not> built failure"
      using r t c
      by (auto simp: alignWithTransformation_def validateTransformedDepthImageCreate_def
          split: if_splits)
    then show ?thesis using law by (auto simp: acquired_def)
  next
    case None
    then have out: "ok" "out \<noteq> 0"
      by (auto simp: validateTransformedDepthImageCreate_def split: if_splits)
    then have live1: "live w1 = live w + {#ImageRef out#}" using law by (simp add: acquired_def)
    obtain w2 ok2 where a: "transformationDepthImageToColorCamera ops t depth out w1 = (w2, ok2)"
      by fastforce
    note law2 = align_law [OF laws a]
    show ?thesis
    proof (cases ok2)
      case True
      then have "r = Inr out" "w' = w2"
        using r t c a None by (auto simp: alignWithTransformation_def validateDepthAlignment_def)
      moreover have "same_size ops out color w2" if color: "ImageRef color \<in># live w"
      proof -
        have "same_size ops out color w1"
          using law color out by (simp add: same_size_def keeps_images_def same_image_def)
        then show ?thesis using same_size_kept [of ops out color w1 live w2] law2 live1 color by simp
      qed
      ultimately show ?thesis
        using out live1 law law2 keeps_images_trans [of ops live w w1 w2] by simp
    next
      case False
      then obtain failure where "r = Inl failure" "w' = releaseImage ops out w2" "\<not> built failure"
        using r t c a None by (auto simp: alignWithTransformation_def validateDepthAlignment_def)
      then show ?thesis
        using live_releaseImage [OF laws, of w2 "live w" out] live1 law2 out
        by (simp add: acquired_def)
    qed
  qed
qed

lemma alignDepthToColor_live:
  assumes laws: "k4a_laws ops live"
    and r: "alignDepthToColor ops cal color depth i w = (w', r)"
  shows "case r of
      Inl failure \<Rightarrow> live w' = live w \<and> \<not> built failure
    | Inr out \<Rightarrow> out \<noteq> 0 \<and> live w' = live w + {#ImageRef out#} \<and> keeps_images ops live w w'
        \<and> (ImageRef color \<in># live w \<longrightarrow> same_size ops out color w')"
proof -
  obtain w1 t where t: "transformationCreate ops cal w = (w1, t)" by fastforce
  obtain w2 r2 where a: "alignWithTransformation ops t color depth i w1 = (w2, r2)" by fastforce
  have w': "w' = destroyTransformation ops t w2" "r = r2"
    using r t a by (simp_all add: alignDepthToColor_def)
  note law = transformation_law [OF laws t]
  note al = alignWithTransformation_live [OF laws a]
  have live': "live w' = live w2 - acquired TransformationRef t"
    by (simp add: w' destroyTransformation_def destroy_law(1) [OF laws] acquired_def)
  have keep': "keeps_images ops live w2 w'"
    by (simp add: w' destroyTransformation_def destroy_law(2) [OF laws] keeps_images_refl)
  show ?thesis
  proof (cases r)
    case (Inl failure)
    then show ?thesis using al law live' w' by simp
  next
    case (Inr out)
    then have o: "out \<noteq> 0" "live w2 = live w1 + {#ImageRef out#}" "keeps_images ops live w1 w2"
      using al w' by simp_all
    have "keeps_images ops live w w2" using keeps_images_trans [of ops live w w1 w2] law o(3) by simp
    then have "keeps_images ops live w w'"
      using keeps_images_trans [of ops live w w2 w'] keep' law o(2) by (simp add: subset_mset.add_increasing2)
    moreover have "same_size ops out color w'" if color: "ImageRef color \<in># live w"
      using same_size_kept [OF _ keep', of out color] al Inr w'(2) law color o(2) by simp
    ultimately show ?thesis using Inr o live' law by simp
  qed
qed

section \<open>Building\<close>

text \<open>What a built frame satisfies.\<close>

definition frame_wellformed :: "Frame \<Rightarrow> bool" where
  "frame_wellformed f \<longleftrightarrow>
     frameId f \<noteq> 0 \<and> isValidTimestamp (frameTimestamp f)
     \<and> image_layout 4 (frameRgb f) \<and> image_layout 2 (frameDepth f)
     \<and> fimgSize (frameRgb f) = fimgSize (frameDepth f) \<and> isValidIntrinsics (frameIntrinsics f)"

definition build_ok :: "FrameId \<Rightarrow> FrameTimestamp \<Rightarrow> CaptureBuildResult option \<Rightarrow> bool" where
  "build_ok i ts r \<longleftrightarrow>
     (\<exists>res. r = Some res
        \<and> (built res \<longrightarrow> (\<exists>f. fbFrame res = Some f \<and> frameId f = i \<and> frameTimestamp f = ts
              \<and> image_layout 4 (frameRgb f) \<and> image_layout 2 (frameDepth f)
              \<and> fimgSize (frameRgb f) = fimgSize (frameDepth f) \<and> isValidIntrinsics (frameIntrinsics f))))"

lemma build_ok_failure: "\<not> built r \<Longrightarrow> build_ok i ts (Some r)"
  by (simp add: build_ok_def)

lemma buildAligned_ok:
  assumes laws: "k4a_laws ops live" and color: "ImageRef color \<in># live w" "isSaneImageShape ops color 4 w"
    and aligned: "ImageRef aligned \<in># live w" "same_size ops aligned color w"
  shows "build_ok i ts (buildAligned ops cal color aligned i ts w)"
proof (cases "validateDepthImage ops aligned i w")
  case (Some r)
  then show ?thesis
    using validate_failure_not_built(2) [OF Some] by (simp add: buildAligned_def build_ok_failure)
next
  case depth: None
  let ?intr = "makeIntrinsics cal"
  show ?thesis
  proof (cases "validateIntrinsics ?intr i")
    case (Some r)
    then show ?thesis
      using depth validate_failure_not_built(4) [OF Some]
      by (simp add: buildAligned_def build_ok_failure)
  next
    case None
    obtain rgb where rgb: "makeFrameImage ops color w = Some rgb" "image_layout 4 rgb"
      "imgWidth (fimgSize rgb) = imageGetWidthPixels ops color w"
      "imgHeight (fimgSize rgb) = imageGetHeightPixels ops color w"
      using makeFrameImage_sane [OF laws color] by auto
    obtain dep where dep: "makeFrameImage ops aligned w = Some dep" "image_layout 2 dep"
      "imgWidth (fimgSize dep) = imageGetWidthPixels ops aligned w"
      "imgHeight (fimgSize dep) = imageGetHeightPixels ops aligned w"
      using makeFrameImage_sane [OF laws aligned(1), of 2] validateImage_None(2) [OF depth] by auto
    have sizes: "fimgSize rgb = fimgSize dep"
      using rgb(3,4) dep(3,4) aligned(2) by (simp add: same_size_def)
    have "isValidIntrinsics ?intr" using None by (auto simp: validateIntrinsics_def split: if_splits)
    then show ?thesis
      using depth None rgb(1,2) dep(1,2) sizes by (simp add: buildAligned_def assemble_def build_ok_def)
  qed
qed

lemma buildWithDepth_ok:
  assumes laws: "k4a_laws ops live" and color: "ImageRef color \<in># live w" "isSaneImageShape ops color 4 w"
    and r: "buildWithDepth ops cal color depth i ts w = (w', r)"
  shows "build_ok i ts r" and "live w' = live w"
proof -
  have "build_ok i ts r \<and> live w' = live w"
  proof (cases "validateDepthImage ops depth i w")
    case (Some failure)
    then have "w' = w" "r = Some failure" using r by (simp_all add: buildWithDepth_def)
    then show ?thesis using validate_failure_not_built(2) [OF Some] by (simp add: build_ok_failure)
  next
    case None
    obtain w1 al where a: "alignDepthToColor ops cal color depth i w = (w1, al)" by fastforce
    note al = alignDepthToColor_live [OF laws a]
    show ?thesis
    proof (cases al)
      case (Inl failure)
      then show ?thesis using r None a al by (auto simp: buildWithDepth_def build_ok_failure)
    next
      case (Inr out)
      then have o: "out \<noteq> 0" "live w1 = live w + {#ImageRef out#}" "keeps_images ops live w w1"
        "same_size ops out color w1"
        using al color(1) by simp_all
      have r': "w' = releaseImage ops out w1" "r = buildAligned ops cal color out i ts w1"
        using r None a Inr by (simp_all add: buildWithDepth_def)
      have "isSaneImageShape ops color 4 w1"
        using o(3) color saneShape_same [of ops color w w1] by (simp add: keeps_images_def)
      then have "build_ok i ts r"
        unfolding r' using o(2,4) color(1) by (intro buildAligned_ok [OF laws]) simp_all
      moreover have "live w' = live w"
        unfolding r' by (rule live_releaseImage [OF laws]) (simp add: o acquired_def)
      ultimately show ?thesis ..
    qed
  qed
  then show "build_ok i ts r" "live w' = live w" by simp_all
qed

lemma buildWithColor_ok:
  assumes laws: "k4a_laws ops live" and color: "color \<noteq> 0 \<longrightarrow> ImageRef color \<in># live w"
    and r: "buildWithColor ops capture cal color i ts w = (w', r)"
  shows "build_ok i ts r" and "live w' = live w"
proof -
  have "build_ok i ts r \<and> live w' = live w"
  proof (cases "validateColorImage ops color i w")
    case (Some failure)
    then have "w' = w" "r = Some failure" using r by (simp_all add: buildWithColor_def)
    then show ?thesis using validate_failure_not_built(1) [OF Some] by (simp add: build_ok_failure)
  next
    case None
    note sane = validateImage_None(1) [OF None]
    obtain w1 depth where d: "captureGetDepthImage ops capture w = (w1, depth)" by fastforce
    obtain w2 r2 where b: "buildWithDepth ops cal color depth i ts w1 = (w2, r2)" by fastforce
    note law = depth_law [OF laws d]
    have c: "ImageRef color \<in># live w1" "isSaneImageShape ops color 4 w1"
      using sane color law saneShape_same [of ops color w w1] by (simp_all add: keeps_images_def)
    have r': "w' = releaseImage ops depth w2" "r = r2"
      using r None d b by (simp_all add: buildWithColor_def)
    show ?thesis
      using buildWithDepth_ok [OF laws c b] live_releaseImage [OF laws, of w2 "live w" depth] law
      by (simp add: r')
  qed
  then show "build_ok i ts r" "live w' = live w" by simp_all
qed

lemma build_guarantees:
  assumes laws: "k4a_laws ops live"
    and r: "K4aFrameBuilder_build ops capture cal i ts w = (w', r)"
  shows "live w' = live w"
    and "\<exists>res. r = Some res \<and> (built res \<longrightarrow>
      (\<exists>f. fbFrame res = Some f \<and> frameId f = i \<and> frameTimestamp f = ts \<and> frame_wellformed f))"
proof -
  have "live w' = live w \<and> (\<exists>res. r = Some res \<and> (built res \<longrightarrow>
      (\<exists>f. fbFrame res = Some f \<and> frameId f = i \<and> frameTimestamp f = ts \<and> frame_wellformed f)))"
  proof (cases "validateRequest capture i ts")
    case (Some failure)
    then have "w' = w" "r = Some failure" using r by (simp_all add: K4aFrameBuilder_build_def)
    then show ?thesis using validate_failure_not_built(3) [OF Some] by simp
  next
    case None
    then have req: "i \<noteq> 0" "isValidTimestamp ts" by (auto simp: validateRequest_def split: if_splits)
    obtain w1 color where c: "captureGetColorImage ops capture w = (w1, color)" by fastforce
    obtain w2 r2 where b: "buildWithColor ops capture cal color i ts w1 = (w2, r2)" by fastforce
    note law = color_law [OF laws c]
    have mem: "color \<noteq> 0 \<longrightarrow> ImageRef color \<in># live w1" using law by (simp add: acquired_def)
    have r': "w' = releaseImage ops color w2" "r = r2"
      using r None c b by (simp_all add: K4aFrameBuilder_build_def)
    show ?thesis
      using buildWithColor_ok [OF laws mem b] live_releaseImage [OF laws, of w2 "live w" color] law req
      by (auto simp: r' build_ok_def frame_wellformed_def)
  qed
  then show "live w' = live w"
    "\<exists>res. r = Some res \<and> (built res \<longrightarrow>
      (\<exists>f. fbFrame res = Some f \<and> frameId f = i \<and> frameTimestamp f = ts \<and> frame_wellformed f))"
    by blast+
qed

text \<open>A well-formed frame passes every check of the store but those against the store's state.\<close>

lemma wellformed_admissible:
  assumes "frame_wellformed f"
    and "\<And>l. ctxLatestFrameId ctx = Some l \<Longrightarrow> l < frameId f"
    and "\<And>l. ctxLatestTimestamp ctx = Some l \<Longrightarrow> l < frameTimestamp f"
    and "ctxHistoryFull ctx \<Longrightarrow> ctxHasEvictableFrame ctx"
  shows "frame_admissible f ctx"
  using assms
  by (simp add: frame_wellformed_def frame_admissible_def image_layout_def isValidTimestamp_def)

end
