(* ===== verification/BackgroundRunner.thy ===== *)
theory BackgroundRunner
  imports Prelude
begin

text \<open>
  The thread control that \<open>FrameIngestorRunner\<close>, \<open>SceneBuilderRunner\<close> and \<open>SceneViewerRunner\<close> share
  word for word: the two atomic flags, the thread handle and the status copies of the flags.  The
  record is extended by each runner with its own status and loop state.

  The loop thread is at the head of its loop, inside one iteration, or finished and not joined;
  its steps interleave with the owner's calls in any order.  \<open>join\<close> blocks while the loop thread
  runs, which is a \<open>None\<close>.
\<close>

datatype loop_thread = NoThread | AtLoopHead | InIteration | ThreadFinished

record Runner =
  rnStopRequested :: bool
  rnRunning :: bool
  rnThread :: loop_thread
  rnStatusRunning :: bool
  rnStatusStopRequested :: bool

definition joinable :: "'a Runner_scheme \<Rightarrow> bool" where
  "joinable r \<longleftrightarrow> rnThread r \<noteq> NoThread"

definition Runner_setRunning :: "bool \<Rightarrow> 'a Runner_scheme \<Rightarrow> 'a Runner_scheme" where
  "Runner_setRunning b r =
     r\<lparr>rnRunning := b, rnStatusRunning := b, rnStatusStopRequested := rnStopRequested r\<rparr>"

definition Runner_start :: "'a Runner_scheme \<Rightarrow> 'a Runner_scheme \<times> bool" where
  "Runner_start r =
     (if joinable r \<or> rnRunning r then (r, False)
      else ((Runner_setRunning True (r\<lparr>rnStopRequested := False\<rparr>))\<lparr>rnThread := AtLoopHead\<rparr>, True))"

definition Runner_requestStop :: "'a Runner_scheme \<Rightarrow> 'a Runner_scheme" where
  "Runner_requestStop r = r\<lparr>rnStopRequested := True, rnStatusStopRequested := True\<rparr>"

definition Runner_join :: "'a Runner_scheme \<Rightarrow> 'a Runner_scheme option" where
  "Runner_join r =
     (case rnThread r of
        NoThread \<Rightarrow> Some r
      | ThreadFinished \<Rightarrow> Some (r\<lparr>rnThread := NoThread\<rparr>)
      | _ \<Rightarrow> None)"

text \<open>The loop thread: test the flag and enter an iteration, or leave the loop.\<close>

definition Runner_loopHead :: "'a Runner_scheme \<Rightarrow> 'a Runner_scheme" where
  "Runner_loopHead r =
     (if \<not> rnStopRequested r then r\<lparr>rnThread := InIteration\<rparr>
      else (Runner_setRunning False r)\<lparr>rnThread := ThreadFinished\<rparr>)"

section \<open>The owner and the loop thread\<close>

text \<open>\<open>iterate e\<close> is one loop iteration, given what its environment \<open>e\<close> does to it.\<close>

datatype 'e runner_event = OwnerStart | OwnerRequestStop | OwnerJoin | LoopHead | LoopIteration 'e

fun runner_step ::
    "('e \<Rightarrow> 'a Runner_scheme \<Rightarrow> 'a Runner_scheme) \<Rightarrow> 'e runner_event \<Rightarrow> 'a Runner_scheme \<Rightarrow>
       'a Runner_scheme option" where
  "runner_step iterate OwnerStart r = Some (fst (Runner_start r))"
| "runner_step iterate OwnerRequestStop r = Some (Runner_requestStop r)"
| "runner_step iterate OwnerJoin r = Runner_join r"
| "runner_step iterate LoopHead r =
     (if rnThread r = AtLoopHead then Some (Runner_loopHead r) else None)"
| "runner_step iterate (LoopIteration e) r =
     (if rnThread r = InIteration then Some ((iterate e r)\<lparr>rnThread := AtLoopHead\<rparr>) else None)"

fun runner_run ::
    "('e \<Rightarrow> 'a Runner_scheme \<Rightarrow> 'a Runner_scheme) \<Rightarrow> 'e runner_event list \<Rightarrow> 'a Runner_scheme \<Rightarrow>
       'a Runner_scheme option" where
  "runner_run iterate [] r = Some r"
| "runner_run iterate (e # es) r =
     (case runner_step iterate e r of None \<Rightarrow> None | Some r' \<Rightarrow> runner_run iterate es r')"

definition flags_ok :: "'a Runner_scheme \<Rightarrow> bool" where
  "flags_ok r \<longleftrightarrow>
     (rnRunning r \<longleftrightarrow> rnThread r \<in> {AtLoopHead, InIteration})
     \<and> rnStatusRunning r = rnRunning r
     \<and> rnStatusStopRequested r = rnStopRequested r
     \<and> (rnThread r = ThreadFinished \<longrightarrow> rnStopRequested r)"

lemma flags_ok_control:
  assumes "flags_ok r"
  shows "flags_ok (fst (Runner_start r))" "flags_ok (Runner_requestStop r)"
    "Runner_join r = Some r' \<Longrightarrow> flags_ok r'"
    "rnThread r = AtLoopHead \<Longrightarrow> flags_ok (Runner_loopHead r)"
  using assms
  by (cases "rnThread r"; auto simp: flags_ok_def Runner_start_def Runner_requestStop_def
      Runner_join_def Runner_loopHead_def Runner_setRunning_def joinable_def)+

text \<open>How many steps of the loop thread are left once a stop is requested.\<close>

definition steps_to_join :: "'a Runner_scheme \<Rightarrow> nat" where
  "steps_to_join r = (case rnThread r of AtLoopHead \<Rightarrow> 1 | InIteration \<Rightarrow> 2 | _ \<Rightarrow> 0)"

lemma steps_to_join_control [simp]:
  "steps_to_join (Runner_requestStop r) = steps_to_join r" "steps_to_join r \<le> 2"
  by (simp_all add: steps_to_join_def Runner_requestStop_def split: loop_thread.split)

lemma join_when_finished:
  assumes "steps_to_join r = 0"
  obtains r' where "Runner_join r = Some r'" "rnThread r' = NoThread" "rnRunning r' = rnRunning r"
    "rnStopRequested r' = rnStopRequested r"
  using assms by (cases "rnThread r") (simp_all add: steps_to_join_def Runner_join_def)

text \<open>An iteration leaves the thread control alone.\<close>

locale loop_control =
  fixes iterate :: "'e \<Rightarrow> 'a Runner_scheme \<Rightarrow> 'a Runner_scheme"
  assumes iterate_control:
      "rnStopRequested (iterate e r) = rnStopRequested r" "rnRunning (iterate e r) = rnRunning r"
      "rnStatusRunning (iterate e r) = rnStatusRunning r"
      "rnStatusStopRequested (iterate e r) = rnStatusStopRequested r"
begin

lemma step_flags:
  assumes "flags_ok r" "runner_step iterate ev r = Some r'"
  shows "flags_ok r'"
proof (cases ev)
  case OwnerJoin
  then show ?thesis using assms(2) flags_ok_control(3) [OF assms(1)] by simp
next
  case LoopHead
  then show ?thesis using assms(2) flags_ok_control(4) [OF assms(1)] by (simp split: if_splits)
next
  case (LoopIteration e)
  then have "rnThread r = InIteration" "r' = (iterate e r)\<lparr>rnThread := AtLoopHead\<rparr>"
    using assms(2) by (simp_all split: if_splits)
  then show ?thesis using assms(1) by (simp add: flags_ok_def iterate_control)
qed (use assms(2) flags_ok_control(1,2) [OF assms(1)] in \<open>simp_all add: eq_commute\<close>)

lemma loop_step:
  assumes "runner_step iterate ev r = Some r'" "ev = LoopHead \<or> ev = LoopIteration e"
  shows "joinable r \<and> joinable r' \<and> rnStopRequested r' = rnStopRequested r"
  using assms
  by (auto simp: joinable_def Runner_loopHead_def Runner_setRunning_def iterate_control split: if_splits)

text \<open>Once a stop is requested every step of the loop thread brings it nearer to its end.\<close>

lemma step_towards_join:
  assumes "rnStopRequested r" "0 < steps_to_join r"
  shows "\<exists>ev r'. (ev = LoopHead \<or> ev = LoopIteration e) \<and> runner_step iterate ev r = Some r'
    \<and> steps_to_join r' + 1 = steps_to_join r"
proof (cases "rnThread r")
  case AtLoopHead
  then show ?thesis
    using assms(1) by (intro exI [of _ LoopHead]) (simp add: steps_to_join_def Runner_loopHead_def)
next
  case InIteration
  then show ?thesis by (intro exI [of _ "LoopIteration e"]) (simp add: steps_to_join_def)
qed (use assms(2) in \<open>simp_all add: steps_to_join_def\<close>)

text \<open>Stopping: once a stop is requested, at most one iteration ends, then the join succeeds.\<close>

lemma stop_terminates:
  assumes "flags_ok r"
  shows "\<exists>evs r'. length evs \<le> 2 \<and> set evs \<subseteq> {LoopHead, LoopIteration e}
    \<and> count_list evs (LoopIteration e) \<le> 1
    \<and> runner_run iterate (OwnerRequestStop # evs @ [OwnerJoin]) r = Some r'
    \<and> rnThread r' = NoThread \<and> \<not> rnRunning r'"
proof -
  have run: "rnThread r = NoThread \<Longrightarrow> \<not> rnRunning r" "rnThread r = ThreadFinished \<Longrightarrow> \<not> rnRunning r"
    using assms by (auto simp: flags_ok_def)
  show ?thesis
  proof (cases "rnThread r")
    case NoThread
    then show ?thesis
      using run by (intro exI [of _ "[]"]) (simp add: Runner_requestStop_def Runner_join_def)
  next
    case AtLoopHead
    then show ?thesis
      by (intro exI [of _ "[LoopHead]"])
        (simp add: Runner_requestStop_def Runner_join_def Runner_loopHead_def Runner_setRunning_def)
  next
    case InIteration
    then show ?thesis
      by (intro exI [of _ "[LoopIteration e, LoopHead]"])
        (simp add: Runner_requestStop_def Runner_join_def Runner_loopHead_def Runner_setRunning_def
          iterate_control)
  next
    case ThreadFinished
    then show ?thesis
      using run by (intro exI [of _ "[]"]) (simp add: Runner_requestStop_def Runner_join_def)
  qed
qed

end

text \<open>
  The contract of a runner: an iteration leaves the thread control alone, and keeps the invariant
  of the runner's own state; starting and stopping do not touch that invariant.
\<close>

locale background_runner = loop_control iterate
  for iterate :: "'e \<Rightarrow> 'a Runner_scheme \<Rightarrow> 'a Runner_scheme" +
  fixes own_inv :: "'a Runner_scheme \<Rightarrow> bool"
    and ok :: "'e \<Rightarrow> bool"
  assumes iterate_inv: "ok e \<Longrightarrow> own_inv r \<Longrightarrow> own_inv (iterate e r)"
    and control_inv: "own_inv (r\<lparr>rnStopRequested := a, rnRunning := b, rnThread := c,
      rnStatusRunning := d, rnStatusStopRequested := f\<rparr>) = own_inv r"
begin

lemma own_inv_updates [simp]:
  "own_inv (r\<lparr>rnThread := c\<rparr>) = own_inv r"
  "own_inv (Runner_setRunning b r) = own_inv r"
  "own_inv (r\<lparr>rnStopRequested := a\<rparr>) = own_inv r"
  "own_inv (Runner_requestStop r) = own_inv r"
proof -
  show "own_inv (r\<lparr>rnThread := c\<rparr>) = own_inv r"
    using control_inv [where r = r and a = "rnStopRequested r" and b = "rnRunning r" and c = c
        and d = "rnStatusRunning r" and f = "rnStatusStopRequested r"] by simp
  show "own_inv (Runner_setRunning b r) = own_inv r"
    using control_inv [where r = r and a = "rnStopRequested r" and b = b and c = "rnThread r"
        and d = b and f = "rnStopRequested r"]
    by (simp add: Runner_setRunning_def)
  show "own_inv (r\<lparr>rnStopRequested := a\<rparr>) = own_inv r"
    using control_inv [where r = r and a = a and b = "rnRunning r" and c = "rnThread r"
        and d = "rnStatusRunning r" and f = "rnStatusStopRequested r"] by simp
  show "own_inv (Runner_requestStop r) = own_inv r"
    using control_inv [where r = r and a = True and b = "rnRunning r" and c = "rnThread r"
        and d = "rnStatusRunning r" and f = True]
    by (simp add: Runner_requestStop_def)
qed

definition event_ok :: "'e runner_event \<Rightarrow> bool" where
  "event_ok ev = (case ev of LoopIteration e \<Rightarrow> ok e | _ \<Rightarrow> True)"

lemma step_inv:
  assumes "flags_ok r" "own_inv r" "event_ok ev" "runner_step iterate ev r = Some r'"
  shows "flags_ok r'" "own_inv r'"
proof -
  show "flags_ok r'" using step_flags [OF assms(1,4)] .
  show "own_inv r'"
  proof (cases ev)
    case OwnerStart
    then show ?thesis using assms(2,4) by (auto simp: Runner_start_def)
  next
    case OwnerJoin
    then show ?thesis using assms(2,4) by (auto simp: Runner_join_def split: loop_thread.splits)
  next
    case LoopHead
    then show ?thesis using assms(2,4) by (auto simp: Runner_loopHead_def split: if_splits)
  next
    case (LoopIteration e)
    then show ?thesis using assms(2-4) iterate_inv [of e r] by (auto simp: event_ok_def split: if_splits)
  qed (use assms(2,4) in auto)
qed

lemma run_inv:
  "flags_ok r \<Longrightarrow> own_inv r \<Longrightarrow> \<forall>ev \<in> set evs. event_ok ev \<Longrightarrow> runner_run iterate evs r = Some r' \<Longrightarrow>
     flags_ok r' \<and> own_inv r'"
proof (induction evs arbitrary: r)
  case (Cons ev evs)
  then obtain r1 where "runner_step iterate ev r = Some r1" "runner_run iterate evs r1 = Some r'"
    by (auto split: option.splits)
  then show ?case using Cons step_inv [of r ev r1] by simp
qed simp

end

end
