(* ===== verification/FrameIngest.thy ===== *)
theory FrameIngest
  imports FrameBuildProofs FrameStoreSpec BackgroundRunner
begin

text \<open>
  \<open>nextMonotonicTimestamp\<close>, \<open>FrameIngestor\<close> and \<open>FrameIngestorRunner\<close> of \<open>src/capture/src/frame\<close>:
  one ingest takes a capture from the camera, builds a frame under the next id and timestamp and
  submits it to the frame store; the runner repeats it on its thread.
\<close>

section \<open>Timestamps\<close>

text \<open>\<open>now\<close> is the steady clock in nanoseconds; the result pairs the new last value with the stamp.\<close>

definition nextMonotonicTimestamp :: "int \<Rightarrow> int \<Rightarrow> int \<times> FrameTimestamp" where
  "nextMonotonicTimestamp now lastTicks =
     (let steady = (if now \<le> 0 then 1 else now);
          steady = (if steady \<le> lastTicks then lastTicks + 1 else steady)
      in (steady, FrameTimestamp steady))"

lemma nextMonotonicTimestamp_newer:
  assumes "nextMonotonicTimestamp now l = (l', t)"
  shows "l < l'" "t = FrameTimestamp l'" "0 \<le> l \<Longrightarrow> 0 < l'"
  using assms by (auto simp: nextMonotonicTimestamp_def Let_def split: if_splits)

section \<open>Results\<close>

datatype FrameIngestCode =
  Submitted | CaptureUnavailable | CalibrationUnavailable | BuildFailed | ModelRejected

record FrameIngestResult =
  igCode :: FrameIngestCode
  igFrameId :: FrameId
  igMessage :: string
  igBuildCode :: "FrameBuildCode option"
  igSubmissionCode :: "FrameSubmissionCode option"

definition submitted :: "FrameIngestResult \<Rightarrow> bool" where
  "submitted r \<longleftrightarrow> igCode r = Submitted"

definition makeFrameIngestResult :: "FrameIngestCode \<Rightarrow> FrameId \<Rightarrow> string \<Rightarrow> FrameIngestResult" where
  "makeFrameIngestResult code i msg =
     \<lparr>igCode = code, igFrameId = i, igMessage = msg, igBuildCode = None, igSubmissionCode = None\<rparr>"

definition makeBuildFailedResult :: "FrameId \<Rightarrow> CaptureBuildResult \<Rightarrow> FrameIngestResult" where
  "makeBuildFailedResult i b =
     \<lparr>igCode = BuildFailed, igFrameId = i, igMessage = fbMessage b, igBuildCode = Some (fbCode b),
      igSubmissionCode = None\<rparr>"

definition makeModelRejectedResult :: "FrameSubmissionResult \<Rightarrow> FrameIngestResult" where
  "makeModelRejectedResult r =
     \<lparr>igCode = ModelRejected, igFrameId = subFrameId r, igMessage = subMessage r,
      igBuildCode = None, igSubmissionCode = Some (subCode r)\<rparr>"

definition makeSubmittedResult :: "FrameSubmissionResult \<Rightarrow> FrameIngestResult" where
  "makeSubmittedResult r =
     \<lparr>igCode = Submitted, igFrameId = subFrameId r, igMessage = subMessage r,
      igBuildCode = None, igSubmissionCode = Some (subCode r)\<rparr>"

section \<open>The ingestor\<close>

record FrameIngestor =
  ingNextFrameId :: FrameId
  ingLastTimestampTicks :: int

definition FrameIngestor_new :: FrameIngestor where
  "FrameIngestor_new = \<lparr>ingNextFrameId = 1, ingLastTimestampTicks = 0\<rparr>"

text \<open>What one ingest works on: the SDK's world, the store and the ingestor's own counters.\<close>

record ('w, 'q) IngestState =
  isWorld :: 'w
  isStore :: "'q FrameStore"
  isIngestor :: FrameIngestor

text \<open>The body below the \<open>CaptureHandle\<close>; \<open>None\<close> is undefined behaviour in the frame builder.\<close>

definition ingestCapture ::
    "'w k4a_ops \<Rightarrow> 'q ring_ops \<Rightarrow> CameraCapture \<Rightarrow> int \<Rightarrow> nat \<Rightarrow> ('w, 'q) IngestState \<Rightarrow>
       ('w, 'q) IngestState \<times> FrameIngestResult option" where
  "ingestCapture api ops cam now capture S =
     (case CameraCapture_getCalibration api cam (isWorld S) of
        (w, None) \<Rightarrow>
          (S\<lparr>isWorld := w\<rparr>,
           Some (makeFrameIngestResult CalibrationUnavailable 0 ''K4A calibration is unavailable''))
      | (w, Some cal) \<Rightarrow>
          let i = ingNextFrameId (isIngestor S) in
          case nextMonotonicTimestamp now (ingLastTimestampTicks (isIngestor S)) of (newest, ts) \<Rightarrow>
          let S = S\<lparr>isIngestor := \<lparr>ingNextFrameId = i + 1, ingLastTimestampTicks = newest\<rparr>\<rparr> in
          case K4aFrameBuilder_build api capture cal i ts w of (w, r) \<Rightarrow>
          let S = S\<lparr>isWorld := w\<rparr> in
          (case r of
             None \<Rightarrow> (S, None)
           | Some b \<Rightarrow>
               if \<not> built b then (S, Some (makeBuildFailedResult i b))
               else
                 case submitFrame ops (the (fbFrame b)) (isStore S) of (store, sr) \<Rightarrow>
                 let S = S\<lparr>isStore := store\<rparr> in
                 if \<not> accepted sr then (S, Some (makeModelRejectedResult sr))
                 else (S, Some (makeSubmittedResult sr))))"

definition captureAndSubmit ::
    "'w k4a_ops \<Rightarrow> 'q ring_ops \<Rightarrow> CameraCapture \<Rightarrow> int \<Rightarrow> int \<Rightarrow> ('w, 'q) IngestState \<Rightarrow>
       ('w, 'q) IngestState \<times> FrameIngestResult option" where
  "captureAndSubmit api ops cam timeout now S =
     (case CameraCapture_capture api cam timeout (isWorld S) of (w, got, capture) \<Rightarrow>
        let S = S\<lparr>isWorld := w\<rparr> in
        if \<not> got \<or> capture = 0 then
          (S, Some (makeFrameIngestResult CaptureUnavailable 0 ''No K4A capture available''))
        else
          case ingestCapture api ops cam now capture S of (S, r) \<Rightarrow>
            (S\<lparr>isWorld := releaseCapture api capture (isWorld S)\<rparr>, r))"

section \<open>The runner\<close>

record ('w, 'q) IngestRunner = Runner +
  irConfig :: CaptureRuntimeConfig
  irIngest :: "('w, 'q) IngestState"
  irIngestAttemptCount :: u64
  irSubmittedFrameCount :: u64
  irFailedIngestCount :: u64
  irLastCode :: "FrameIngestCode option"
  irLastFrameId :: FrameId
  irLastMessage :: string

definition FrameIngestorRunner_start :: "('w, 'q) IngestRunner \<Rightarrow> ('w, 'q) IngestRunner \<times> bool" where
  "FrameIngestorRunner_start r = Runner_start r"

definition FrameIngestorRunner_requestStop :: "('w, 'q) IngestRunner \<Rightarrow> ('w, 'q) IngestRunner" where
  "FrameIngestorRunner_requestStop r = Runner_requestStop r"

definition FrameIngestorRunner_join :: "('w, 'q) IngestRunner \<Rightarrow> ('w, 'q) IngestRunner option" where
  "FrameIngestorRunner_join r = Runner_join r"

definition FrameIngestorRunner_running :: "('w, 'q) IngestRunner \<Rightarrow> bool" where
  "FrameIngestorRunner_running r = rnRunning r"

definition FrameIngestorRunner_setRunning :: "bool \<Rightarrow> ('w, 'q) IngestRunner \<Rightarrow> ('w, 'q) IngestRunner" where
  "FrameIngestorRunner_setRunning b r = Runner_setRunning b r"

definition ingest_recordResult ::
    "FrameIngestResult \<Rightarrow> ('w, 'q) IngestRunner \<Rightarrow> ('w, 'q) IngestRunner" where
  "ingest_recordResult res r =
     (let r = r\<lparr>irIngestAttemptCount := irIngestAttemptCount r + 1, irLastCode := Some (igCode res),
                irLastFrameId := igFrameId res, irLastMessage := igMessage res\<rparr>
      in if submitted res then r\<lparr>irSubmittedFrameCount := irSubmittedFrameCount r + 1\<rparr>
         else r\<lparr>irFailedIngestCount := irFailedIngestCount r + 1\<rparr>)"

text \<open>
  One iteration of \<open>runLoop\<close>; the backoff sleep after a failure changes no state.  The clock
  reading and the camera it runs against come from outside; an iteration that ran into undefined
  behaviour would have no successor, which the properties exclude.
\<close>

definition ingestIteration ::
    "'w k4a_ops \<Rightarrow> 'q ring_ops \<Rightarrow> CameraCapture \<Rightarrow> int \<Rightarrow> ('w, 'q) IngestRunner \<Rightarrow> ('w, 'q) IngestRunner"
  where
  "ingestIteration api ops cam now r =
     (case captureAndSubmit api ops cam (captureTimeoutMs (irConfig r)) now (irIngest r) of
        (S, Some res) \<Rightarrow> ingest_recordResult res (r\<lparr>irIngest := S\<rparr>)
      | (S, None) \<Rightarrow> r\<lparr>irIngest := S\<rparr>)"

definition FrameIngestorRunner_new ::
    "CaptureRuntimeConfig \<Rightarrow> ('w, 'q) IngestState \<Rightarrow> ('w, 'q) IngestRunner" where
  "FrameIngestorRunner_new config S =
     \<lparr>rnStopRequested = False, rnRunning = False, rnThread = NoThread, rnStatusRunning = False,
      rnStatusStopRequested = False, irConfig = config, irIngest = S, irIngestAttemptCount = 0,
      irSubmittedFrameCount = 0, irFailedIngestCount = 0, irLastCode = None, irLastFrameId = 0,
      irLastMessage = []\<rparr>"

end
