(* ===== verification/FrameIngestProofs.thy ===== *)
theory FrameIngestProofs
  imports FrameIngest
begin

text \<open>
  Ingesting against the SDK's ownership rules and the store's invariant: the references are
  balanced, no path runs into undefined behaviour, and a store that only the ingestor fills never
  finds a frame that is old or malformed.  The last part accounts for the runner's counters.
\<close>

section \<open>One ingest\<close>

lemma ingestCapture_live:
  assumes laws: "k4a_laws api held"
    and r: "ingestCapture api ops cam now capture S = (S', r)"
  shows "held (isWorld S') = held (isWorld S)" and "r \<noteq> None"
proof -
  obtain w cal where c: "CameraCapture_getCalibration api cam (isWorld S) = (w, cal)" by fastforce
  have w: "held w = held (isWorld S)"
    using c calibration_law [OF laws, of "camDevice cam" "k4aDepthMode (camConfig cam)"
        "k4aColorResolution (camConfig cam)" "isWorld S"]
    by (auto simp: CameraCapture_getCalibration_def split: if_splits prod.splits)
  have "held (isWorld S') = held (isWorld S) \<and> r \<noteq> None"
  proof (cases cal)
    case None
    then show ?thesis using r c w by (auto simp: ingestCapture_def)
  next
    case (Some calibration)
    obtain newest ts where t:
      "nextMonotonicTimestamp now (ingLastTimestampTicks (isIngestor S)) = (newest, ts)" by fastforce
    obtain w2 b where b:
      "K4aFrameBuilder_build api capture calibration (ingNextFrameId (isIngestor S)) ts w = (w2, b)"
      by fastforce
    note g = build_guarantees [OF laws b]
    then obtain res where "b = Some res" by blast
    then show ?thesis
      using r c w t b g(1) Some by (auto simp: ingestCapture_def Let_def split: if_splits prod.splits)
  qed
  then show "held (isWorld S') = held (isWorld S)" "r \<noteq> None" by simp_all
qed

lemma captureAndSubmit_live:
  assumes laws: "k4a_laws api held"
    and r: "captureAndSubmit api ops cam timeout now S = (S', r)"
  shows "held (isWorld S') = held (isWorld S)" and "r \<noteq> None"
proof -
  obtain w got capture where c: "CameraCapture_capture api cam timeout (isWorld S) = (w, got, capture)"
    by (metis prod.exhaust)
  have w: "held w = held (isWorld S) + (if got then acquired CaptureRef capture else {#})"
    using c capture_law [OF laws]
    by (auto simp: CameraCapture_capture_def split: if_splits prod.splits)
  have "held (isWorld S') = held (isWorld S) \<and> r \<noteq> None"
  proof (cases "\<not> got \<or> capture = 0")
    case True
    then show ?thesis using r c w by (auto simp: captureAndSubmit_def acquired_def)
  next
    case False
    obtain S2 r2 where i: "ingestCapture api ops cam now capture (S\<lparr>isWorld := w\<rparr>) = (S2, r2)" by fastforce
    note g = ingestCapture_live [OF laws i]
    have "S' = S2\<lparr>isWorld := releaseCapture api capture (isWorld S2)\<rparr>" "r = r2"
      using r c i False by (simp_all add: captureAndSubmit_def)
    then show ?thesis
      using g w False by (simp add: releaseCapture_def capture_release_law [OF laws] acquired_def)
  qed
  then show "held (isWorld S') = held (isWorld S)" "r \<noteq> None" by simp_all
qed

section \<open>The only producer\<close>

text \<open>Every stored frame was stamped by the ingestor: its ids and timestamps are behind the counters.\<close>

definition producer_inv :: "'q FrameStore \<Rightarrow> FrameIngestor \<Rightarrow> bool" where
  "producer_inv s g \<longleftrightarrow>
     0 < ingNextFrameId g \<and> 0 \<le> ingLastTimestampTicks g
     \<and> (\<forall>f \<in> set (hHistory (fsHistory s)).
          frameId f < ingNextFrameId g \<and> ticks (frameTimestamp f) \<le> ingLastTimestampTicks g)"

lemma producer_inv_subset:
  assumes "producer_inv s g" "set (hHistory (fsHistory s')) \<subseteq> set (hHistory (fsHistory s))"
  shows "producer_inv s' g"
  using assms by (auto simp: producer_inv_def)

lemma set_dropFirst: "set (dropFirst P xs) \<subseteq> set xs"
  by (induction xs) auto

lemma stored_after_call:
  assumes "FrameStore_inv ops valid elems cap s"
  shows "set (hHistory (fsHistory (fst (store_call_step ops c s)))) \<subseteq>
    set (hHistory (fsHistory s)) \<union> (case c of CallSubmit f \<Rightarrow> {f} | _ \<Rightarrow> {})"
proof -
  have e: "hHistory (fsHistory s') = spStored (store_abs elems s')" for s'
    by (simp add: store_abs_def)
  have "store_abs elems (fst (store_call_step ops c s)) = fst (spec_call_step c (store_abs elems s))"
    using call_step(2) [OF assms, of c] by simp
  then show ?thesis
    unfolding e using set_dropFirst [of "spec_free (store_abs elems s)" "spStored (store_abs elems s)"]
    by (cases c) (auto simp: spec_submit_def spec_dequeue_def spec_complete_def split: list.split)
qed

text \<open>The codes with which the store can still refuse a frame of its only producer.\<close>

lemma producer_rejected_only_when_full:
  assumes inv: "FrameStore_inv ops valid elems cap s" and p: "producer_inv s g"
    and f: "frame_wellformed f" "frameId f = ingNextFrameId g"
      "ingLastTimestampTicks g < ticks (frameTimestamp f)"
    and r: "submitFrame ops f s = (s', r)" "\<not> accepted r"
  shows "subCode r \<in> {ReadyFrameQueueFull, HistoryFull}"
proof -
  have latest: "frameId h < frameId f \<and> ticks (frameTimestamp h) < ticks (frameTimestamp f)"
    if "hLatestFrame (fsHistory s) = Some h" for h
  proof -
    have "h \<in> set (hHistory (fsHistory s))"
      using that FrameStore_invD(10) [OF inv] by (auto split: if_splits)
    then show ?thesis using p f by (auto simp: producer_inv_def)
  qed
  have newer: "l < frameId f" if "FrameHistory_latestFrameId (fsHistory s) = Some l" for l
    using that latest by (auto simp: FrameHistory_latestFrameId_def)
  have later: "l < frameTimestamp f" if "FrameHistory_latestTimestamp (fsHistory s) = Some l" for l
    using that latest by (auto simp: FrameHistory_latestTimestamp_def less_FrameTimestamp_def)
  show ?thesis
  proof (cases "accepted (validate f (submissionContext s))")
    case True
    then show ?thesis
      using r by (auto simp: submitFrame_def Let_def makeResult_def split: prod.splits if_splits)
  next
    case False
    then have "r = validate f (submissionContext s)"
      using r by (auto simp: submitFrame_def Let_def)
    moreover have "frameId f \<noteq> 0" "isValidTimestamp (frameTimestamp f)"
      "isValidIntrinsics (frameIntrinsics f)"
      and sane: "hasSaneImageBytes (frameRgb f)" "hasSaneImageBytes (frameDepth f)"
      using f(1) by (simp_all add: frame_wellformed_def image_layout_def)
    moreover note sane hasSaneImageBytes_not_empty [OF sane(1)] hasSaneImageBytes_not_empty [OF sane(2)]
    moreover have "\<not> (case ctxLatestFrameId (submissionContext s) of None \<Rightarrow> False
        | Some l \<Rightarrow> frameId f \<le> l)"
      using newer by (auto simp: submissionContext_def split: option.split)
    moreover have "\<not> (case ctxLatestTimestamp (submissionContext s) of None \<Rightarrow> False
        | Some l \<Rightarrow> ticks (frameTimestamp f) \<le> ticks l)"
      using later by (auto simp: submissionContext_def less_FrameTimestamp_def split: option.split)
    ultimately show ?thesis
      using False by (auto simp: validate_def makeResult_def accepted_def split: if_splits)
  qed
qed


section \<open>Ingests and consumer calls in any order\<close>

datatype ingest_event = Ingest int int | ConsumerCall store_call

datatype ingest_answer = Ingested "FrameIngestResult option" | ConsumerAnswer store_answer

fun ingest_event_step ::
    "'w k4a_ops \<Rightarrow> 'q ring_ops \<Rightarrow> CameraCapture \<Rightarrow> ingest_event \<Rightarrow> ('w, 'q) IngestState \<Rightarrow>
       ('w, 'q) IngestState \<times> ingest_answer" where
  "ingest_event_step api ops cam (Ingest timeout now) S =
     (case captureAndSubmit api ops cam timeout now S of (S', r) \<Rightarrow> (S', Ingested r))"
| "ingest_event_step api ops cam (ConsumerCall c) S =
     (case store_call_step ops c (isStore S) of (s, a) \<Rightarrow> (S\<lparr>isStore := s\<rparr>, ConsumerAnswer a))"

fun consumer_only :: "ingest_event \<Rightarrow> bool" where
  "consumer_only (ConsumerCall (CallSubmit f)) = False"
| "consumer_only _ = True"

definition new_ingest :: "'q ring_ops \<Rightarrow> FrameStoreConfig \<Rightarrow> 'w \<Rightarrow> ('w, 'q) IngestState" where
  "new_ingest ops config w =
     \<lparr>isWorld = w, isStore = FrameStore_new ops config, isIngestor = FrameIngestor_new\<rparr>"

definition full_rejection :: "FrameIngestResult \<Rightarrow> bool" where
  "full_rejection r \<longleftrightarrow> igSubmissionCode r \<in> {Some ReadyFrameQueueFull, Some HistoryFull}"

definition answer_fine :: "ingest_answer \<Rightarrow> bool" where
  "answer_fine a \<longleftrightarrow>
     (case a of
        Ingested r \<Rightarrow> (\<exists>res. r = Some res \<and> (igCode res = ModelRejected \<longrightarrow> full_rejection res))
      | ConsumerAnswer _ \<Rightarrow> True)"

lemma ingest_event_live:
  assumes "k4a_laws api held"
  shows "held (isWorld (fst (ingest_event_step api ops cam ev S))) = held (isWorld S)"
  using captureAndSubmit_live(1) [OF assms] by (cases ev) (auto split: prod.split)

lemma ingest_run_live:
  assumes "k4a_laws api held"
  shows "held (isWorld (fst (run_calls (ingest_event_step api ops cam) evs S))) = held (isWorld S)"
  by (rule run_calls_invariant [where P = "\<lambda>T. held (isWorld T) = held (isWorld S)"])
    (simp_all add: ingest_event_live [OF assms])

text \<open>
  What an ingest does to the store and the counters: nothing, a spent id, or one submission of a
  well-formed frame under the next id.
\<close>

lemma ingestCapture_cases:
  assumes laws: "k4a_laws api held"
    and r: "ingestCapture api ops cam now capture S = (S', Some res)"
  obtains
    (unchanged) "isStore S' = isStore S" "isIngestor S' = isIngestor S" "igCode res \<notin> {Submitted, ModelRejected}"
  | (spent) newest where "isStore S' = isStore S" "ingLastTimestampTicks (isIngestor S) < newest"
      "isIngestor S' = \<lparr>ingNextFrameId = ingNextFrameId (isIngestor S) + 1, ingLastTimestampTicks = newest\<rparr>"
      "igCode res \<notin> {Submitted, ModelRejected}"
  | (offered) newest f sr where "submitFrame ops f (isStore S) = (isStore S', sr)"
      "ingLastTimestampTicks (isIngestor S) < newest"
      "isIngestor S' = \<lparr>ingNextFrameId = ingNextFrameId (isIngestor S) + 1, ingLastTimestampTicks = newest\<rparr>"
      "frame_wellformed f" "frameId f = ingNextFrameId (isIngestor S)" "ticks (frameTimestamp f) = newest"
      "res = (if accepted sr then makeSubmittedResult sr else makeModelRejectedResult sr)"
proof -
  obtain w cal where c: "CameraCapture_getCalibration api cam (isWorld S) = (w, cal)" by fastforce
  show thesis
  proof (cases cal)
    case None
    then show thesis
      using r c by (intro unchanged) (auto simp: ingestCapture_def makeFrameIngestResult_def)
  next
    case (Some calibration)
    obtain newest ts where t:
      "nextMonotonicTimestamp now (ingLastTimestampTicks (isIngestor S)) = (newest, ts)" by fastforce
    note stamp = nextMonotonicTimestamp_newer(1,2) [OF t]
    obtain w2 b where b:
      "K4aFrameBuilder_build api capture calibration (ingNextFrameId (isIngestor S)) ts w = (w2, b)"
      by fastforce
    from build_guarantees(2) [OF laws b] obtain br where br: "b = Some br"
      "built br \<Longrightarrow> \<exists>f. fbFrame br = Some f \<and> frameId f = ingNextFrameId (isIngestor S)
         \<and> frameTimestamp f = ts \<and> frame_wellformed f" by blast
    show thesis
    proof (cases "built br")
      case False
      then show thesis
        using r c t b br(1) Some stamp
        by (intro spent [of newest])
          (auto simp: ingestCapture_def Let_def makeBuildFailedResult_def)
    next
      case True
      then obtain f where f: "fbFrame br = Some f" "frameId f = ingNextFrameId (isIngestor S)"
        "frameTimestamp f = ts" "frame_wellformed f" using br(2) by blast
      obtain s sr where sub: "submitFrame ops f (isStore S) = (s, sr)" by fastforce
      show thesis
        using r c t b br(1) Some stamp True f sub
        by (intro offered [of f sr newest])
          (auto simp: ingestCapture_def Let_def split: if_splits)
    qed
  qed
qed


lemma captureAndSubmit_cases:
  assumes laws: "k4a_laws api held"
    and r: "captureAndSubmit api ops cam timeout now S = (S', Some res)"
  obtains
    (unchanged) "isStore S' = isStore S" "isIngestor S' = isIngestor S" "igCode res \<notin> {Submitted, ModelRejected}"
  | (spent) newest where "isStore S' = isStore S" "ingLastTimestampTicks (isIngestor S) < newest"
      "isIngestor S' = \<lparr>ingNextFrameId = ingNextFrameId (isIngestor S) + 1, ingLastTimestampTicks = newest\<rparr>"
      "igCode res \<notin> {Submitted, ModelRejected}"
  | (offered) newest f sr where "submitFrame ops f (isStore S) = (isStore S', sr)"
      "ingLastTimestampTicks (isIngestor S) < newest"
      "isIngestor S' = \<lparr>ingNextFrameId = ingNextFrameId (isIngestor S) + 1, ingLastTimestampTicks = newest\<rparr>"
      "frame_wellformed f" "frameId f = ingNextFrameId (isIngestor S)" "ticks (frameTimestamp f) = newest"
      "res = (if accepted sr then makeSubmittedResult sr else makeModelRejectedResult sr)"
proof -
  obtain w got capture where c: "CameraCapture_capture api cam timeout (isWorld S) = (w, got, capture)"
    by (metis prod.exhaust)
  show thesis
  proof (cases "\<not> got \<or> capture = 0")
    case True
    then show thesis
      using r c by (intro unchanged) (auto simp: captureAndSubmit_def makeFrameIngestResult_def)
  next
    case False
    obtain S2 r2 where i: "ingestCapture api ops cam now capture (S\<lparr>isWorld := w\<rparr>) = (S2, r2)" by fastforce
    then have S': "isStore S' = isStore S2" "isIngestor S' = isIngestor S2" "r2 = Some res"
      using r c False by (auto simp: captureAndSubmit_def)
    show thesis
      using i unfolding S'(3)
      by (cases rule: ingestCapture_cases [OF laws]) (use that S' in auto)
  qed
qed

lemma submit_stored:
  assumes "FrameStore_inv ops valid elems cap s" "submitFrame ops f s = (s', r)"
  shows "FrameStore_inv ops valid elems cap s'"
    and "set (hHistory (fsHistory s')) \<subseteq> insert f (set (hHistory (fsHistory s)))"
  using call_step(1) [OF assms(1), of "CallSubmit f"] stored_after_call [OF assms(1), of "CallSubmit f"]
    assms(2) by auto

definition ingest_inv ::
    "'q ring_ops \<Rightarrow> ('q \<Rightarrow> bool) \<Rightarrow> ('q \<Rightarrow> Frame list) \<Rightarrow> ('q \<Rightarrow> nat) \<Rightarrow> ('w, 'q) IngestState \<Rightarrow> bool" where
  "ingest_inv ops valid elems cap S \<longleftrightarrow>
     FrameStore_inv ops valid elems cap (isStore S) \<and> producer_inv (isStore S) (isIngestor S)"

lemma u64_succ: "unat (x::u64) + 1 < 2 ^ 64 \<Longrightarrow> unat (x + 1) = unat x + 1"
  by (simp add: unat_word_ariths)

lemma producer_inv_spend:
  assumes p: "producer_inv s g" and n: "unat (ingNextFrameId g) + 1 < 2 ^ 64"
    and new: "ingLastTimestampTicks g < newest"
    and h: "set (hHistory (fsHistory s')) \<subseteq> insert f (set (hHistory (fsHistory s))) \<or>
      set (hHistory (fsHistory s')) \<subseteq> set (hHistory (fsHistory s))"
    and f: "frameId f = ingNextFrameId g" "ticks (frameTimestamp f) = newest"
  shows "producer_inv s' \<lparr>ingNextFrameId = ingNextFrameId g + 1, ingLastTimestampTicks = newest\<rparr>"
proof -
  have step: "ingNextFrameId g < ingNextFrameId g + 1"
    using u64_succ [OF n] by (simp add: word_less_nat_alt)
  have old: "frameId k < ingNextFrameId g + 1 \<and> ticks (frameTimestamp k) \<le> newest"
    if "k \<in> set (hHistory (fsHistory s))" for k
    using p that step new by (auto simp: producer_inv_def intro: less_trans dest: order_trans)
  have "0 < ingNextFrameId g + 1"
    using step le_less_trans [of 0 "ingNextFrameId g"] by simp
  then show ?thesis
    using old step f h p new by (auto simp: producer_inv_def)
qed

lemma producer_inv_spent:
  assumes "producer_inv s g" "unat (ingNextFrameId g) + 1 < 2 ^ 64" "ingLastTimestampTicks g < newest"
  shows "producer_inv s \<lparr>ingNextFrameId = ingNextFrameId g + 1, ingLastTimestampTicks = newest\<rparr>"
  by (rule producer_inv_spend [OF assms,
        where f = "undefined\<lparr>frameId := ingNextFrameId g, frameTimestamp := FrameTimestamp newest\<rparr>"])
    simp_all

lemma ingest_event_step_ok:
  assumes laws: "k4a_laws api held" and inv: "ingest_inv ops valid elems cap S"
    and ev: "consumer_only ev" and n: "unat (ingNextFrameId (isIngestor S)) + 1 < 2 ^ 64"
    and step: "ingest_event_step api ops cam ev S = (S', a)"
  shows "ingest_inv ops valid elems cap S' \<and> answer_fine a
    \<and> unat (ingNextFrameId (isIngestor S')) \<le> unat (ingNextFrameId (isIngestor S)) + 1"
proof (cases ev)
  case (ConsumerCall c)
  have s: "FrameStore_inv ops valid elems cap (isStore S)" and p: "producer_inv (isStore S) (isIngestor S)"
    using inv by (simp_all add: ingest_inv_def)
  have "isStore S' = fst (store_call_step ops c (isStore S))" "isIngestor S' = isIngestor S"
    "\<exists>x. a = ConsumerAnswer x"
    using step by (auto simp: ConsumerCall split: prod.splits)
  moreover have "set (hHistory (fsHistory (fst (store_call_step ops c (isStore S)))))
      \<subseteq> set (hHistory (fsHistory (isStore S)))"
    using stored_after_call [OF s, of c] ev ConsumerCall by (cases c) auto
  ultimately show ?thesis
    using call_step(1) [OF s, of c] producer_inv_subset [OF p]
    by (auto simp: ingest_inv_def answer_fine_def)
next
  case (Ingest timeout now)
  have s: "FrameStore_inv ops valid elems cap (isStore S)" and p: "producer_inv (isStore S) (isIngestor S)"
    using inv by (simp_all add: ingest_inv_def)
  obtain res where r: "captureAndSubmit api ops cam timeout now S = (S', Some res)"
    and a: "a = Ingested (Some res)"
    using step captureAndSubmit_live(2) [OF laws] by (fastforce simp: Ingest split: prod.splits)
  show ?thesis
  proof (cases rule: captureAndSubmit_cases [OF laws r, case_names unchanged spent offered])
    case unchanged
    then show ?thesis using inv by (simp add: ingest_inv_def answer_fine_def a)
  next
    case (spent newest)
    have "producer_inv (isStore S) (isIngestor S')"
      unfolding spent(3) by (rule producer_inv_spent [OF p n spent(2)])
    then show ?thesis using spent s u64_succ [OF n] by (simp add: ingest_inv_def answer_fine_def a)
  next
    case (offered newest f sr)
    note st = submit_stored [OF s offered(1)]
    have "producer_inv (isStore S') (isIngestor S')"
      unfolding offered(3) using producer_inv_spend [OF p n offered(2) _ offered(5,6)] st(2) by blast
    moreover have "\<not> accepted sr \<Longrightarrow> subCode sr \<in> {ReadyFrameQueueFull, HistoryFull}"
      using producer_rejected_only_when_full [OF s p offered(4,5) _ offered(1)] offered(2,6) by simp
    ultimately show ?thesis
      using offered st(1) u64_succ [OF n]
      by (auto simp: ingest_inv_def answer_fine_def a full_rejection_def makeModelRejectedResult_def
          makeSubmittedResult_def)
  qed
qed

lemma ingest_run_ok:
  assumes laws: "k4a_laws api held"
  shows "ingest_inv ops valid elems cap S \<Longrightarrow> \<forall>ev \<in> set evs. consumer_only ev \<Longrightarrow>
     unat (ingNextFrameId (isIngestor S)) + length evs < 2 ^ 64 \<Longrightarrow>
     ingest_inv ops valid elems cap (fst (run_calls (ingest_event_step api ops cam) evs S))
     \<and> (\<forall>a \<in> set (snd (run_calls (ingest_event_step api ops cam) evs S)). answer_fine a)"
proof (induction evs arbitrary: S)
  case (Cons ev evs)
  obtain S1 a where s: "ingest_event_step api ops cam ev S = (S1, a)" by fastforce
  have "ingest_inv ops valid elems cap S1 \<and> answer_fine a
    \<and> unat (ingNextFrameId (isIngestor S1)) \<le> unat (ingNextFrameId (isIngestor S)) + 1"
    by (rule ingest_event_step_ok [OF laws Cons.prems(1) _ _ s]) (use Cons.prems in simp_all)
  then show ?case using Cons.IH [of S1] Cons.prems s by (simp add: case_prod_beta)
qed simp

lemma ingest_inv_new:
  assumes "ring_laws ops valid elems cap"
  shows "ingest_inv ops valid elems cap (new_ingest ops config w)"
  using FrameStore_inv_new [OF assms]
  by (simp add: ingest_inv_def new_ingest_def producer_inv_def FrameIngestor_new_def)
    (simp add: FrameStore_new_def FrameHistory_init_def)

section \<open>The runner\<close>

definition ingest_accounts :: "('w, 'q) IngestRunner \<Rightarrow> bool" where
  "ingest_accounts r \<longleftrightarrow>
     irIngestAttemptCount r = irSubmittedFrameCount r + irFailedIngestCount r"

interpretation ir: background_runner
    "ingestIteration api ops cam" "ingest_accounts" "\<lambda>_. True"
  for api :: "'w k4a_ops" and ops :: "'q ring_ops" and cam
  by unfold_locales
    (auto simp: ingestIteration_def ingest_recordResult_def ingest_accounts_def Let_def
      split: prod.split option.split)

end
