(* ===== verification/FrameIngestProperties.thy ===== *)
theory FrameIngestProperties
  imports FrameIngestProofs FrameStoreProperties
begin

text \<open>
  The properties of capture and ingest.  The camera SDK is a parameter with its ownership rules;
  the witnesses run the code on a camera whose world is the list of live references.
\<close>

section \<open>A camera for the witnesses\<close>

text \<open>The handle of a created image says its size.\<close>

definition sample_k4a :: "handle list k4a_ops" where
  "sample_k4a =
     \<lparr>deviceOpen = (\<lambda>i w. (DeviceRef 1 # w, True, 1)),
      deviceClose = (\<lambda>d w. remove1 (DeviceRef d) w),
      deviceStartCameras = (\<lambda>d c w. (w, True)),
      deviceStopCameras = (\<lambda>d w. w),
      deviceGetCapture =
        (\<lambda>d t w. if t < 0 then (w, WAIT_TIMEOUT, 0) else (CaptureRef 2 # w, WAIT_SUCCEEDED, 2)),
      deviceGetCalibration =
        (\<lambda>d m r w. (w, True, \<lparr>calFx = f32_one, calFy = f32_one, calCx = f32_one, calCy = f32_one\<rparr>)),
      captureGetColorImage = (\<lambda>c w. (ImageRef 3 # w, 3)),
      captureGetDepthImage = (\<lambda>c w. (ImageRef 4 # w, 4)),
      captureRelease = (\<lambda>c w. remove1 (CaptureRef c) w),
      imageRelease = (\<lambda>i w. remove1 (ImageRef i) w),
      imageGetBuffer = (\<lambda>i w. Some (replicate 16 0)),
      imageGetSize = (\<lambda>i w. if i = 3 then 16 else 8),
      imageGetWidthPixels = (\<lambda>i w. if i < 5 then 2 else (int i - 5) div 4),
      imageGetHeightPixels = (\<lambda>i w. if i < 5 then 2 else (int i - 5) mod 4),
      imageGetStrideBytes = (\<lambda>i w. if i = 3 then 8 else 4),
      imageGetFormat = (\<lambda>i w. if i = 3 then COLOR_BGRA32 else DEPTH16),
      imageCreate =
        (\<lambda>f x y s w. if 0 \<le> x \<and> 0 \<le> y \<and> y < 4
           then (ImageRef (nat (5 + x * 4 + y)) # w, True, nat (5 + x * 4 + y)) else (w, False, 0)),
      transformationCreate = (\<lambda>c w. (TransformationRef 6 # w, 6)),
      transformationDestroy = (\<lambda>t w. remove1 (TransformationRef t) w),
      transformationDepthImageToColorCamera = (\<lambda>t a b w. (w, True))\<rparr>"

lemma sample_k4a_laws: "k4a_laws sample_k4a mset"
  by (auto simp: k4a_laws_def device_laws_def image_laws_def transformation_laws_def
      keeps_images_def same_image_def acquired_def sample_k4a_def i32_range_def)

definition sampleCamera :: CameraCapture where
  "sampleCamera =
     \<lparr>camDevice = 1, camStarted = True,
      camConfig = \<lparr>k4aColorFormat = COLOR_BGRA32, k4aColorResolution = RESOLUTION_720P,
        k4aDepthMode = NFOV_UNBINNED, k4aCameraFps = FPS_30, k4aSynchronizedImagesOnly = True\<rparr>\<rparr>"

text \<open>Two frames fit; the third ingest finds the history full of needed frames, the fourth gets no capture.\<close>

definition sampleIngests :: "ingest_event list" where
  "sampleIngests =
     [Ingest 10 7, Ingest 10 7, Ingest 10 9, Ingest (- 1) 12, ConsumerCall CallTryDequeue,
      ConsumerCall (CallConsumed 1), Ingest 10 12]"

definition sampleIngestRun :: "(handle list, Frame list \<times> nat) IngestState \<times> ingest_answer list" where
  "sampleIngestRun =
     run_calls (ingest_event_step sample_k4a list_ring sampleCamera) sampleIngests
       (new_ingest list_ring sampleConfig [DeviceRef 1])"

definition ingest_codes :: "ingest_answer list \<Rightarrow> (FrameIngestCode \<times> FrameSubmissionCode option) list" where
  "ingest_codes answers =
     concat (map (\<lambda>a. case a of Ingested (Some r) \<Rightarrow> [(igCode r, igSubmissionCode r)] | _ \<Rightarrow> []) answers)"

lemma sampleIngestRun_codes:
  "ingest_codes (snd sampleIngestRun) =
     [(Submitted, Some Accepted), (Submitted, Some Accepted),
      (ModelRejected, Some HistoryFull), (CaptureUnavailable, None), (Submitted, Some Accepted)]
   \<and> isWorld (fst sampleIngestRun) = [DeviceRef 1]"
  by code_simp


section \<open>Properties\<close>

text \<open>C13: whatever happens while frames are ingested and consumed, in whatever order (no capture, no
  calibration, a malformed image, a failed alignment, a rejected frame), every reference that the
  code takes from the camera SDK is given back: after the run the SDK's live references are those
  from before.
\<close>

theorem ingest_releases_every_handle:
  assumes "k4a_laws api held"
  shows "held (isWorld (fst (run_calls (ingest_event_step api ops cam) evs S))) = held (isWorld S)"
  by (rule ingest_run_live [OF assms])

theorem ingest_releases_every_handle_witness:
  "mset (isWorld (fst sampleIngestRun)) = {#DeviceRef 1#}
   \<and> isWorld (fst sampleIngestRun) = [DeviceRef 1]"
  using ingest_releases_every_handle [OF sample_k4a_laws, where evs = sampleIngests
      and ops = list_ring and cam = sampleCamera and S = "new_ingest list_ring sampleConfig [DeviceRef 1]"]
    sampleIngestRun_codes
  by (simp add: sampleIngestRun_def [symmetric] new_ingest_def)

text \<open>C12: when the ingestor is the only producer of a store and fewer than 2^64 - 1 events happen,
  every ingest returns a result (no undefined behaviour in copying an image), and the store
  refuses an ingested frame for one reason only: it is full.  A frame that the builder passed is
  never found malformed, old or out of order.
\<close>

theorem ingest_rejected_only_when_full:
  assumes "k4a_laws api held" "ring_laws ops valid elems cap"
    and "\<forall>ev \<in> set evs. consumer_only ev" "length evs < 2 ^ 64 - 1"
    and "Ingested r \<in> set (snd (run_calls (ingest_event_step api ops cam) evs (new_ingest ops config w)))"
  shows "\<exists>res. r = Some res \<and> (igCode res = ModelRejected \<longrightarrow>
    igSubmissionCode res \<in> {Some ReadyFrameQueueFull, Some HistoryFull})"
proof -
  have "unat (ingNextFrameId (isIngestor (new_ingest ops config w))) + length evs < 2 ^ 64"
    using assms(4) by (simp add: new_ingest_def FrameIngestor_new_def)
  then have "answer_fine (Ingested r)"
    using ingest_run_ok [OF assms(1) ingest_inv_new [OF assms(2)] assms(3)] assms(5) by blast
  then show ?thesis by (simp add: answer_fine_def full_rejection_def)
qed

theorem ingest_rejected_only_when_full_witness:
  "Ingested None \<notin> set (snd sampleIngestRun)
   \<and> (ModelRejected, Some HistoryFull) \<in> set (ingest_codes (snd sampleIngestRun))"
  using ingest_rejected_only_when_full [OF sample_k4a_laws list_ring_laws, where evs = sampleIngests
      and cam = sampleCamera and config = sampleConfig and w = "[DeviceRef 1]"]
    sampleIngestRun_codes
  by (fastforce simp: sampleIngestRun_def sampleIngests_def)

text \<open>A camera object gives back what it opened: after any sequence of open, start, stop and close
  calls, whatever the device answers, its destructor leaves no device reference behind and the
  camera neither open nor started.
\<close>

theorem camera_returns_its_device:
  assumes "k4a_laws api held"
    and "CameraCapture_destroy api (fold (camera_step api) calls (w, CameraCapture_new initial)) = (w', c)"
  shows "held w' = held w \<and> \<not> CameraCapture_isOpen c \<and> \<not> CameraCapture_isStarted c"
proof -
  let ?S = "fold (camera_step api) calls (w, CameraCapture_new initial)"
  have laws: "device_laws api held" using assms(1) by (simp add: k4a_laws_def)
  have "camera_inv held (held w) (w, CameraCapture_new initial)"
    by (simp add: camera_inv_def CameraCapture_new_def acquired_def)
  then have "camera_inv held (held w) ?S" by (rule camera_run_inv [OF laws])
  then have "camera_inv held (held w) (camera_step api CloseCamera (camera_step api StopCamera ?S))"
    by (intro camera_step_inv [OF laws])
  then have "camera_inv held (held w) (w', c)"
    using assms(2) by (simp add: CameraCapture_destroy_def)
  moreover have "camDevice c = 0"
    using assms(2) by (auto simp: CameraCapture_destroy_def CameraCapture_close_def split: prod.splits if_splits)
  ultimately show ?thesis
    by (auto simp: camera_inv_def acquired_def CameraCapture_isOpen_def CameraCapture_isStarted_def)
qed

definition sampleCameraCalls :: "camera_call list" where
  "sampleCameraCalls = [OpenCamera 0, StartCamera (camConfig sampleCamera), OpenCamera 0]"

theorem camera_returns_its_device_witness:
  "fold (camera_step sample_k4a) sampleCameraCalls ([], CameraCapture_new (camConfig sampleCamera)) =
     ([DeviceRef 1], sampleCamera)
   \<and> mset (fst (CameraCapture_destroy sample_k4a (fold (camera_step sample_k4a) sampleCameraCalls
       ([], CameraCapture_new (camConfig sampleCamera))))) = {#}"
proof -
  have "fold (camera_step sample_k4a) sampleCameraCalls ([], CameraCapture_new (camConfig sampleCamera)) =
     ([DeviceRef 1], sampleCamera)"
    by code_simp
  then show ?thesis
    using camera_returns_its_device [OF sample_k4a_laws, where calls = sampleCameraCalls and w = "[]"
        and initial = "camConfig sampleCamera"]
    by (metis mset.simps(1) prod.collapse)
qed

text \<open>The ingest runner keeps its books and its thread under control.  Whatever the interleaving
  of the owner's start, stop and join calls with the loop thread, the attempts are the submitted
  plus the failed ingests and the reported flags are the real ones; and once a stop is requested
  at most one more iteration runs before the loop ends and the join returns.
\<close>

theorem ingest_runner_controlled:
  assumes "runner_run (ingestIteration api ops cam) evs (FrameIngestorRunner_new config S) = Some r"
  shows "irIngestAttemptCount r = irSubmittedFrameCount r + irFailedIngestCount r
    \<and> (FrameIngestorRunner_running r \<longleftrightarrow> rnThread r \<in> {AtLoopHead, InIteration})
    \<and> rnStatusRunning r = FrameIngestorRunner_running r
    \<and> rnStatusStopRequested r = rnStopRequested r
    \<and> (\<exists>rest r'. length rest \<le> 2 \<and> set rest \<subseteq> {LoopHead, LoopIteration now}
        \<and> count_list rest (LoopIteration now) \<le> 1
        \<and> runner_run (ingestIteration api ops cam) (OwnerRequestStop # rest @ [OwnerJoin]) r = Some r'
        \<and> rnThread r' = NoThread \<and> \<not> FrameIngestorRunner_running r')"
proof -
  have "flags_ok (FrameIngestorRunner_new config S)" "ingest_accounts (FrameIngestorRunner_new config S)"
    by (simp_all add: flags_ok_def FrameIngestorRunner_new_def ingest_accounts_def)
  moreover have "\<forall>ev \<in> set evs. ir.event_ok ev"
    by (simp add: ir.event_ok_def split: runner_event.split)
  ultimately have inv: "flags_ok r" "ingest_accounts r"
    using ir.run_inv [OF _ _ _ assms] by blast+
  then show ?thesis
    using ir.stop_terminates [OF inv(1), of now]
    by (simp add: flags_ok_def ingest_accounts_def FrameIngestorRunner_running_def)
qed

definition sampleRunnerEvents :: "int runner_event list" where
  "sampleRunnerEvents =
     [OwnerStart, LoopHead, LoopIteration 7, LoopHead, LoopIteration 8, OwnerStart, LoopHead]"

theorem ingest_runner_controlled_witness:
  "\<exists>r. runner_run (ingestIteration sample_k4a list_ring sampleCamera) sampleRunnerEvents
       (FrameIngestorRunner_new (captureRuntime defaultCaptureConfig)
         (new_ingest list_ring sampleConfig [DeviceRef 1])) = Some r
     \<and> irIngestAttemptCount r = 2 \<and> rnThread r = InIteration
     \<and> irIngestAttemptCount r = irSubmittedFrameCount r + irFailedIngestCount r"
proof -
  let ?run = "runner_run (ingestIteration sample_k4a list_ring sampleCamera) sampleRunnerEvents
       (FrameIngestorRunner_new (captureRuntime defaultCaptureConfig)
         (new_ingest list_ring sampleConfig [DeviceRef 1]))"
  have "map_option (\<lambda>r. (irIngestAttemptCount r, rnThread r)) ?run = Some (2, InIteration)"
    by code_simp
  then obtain r where r: "?run = Some r" "irIngestAttemptCount r = 2" "rnThread r = InIteration" by auto
  then show ?thesis using ingest_runner_controlled [OF r(1), of 0] by blast
qed

end
