(* ===== verification/ByteLoops.thy ===== *)
theory ByteLoops
  imports Prelude
begin

text \<open>
  Counting loops over arrays: a loop whose body can run into undefined behaviour is \<open>foldo\<close>, and a
  loop that fills an array chunk by chunk is one \<open>overwrite\<close>.
\<close>

section \<open>Loops\<close>

fun foldo :: "('a \<Rightarrow> 'b \<Rightarrow> 'b option) \<Rightarrow> 'a list \<Rightarrow> 'b \<Rightarrow> 'b option" where
  "foldo f [] s = Some s"
| "foldo f (x # xs) s = (case f x s of None \<Rightarrow> None | Some s' \<Rightarrow> foldo f xs s')"

lemma foldo_append:
  "foldo f (xs @ ys) s = (case foldo f xs s of None \<Rightarrow> None | Some s' \<Rightarrow> foldo f ys s')"
  by (induction xs arbitrary: s) (auto split: option.split)

text \<open>\<open>overwrite d ys xs\<close> is \<open>xs\<close> after \<open>ys\<close> was written from index \<open>d\<close> on.\<close>

definition overwrite :: "nat \<Rightarrow> 'a list \<Rightarrow> 'a list \<Rightarrow> 'a list" where
  "overwrite d ys xs = take d xs @ ys @ drop (d + length ys) xs"

lemma length_overwrite [simp]: "d + length ys \<le> length xs \<Longrightarrow> length (overwrite d ys xs) = length xs"
  by (simp add: overwrite_def)

lemma overwrite_overwrite:
  "d + length ys + length zs \<le> length xs \<Longrightarrow>
     overwrite (d + length ys) zs (overwrite d ys xs) = overwrite d (ys @ zs) xs"
  by (simp add: overwrite_def add_ac)

lemma overwrite_all: "length ys = length xs \<Longrightarrow> overwrite 0 ys xs = ys"
  by (simp add: overwrite_def)

lemma overwrite_nil [simp]: "overwrite d [] xs = xs"
  by (simp add: overwrite_def)

text \<open>A loop whose body writes one chunk of fixed length writes the concatenation of the chunks.\<close>

lemma foldo_overwrite:
  assumes "\<And>k ys. m \<le> k \<Longrightarrow> k < n \<Longrightarrow> length ys = length xs \<Longrightarrow> f k ys = Some (overwrite (d + c * k) (g k) ys)"
    and "\<And>k. length (g k) = c" and "d + c * n \<le> length xs" and "m \<le> n"
  shows "foldo f [m..<n] xs = Some (overwrite (d + c * m) (concat (map g [m..<n])) xs)"
  using assms(1,3,4)
proof (induction n)
  case (Suc n)
  show ?case
  proof (cases "m = Suc n")
    case False
    then have mn: "m \<le> n" using Suc.prems(3) by simp
    let ?ys = "overwrite (d + c * m) (concat (map g [m..<n])) xs"
    have len: "length (concat (map g [m..<n])) = c * (n - m)"
      using assms(2) by (simp add: length_concat comp_def sum_list_triv)
    have split: "c * m + c * (n - m) = c * n" using mn by (simp add: add_mult_distrib2 [symmetric])
    have le: "d + c * n + c \<le> length xs" using Suc.prems(2) by simp
    have ih: "foldo f [m..<n] xs = Some ?ys" using Suc.IH Suc.prems mn le by simp
    have "length ?ys = length xs" using len split le by simp
    then have "f n ?ys = Some (overwrite (d + c * n) (g n) ?ys)" using Suc.prems(1) [of n ?ys] mn by simp
    also have "overwrite (d + c * n) (g n) ?ys = overwrite (d + c * m) (concat (map g [m..<n]) @ g n) xs"
      using overwrite_overwrite [of "d + c * m" "concat (map g [m..<n])" "g n" xs] len split le assms(2)
      by (simp add: add.assoc)
    finally show ?thesis using ih mn by (simp add: foldo_append)
  qed simp
qed simp

lemma concat_nth_chunk:
  assumes "\<And>k. k < n \<Longrightarrow> length (g k) = c" "i < n" "j < c"
  shows "concat (map g [0..<n]) ! (i * c + j) = g i ! j"
  using assms
proof (induction n)
  case (Suc n)
  have len: "length (concat (map g [0..<n])) = n * c"
  proof -
    have "map (\<lambda>k. length (g k)) [0..<n] = map (\<lambda>k. c) [0..<n]" using Suc.prems(1) by simp
    then show ?thesis by (simp only: length_concat map_map comp_def) (simp add: sum_list_triv)
  qed
  show ?case
  proof (cases "i < n")
    case True
    then have "Suc i * c \<le> n * c" by (intro mult_le_mono1) simp
    then have "i * c + j < n * c" using Suc.prems(3) by simp
    then show ?thesis using Suc True len by (simp add: nth_append)
  next
    case False
    then have "i = n" using Suc.prems(2) by simp
    then show ?thesis using len by (simp add: nth_append)
  qed
qed simp

lemma length_concat_const:
  "(\<And>k. k < n \<Longrightarrow> length (g k) = c) \<Longrightarrow> length (concat (map g [0..<n])) = n * c"
  by (induction n) simp_all

end
