(* ===== verification/ViewConverter.thy ===== *)
theory ViewConverter
  imports FrameBuildProofs ViewerStores ByteLoops
begin

text \<open>
  \<open>InfiniTamViewConverter\<close> of \<open>src/builder/src/utils\<close>: copying a frame's BGRA and depth images into
  the view that the InfiniTAM engines read.  The view's arrays live on the CPU side of InfiniTAM's
  images; what the device side holds is opaque.  Reading or writing outside an array is undefined
  behaviour and a \<open>None\<close>, and so is the overflow of an \<open>int\<close> product.  The depth image is read on
  a little-endian machine.
\<close>

section \<open>The view\<close>

text \<open>
  InfiniTAM is outside this repository.  \<open>viRgb\<close>, \<open>viDepth\<close> and \<open>viConfidence\<close> are the elements
  behind \<open>GetData(MEMORYDEVICE_CPU)\<close> of its images, four bytes for one \<open>Vector4u\<close>.
\<close>

datatype MemoryDeviceType = MEMORYDEVICE_CPU | MEMORYDEVICE_CUDA

record 'd ItmView =
  viRgb :: "u8 list"
  viDepth :: "f32 list"
  viConfidence :: "f32 list"
  viDevice :: 'd

datatype ItmImage = RgbPlane | DepthPlane | ConfidencePlane

text \<open>The calibration handed to InfiniTAM: size and intrinsics of the color and the depth camera.\<close>

type_synonym ItmRgbdCalib = "(ImageSize \<times> CameraIntrinsics) \<times> (ImageSize \<times> CameraIntrinsics)"

definition makeRgbdCalib :: "Frame \<Rightarrow> ItmRgbdCalib" where
  "makeRgbdCalib f =
     ((fimgSize (frameRgb f), frameIntrinsics f), (fimgSize (frameDepth f), frameIntrinsics f))"

section \<open>Layout checks\<close>

datatype ViewConversionFailure =
  NoConversionFailure | MismatchedImageSizes | InvalidRgbLayout | InvalidDepthLayout

definition converted :: "ViewConversionFailure \<Rightarrow> bool" where
  "converted r \<longleftrightarrow> r = NoConversionFailure"

definition kRgbBytesPerPixel :: int where "kRgbBytesPerPixel = 4"
definition kDepthBytesPerPixel :: int where "kDepthBytesPerPixel = 2"
definition kNeonPixelsPerBatch :: nat where "kNeonPixelsPerBatch = 16"
definition kMillimetresToMetres :: f32 where "kMillimetresToMetres = F32 0x3A83126F"

definition hasMatchingImageSizes :: "Frame \<Rightarrow> bool" where
  "hasMatchingImageSizes f \<longleftrightarrow> imageSize_eq (fimgSize (frameRgb f)) (fimgSize (frameDepth f))"

definition hasValidRgbLayout :: "Frame \<Rightarrow> bool option" where
  "hasValidRgbLayout f =
     map_option (\<lambda>row. row \<le> fimgStrideBytes (frameRgb f))
       (checked_i32 (imgWidth (fimgSize (frameRgb f)) * kRgbBytesPerPixel))"

definition hasValidDepthLayout :: "Frame \<Rightarrow> bool option" where
  "hasValidDepthLayout f =
     map_option (\<lambda>row. row \<le> fimgStrideBytes (frameDepth f))
       (checked_i32 (imgWidth (fimgSize (frameDepth f)) * kDepthBytesPerPixel))"

section \<open>One row of color\<close>

text \<open>The rows start at \<open>s\<close> in the source bytes and at \<open>d\<close> in the destination bytes.\<close>

definition swizzlePixel :: "u8 list \<Rightarrow> nat \<Rightarrow> nat \<Rightarrow> nat \<Rightarrow> u8 list \<Rightarrow> u8 list option" where
  "swizzlePixel src s d column dst =
     (let i = s + 4 * column; o' = d + 4 * column in
      if i + 2 < length src \<and> o' + 3 < length dst then
        Some (dst[o' := src ! (i + 2), o' + 1 := src ! (i + 1), o' + 2 := src ! i, o' + 3 := 0xFF])
      else None)"

text \<open>\<open>vld4q_u8\<close> reads 64 bytes into four lanes, \<open>vst4q_u8\<close> writes four lanes interleaved.\<close>

definition vld4q :: "u8 list \<Rightarrow> nat \<Rightarrow> nat \<Rightarrow> u8 list" where
  "vld4q src i k = map (\<lambda>j. src ! (i + 4 * j + k)) [0..<16]"

definition vst4q :: "(nat \<Rightarrow> u8 list) \<Rightarrow> nat \<Rightarrow> u8 list \<Rightarrow> u8 list" where
  "vst4q lanes o' dst = overwrite o' (concat (map (\<lambda>j. map (\<lambda>k. lanes k ! j) [0..<4]) [0..<16])) dst"

definition swizzleBatch :: "u8 list \<Rightarrow> nat \<Rightarrow> nat \<Rightarrow> nat \<Rightarrow> u8 list \<Rightarrow> u8 list option" where
  "swizzleBatch src s d column dst =
     (let i = s + 4 * column; o' = d + 4 * column in
      if i + 64 \<le> length src \<and> o' + 64 \<le> length dst then
        let bgra = vld4q src i;
            rgba = (\<lambda>k. if k = 0 then bgra 2 else if k = 1 then bgra 1
                        else if k = 2 then bgra 0 else replicate 16 0xFF)
        in Some (vst4q rgba o' dst)
      else None)"

function swizzleNeonLoop ::
    "u8 list \<Rightarrow> nat \<Rightarrow> nat \<Rightarrow> nat \<Rightarrow> nat \<Rightarrow> u8 list \<Rightarrow> (nat \<times> u8 list) option" where
  "swizzleNeonLoop src s d width column dst =
     (if column + kNeonPixelsPerBatch \<le> width then
        (case swizzleBatch src s d column dst of
           None \<Rightarrow> None
         | Some dst' \<Rightarrow> swizzleNeonLoop src s d width (column + kNeonPixelsPerBatch) dst')
      else Some (column, dst))"
  by pat_completeness auto
termination
  by (relation "measure (\<lambda>(src, s, d, width, column, dst). width - column)")
    (auto simp: kNeonPixelsPerBatch_def)

declare swizzleNeonLoop.simps [simp del]

text \<open>\<open>neon\<close>: the code was compiled for a machine with NEON.\<close>

definition swizzleBgraRowToRgba ::
    "bool \<Rightarrow> u8 list \<Rightarrow> nat \<Rightarrow> nat \<Rightarrow> int \<Rightarrow> u8 list \<Rightarrow> u8 list option" where
  "swizzleBgraRowToRgba neon src s d width dst =
     (case (if neon then swizzleNeonLoop src s d (nat width) 0 dst else Some (0, dst)) of
        None \<Rightarrow> None
      | Some (column, dst) \<Rightarrow> foldo (swizzlePixel src s d) [column..<nat width] dst)"

section \<open>The whole frame\<close>

definition copyRgbRows :: "bool \<Rightarrow> u8 list \<Rightarrow> int \<Rightarrow> ImageSize \<Rightarrow> u8 list \<Rightarrow> u8 list option" where
  "copyRgbRows neon src strideBytes dims dst =
     foldo (\<lambda>row. swizzleBgraRowToRgba neon src (row * nat strideBytes) (4 * (row * nat (imgWidth dims)))
              (imgWidth dims))
       [0..<nat (imgHeight dims)] dst"

definition depthPixel :: "u8 list \<Rightarrow> nat \<Rightarrow> f32" where
  "depthPixel src i =
     f32_mul (f32_of_uint (uint (src ! i) + 256 * uint (src ! (i + 1)))) kMillimetresToMetres"

definition copyDepthPixel :: "u8 list \<Rightarrow> nat \<Rightarrow> nat \<Rightarrow> nat \<Rightarrow> f32 list \<Rightarrow> f32 list option" where
  "copyDepthPixel src s d column dst =
     (if s + 2 * column + 1 < length src \<and> d + column < length dst then
        Some (dst[d + column := depthPixel src (s + 2 * column)])
      else None)"

definition copyDepthRows :: "u8 list \<Rightarrow> int \<Rightarrow> ImageSize \<Rightarrow> f32 list \<Rightarrow> f32 list option" where
  "copyDepthRows src strideBytes dims dst =
     foldo (\<lambda>row. foldo (copyDepthPixel src (row * nat strideBytes) (row * nat (imgWidth dims)))
              [0..<nat (imgWidth dims)])
       [0..<nat (imgHeight dims)] dst"

definition copyImages :: "bool \<Rightarrow> Frame \<Rightarrow> 'd ItmView \<Rightarrow> 'd ItmView option" where
  "copyImages neon f v =
     (case (bufData (fimgBuffer (frameRgb f)), bufData (fimgBuffer (frameDepth f))) of
        (Some rgb, Some dep) \<Rightarrow>
          (case copyRgbRows neon rgb (fimgStrideBytes (frameRgb f)) (fimgSize (frameRgb f)) (viRgb v) of
             None \<Rightarrow> None
           | Some rgb' \<Rightarrow>
               (case copyDepthRows dep (fimgStrideBytes (frameDepth f)) (fimgSize (frameDepth f))
                  (viDepth v) of
                  None \<Rightarrow> None
                | Some dep' \<Rightarrow>
                    Some (v\<lparr>viRgb := rgb', viDepth := dep',
                            viConfidence := replicate (length (viConfidence v)) f32_zero\<rparr>)))
      | _ \<Rightarrow> None)"

text \<open>\<open>sync\<close> is \<open>UpdateDeviceFromHost\<close> of one image.\<close>

definition copyFrameToView ::
    "bool \<Rightarrow> (ItmImage \<Rightarrow> 'd ItmView \<Rightarrow> 'd ItmView) \<Rightarrow> MemoryDeviceType \<Rightarrow> Frame \<Rightarrow> 'd ItmView \<Rightarrow>
       ('d ItmView \<times> ViewConversionFailure) option" where
  "copyFrameToView neon sync memoryType f v =
     (if \<not> hasMatchingImageSizes f then Some (v, MismatchedImageSizes)
      else case hasValidRgbLayout f of
        None \<Rightarrow> None
      | Some False \<Rightarrow> Some (v, InvalidRgbLayout)
      | Some True \<Rightarrow>
          (case hasValidDepthLayout f of
             None \<Rightarrow> None
           | Some False \<Rightarrow> Some (v, InvalidDepthLayout)
           | Some True \<Rightarrow>
               (case copyImages neon f v of
                  None \<Rightarrow> None
                | Some v \<Rightarrow>
                    Some (if memoryType = MEMORYDEVICE_CUDA
                          then sync ConfidencePlane (sync DepthPlane (sync RgbPlane v)) else v,
                          NoConversionFailure))))"


section \<open>What the loops compute\<close>

definition rgbaPixel :: "u8 list \<Rightarrow> nat \<Rightarrow> u8 list" where
  "rgbaPixel src i = [src ! (i + 2), src ! (i + 1), src ! i, 0xFF]"

definition rgbaRow :: "u8 list \<Rightarrow> nat \<Rightarrow> nat \<Rightarrow> u8 list" where
  "rgbaRow src s width = concat (map (\<lambda>c. rgbaPixel src (s + 4 * c)) [0..<width])"

lemma length_rgbaPixel [simp]: "length (rgbaPixel src i) = 4"
  by (simp add: rgbaPixel_def)

lemma length_rgbaRow [simp]: "length (rgbaRow src s width) = 4 * width"
  unfolding rgbaRow_def by (subst length_concat_const [where c = 4]) simp_all

lemma swizzlePixel_overwrite:
  assumes "s + 4 * column + 2 < length src" "d + 4 * column + 3 < length dst"
  shows "swizzlePixel src s d column dst =
    Some (overwrite (d + 4 * column) (rgbaPixel src (s + 4 * column)) dst)"
proof -
  let ?o = "d + 4 * column"
  let ?new = "dst[?o := src ! (s + 4 * column + 2), ?o + 1 := src ! (s + 4 * column + 1),
    ?o + 2 := src ! (s + 4 * column), ?o + 3 := 0xFF]"
  have "?new = overwrite ?o (rgbaPixel src (s + 4 * column)) dst"
  proof (rule nth_equalityI)
    show "length ?new = length (overwrite ?o (rgbaPixel src (s + 4 * column)) dst)"
      using assms(2) by simp
    fix j
    assume "j < length ?new"
    then have j: "j < length dst" by simp
    consider "j < ?o" | "j = ?o" | "j = ?o + 1" | "j = ?o + 2" | "j = ?o + 3" | m where "j = Suc (Suc (Suc (Suc (?o + m))))"
      using le_Suc_ex [of "?o + 4" j] by (fastforce simp: numeral_eq_Suc)
    then show "?new ! j = overwrite ?o (rgbaPixel src (s + 4 * column)) dst ! j"
      using j assms(2) by cases (simp_all add: overwrite_def rgbaPixel_def nth_append)
  qed
  then show ?thesis using assms by (simp add: swizzlePixel_def Let_def)
qed

lemma swizzleBatch_overwrite:
  assumes "s + 4 * column + 64 \<le> length src" "d + 4 * column + 64 \<le> length dst"
  shows "swizzleBatch src s d column dst =
    Some (overwrite (d + 4 * column) (concat (map (\<lambda>c. rgbaPixel src (s + 4 * c)) [column..<column + 16])) dst)"
proof -
  let ?i = "s + 4 * column"
  let ?lane = "\<lambda>k. if k = 0 then vld4q src ?i 2 else if k = 1 then vld4q src ?i 1
     else if k = 2 then vld4q src ?i 0 else replicate 16 (0xFF :: u8)"
  have chunk: "map (\<lambda>k. ?lane k ! j) [0..<4] = rgbaPixel src (s + 4 * (column + j))" if "j < 16" for j
  proof -
    have four: "[0..<4] = [0, 1, 2, 3 :: nat]" by (simp add: upt_rec)
    have lane: "vld4q src ?i k ! j = src ! (?i + 4 * j + k)" for k
      using that unfolding vld4q_def by (subst nth_map) simp_all
    show ?thesis
      using that unfolding four by (simp add: lane rgbaPixel_def add.assoc)
  qed
  have "map (\<lambda>j. map (\<lambda>k. ?lane k ! j) [0..<4]) [0..<16] =
      map (\<lambda>j. rgbaPixel src (s + 4 * (column + j))) [0..<16]"
    by (rule map_cong [OF refl]) (use chunk in simp)
  also have "\<dots> = map (\<lambda>c. rgbaPixel src (s + 4 * c)) (map (\<lambda>j. column + j) [0..<16])"
    by (simp add: comp_def)
  also have "map (\<lambda>j. column + j) [0..<16] = [column..<column + 16]"
    using map_add_upt [of column 16] by (simp add: add.commute)
  finally show ?thesis
    using assms by (simp add: swizzleBatch_def Let_def vst4q_def)
qed


lemma swizzleNeonLoop_overwrite:
  assumes "s + 4 * width \<le> length src"
  shows "column \<le> width \<Longrightarrow> d + 4 * width \<le> length dst \<Longrightarrow>
    \<exists>stop. column \<le> stop \<and> stop \<le> width \<and> swizzleNeonLoop src s d width column dst =
      Some (stop, overwrite (d + 4 * column)
        (concat (map (\<lambda>c. rgbaPixel src (s + 4 * c)) [column..<stop])) dst)"
proof (induction "width - column" arbitrary: column dst rule: less_induct)
  case less
  let ?pix = "\<lambda>c. rgbaPixel src (s + 4 * c)"
  show ?case
  proof (cases "column + 16 \<le> width")
    case False
    then show ?thesis
      using less.prems by (intro exI [of _ column]) (simp add: swizzleNeonLoop.simps kNeonPixelsPerBatch_def)
  next
    case True
    let ?batch = "concat (map ?pix [column..<column + 16])"
    let ?dst = "overwrite (d + 4 * column) ?batch dst"
    have len: "length ?batch = 64"
      by (simp add: length_concat comp_def sum_list_triv)
    have batch: "swizzleBatch src s d column dst = Some ?dst"
      by (rule swizzleBatch_overwrite) (use assms less.prems True in simp_all)
    have same: "length ?dst = length dst" using len less.prems True by simp
    have dec: "width - (column + 16) < width - column" using True by simp
    obtain stop where ih: "column + 16 \<le> stop" "stop \<le> width"
      "swizzleNeonLoop src s d width (column + 16) ?dst =
        Some (stop, overwrite (d + 4 * (column + 16)) (concat (map ?pix [column + 16..<stop])) ?dst)"
      using less.hyps [OF dec True, of ?dst] less.prems unfolding same by blast
    have rest: "length (concat (map ?pix [column + 16..<stop])) = 4 * (stop - (column + 16))"
      by (simp add: length_concat comp_def sum_list_triv)
    have "overwrite (d + 4 * (column + 16)) (concat (map ?pix [column + 16..<stop])) ?dst =
        overwrite (d + 4 * column) (?batch @ concat (map ?pix [column + 16..<stop])) dst"
      using overwrite_overwrite [of "d + 4 * column" ?batch "concat (map ?pix [column + 16..<stop])" dst]
        len rest ih less.prems by (simp add: algebra_simps)
    also have "?batch @ concat (map ?pix [column + 16..<stop]) = concat (map ?pix [column..<stop])"
      using upt_add_eq_append [of column "column + 16" "stop - (column + 16)"] ih
      by (simp flip: concat_append map_append)
    finally show ?thesis
      using batch ih True by (intro exI [of _ stop]) (simp add: swizzleNeonLoop.simps [of src s d width column]
          kNeonPixelsPerBatch_def)
  qed
qed

lemma scalar_overwrite:
  assumes "s + 4 * width \<le> length src" "d + 4 * width \<le> length dst" "column \<le> width"
  shows "foldo (swizzlePixel src s d) [column..<width] dst =
    Some (overwrite (d + 4 * column) (concat (map (\<lambda>c. rgbaPixel src (s + 4 * c)) [column..<width])) dst)"
proof (rule foldo_overwrite)
  fix k and ys :: "u8 list"
  assume "k < width" "length ys = length dst"
  then show "swizzlePixel src s d k ys = Some (overwrite (d + 4 * k) (rgbaPixel src (s + 4 * k)) ys)"
    using assms by (intro swizzlePixel_overwrite) simp_all
qed (use assms in simp_all)

lemma swizzleRow_overwrite:
  assumes "s + 4 * nat width \<le> length src" "d + 4 * nat width \<le> length dst"
  shows "swizzleBgraRowToRgba neon src s d width dst = Some (overwrite d (rgbaRow src s (nat width)) dst)"
proof (cases neon)
  case False
  then show ?thesis
    using scalar_overwrite [OF assms, of 0] by (simp add: swizzleBgraRowToRgba_def rgbaRow_def)
next
  case True
  let ?pix = "\<lambda>c. rgbaPixel src (s + 4 * c)"
  obtain stop where n: "stop \<le> nat width" "swizzleNeonLoop src s d (nat width) 0 dst =
      Some (stop, overwrite d (concat (map ?pix [0..<stop])) dst)"
    using swizzleNeonLoop_overwrite [OF assms(1) _ assms(2), of 0] by auto
  let ?dst = "overwrite d (concat (map ?pix [0..<stop])) dst"
  have len: "length (concat (map ?pix [0..<stop])) = 4 * stop"
    by (subst length_concat_const [where c = 4]) simp_all
  have "length ?dst = length dst" using len n(1) assms by simp
  then have "foldo (swizzlePixel src s d) [stop..<nat width] ?dst =
      Some (overwrite (d + 4 * stop) (concat (map ?pix [stop..<nat width])) ?dst)"
    using scalar_overwrite [of s "nat width" src d ?dst stop] assms n(1) by simp
  also have "overwrite (d + 4 * stop) (concat (map ?pix [stop..<nat width])) ?dst =
      overwrite d (concat (map ?pix [0..<stop]) @ concat (map ?pix [stop..<nat width])) dst"
  proof -
    have "length (concat (map ?pix [stop..<nat width])) = 4 * (nat width - stop)"
      by (simp add: length_concat comp_def sum_list_triv)
    then show ?thesis
      using overwrite_overwrite [of d "concat (map ?pix [0..<stop])" "concat (map ?pix [stop..<nat width])" dst]
        len n(1) assms by simp
  qed
  also have "concat (map ?pix [0..<stop]) @ concat (map ?pix [stop..<nat width]) =
      concat (map ?pix [0..<nat width])"
    using upt_add_eq_append [of 0 stop "nat width - stop"] n(1) by (simp flip: concat_append map_append)
  finally show ?thesis
    using True n(2) by (simp add: swizzleBgraRowToRgba_def rgbaRow_def)
qed


section \<open>Whole images\<close>

text \<open>What the frame store's checks and honest buffers give: every row lies inside the bytes.\<close>

definition image_readable :: "FrameImage \<Rightarrow> bool" where
  "image_readable im \<longleftrightarrow>
     hasSaneImageBytes im \<and> i32_range (fimgStrideBytes im) \<and> buffer_honest (fimgBuffer im)"

definition frame_readable :: "Frame \<Rightarrow> bool" where
  "frame_readable f \<longleftrightarrow> image_readable (frameRgb f) \<and> image_readable (frameDepth f)"

text \<open>The view has the frame's layout: one element for each pixel.\<close>

definition view_fits :: "Frame \<Rightarrow> 'd ItmView \<Rightarrow> bool" where
  "view_fits f v \<longleftrightarrow>
     length (viRgb v) = 4 * (nat (imgWidth (fimgSize (frameRgb f))) * nat (imgHeight (fimgSize (frameRgb f))))
     \<and> length (viDepth v) = nat (imgWidth (fimgSize (frameDepth f))) * nat (imgHeight (fimgSize (frameDepth f)))"

lemma image_readable_bytes:
  assumes "image_readable im"
  obtains bytes where "bufData (fimgBuffer im) = Some bytes"
    "nat (imgHeight (fimgSize im)) * nat (fimgStrideBytes im) \<le> length bytes"
    "0 < imgWidth (fimgSize im)" "imgWidth (fimgSize im) \<le> 16384" "0 < imgHeight (fimgSize im)"
proof -
  have sane: "hasSaneImageBytes im" "i32_range (fimgStrideBytes im)" "buffer_honest (fimgBuffer im)"
    using assms by (simp_all add: image_readable_def)
  obtain bytes where b: "bufData (fimgBuffer im) = Some bytes"
    using hasSaneImageBytes_not_empty [OF sane(1)] by (auto simp: FrameBuffer_empty_def)
  have "nat (fimgStrideBytes im) * nat (imgHeight (fimgSize im)) \<le> length bytes"
    using hasSaneImageBytes_bytes [OF sane(1,2)] sane(3) b by (simp add: buffer_honest_def)
  then show thesis
    using that b hasSaneImageBytes_shape [OF sane(1)] by (simp add: mult.commute)
qed

lemma row_in_bytes:
  assumes "row < h" "h * stride \<le> n" "k \<le> stride"
  shows "row * stride + k \<le> (n :: nat)"
proof -
  have "Suc row * stride \<le> h * stride" using assms(1) by (intro mult_le_mono1) simp
  then show ?thesis using assms(2,3) by simp
qed

definition rgbaImage :: "u8 list \<Rightarrow> nat \<Rightarrow> nat \<Rightarrow> nat \<Rightarrow> u8 list" where
  "rgbaImage src stride w h = concat (map (\<lambda>row. rgbaRow src (row * stride) w) [0..<h])"

definition depthImage :: "u8 list \<Rightarrow> nat \<Rightarrow> nat \<Rightarrow> nat \<Rightarrow> f32 list" where
  "depthImage src stride w h =
     concat (map (\<lambda>row. map (\<lambda>c. depthPixel src (row * stride + 2 * c)) [0..<w]) [0..<h])"

lemma copyRgbRows_image:
  assumes bytes: "nat (imgHeight dims) * nat strideBytes \<le> length src"
    and row: "4 * nat (imgWidth dims) \<le> nat strideBytes"
    and dst: "length dst = 4 * (nat (imgWidth dims) * nat (imgHeight dims))"
  shows "copyRgbRows neon src strideBytes dims dst =
    Some (rgbaImage src (nat strideBytes) (nat (imgWidth dims)) (nat (imgHeight dims)))"
proof -
  let ?w = "nat (imgWidth dims)" and ?h = "nat (imgHeight dims)" and ?s = "nat strideBytes"
  have "copyRgbRows neon src strideBytes dims dst =
      Some (overwrite (0 + 4 * ?w * 0) (concat (map (\<lambda>row. rgbaRow src (row * ?s) ?w) [0..<?h])) dst)"
    unfolding copyRgbRows_def
  proof (rule foldo_overwrite)
    fix k and ys :: "u8 list"
    assume k: "k < ?h" and ys: "length ys = length dst"
    have "k * ?s + 4 * ?w \<le> length src" by (rule row_in_bytes [OF k bytes row])
    moreover have "k * (4 * ?w) + 4 * ?w \<le> ?h * (4 * ?w)" by (rule row_in_bytes [OF k le_refl le_refl])
    ultimately show "swizzleBgraRowToRgba neon src (k * ?s) (4 * (k * ?w)) (imgWidth dims) ys =
        Some (overwrite (0 + 4 * ?w * k) (rgbaRow src (k * ?s) ?w) ys)"
      using ys dst swizzleRow_overwrite [of "k * ?s" "imgWidth dims" src "4 * (k * ?w)" ys]
      by (simp add: ac_simps)
  qed (use dst in simp_all)
  moreover have "length (rgbaImage src ?s ?w ?h) = length dst"
    unfolding rgbaImage_def using dst by (subst length_concat_const [where c = "4 * ?w"]) simp_all
  ultimately show ?thesis by (simp add: rgbaImage_def overwrite_all)
qed

lemma copyDepthRows_image:
  assumes bytes: "nat (imgHeight dims) * nat strideBytes \<le> length src"
    and row: "2 * nat (imgWidth dims) \<le> nat strideBytes"
    and dst: "length dst = nat (imgWidth dims) * nat (imgHeight dims)"
  shows "copyDepthRows src strideBytes dims dst =
    Some (depthImage src (nat strideBytes) (nat (imgWidth dims)) (nat (imgHeight dims)))"
proof -
  let ?w = "nat (imgWidth dims)" and ?h = "nat (imgHeight dims)" and ?s = "nat strideBytes"
  let ?row = "\<lambda>row. map (\<lambda>c. depthPixel src (row * ?s + 2 * c)) [0..<?w]"
  have "copyDepthRows src strideBytes dims dst =
      Some (overwrite (0 + ?w * 0) (concat (map ?row [0..<?h])) dst)"
    unfolding copyDepthRows_def
  proof (rule foldo_overwrite)
    fix k and ys :: "f32 list"
    assume k: "k < ?h" and ys: "length ys = length dst"
    have src: "k * ?s + 2 * ?w \<le> length src" by (rule row_in_bytes [OF k bytes row])
    have out: "k * ?w + ?w \<le> length ys"
      using row_in_bytes [OF k le_refl le_refl, of ?w] ys dst by (simp add: mult.commute)
    have "foldo (copyDepthPixel src (k * ?s) (k * ?w)) [0..<?w] ys =
        Some (overwrite (k * ?w + 1 * 0)
          (concat (map (\<lambda>c. [depthPixel src (k * ?s + 2 * c)]) [0..<?w])) ys)"
    proof (rule foldo_overwrite)
      fix c and zs :: "f32 list"
      assume c: "c < ?w" and zs: "length zs = length ys"
      have "zs[k * ?w + c := x] = overwrite (k * ?w + 1 * c) [x] zs" for x
        using upd_conv_take_nth_drop [of "k * ?w + c" zs x] zs out c by (simp add: overwrite_def)
      then show "copyDepthPixel src (k * ?s) (k * ?w) c zs =
          Some (overwrite (k * ?w + 1 * c) [depthPixel src (k * ?s + 2 * c)] zs)"
        using src out c zs by (simp add: copyDepthPixel_def)
    qed (use out in simp_all)
    then show "foldo (copyDepthPixel src (k * ?s) (k * ?w)) [0..<?w] ys =
        Some (overwrite (0 + ?w * k) (?row k) ys)"
      by (simp add: concat_map_singleton mult.commute)
  qed (use dst in simp_all)
  moreover have "length (depthImage src ?s ?w ?h) = length dst"
    unfolding depthImage_def using dst by (subst length_concat_const [where c = ?w]) simp_all
  ultimately show ?thesis by (simp add: depthImage_def overwrite_all)
qed


lemma rgbaImage_nth:
  assumes "row < h" "col < w" "k < 4"
  shows "rgbaImage src stride w h ! (4 * (row * w + col) + k) = rgbaPixel src (row * stride + 4 * col) ! k"
proof -
  have i: "4 * (row * w + col) + k = row * (4 * w) + (col * 4 + k)" by (simp add: algebra_simps)
  have "col * 4 + k < 4 * w" using assms(2,3) by linarith
  then have "rgbaImage src stride w h ! (4 * (row * w + col) + k) =
      rgbaRow src (row * stride) w ! (col * 4 + k)"
    unfolding i rgbaImage_def using assms(1) by (intro concat_nth_chunk) simp_all
  also have "\<dots> = rgbaPixel src (row * stride + 4 * col) ! k"
    unfolding rgbaRow_def using assms(2,3) by (intro concat_nth_chunk) simp_all
  finally show ?thesis .
qed

lemma rgbaImage_chunk:
  assumes "row < h" "col < w"
  shows "take 4 (drop (4 * (row * w + col)) (rgbaImage src stride w h)) =
    rgbaPixel src (row * stride + 4 * col)"
proof (rule nth_equalityI)
  have "row * w + col + 1 \<le> h * w" using row_in_bytes [OF assms(1) le_refl, of "col + 1" w] assms(2) by simp
  then have len: "4 * (row * w + col) + 4 \<le> 4 * (w * h)" by (simp add: mult.commute)
  have total: "length (rgbaImage src stride w h) = 4 * (w * h)"
    unfolding rgbaImage_def by (subst length_concat_const [where c = "4 * w"]) simp_all
  show "length (take 4 (drop (4 * (row * w + col)) (rgbaImage src stride w h))) =
      length (rgbaPixel src (row * stride + 4 * col))"
    using total len by simp
  fix k
  assume "k < length (take 4 (drop (4 * (row * w + col)) (rgbaImage src stride w h)))"
  then have "k < 4" by simp
  then show "take 4 (drop (4 * (row * w + col)) (rgbaImage src stride w h)) ! k =
      rgbaPixel src (row * stride + 4 * col) ! k"
    using rgbaImage_nth [OF assms] total len by simp
qed

lemma depthImage_nth:
  assumes "row < h" "col < w"
  shows "depthImage src stride w h ! (row * w + col) = depthPixel src (row * stride + 2 * col)"
  unfolding depthImage_def by (subst concat_nth_chunk) (use assms in simp_all)

lemma layout_checks:
  assumes "frame_readable f"
  shows "hasValidRgbLayout f = Some (imgWidth (fimgSize (frameRgb f)) * 4 \<le> fimgStrideBytes (frameRgb f))"
    and "hasValidDepthLayout f = Some (imgWidth (fimgSize (frameDepth f)) * 2 \<le> fimgStrideBytes (frameDepth f))"
proof -
  obtain a b where "0 < imgWidth (fimgSize (frameRgb f))" "imgWidth (fimgSize (frameRgb f)) \<le> 16384"
    "0 < imgWidth (fimgSize (frameDepth f))" "imgWidth (fimgSize (frameDepth f)) \<le> 16384"
    using assms image_readable_bytes [of "frameRgb f"] image_readable_bytes [of "frameDepth f"]
    by (metis frame_readable_def)
  then have "checked_i32 (imgWidth (fimgSize (frameRgb f)) * 4) = Some (imgWidth (fimgSize (frameRgb f)) * 4)"
    "checked_i32 (imgWidth (fimgSize (frameDepth f)) * 2) = Some (imgWidth (fimgSize (frameDepth f)) * 2)"
    by (simp_all add: i32_range_def)
  then show "hasValidRgbLayout f = Some (imgWidth (fimgSize (frameRgb f)) * 4 \<le> fimgStrideBytes (frameRgb f))"
    "hasValidDepthLayout f = Some (imgWidth (fimgSize (frameDepth f)) * 2 \<le> fimgStrideBytes (frameDepth f))"
    by (simp_all add: hasValidRgbLayout_def hasValidDepthLayout_def kRgbBytesPerPixel_def
        kDepthBytesPerPixel_def)
qed

definition frame_convertible :: "Frame \<Rightarrow> bool" where
  "frame_convertible f \<longleftrightarrow>
     hasMatchingImageSizes f
     \<and> imgWidth (fimgSize (frameRgb f)) * 4 \<le> fimgStrideBytes (frameRgb f)
     \<and> imgWidth (fimgSize (frameDepth f)) * 2 \<le> fimgStrideBytes (frameDepth f)"

lemma copyImages_result:
  assumes f: "frame_readable f" "frame_convertible f" and v: "view_fits f v"
  obtains rgb dep where "bufData (fimgBuffer (frameRgb f)) = Some rgb"
    "bufData (fimgBuffer (frameDepth f)) = Some dep"
    "copyImages neon f v = Some (v\<lparr>
       viRgb := rgbaImage rgb (nat (fimgStrideBytes (frameRgb f))) (nat (imgWidth (fimgSize (frameRgb f))))
         (nat (imgHeight (fimgSize (frameRgb f)))),
       viDepth := depthImage dep (nat (fimgStrideBytes (frameDepth f))) (nat (imgWidth (fimgSize (frameDepth f))))
         (nat (imgHeight (fimgSize (frameDepth f)))),
       viConfidence := replicate (length (viConfidence v)) f32_zero\<rparr>)"
proof -
  have r: "image_readable (frameRgb f)" "image_readable (frameDepth f)"
    using f(1) by (simp_all add: frame_readable_def)
  obtain rgb where rgb: "bufData (fimgBuffer (frameRgb f)) = Some rgb"
    "nat (imgHeight (fimgSize (frameRgb f))) * nat (fimgStrideBytes (frameRgb f)) \<le> length rgb"
    using image_readable_bytes [OF r(1)] by metis
  obtain dep where dep: "bufData (fimgBuffer (frameDepth f)) = Some dep"
    "nat (imgHeight (fimgSize (frameDepth f))) * nat (fimgStrideBytes (frameDepth f)) \<le> length dep"
    using image_readable_bytes [OF r(2)] by metis
  have rows: "4 * nat (imgWidth (fimgSize (frameRgb f))) \<le> nat (fimgStrideBytes (frameRgb f))"
    "2 * nat (imgWidth (fimgSize (frameDepth f))) \<le> nat (fimgStrideBytes (frameDepth f))"
    using f(2) unfolding frame_convertible_def by arith+
  show thesis
    using that [OF rgb(1) dep(1)] rgb dep v copyRgbRows_image [OF rgb(2) rows(1), of "viRgb v" neon]
      copyDepthRows_image [OF dep(2) rows(2), of "viDepth v"]
    by (simp add: copyImages_def view_fits_def)
qed

text \<open>A transfer to the device leaves the CPU side of the images as it is.\<close>

definition sync_law :: "(ItmImage \<Rightarrow> 'd ItmView \<Rightarrow> 'd ItmView) \<Rightarrow> bool" where
  "sync_law sync \<longleftrightarrow>
     (\<forall>i v. viRgb (sync i v) = viRgb v \<and> viDepth (sync i v) = viDepth v
        \<and> viConfidence (sync i v) = viConfidence v)"

lemma copyFrameToView_result:
  assumes f: "frame_readable f" and v: "view_fits f v"
  shows "\<exists>v' r. copyFrameToView neon sync memoryType f v = Some (v', r)
    \<and> (converted r \<longleftrightarrow> frame_convertible f)"
proof (cases "frame_convertible f")
  case True
  then obtain v' where "copyImages neon f v = Some v'" using copyImages_result [OF f True v] by metis
  then show ?thesis
    using True layout_checks [OF f] by (auto simp: copyFrameToView_def frame_convertible_def converted_def)
next
  case False
  then show ?thesis
    using layout_checks [OF f]
    by (auto simp: copyFrameToView_def frame_convertible_def converted_def split: bool.split)
qed

lemma copyFrameToView_converted:
  assumes f: "frame_readable f" "view_fits f v" and law: "sync_law sync"
    and r: "copyFrameToView neon sync memoryType f v = Some (v', r)" "converted r"
  obtains rgb dep where "bufData (fimgBuffer (frameRgb f)) = Some rgb"
    "bufData (fimgBuffer (frameDepth f)) = Some dep"
    "viRgb v' = rgbaImage rgb (nat (fimgStrideBytes (frameRgb f))) (nat (imgWidth (fimgSize (frameRgb f))))
       (nat (imgHeight (fimgSize (frameRgb f))))"
    "viDepth v' = depthImage dep (nat (fimgStrideBytes (frameDepth f)))
       (nat (imgWidth (fimgSize (frameDepth f)))) (nat (imgHeight (fimgSize (frameDepth f))))"
    "viConfidence v' = replicate (length (viConfidence v)) f32_zero"
proof -
  have c: "frame_convertible f"
    using copyFrameToView_result [OF f, of neon sync memoryType] r by auto
  obtain rgb dep where cp: "bufData (fimgBuffer (frameRgb f)) = Some rgb"
    "bufData (fimgBuffer (frameDepth f)) = Some dep"
    "copyImages neon f v = Some (v\<lparr>
       viRgb := rgbaImage rgb (nat (fimgStrideBytes (frameRgb f))) (nat (imgWidth (fimgSize (frameRgb f))))
         (nat (imgHeight (fimgSize (frameRgb f)))),
       viDepth := depthImage dep (nat (fimgStrideBytes (frameDepth f))) (nat (imgWidth (fimgSize (frameDepth f))))
         (nat (imgHeight (fimgSize (frameDepth f)))),
       viConfidence := replicate (length (viConfidence v)) f32_zero\<rparr>)"
    using copyImages_result [OF f(1) c f(2)] by metis
  show thesis
    using that [OF cp(1,2)] cp(3) r(1) c layout_checks [OF f(1)] law
    by (auto simp: copyFrameToView_def frame_convertible_def sync_law_def split: if_splits)
qed

lemma copyFrameToView_refused:
  assumes "copyFrameToView neon sync memoryType f v = Some (v', r)" "\<not> converted r"
  shows "v' = v"
  using assms by (auto simp: copyFrameToView_def converted_def split: if_splits option.splits bool.splits)

lemma length_images:
  "length (rgbaImage src stride w h) = 4 * (w * h)" "length (depthImage src stride w h) = w * h"
  unfolding rgbaImage_def depthImage_def
  by (subst length_concat_const [where c = "4 * w"], simp_all)
    (subst length_concat_const [where c = w], simp_all)

lemma copyFrameToView_fits:
  assumes "frame_readable f" "view_fits f v" "sync_law sync"
    "copyFrameToView neon sync memoryType f v = Some (v', r)"
  shows "view_fits f v'"
proof (cases "converted r")
  case False
  then show ?thesis using copyFrameToView_refused [OF assms(4)] assms(2) by simp
next
  case True
  from copyFrameToView_converted [OF assms True] show ?thesis
    by (metis view_fits_def length_images)
qed

end
