(* ===== verification/SceneBuilder.thy ===== *)
theory SceneBuilder
  imports ViewConverter SceneLock SceneVersions
begin

text \<open>
  \<open>InfiniTamPipeline\<close> and \<open>SceneBuilder\<close> of \<open>src/builder/src/state\<close>: one frame is converted, tracked,
  integrated into the scene under the write lock and published as the next scene version.

  InfiniTAM is outside this repository: the record \<open>itm_ops\<close> has one field for each thing the code
  asks of it, over a scene \<open>'sc\<close> and a bundle \<open>'p\<close> of the engines that \<open>resetPipeline\<close> creates
  together (tracker, tracking controller, tracking state, render state and their helpers).
\<close>

section \<open>InfiniTAM as the builder sees it\<close>

record ('sc, 'p, 'd) itm_ops =
  itmNeon :: bool
  itmMemoryType :: MemoryDeviceType
  itmSync :: "ItmImage \<Rightarrow> 'd ItmView \<Rightarrow> 'd ItmView"
  itmNewView :: "ItmRgbdCalib \<Rightarrow> ImageSize \<Rightarrow> ImageSize \<Rightarrow> bool \<Rightarrow> 'd ItmView"
  itmResetScene :: "'sc \<Rightarrow> 'sc"
  itmNewEngines :: "string \<Rightarrow> ImageSize \<Rightarrow> ImageSize \<Rightarrow> 'sc \<Rightarrow> 'p"
  itmTrack :: "'d ItmView \<Rightarrow> 'p \<Rightarrow> 'p \<times> bool"
  itmProcessFrame :: "'d ItmView \<Rightarrow> 'p \<times> 'sc \<Rightarrow> 'p \<times> 'sc"
  itmPrepare :: "'sc \<Rightarrow> 'd ItmView \<Rightarrow> 'p \<Rightarrow> 'p"
  itmInvM :: "'p \<Rightarrow> Pose4f"

text \<open>What the code relies on: a new view has one element per pixel, a transfer keeps the CPU side.\<close>

definition itm_laws :: "('sc, 'p, 'd) itm_ops \<Rightarrow> bool" where
  "itm_laws itm \<longleftrightarrow>
     sync_law (itmSync itm)
     \<and> (\<forall>calib rgb dep gpu. let v = itmNewView itm calib rgb dep gpu in
          length (viRgb v) = 4 * (nat (imgWidth rgb) * nat (imgHeight rgb))
          \<and> length (viDepth v) = nat (imgWidth dep) * nat (imgHeight dep))"

section \<open>The pipeline\<close>

record ('p, 'd) InfiniTamPipeline =
  plTrackerConfig :: string
  plViewRgbSize :: ImageSize
  plViewDepthSize :: ImageSize
  plPipelineRgbSize :: ImageSize
  plPipelineDepthSize :: ImageSize
  plViewIntrinsics :: CameraIntrinsics
  plHasViewLayout :: bool
  plHasPipeline :: bool
  plTrackingInitialised :: bool
  plEngines :: "'p option"
  plView :: "'d ItmView option"

definition noSize :: ImageSize where
  "noSize = \<lparr>imgWidth = 0, imgHeight = 0\<rparr>"

definition noIntrinsics :: CameraIntrinsics where
  "noIntrinsics = \<lparr>intrFx = f32_zero, intrFy = f32_zero, intrCx = f32_zero, intrCy = f32_zero\<rparr>"

text \<open>An empty tracker configuration leaves InfiniTAM's own default, here the empty string.\<close>

definition InfiniTamPipeline_new :: "BuilderRuntimeConfig \<Rightarrow> ('p, 'd) InfiniTamPipeline" where
  "InfiniTamPipeline_new config =
     \<lparr>plTrackerConfig = trackerConfig config, plViewRgbSize = noSize, plViewDepthSize = noSize,
      plPipelineRgbSize = noSize, plPipelineDepthSize = noSize, plViewIntrinsics = noIntrinsics,
      plHasViewLayout = False, plHasPipeline = False, plTrackingInitialised = False,
      plEngines = None, plView = None\<rparr>"

definition useGpu :: "('sc, 'p, 'd) itm_ops \<Rightarrow> bool" where
  "useGpu itm \<longleftrightarrow> itmMemoryType itm = MEMORYDEVICE_CUDA"

definition needsViewReset :: "Frame \<Rightarrow> ('p, 'd) InfiniTamPipeline \<Rightarrow> bool" where
  "needsViewReset f pl \<longleftrightarrow>
     \<not> plHasViewLayout pl \<or> \<not> imageSize_eq (fimgSize (frameRgb f)) (plViewRgbSize pl)
     \<or> \<not> imageSize_eq (fimgSize (frameDepth f)) (plViewDepthSize pl)
     \<or> \<not> intrinsics_eq (frameIntrinsics f) (plViewIntrinsics pl)"

definition needsPipelineReset :: "Frame \<Rightarrow> ('p, 'd) InfiniTamPipeline \<Rightarrow> bool" where
  "needsPipelineReset f pl \<longleftrightarrow>
     \<not> plHasPipeline pl \<or> \<not> imageSize_eq (fimgSize (frameRgb f)) (plPipelineRgbSize pl)
     \<or> \<not> imageSize_eq (fimgSize (frameDepth f)) (plPipelineDepthSize pl)"

definition resetView ::
    "('sc, 'p, 'd) itm_ops \<Rightarrow> Frame \<Rightarrow> ('p, 'd) InfiniTamPipeline \<Rightarrow> ('p, 'd) InfiniTamPipeline" where
  "resetView itm f pl =
     pl\<lparr>plView := Some (itmNewView itm (makeRgbdCalib f) (fimgSize (frameRgb f)) (fimgSize (frameDepth f))
                        (useGpu itm)),
        plViewRgbSize := fimgSize (frameRgb f), plViewDepthSize := fimgSize (frameDepth f),
        plViewIntrinsics := frameIntrinsics f, plHasViewLayout := True\<rparr>"

text \<open>\<open>None\<close>: the view pointer is null, or the conversion ran out of an array.\<close>

definition prepareView ::
    "('sc, 'p, 'd) itm_ops \<Rightarrow> Frame \<Rightarrow> ('p, 'd) InfiniTamPipeline \<Rightarrow>
       (('p, 'd) InfiniTamPipeline \<times> ViewConversionFailure) option" where
  "prepareView itm f pl =
     (let pl = (if needsViewReset f pl then resetView itm f pl else pl) in
      case plView pl of
        None \<Rightarrow> None
      | Some v \<Rightarrow>
          (case copyFrameToView (itmNeon itm) (itmSync itm) (itmMemoryType itm) f v of
             None \<Rightarrow> None
           | Some (v', r) \<Rightarrow> Some (pl\<lparr>plView := Some v'\<rparr>, r)))"

definition resetPipeline ::
    "('sc, 'p, 'd) itm_ops \<Rightarrow> Frame \<Rightarrow> ('p, 'd) InfiniTamPipeline \<times> 'sc \<Rightarrow>
       ('p, 'd) InfiniTamPipeline \<times> 'sc" where
  "resetPipeline itm f S =
     (case S of (pl, sc) \<Rightarrow>
        let shouldResetScene = (\<not> plHasPipeline pl);
            sc = (if shouldResetScene then itmResetScene itm sc else sc);
            engines = itmNewEngines itm (plTrackerConfig pl) (fimgSize (frameRgb f))
              (fimgSize (frameDepth f)) sc
        in (pl\<lparr>plEngines := Some engines, plPipelineRgbSize := fimgSize (frameRgb f),
               plPipelineDepthSize := fimgSize (frameDepth f), plTrackingInitialised := False,
               plHasPipeline := True\<rparr>, sc))"

definition ensurePipelineForScene ::
    "('sc, 'p, 'd) itm_ops \<Rightarrow> Frame \<Rightarrow> ('p, 'd) InfiniTamPipeline \<times> 'sc \<Rightarrow>
       ('p, 'd) InfiniTamPipeline \<times> 'sc" where
  "ensurePipelineForScene itm f S =
     (if \<not> needsPipelineReset f (fst S) then S else resetPipeline itm f S)"

text \<open>The engine calls dereference the engines and the view; both exist when they are reached.\<close>

definition pl_track ::
    "('sc, 'p, 'd) itm_ops \<Rightarrow> ('p, 'd) InfiniTamPipeline \<Rightarrow>
       (('p, 'd) InfiniTamPipeline \<times> TrackingStatus) option" where
  "pl_track itm pl =
     (case (plEngines pl, plView pl) of
        (Some p, Some v) \<Rightarrow>
          (case itmTrack itm v p of (p', failed) \<Rightarrow>
             Some (pl\<lparr>plEngines := Some p'\<rparr>, if failed then Lost else Tracked))
      | _ \<Rightarrow> None)"

definition integrate ::
    "('sc, 'p, 'd) itm_ops \<Rightarrow> ('p, 'd) InfiniTamPipeline \<times> 'sc \<Rightarrow>
       ((('p, 'd) InfiniTamPipeline \<times> 'sc) \<times> IntegrationStatus) option" where
  "integrate itm S =
     (case S of (pl, sc) \<Rightarrow>
        (case (plEngines pl, plView pl) of
           (Some p, Some v) \<Rightarrow>
             (case itmProcessFrame itm v (p, sc) of (p', sc') \<Rightarrow>
                Some ((pl\<lparr>plEngines := Some p', plTrackingInitialised := True\<rparr>, sc'), Integrated))
         | _ \<Rightarrow> None))"

definition prepareForNextTracking ::
    "('sc, 'p, 'd) itm_ops \<Rightarrow> 'sc \<Rightarrow> ('p, 'd) InfiniTamPipeline \<Rightarrow> ('p, 'd) InfiniTamPipeline option" where
  "prepareForNextTracking itm sc pl =
     (case (plEngines pl, plView pl) of
        (Some p, Some v) \<Rightarrow> Some (pl\<lparr>plEngines := Some (itmPrepare itm sc v p)\<rparr>)
      | _ \<Rightarrow> None)"

definition cameraToWorld ::
    "('sc, 'p, 'd) itm_ops \<Rightarrow> ('p, 'd) InfiniTamPipeline \<Rightarrow> Pose4f option" where
  "cameraToWorld itm pl = map_option (itmInvM itm) (plEngines pl)"

section \<open>The scene builder\<close>

datatype FrameBuildStatus = FrameConsumed | FrameFailed

datatype BuildFailureReason = NoBuildFailure | ViewConversionFailed | TrackingLost

record SceneBuildResult =
  sbStatus :: FrameBuildStatus
  sbFailureReason :: BuildFailureReason
  sbFrameId :: FrameId
  sbSceneVersionId :: "SceneVersionId option"

text \<open>The builder's pipeline together with the shared scene and version store it refers to.\<close>

record ('sc, 'p, 'd) BuilderState =
  bsPipeline :: "('p, 'd) InfiniTamPipeline"
  bsShared :: "'sc SharedSceneState"
  bsVersions :: SceneVersionStore

definition makeSceneVersion ::
    "Frame \<Rightarrow> SceneVersionId \<Rightarrow> TrackingStatus \<Rightarrow> IntegrationStatus \<Rightarrow> Pose4f \<Rightarrow> SceneVersion" where
  "makeSceneVersion f versionId tracking integration pose =
     \<lparr>svVersionId = versionId, svTimestamp = frameTimestamp f, svLastIntegratedFrameId = frameId f,
      svCameraToWorld = pose, svTrackingStatus = tracking, svIntegrationStatus = integration\<rparr>"

definition failedBuild :: "Frame \<Rightarrow> BuildFailureReason \<Rightarrow> SceneBuildResult" where
  "failedBuild f reason =
     \<lparr>sbStatus = FrameFailed, sbFailureReason = reason, sbFrameId = frameId f, sbSceneVersionId = None\<rparr>"

text \<open>Tracking, which is skipped until a first integration: the new pipeline and the status.\<close>

definition trackIfInitialised ::
    "('sc, 'p, 'd) itm_ops \<Rightarrow> ('p, 'd) InfiniTamPipeline \<Rightarrow>
       (('p, 'd) InfiniTamPipeline \<times> TrackingStatus) option" where
  "trackIfInitialised itm pl = (if plTrackingInitialised pl then pl_track itm pl else Some (pl, NotRun))"

text \<open>
  The rest of the block under the write lock, from the integration on: \<open>Inr\<close> the pipeline, the
  scene state after the publication, the version and the pose.
\<close>

definition integrateAndPublish ::
    "('sc, 'p, 'd) itm_ops \<Rightarrow> SceneAccessLease \<Rightarrow> nat \<Rightarrow> ('p, 'd) InfiniTamPipeline \<Rightarrow>
       'sc SharedSceneState \<Rightarrow>
       (('p, 'd) InfiniTamPipeline \<times> 'sc SharedSceneState \<times> SceneAccessLease \<times> SceneVersionId
         \<times> IntegrationStatus \<times> Pose4f) option" where
  "integrateAndPublish itm lease this pl s =
     (case integrate itm (pl, sceneContents s) of
        None \<Rightarrow> None
      | Some ((pl, sc), integration) \<Rightarrow>
          (case prepareForNextTracking itm sc pl of
             None \<Rightarrow> None
           | Some pl \<Rightarrow>
               (case cameraToWorld itm pl of
                  None \<Rightarrow> None
                | Some pose \<Rightarrow>
                    (case publishScene this (Some lease) (s\<lparr>sceneContents := sc\<rparr>) of
                       Inl _ \<Rightarrow> None
                     | Inr (s, lease, versionId) \<Rightarrow> Some (pl, s, lease, versionId, integration, pose)))))"

text \<open>
  \<open>None\<close>: the write lock is not free, so the call waits, or undefined behaviour was reached.  The
  properties show that neither is the case for readable frames and a free lock.
\<close>

definition buildFrame ::
    "('sc, 'p, 'd) itm_ops \<Rightarrow> nat \<Rightarrow> Frame \<Rightarrow> ('sc, 'p, 'd) BuilderState \<Rightarrow>
       (('sc, 'p, 'd) BuilderState \<times> SceneBuildResult) option" where
  "buildFrame itm this f B =
     (case prepareView itm f (bsPipeline B) of
        None \<Rightarrow> None
      | Some (pl, r) \<Rightarrow>
          if \<not> converted r then Some (B\<lparr>bsPipeline := pl\<rparr>, failedBuild f ViewConversionFailed)
          else
            (case attemptWrite this (announceWrite (bsShared B)) of
               None \<Rightarrow> None
             | Some (s, lease) \<Rightarrow>
                 (case ensurePipelineForScene itm f (pl, sceneContents s) of (pl, sc) \<Rightarrow>
                    let s = s\<lparr>sceneContents := sc\<rparr> in
                    (case trackIfInitialised itm pl of
                       None \<Rightarrow> None
                     | Some (pl, tracking) \<Rightarrow>
                         if tracking = Lost then
                           Some (B\<lparr>bsPipeline := pl, bsShared := releaseLease lease s\<rparr>,
                                 failedBuild f TrackingLost)
                         else
                           (case integrateAndPublish itm lease this pl s of
                              None \<Rightarrow> None
                            | Some (pl, s, lease, versionId, integration, pose) \<Rightarrow>
                                Some (\<lparr>bsPipeline = pl, bsShared = releaseLease lease s,
                                       bsVersions = SceneVersionStore_add
                                         (makeSceneVersion f versionId tracking integration pose)
                                         (bsVersions B)\<rparr>,
                                      \<lparr>sbStatus = FrameConsumed, sbFailureReason = NoBuildFailure,
                                       sbFrameId = frameId f, sbSceneVersionId = Some versionId\<rparr>))))))"

end
