(* ===== verification/SceneBuilderProofs.thy ===== *)
theory SceneBuilderProofs
  imports SceneBuilder
begin

text \<open>
  Building a frame never runs into undefined behaviour and ends in one of two ways: the scene and
  its versions are as before, or exactly one new version was published and recorded.
\<close>

section \<open>The pipeline\<close>

lemma imageSize_eq_iff [simp]: "imageSize_eq a b \<longleftrightarrow> a = b"
  by (cases a; cases b) (auto simp: imageSize_eq_def)

definition pipeline_ok :: "('p, 'd) InfiniTamPipeline \<Rightarrow> bool" where
  "pipeline_ok pl \<longleftrightarrow>
     (plHasViewLayout pl \<longrightarrow> (\<exists>v. plView pl = Some v
        \<and> length (viRgb v) = 4 * (nat (imgWidth (plViewRgbSize pl)) * nat (imgHeight (plViewRgbSize pl)))
        \<and> length (viDepth v) = nat (imgWidth (plViewDepthSize pl)) * nat (imgHeight (plViewDepthSize pl))))
     \<and> (plHasPipeline pl \<longrightarrow> plEngines pl \<noteq> None)
     \<and> (plTrackingInitialised pl \<longrightarrow> plHasPipeline pl)"

lemma pipeline_ok_new: "pipeline_ok (InfiniTamPipeline_new config)"
  by (simp add: pipeline_ok_def InfiniTamPipeline_new_def)

definition same_engines :: "('p, 'd) InfiniTamPipeline \<Rightarrow> ('p, 'd) InfiniTamPipeline \<Rightarrow> bool" where
  "same_engines pl pl' \<longleftrightarrow>
     plEngines pl' = plEngines pl \<and> plHasPipeline pl' = plHasPipeline pl
     \<and> plTrackingInitialised pl' = plTrackingInitialised pl
     \<and> plPipelineRgbSize pl' = plPipelineRgbSize pl \<and> plPipelineDepthSize pl' = plPipelineDepthSize pl"

lemma prepared_view_fits:
  assumes laws: "itm_laws itm" and ok: "pipeline_ok pl"
  obtains pl1 v where "pl1 = (if needsViewReset f pl then resetView itm f pl else pl)"
    "plView pl1 = Some v" "view_fits f v" "pipeline_ok pl1" "same_engines pl pl1"
    "plHasViewLayout pl1" "plViewRgbSize pl1 = fimgSize (frameRgb f)"
    "plViewDepthSize pl1 = fimgSize (frameDepth f)"
proof (cases "needsViewReset f pl")
  case True
  let ?pl = "resetView itm f pl"
  have "view_fits f (itmNewView itm (makeRgbdCalib f) (fimgSize (frameRgb f)) (fimgSize (frameDepth f))
      (useGpu itm))"
    using laws unfolding itm_laws_def Let_def view_fits_def by blast
  then show thesis
    using that [of ?pl] True ok
    by (simp add: resetView_def pipeline_ok_def same_engines_def view_fits_def)
next
  case False
  then have same: "plHasViewLayout pl" "plViewRgbSize pl = fimgSize (frameRgb f)"
    "plViewDepthSize pl = fimgSize (frameDepth f)"
    by (simp_all add: needsViewReset_def)
  then obtain v where "plView pl = Some v" "view_fits f v"
    using ok by (auto simp: pipeline_ok_def view_fits_def)
  then show thesis using that [of pl v] same ok False by (simp add: same_engines_def)
qed

lemma prepareView_ok:
  assumes laws: "itm_laws itm" and ok: "pipeline_ok pl" and f: "frame_readable f"
  obtains pl' v' r where "prepareView itm f pl = Some (pl', r)" "converted r \<longleftrightarrow> frame_convertible f"
    "plView pl' = Some v'" "view_fits f v'" "pipeline_ok pl'" "same_engines pl pl'"
proof -
  obtain pl1 v where p: "pl1 = (if needsViewReset f pl then resetView itm f pl else pl)"
    "plView pl1 = Some v" "view_fits f v" "pipeline_ok pl1" "same_engines pl pl1"
    "plHasViewLayout pl1" "plViewRgbSize pl1 = fimgSize (frameRgb f)"
    "plViewDepthSize pl1 = fimgSize (frameDepth f)"
    using prepared_view_fits [OF laws ok] by metis
  obtain v' r where c: "copyFrameToView (itmNeon itm) (itmSync itm) (itmMemoryType itm) f v = Some (v', r)"
    "converted r \<longleftrightarrow> frame_convertible f"
    using copyFrameToView_result [OF f p(3)] by metis
  have fits: "view_fits f v'"
    using copyFrameToView_fits [OF f p(3) _ c(1)] laws by (simp add: itm_laws_def)
  have "prepareView itm f pl = Some (pl1\<lparr>plView := Some v'\<rparr>, r)"
    unfolding prepareView_def Let_def p(1) [symmetric] using p(2) c(1) by simp
  moreover have "pipeline_ok (pl1\<lparr>plView := Some v'\<rparr>)"
    using p(4,6-8) fits by (simp add: pipeline_ok_def view_fits_def)
  moreover have "same_engines pl (pl1\<lparr>plView := Some v'\<rparr>)"
    using p(5) by (simp add: same_engines_def)
  ultimately show thesis using that [of "pl1\<lparr>plView := Some v'\<rparr>" r v'] c(2) fits by simp
qed

section \<open>The block under the write lock\<close>

lemma integrateAndPublish_ok:
  assumes "plView pl = Some v" "plEngines pl = Some p" "lsMode lease = WriteMode" "lsOwner lease = this"
  obtains pl' sc' pose lease' where
    "integrateAndPublish itm lease this pl s =
      Some (pl', s\<lparr>sceneContents := sc', sceneVersionId := sceneVersionId s + 1\<rparr>, lease',
            sceneVersionId s + 1, Integrated, pose)"
    "lsMode lease' = WriteMode"
    "plView pl' = plView pl" "plEngines pl' \<noteq> None" "plTrackingInitialised pl'"
    "plHasPipeline pl' = plHasPipeline pl" "plHasViewLayout pl' = plHasViewLayout pl"
    "plViewRgbSize pl' = plViewRgbSize pl" "plViewDepthSize pl' = plViewDepthSize pl"
    "sc' = snd (itmProcessFrame itm v (p, sceneContents s))"
proof -
  obtain p1 sc1 where ps: "itmProcessFrame itm v (p, sceneContents s) = (p1, sc1)" by fastforce
  let ?p = "itmPrepare itm sc1 v p1"
  show thesis
    by (rule that [of "pl\<lparr>plEngines := Some ?p, plTrackingInitialised := True\<rparr>" sc1
          "lease\<lparr>lsVersion := sceneVersionId s + 1\<rparr>" "itmInvM itm ?p"])
      (use assms ps in \<open>simp_all add: integrateAndPublish_def integrate_def prepareForNextTracking_def
        cameraToWorld_def publishScene_def Let_def\<close>)
qed

lemma ensurePipeline_ok:
  assumes "pipeline_ok pl" "ensurePipelineForScene itm f (pl, sc) = (pl', sc')"
  shows "pipeline_ok pl'" "plEngines pl' \<noteq> None" "plView pl' = plView pl" "plHasPipeline pl'"
    "plTrackingInitialised pl' \<Longrightarrow> pl' = pl \<and> sc' = sc"
    "plHasViewLayout pl' = plHasViewLayout pl"
    "plViewRgbSize pl' = plViewRgbSize pl" "plViewDepthSize pl' = plViewDepthSize pl"
  using assms
  by (auto simp: ensurePipelineForScene_def needsPipelineReset_def resetPipeline_def Let_def
      pipeline_ok_def split: if_splits)

lemma trackIfInitialised_ok:
  assumes "pipeline_ok pl" "plView pl = Some v" "plEngines pl \<noteq> None"
  obtains pl' tracking where "trackIfInitialised itm pl = Some (pl', tracking)"
    "plView pl' = plView pl" "plEngines pl' \<noteq> None" "plHasPipeline pl' = plHasPipeline pl"
    "plHasViewLayout pl' = plHasViewLayout pl" "plTrackingInitialised pl' = plTrackingInitialised pl"
    "plViewRgbSize pl' = plViewRgbSize pl" "plViewDepthSize pl' = plViewDepthSize pl"
    "tracking = Lost \<Longrightarrow> plTrackingInitialised pl"
    "tracking = NotRun \<longleftrightarrow> \<not> plTrackingInitialised pl"
proof (cases "plTrackingInitialised pl")
  case False
  then show thesis using that [of pl NotRun] assms by (simp add: trackIfInitialised_def)
next
  case True
  obtain p where p: "plEngines pl = Some p" using assms(3) by blast
  obtain p' failed where t: "itmTrack itm v p = (p', failed)" by fastforce
  show thesis
    using that [of "pl\<lparr>plEngines := Some p'\<rparr>" "if failed then Lost else Tracked"] True assms(2) p t
    by (simp add: trackIfInitialised_def pl_track_def)
qed

section \<open>A whole frame\<close>

lemma release_own_write:
  "\<not> writerActive s \<Longrightarrow> lsMode lease = WriteMode \<Longrightarrow>
     releaseLease lease (s\<lparr>writerActive := True, sceneContents := sc, sceneVersionId := n\<rparr>) =
       s\<lparr>sceneContents := sc, sceneVersionId := n\<rparr>"
  "\<not> writerActive s \<Longrightarrow> lsMode lease = WriteMode \<Longrightarrow>
     releaseLease lease (s\<lparr>writerActive := True, sceneContents := sceneContents s\<rparr>) = s"
  by (cases s; simp add: releaseLease_def)+

text \<open>The call once the write lock was taken, one equation for each way through the block.\<close>

lemma buildFrame_locked:
  assumes "prepareView itm f (bsPipeline B) = Some (pl1, r)" "converted r"
    and "attemptWrite this (announceWrite (bsShared B)) = Some (s, lease)"
    and "ensurePipelineForScene itm f (pl1, sceneContents s) = (pl2, sc2)"
    and "trackIfInitialised itm pl2 = Some (pl3, tracking)"
  shows "tracking = Lost \<Longrightarrow> buildFrame itm this f B =
      Some (B\<lparr>bsPipeline := pl3, bsShared := releaseLease lease (s\<lparr>sceneContents := sc2\<rparr>)\<rparr>,
            failedBuild f TrackingLost)"
    and "tracking \<noteq> Lost \<Longrightarrow>
      integrateAndPublish itm lease this pl3 (s\<lparr>sceneContents := sc2\<rparr>) =
        Some (pl4, s4, lease4, versionId, integration, pose) \<Longrightarrow>
      buildFrame itm this f B =
      Some (\<lparr>bsPipeline = pl4, bsShared = releaseLease lease4 s4,
             bsVersions = SceneVersionStore_add
               (makeSceneVersion f versionId tracking integration pose) (bsVersions B)\<rparr>,
            \<lparr>sbStatus = FrameConsumed, sbFailureReason = NoBuildFailure,
             sbFrameId = frameId f, sbSceneVersionId = Some versionId\<rparr>)"
  using assms by (simp_all add: buildFrame_def Let_def)

definition version_of_build :: "Frame \<Rightarrow> SceneVersionId \<Rightarrow> SceneVersion \<Rightarrow> bool" where
  "version_of_build f i v \<longleftrightarrow>
     svVersionId v = i \<and> svTimestamp v = frameTimestamp f \<and> svLastIntegratedFrameId v = frameId f
     \<and> svTrackingStatus v \<in> {NotRun, Tracked} \<and> svIntegrationStatus v = Integrated"

lemma buildFrame_outcome:
  assumes laws: "itm_laws itm" and ok: "pipeline_ok (bsPipeline B)" and f: "frame_readable f"
    and free: "canAcquireWrite (bsShared B)"
  obtains
    (failed) pl reason where "reason \<in> {ViewConversionFailed, TrackingLost}"
      "reason = ViewConversionFailed \<longleftrightarrow> \<not> frame_convertible f" "pipeline_ok pl"
      "buildFrame itm this f B = Some (B\<lparr>bsPipeline := pl\<rparr>, failedBuild f reason)"
  | (consumed) pl sc version where "frame_convertible f" "pipeline_ok pl" "plTrackingInitialised pl"
      "version_of_build f (sceneVersionId (bsShared B) + 1) version"
      "buildFrame itm this f B = Some (\<lparr>bsPipeline = pl,
          bsShared = (bsShared B)\<lparr>sceneContents := sc, sceneVersionId := sceneVersionId (bsShared B) + 1\<rparr>,
          bsVersions = SceneVersionStore_add version (bsVersions B)\<rparr>,
        \<lparr>sbStatus = FrameConsumed, sbFailureReason = NoBuildFailure, sbFrameId = frameId f,
         sbSceneVersionId = Some (sceneVersionId (bsShared B) + 1)\<rparr>)"
proof -
  let ?s = "bsShared B"
  obtain pl1 v r where p: "prepareView itm f (bsPipeline B) = Some (pl1, r)"
    "converted r \<longleftrightarrow> frame_convertible f" "plView pl1 = Some v" "pipeline_ok pl1"
    using prepareView_ok [OF laws ok f] by metis
  show thesis
  proof (cases "converted r")
    case False
    then show thesis using p by (intro failed [of ViewConversionFailed pl1]) (simp_all add: buildFrame_def)
  next
    case conv: True
    let ?lease = "\<lparr>lsOwner = this, lsMode = WriteMode, lsVersion = sceneVersionId ?s\<rparr>"
    have w: "attemptWrite this (announceWrite ?s) = Some (?s\<lparr>writerActive := True\<rparr>, ?lease)"
      using free by (simp add: attemptWrite_def announceWrite_def canAcquireWrite_def)
    have idle: "\<not> writerActive ?s" using free by (simp add: canAcquireWrite_def)
    let ?s1 = "?s\<lparr>writerActive := True\<rparr>"
    obtain pl2 sc2 where e: "ensurePipelineForScene itm f (pl1, sceneContents ?s1) = (pl2, sc2)" by fastforce
    note e' = ensurePipeline_ok [OF p(4) e]
    have v2: "plView pl2 = Some v" using e'(3) p(3) by simp
    obtain pl3 tracking where t: "trackIfInitialised itm pl2 = Some (pl3, tracking)"
      "plView pl3 = plView pl2" "plEngines pl3 \<noteq> None" "plHasPipeline pl3 = plHasPipeline pl2"
      "plHasViewLayout pl3 = plHasViewLayout pl2" "plTrackingInitialised pl3 = plTrackingInitialised pl2"
      "plViewRgbSize pl3 = plViewRgbSize pl2" "plViewDepthSize pl3 = plViewDepthSize pl2"
      "tracking = Lost \<Longrightarrow> plTrackingInitialised pl2"
      "tracking = NotRun \<longleftrightarrow> \<not> plTrackingInitialised pl2"
      by (rule trackIfInitialised_ok [OF e'(1) v2 e'(2)]) blast
    have ok3: "pipeline_ok pl3" using e'(1) t by (simp add: pipeline_ok_def)
    show thesis
    proof (cases "tracking = Lost")
      case True
      then have "sc2 = sceneContents ?s" using e'(5) t(9) by simp
      then have "buildFrame itm this f B = Some (B\<lparr>bsPipeline := pl3\<rparr>, failedBuild f TrackingLost)"
        using buildFrame_locked(1) [OF p(1) conv w e t(1) True]
          release_own_write(2) [OF idle, of ?lease] by simp
      then show thesis using conv p(2) ok3 by (intro failed [of TrackingLost pl3]) simp_all
    next
      case False
      obtain p3 where p3: "plEngines pl3 = Some p3" using t(3) by blast
      have v3: "plView pl3 = Some v" using t(2) v2 by simp
      let ?s2 = "?s\<lparr>writerActive := True, sceneContents := sc2\<rparr>"
      have l: "lsMode ?lease = WriteMode" "lsOwner ?lease = this" by simp_all
      obtain pl4 sc4 pose lease' where i: "integrateAndPublish itm ?lease this pl3 ?s2 =
          Some (pl4, ?s2\<lparr>sceneContents := sc4, sceneVersionId := sceneVersionId ?s2 + 1\<rparr>, lease',
            sceneVersionId ?s2 + 1, Integrated, pose)"
        "lsMode lease' = WriteMode" "plView pl4 = plView pl3" "plEngines pl4 \<noteq> None"
        "plTrackingInitialised pl4" "plHasPipeline pl4 = plHasPipeline pl3"
        "plHasViewLayout pl4 = plHasViewLayout pl3" "plViewRgbSize pl4 = plViewRgbSize pl3"
        "plViewDepthSize pl4 = plViewDepthSize pl3"
        by (rule integrateAndPublish_ok [OF v3 p3 l, of itm ?s2]) (rule that; assumption)
      let ?version = "makeSceneVersion f (sceneVersionId ?s + 1) tracking Integrated pose"
      have "version_of_build f (sceneVersionId ?s + 1) ?version"
        using False by (cases tracking) (simp_all add: version_of_build_def makeSceneVersion_def)
      moreover have "pipeline_ok pl4" using ok3 i e'(4) t(4) by (simp add: pipeline_ok_def)
      moreover have "buildFrame itm this f B = Some (\<lparr>bsPipeline = pl4,
          bsShared = ?s\<lparr>sceneContents := sc4, sceneVersionId := sceneVersionId ?s + 1\<rparr>,
          bsVersions = SceneVersionStore_add ?version (bsVersions B)\<rparr>,
        \<lparr>sbStatus = FrameConsumed, sbFailureReason = NoBuildFailure, sbFrameId = frameId f,
         sbSceneVersionId = Some (sceneVersionId ?s + 1)\<rparr>)"
        using buildFrame_locked(2) [OF p(1) conv w e t(1) False i(1)]
          release_own_write(1) [OF idle i(2)] by simp
      ultimately show thesis using conv p(2) i(5) by (intro consumed [of pl4 ?version sc4]) simp_all
    qed
  qed
qed

end
