(* ===== verification/SceneBuilderRunner.thy ===== *)
theory SceneBuilderRunner
  imports SceneBuilderProofs FrameStoreSpec BackgroundRunner
begin

text \<open>
  \<open>SceneBuilderRunner\<close> of \<open>src/builder/src\<close>: the loop that takes the next ready frame, builds it and
  reports it back to the frame store.  Other threads submit frames while it waits and while it
  builds; the event of an iteration lists their calls.
\<close>

record ('sc, 'p, 'd, 'q) BuilderRunner = Runner +
  brConfig :: BuilderRuntimeConfig
  brStore :: "'q FrameStore"
  brBuilder :: "('sc, 'p, 'd) BuilderState"
  brBuildAttemptCount :: u64
  brConsumedFrameCount :: u64
  brFailedFrameCount :: u64
  brLastFrameId :: FrameId
  brLastSceneVersionId :: "SceneVersionId option"
  brLastFailureReason :: "BuildFailureReason option"

definition SceneBuilderRunner_new ::
    "BuilderRuntimeConfig \<Rightarrow> 'q FrameStore \<Rightarrow> 'sc SharedSceneState \<Rightarrow> SceneVersionStore \<Rightarrow>
       ('sc, 'p, 'd, 'q) BuilderRunner" where
  "SceneBuilderRunner_new config store shared versions =
     \<lparr>rnStopRequested = False, rnRunning = False, rnThread = NoThread, rnStatusRunning = False,
      rnStatusStopRequested = False, brConfig = config, brStore = store,
      brBuilder = \<lparr>bsPipeline = InfiniTamPipeline_new config, bsShared = shared, bsVersions = versions\<rparr>,
      brBuildAttemptCount = 0, brConsumedFrameCount = 0, brFailedFrameCount = 0, brLastFrameId = 0,
      brLastSceneVersionId = None, brLastFailureReason = None\<rparr>"

definition SceneBuilderRunner_start ::
    "('sc, 'p, 'd, 'q) BuilderRunner \<Rightarrow> ('sc, 'p, 'd, 'q) BuilderRunner \<times> bool" where
  "SceneBuilderRunner_start r = Runner_start r"

definition SceneBuilderRunner_requestStop ::
    "('sc, 'p, 'd, 'q) BuilderRunner \<Rightarrow> ('sc, 'p, 'd, 'q) BuilderRunner" where
  "SceneBuilderRunner_requestStop r = Runner_requestStop r"

definition SceneBuilderRunner_join ::
    "('sc, 'p, 'd, 'q) BuilderRunner \<Rightarrow> ('sc, 'p, 'd, 'q) BuilderRunner option" where
  "SceneBuilderRunner_join r = Runner_join r"

definition SceneBuilderRunner_running :: "('sc, 'p, 'd, 'q) BuilderRunner \<Rightarrow> bool" where
  "SceneBuilderRunner_running r = rnRunning r"

definition SceneBuilderRunner_setRunning ::
    "bool \<Rightarrow> ('sc, 'p, 'd, 'q) BuilderRunner \<Rightarrow> ('sc, 'p, 'd, 'q) BuilderRunner" where
  "SceneBuilderRunner_setRunning b r = Runner_setRunning b r"

definition builder_recordResult ::
    "SceneBuildResult \<Rightarrow> ('sc, 'p, 'd, 'q) BuilderRunner \<Rightarrow> ('sc, 'p, 'd, 'q) BuilderRunner" where
  "builder_recordResult res r =
     (let r = r\<lparr>brBuildAttemptCount := brBuildAttemptCount r + 1, brLastFrameId := sbFrameId res,
                brLastSceneVersionId := sbSceneVersionId res\<rparr>
      in if sbStatus res = FrameConsumed then
           r\<lparr>brConsumedFrameCount := brConsumedFrameCount r + 1, brLastFailureReason := None\<rparr>
         else r\<lparr>brFailedFrameCount := brFailedFrameCount r + 1, brLastSceneVersionId := None,
                brLastFailureReason := Some (sbFailureReason res)\<rparr>)"

text \<open>The store calls of other threads.\<close>

definition others :: "'q ring_ops \<Rightarrow> store_call list \<Rightarrow> 'q FrameStore \<Rightarrow> 'q FrameStore" where
  "others ops cs s = fst (run_calls (store_call_step ops) cs s)"

text \<open>The acknowledgement after a build.\<close>

definition acknowledge :: "SceneBuildResult \<Rightarrow> 'q FrameStore \<Rightarrow> 'q FrameStore" where
  "acknowledge res s =
     (if sbStatus res = FrameConsumed then fst (markFrameConsumed (sbFrameId res) s)
      else fst (markFrameFailed (sbFrameId res) s))"

text \<open>
  One iteration of \<open>runLoop\<close>; \<open>before\<close> are the calls of other threads until the wait for a frame
  ends, \<open>during\<close> those while the frame is built.
\<close>

definition builderIteration ::
    "('sc, 'p, 'd) itm_ops \<Rightarrow> nat \<Rightarrow> 'q ring_ops \<Rightarrow> store_call list \<times> store_call list \<Rightarrow>
       ('sc, 'p, 'd, 'q) BuilderRunner \<Rightarrow> ('sc, 'p, 'd, 'q) BuilderRunner" where
  "builderIteration itm this ops e r =
     (case waitDequeueReadyFrame ops (max (readyFrameTimeoutMs (brConfig r)) 0)
          (others ops (fst e) (brStore r)) of
        (s, None) \<Rightarrow> r\<lparr>brStore := s\<rparr>
      | (s, Some f) \<Rightarrow>
          (case buildFrame itm this f (brBuilder r) of
             None \<Rightarrow> r\<lparr>brStore := s\<rparr>
           | Some (B, res) \<Rightarrow>
               builder_recordResult res
                 (r\<lparr>brStore := acknowledge res (others ops (snd e) s), brBuilder := B\<rparr>)))"

section \<open>What the runner keeps\<close>

definition frame_honest :: "Frame \<Rightarrow> bool" where
  "frame_honest f \<longleftrightarrow>
     buffer_honest (fimgBuffer (frameRgb f)) \<and> buffer_honest (fimgBuffer (frameDepth f))
     \<and> i32_range (fimgStrideBytes (frameRgb f)) \<and> i32_range (fimgStrideBytes (frameDepth f))"

fun honest_submission :: "store_call \<Rightarrow> bool" where
  "honest_submission (CallSubmit f) = frame_honest f"
| "honest_submission _ = False"

definition waiting_readable :: "StoreSpec \<Rightarrow> bool" where
  "waiting_readable a \<longleftrightarrow> (\<forall>f \<in> set (spWaiting a). frame_readable f)"

lemma spec_submission_keeps:
  assumes "honest_submission c" "waiting_readable a"
  shows "waiting_readable (fst (spec_call_step c a))" "spHeld (fst (spec_call_step c a)) = spHeld a"
  using assms
  by (cases c; auto simp: spec_submit_def spec_admits_def waiting_readable_def frame_honest_def
      frame_readable_def image_readable_def)+

lemma others_keep:
  assumes "FrameStore_inv ops valid elems cap s" "list_all honest_submission cs"
    "waiting_readable (store_abs elems s)"
  shows "FrameStore_inv ops valid elems cap (others ops cs s)
    \<and> waiting_readable (store_abs elems (others ops cs s))
    \<and> spHeld (store_abs elems (others ops cs s)) = spHeld (store_abs elems s)"
  using assms
proof (induction cs arbitrary: s)
  case Nil
  then show ?case by (simp add: others_def)
next
  case (Cons c cs)
  let ?s = "fst (store_call_step ops c s)"
  have a: "store_abs elems ?s = fst (spec_call_step c (store_abs elems s))"
    using call_step(2) [OF Cons.prems(1), of c] by simp
  have "waiting_readable (store_abs elems ?s)" "spHeld (store_abs elems ?s) = spHeld (store_abs elems s)"
    unfolding a using spec_submission_keeps [of c "store_abs elems s"] Cons.prems by simp_all
  moreover have "others ops (c # cs) s = others ops cs ?s"
    by (simp add: others_def case_prod_beta)
  ultimately show ?case
    using Cons.IH [of ?s] call_step(1) [OF Cons.prems(1), of c] Cons.prems(2) by simp
qed

text \<open>The result of a build on a readable frame, as the runner sees it.\<close>

lemma built_or_failed:
  assumes "itm_laws itm" "pipeline_ok (bsPipeline B)" "frame_readable f" "canAcquireWrite (bsShared B)"
  obtains B' res where "buildFrame itm this f B = Some (B', res)" "sbFrameId res = frameId f"
    "pipeline_ok (bsPipeline B')" "canAcquireWrite (bsShared B')"
    "sceneVersionId (bsShared B') =
       sceneVersionId (bsShared B) + (if sbStatus res = FrameConsumed then 1 else 0)"
  using assms
proof (cases rule: buildFrame_outcome [OF assms, of this, case_names failed consumed])
  case (failed pl reason)
  then show thesis
    using that [of "B\<lparr>bsPipeline := pl\<rparr>" "failedBuild f reason"] assms(4) by (simp add: failedBuild_def)
next
  case (consumed pl sc version)
  show thesis
    by (rule that [OF consumed(5)]) (use consumed(2) assms(4) in \<open>simp_all add: canAcquireWrite_def\<close>)
qed

definition builder_inv ::
    "('sc, 'p, 'd) itm_ops \<Rightarrow> 'q ring_ops \<Rightarrow> ('q \<Rightarrow> bool) \<Rightarrow> ('q \<Rightarrow> Frame list) \<Rightarrow> ('q \<Rightarrow> nat) \<Rightarrow>
       ('sc, 'p, 'd, 'q) BuilderRunner \<Rightarrow> bool" where
  "builder_inv itm ops valid elems cap r \<longleftrightarrow>
     itm_laws itm \<and> FrameStore_inv ops valid elems cap (brStore r)
     \<and> waiting_readable (store_abs elems (brStore r)) \<and> spHeld (store_abs elems (brStore r)) = {}
     \<and> pipeline_ok (bsPipeline (brBuilder r)) \<and> canAcquireWrite (bsShared (brBuilder r))
     \<and> brBuildAttemptCount r = brConsumedFrameCount r + brFailedFrameCount r
     \<and> sceneVersionId (bsShared (brBuilder r)) = brConsumedFrameCount r"

definition builder_event_ok :: "store_call list \<times> store_call list \<Rightarrow> bool" where
  "builder_event_ok e \<longleftrightarrow> list_all honest_submission (fst e) \<and> list_all honest_submission (snd e)"

lemma acknowledge_keeps:
  assumes "FrameStore_inv ops valid elems cap s" "sbFrameId res = i"
  shows "FrameStore_inv ops valid elems cap (acknowledge res s)
    \<and> store_abs elems (acknowledge res s) = fst (spec_complete i (store_abs elems s))"
  using FrameStore_inv_mark [OF assms(1), of i] mark_refines [OF assms(1), of i] assms(2)
  by (simp add: acknowledge_def)

lemma builder_iteration_inv:
  assumes ok: "builder_event_ok e" and inv: "builder_inv itm ops valid elems cap r"
  shows "builder_inv itm ops valid elems cap (builderIteration itm this ops e r)"
proof -
  note i = inv [unfolded builder_inv_def]
  let ?s0 = "others ops (fst e) (brStore r)" and ?t = "max (readyFrameTimeoutMs (brConfig r)) 0"
  have o: "FrameStore_inv ops valid elems cap ?s0" "waiting_readable (store_abs elems ?s0)"
    "spHeld (store_abs elems ?s0) = {}"
    using others_keep [of ops valid elems cap "brStore r" "fst e"] i ok by (simp_all add: builder_event_ok_def)
  obtain s fo where d: "waitDequeueReadyFrame ops ?t ?s0 = (s, fo)" by fastforce
  have s: "FrameStore_inv ops valid elems cap s" using wait_taken(1) [OF o(1), of ?t] d by simp
  have a: "store_abs elems s = fst (spec_dequeue (store_abs elems ?s0))"
    "fo = snd (spec_dequeue (store_abs elems ?s0))"
    using wait_refines [OF o(1), of ?t] d by simp_all
  show ?thesis
  proof (cases fo)
    case None
    then have "store_abs elems s = store_abs elems ?s0" using a by (auto simp: spec_dequeue_def split: list.splits)
    then show ?thesis using d None s o i by (simp add: builderIteration_def builder_inv_def)
  next
    case (Some f)
    then have f: "frame_readable f" and w: "waiting_readable (store_abs elems s)"
      and h: "spHeld (store_abs elems s) = {frameId f}"
      using a o by (auto simp: spec_dequeue_def waiting_readable_def split: list.splits)
    obtain B res where b: "buildFrame itm this f (brBuilder r) = Some (B, res)" "sbFrameId res = frameId f"
      "pipeline_ok (bsPipeline B)" "canAcquireWrite (bsShared B)"
      "sceneVersionId (bsShared B) =
         sceneVersionId (bsShared (brBuilder r)) + (if sbStatus res = FrameConsumed then 1 else 0)"
      by (rule built_or_failed [of itm "brBuilder r" f this]) (use i f in auto)
    let ?s1 = "others ops (snd e) s"
    have o1: "FrameStore_inv ops valid elems cap ?s1" "waiting_readable (store_abs elems ?s1)"
      "spHeld (store_abs elems ?s1) = {frameId f}"
      using others_keep [OF s _ w, of "snd e"] ok h by (simp_all add: builder_event_ok_def)
    note ack = acknowledge_keeps [OF o1(1) b(2)]
    have "waiting_readable (store_abs elems (acknowledge res ?s1))"
      "spHeld (store_abs elems (acknowledge res ?s1)) = {}"
      using ack o1 by (simp_all add: spec_complete_def waiting_readable_def)
    moreover have "builderIteration itm this ops e r = builder_recordResult res
        (r\<lparr>brStore := acknowledge res ?s1, brBuilder := B\<rparr>)"
      using d Some b(1) by (simp add: builderIteration_def)
    ultimately show ?thesis
      using ack b i by (auto simp: builder_inv_def builder_recordResult_def Let_def)
  qed
qed

interpretation br: background_runner
    "builderIteration itm this ops" "builder_inv itm ops valid elems cap" builder_event_ok
  for itm :: "('sc, 'p, 'd) itm_ops" and this and ops :: "'q ring_ops" and valid elems cap
proof unfold_locales
  fix e and r :: "('sc, 'p, 'd, 'q) BuilderRunner"
  show "rnStopRequested (builderIteration itm this ops e r) = rnStopRequested r"
    "rnRunning (builderIteration itm this ops e r) = rnRunning r"
    "rnStatusRunning (builderIteration itm this ops e r) = rnStatusRunning r"
    "rnStatusStopRequested (builderIteration itm this ops e r) = rnStatusStopRequested r"
    by (simp_all add: builderIteration_def builder_recordResult_def Let_def case_prod_beta split: option.split)
qed (rule builder_iteration_inv, assumption+, simp add: builder_inv_def)

end
