(* ===== verification/SceneBuilderProperties.thy ===== *)
theory SceneBuilderProperties
  imports SceneBuilderRunner FrameStoreProperties
begin

text \<open>
  The properties of the scene builder: what the converter writes, what a build does to the scene,
  and what the builder's loop keeps.  InfiniTAM is a parameter with its laws; the witnesses use an
  engine that counts its calls.
\<close>

section \<open>An engine and a frame for the witnesses\<close>

text \<open>The scene counts its integrations, the engine loses track on its second tracking.\<close>

definition sample_itm :: "(nat, nat, unit) itm_ops" where
  "sample_itm =
     \<lparr>itmNeon = True, itmMemoryType = MEMORYDEVICE_CPU, itmSync = (\<lambda>i v. v),
      itmNewView = (\<lambda>calib rgb dep gpu.
        \<lparr>viRgb = replicate (4 * (nat (imgWidth rgb) * nat (imgHeight rgb))) 0,
         viDepth = replicate (nat (imgWidth dep) * nat (imgHeight dep)) f32_zero,
         viConfidence = [], viDevice = ()\<rparr>),
      itmResetScene = (\<lambda>sc. 0), itmNewEngines = (\<lambda>cfg rgb dep sc. 0),
      itmTrack = (\<lambda>v p. (p + 1, p = 1)), itmProcessFrame = (\<lambda>v (p, sc). (p, sc + 1)),
      itmPrepare = (\<lambda>sc v p. p), itmInvM = (\<lambda>p. zeroPose)\<rparr>"

lemma sample_itm_laws: "itm_laws sample_itm"
  by (simp add: itm_laws_def sample_itm_def sync_law_def Let_def)

text \<open>A frame of two by two pixels: four BGRA pixels and four depths in millimetres.\<close>

definition sampleRgbdFrame :: "FrameId \<Rightarrow> Frame" where
  "sampleRgbdFrame i =
     \<lparr>frameId = i, frameTimestamp = FrameTimestamp (uint i),
      frameRgb = \<lparr>fimgSize = \<lparr>imgWidth = 2, imgHeight = 2\<rparr>, fimgStrideBytes = 8,
        fimgBuffer = \<lparr>bufData = Some (map word_of_nat [1..<17]), bufByteCount = 16, bufOwner = True\<rparr>\<rparr>,
      frameDepth = sampleImage, frameIntrinsics = frameIntrinsics (sampleFrame 1)\<rparr>"

lemma sampleRgbd_sane:
  "hasSaneImageBytes (frameRgb (sampleRgbdFrame i))" "hasSaneImageBytes (frameDepth (sampleRgbdFrame i))"
  using sampleImage_sane
  by (simp_all add: sampleRgbdFrame_def hasSaneImageBytes_def isValidSize_def kMaxSaneImageDimension_def
      FrameBuffer_empty_def)

lemma sampleRgbd_honest: "frame_honest (sampleRgbdFrame i)"
  by (simp add: frame_honest_def sampleRgbdFrame_def buffer_honest_def sampleImage_def i32_range_def)

lemma sampleRgbd_readable: "frame_readable (sampleRgbdFrame i)"
  using sampleRgbd_sane [of i] sampleRgbd_honest [of i]
  by (simp add: frame_readable_def image_readable_def frame_honest_def)

definition sampleView :: "unit ItmView" where
  "sampleView = \<lparr>viRgb = replicate 16 0, viDepth = replicate 4 f32_zero, viConfidence = [], viDevice = ()\<rparr>"

lemma sampleView_fits: "view_fits (sampleRgbdFrame i) sampleView"
  by (simp add: view_fits_def sampleRgbdFrame_def sampleView_def sampleImage_def)

section \<open>Conversion\<close>

text \<open>C21: Converting a frame into the InfiniTAM view stays inside all arrays and, with or without the
  NEON loop, gives the same result: a frame whose images differ in size or whose rows are too short
  is refused with the view untouched, and otherwise pixel (row, col) of the view holds the frame's
  blue, green and red swapped to red, green, blue with opaque alpha, and its depth in metres.\<close>

theorem conversion_is_exact:
  assumes "frame_readable f" "view_fits f v" "sync_law sync"
  shows "\<exists>v' r rgb dep. copyFrameToView neon sync memoryType f v = Some (v', r)
    \<and> bufData (fimgBuffer (frameRgb f)) = Some rgb \<and> bufData (fimgBuffer (frameDepth f)) = Some dep
    \<and> (if converted r then
         hasMatchingImageSizes f
         \<and> (\<forall>row < nat (imgHeight (fimgSize (frameRgb f))). \<forall>col < nat (imgWidth (fimgSize (frameRgb f))).
              (let w = nat (imgWidth (fimgSize (frameRgb f)));
                   i = row * nat (fimgStrideBytes (frameRgb f)) + 4 * col
               in take 4 (drop (4 * (row * w + col)) (viRgb v')) =
                    [rgb ! (i + 2), rgb ! (i + 1), rgb ! i, 0xFF]
                  \<and> viDepth v' ! (row * w + col) =
                    depthPixel dep (row * nat (fimgStrideBytes (frameDepth f)) + 2 * col)))
       else \<not> frame_convertible f \<and> v' = v)"
proof -
  obtain v' r where c: "copyFrameToView neon sync memoryType f v = Some (v', r)"
    "converted r \<longleftrightarrow> frame_convertible f"
    using copyFrameToView_result [OF assms(1,2)] by metis
  show ?thesis
  proof (cases "converted r")
    case False
    obtain rgb dep where "bufData (fimgBuffer (frameRgb f)) = Some rgb"
      "bufData (fimgBuffer (frameDepth f)) = Some dep"
      using assms(1) image_readable_bytes by (metis frame_readable_def)
    then show ?thesis using c False copyFrameToView_refused [OF c(1) False] by auto
  next
    case True
    let ?w = "nat (imgWidth (fimgSize (frameRgb f)))" and ?h = "nat (imgHeight (fimgSize (frameRgb f)))"
    have same: "fimgSize (frameDepth f) = fimgSize (frameRgb f)" "hasMatchingImageSizes f"
      using True c(2) by (simp_all add: frame_convertible_def hasMatchingImageSizes_def)
    obtain rgb dep where r: "bufData (fimgBuffer (frameRgb f)) = Some rgb"
      "bufData (fimgBuffer (frameDepth f)) = Some dep"
      "viRgb v' = rgbaImage rgb (nat (fimgStrideBytes (frameRgb f))) ?w ?h"
      "viDepth v' = depthImage dep (nat (fimgStrideBytes (frameDepth f))) ?w ?h"
      using copyFrameToView_converted [OF assms c(1) True] same by metis
    have "take 4 (drop (4 * (row * ?w + col)) (viRgb v')) =
        rgbaPixel rgb (row * nat (fimgStrideBytes (frameRgb f)) + 4 * col)"
      if "row < ?h" "col < ?w" for row col
      using that unfolding r(3) by (rule rgbaImage_chunk)
    then show ?thesis
      using c True same r depthImage_nth
      by (intro exI [of _ v'] exI [of _ r] exI [of _ rgb] exI [of _ dep]) (simp add: rgbaPixel_def Let_def)
  qed
qed

theorem conversion_is_exact_witness:
  "\<exists>v' r. copyFrameToView True (\<lambda>i v. v) MEMORYDEVICE_CPU (sampleRgbdFrame 1) sampleView = Some (v', r)
     \<and> viRgb v' = [3, 2, 1, 255, 7, 6, 5, 255, 11, 10, 9, 255, 15, 14, 13, 255] \<and> converted r"
proof -
  have "map_option (\<lambda>(v', r). (viRgb v', converted r))
      (copyFrameToView True (\<lambda>i v. v) MEMORYDEVICE_CPU (sampleRgbdFrame 1) sampleView) =
    Some ([3, 2, 1, 255, 7, 6, 5, 255, 11, 10, 9, 255, 15, 14, 13, 255], True)"
    by code_simp
  moreover have "\<exists>v' r. copyFrameToView True (\<lambda>i v. v) MEMORYDEVICE_CPU (sampleRgbdFrame 1) sampleView = Some (v', r)"
    using conversion_is_exact [OF sampleRgbd_readable sampleView_fits, of "\<lambda>i v. v" True MEMORYDEVICE_CPU 1]
    by (auto simp: sync_law_def)
  ultimately show ?thesis by auto
qed


section \<open>Building\<close>

text \<open>A builder that has built any frames: the states a build starts in.\<close>

definition SceneBuilder_new ::
    "BuilderRuntimeConfig \<Rightarrow> 'sc SharedSceneState \<Rightarrow> SceneVersionStore \<Rightarrow> ('sc, 'p, 'd) BuilderState" where
  "SceneBuilder_new config shared versions =
     \<lparr>bsPipeline = InfiniTamPipeline_new config, bsShared = shared, bsVersions = versions\<rparr>"

definition build_all ::
    "('sc, 'p, 'd) itm_ops \<Rightarrow> nat \<Rightarrow> Frame list \<Rightarrow> ('sc, 'p, 'd) BuilderState \<Rightarrow>
       ('sc, 'p, 'd) BuilderState option" where
  "build_all itm this fs B = foldo (\<lambda>f B. map_option fst (buildFrame itm this f B)) fs B"

lemma build_all_ok:
  assumes "itm_laws itm"
  shows "pipeline_ok (bsPipeline B) \<Longrightarrow> canAcquireWrite (bsShared B) \<Longrightarrow> \<forall>f \<in> set fs. frame_readable f \<Longrightarrow>
    \<exists>B'. build_all itm this fs B = Some B' \<and> pipeline_ok (bsPipeline B') \<and> canAcquireWrite (bsShared B')"
proof (induction fs arbitrary: B)
  case Nil
  then show ?case by (simp add: build_all_def)
next
  case (Cons f fs)
  have f: "frame_readable f" using Cons.prems(3) by simp
  obtain B1 res where "buildFrame itm this f B = Some (B1, res)"
    "pipeline_ok (bsPipeline B1)" "canAcquireWrite (bsShared B1)"
    by (rule built_or_failed [OF assms Cons.prems(1) f Cons.prems(2), of this])
  then show ?case using Cons.IH [of B1] Cons.prems(3) by (simp add: build_all_def)
qed

lemma trimVersions_latest: "vhLatest (trimVersions n h) = vhLatest h"
  by (induction n h rule: trimVersions.induct)
    (subst trimVersions.simps, auto simp: SceneVersionHistory_remove_def split: option.split)

lemma latest_after_add: "SceneVersionStore_latest (SceneVersionStore_add v s) = Some v"
  by (simp add: SceneVersionStore_latest_def SceneVersionStore_add_def SceneVersionHistory_latest_def
      SceneVersionHistory_add_def trimVersions_latest)

text \<open>C20: A build publishes one scene version or nothing.  After building any readable frames, building
  a readable frame returns a result for it and leaves the scene lock free; when the frame is consumed
  the scene version has advanced by one and the newest recorded version carries that version, the
  frame's id and timestamp; when it fails (conversion or lost tracking) the scene, its version and the
  recorded versions are exactly as before.\<close>

theorem build_publishes_once_or_nothing:
  assumes "itm_laws itm" "canAcquireWrite shared" "\<forall>g \<in> set fs. frame_readable g" "frame_readable f"
    and "build_all itm this fs (SceneBuilder_new config shared versions) = Some B"
  shows "\<exists>B' res. buildFrame itm this f B = Some (B', res) \<and> sbFrameId res = frameId f
    \<and> canAcquireWrite (bsShared B')
    \<and> (case sbStatus res of
         FrameConsumed \<Rightarrow>
           SharedScene_version (bsShared B') = SharedScene_version (bsShared B) + 1
           \<and> sbSceneVersionId res = Some (SharedScene_version (bsShared B'))
           \<and> (\<exists>v. SceneVersionStore_latest (bsVersions B') = Some v
                \<and> version_of_build f (SharedScene_version (bsShared B')) v)
       | FrameFailed \<Rightarrow>
           bsShared B' = bsShared B \<and> bsVersions B' = bsVersions B \<and> sbSceneVersionId res = None
           \<and> (sbFailureReason res = ViewConversionFailed \<longleftrightarrow> \<not> frame_convertible f))"
proof -
  have "pipeline_ok (bsPipeline B)" "canAcquireWrite (bsShared B)"
    using build_all_ok [OF assms(1), of "SceneBuilder_new config shared versions" fs this] assms(2,3,5)
    by (auto simp: SceneBuilder_new_def pipeline_ok_new)
  then show ?thesis
  proof (cases rule: buildFrame_outcome [OF assms(1) _ assms(4), of B this, case_names _ _ failed consumed])
    case (failed pl reason)
    then show ?thesis using \<open>canAcquireWrite (bsShared B)\<close> by (auto simp: failedBuild_def)
  next
    case (consumed pl sc version)
    then show ?thesis
      using \<open>canAcquireWrite (bsShared B)\<close>
      by (auto simp: SharedScene_version_def latest_after_add canAcquireWrite_def)
  qed
qed

definition sampleBuilder :: "(nat, nat, unit) BuilderState" where
  "sampleBuilder = SceneBuilder_new defaultBuilderConfig (SharedSceneState_new Balanced 7) (SceneVersionStore_new 4)"

theorem build_publishes_once_or_nothing_witness:
  "\<exists>B B' res. build_all sample_itm this_scene [sampleRgbdFrame 1, sampleRgbdFrame 2] sampleBuilder = Some B
     \<and> SharedScene_version (bsShared B) = 2
     \<and> buildFrame sample_itm this_scene (sampleRgbdFrame 3) B = Some (B', res)
     \<and> sbStatus res = FrameFailed \<and> SharedScene_version (bsShared B') = 2"
proof -
  let ?fs = "[sampleRgbdFrame 1, sampleRgbdFrame 2]"
  have v: "map_option (\<lambda>B. (SharedScene_version (bsShared B),
        map_option (\<lambda>(B', res). sbStatus res) (buildFrame sample_itm this_scene (sampleRgbdFrame 3) B)))
      (build_all sample_itm this_scene ?fs sampleBuilder) = Some (2, Some FrameFailed)"
    by code_simp
  then obtain B where B: "build_all sample_itm this_scene ?fs sampleBuilder = Some B"
    "SharedScene_version (bsShared B) = 2" by auto
  have "canAcquireWrite (SharedSceneState_new Balanced (7 :: nat))"
    by (simp add: canAcquireWrite_def SharedSceneState_new_def)
  from build_publishes_once_or_nothing [OF sample_itm_laws this _ sampleRgbd_readable
      B(1) [unfolded sampleBuilder_def], of 3] B v
  show ?thesis by (auto simp: sampleRgbd_readable)
qed


section \<open>The runner\<close>

text \<open>C22: The builder's loop gives every frame back exactly once.  Whatever frames with honest buffers
  other threads submit before and during the builds, and whatever the owner's calls, after each
  iteration no frame is still in flight, every attempt is counted as consumed or failed, the scene
  version is the number of consumed frames, the reported flags are the real ones, and a requested stop
  ends the loop after at most one more iteration.\<close>

theorem builder_returns_every_frame:
  assumes "itm_laws itm" "ring_laws ops valid elems cap"
    and "\<forall>e. LoopIteration e \<in> set evs \<longrightarrow> builder_event_ok e"
    and "runner_run (builderIteration itm this ops) evs
      (SceneBuilderRunner_new config (FrameStore_new ops storeConfig)
        (SharedSceneState_new policy sc) versions) = Some r"
  shows "rqInFlightFrameIds (fsQueue (brStore r)) = {}
    \<and> brBuildAttemptCount r = brConsumedFrameCount r + brFailedFrameCount r
    \<and> SharedScene_version (bsShared (brBuilder r)) = brConsumedFrameCount r
    \<and> (SceneBuilderRunner_running r \<longleftrightarrow> rnThread r \<in> {AtLoopHead, InIteration})
    \<and> rnStatusRunning r = SceneBuilderRunner_running r
    \<and> (\<exists>rest r'. length rest \<le> 2 \<and> count_list rest (LoopIteration e) \<le> 1
        \<and> set rest \<subseteq> {LoopHead, LoopIteration e}
        \<and> runner_run (builderIteration itm this ops) (OwnerRequestStop # rest @ [OwnerJoin]) r = Some r'
        \<and> rnThread r' = NoThread)"
proof -
  let ?new = "SceneBuilderRunner_new config (FrameStore_new ops storeConfig)
    (SharedSceneState_new policy sc) versions"
  have start: "flags_ok ?new" "builder_inv itm ops valid elems cap ?new"
    using assms(1) FrameStore_inv_new [OF assms(2), of storeConfig] store_abs_new [OF assms(2), of storeConfig]
    by (simp_all add: flags_ok_def SceneBuilderRunner_new_def builder_inv_def pipeline_ok_new
        waiting_readable_def spec_new_def canAcquireWrite_def SharedSceneState_new_def)
  have "\<forall>ev \<in> set evs. br.event_ok ev"
    using assms(3) by (auto simp: br.event_ok_def split: runner_event.split)
  then have inv: "flags_ok r" "builder_inv itm ops valid elems cap r"
    using br.run_inv [OF start _ assms(4)] by blast+
  then show ?thesis
    using br.stop_terminates [OF inv(1), of e itm this ops]
    by (simp add: builder_inv_def flags_ok_def store_abs_def SharedScene_version_def
        SceneBuilderRunner_running_def) blast
qed

definition sampleBuilderEvents :: "(store_call list \<times> store_call list) runner_event list" where
  "sampleBuilderEvents =
     [OwnerStart, LoopHead, LoopIteration ([CallSubmit (sampleRgbdFrame 1)], [CallSubmit (sampleRgbdFrame 2)]),
      LoopHead, LoopIteration ([], []), LoopHead]"

theorem builder_returns_every_frame_witness:
  "\<exists>r. runner_run (builderIteration sample_itm this_scene list_ring) sampleBuilderEvents
       (SceneBuilderRunner_new defaultBuilderConfig (FrameStore_new list_ring sampleConfig)
         (SharedSceneState_new Greedy 0) (SceneVersionStore_new 4)) = Some r
     \<and> brBuildAttemptCount r = 2 \<and> SharedScene_version (bsShared (brBuilder r)) = brConsumedFrameCount r"
proof -
  let ?run = "runner_run (builderIteration sample_itm this_scene list_ring) sampleBuilderEvents
       (SceneBuilderRunner_new defaultBuilderConfig (FrameStore_new list_ring sampleConfig)
         (SharedSceneState_new Greedy 0) (SceneVersionStore_new 4))"
  have "map_option brBuildAttemptCount ?run = Some 2" by code_simp
  then obtain r where r: "?run = Some r" "brBuildAttemptCount r = 2" by auto
  have ok: "\<forall>e. LoopIteration e \<in> set sampleBuilderEvents \<longrightarrow> builder_event_ok e"
    by (auto simp: sampleBuilderEvents_def builder_event_ok_def sampleRgbd_honest)
  show ?thesis
    using builder_returns_every_frame [OF sample_itm_laws list_ring_laws ok r(1)] r by blast
qed

end
