(* ===== verification/SceneViewer.thy ===== *)
theory SceneViewer
  imports ViewerStores SceneLock FrameValidator ByteLoops
begin

text \<open>
  \<open>InfiniTamViewerPipeline\<close> and \<open>SceneViewer\<close> of \<open>src/viewer/src\<close>: rendering a requested pose against
  the shared scene and publishing the result.  InfiniTAM's visualisation is a parameter over a scene
  \<open>'sc\<close> and a bundle \<open>'r\<close> of engine and render state.
\<close>

section \<open>InfiniTAM as the viewer sees it\<close>

text \<open>\<open>visNewImage\<close> and \<open>visSetFrom\<close> give the CPU bytes of the output image, four for one pixel.\<close>

record ('sc, 'r) vis_ops =
  visNewRenderState :: "'r option \<Rightarrow> ImageSize \<Rightarrow> 'sc \<Rightarrow> 'r"
  visFindVisibleBlocks :: "'sc \<Rightarrow> Pose4f \<Rightarrow> ImageSize \<times> CameraIntrinsics \<Rightarrow> 'r \<Rightarrow> 'r"
  visCreateExpectedDepths :: "'sc \<Rightarrow> Pose4f \<Rightarrow> ImageSize \<times> CameraIntrinsics \<Rightarrow> 'r \<Rightarrow> 'r"
  visRenderImage :: "'sc \<Rightarrow> Pose4f \<Rightarrow> ImageSize \<times> CameraIntrinsics \<Rightarrow> 'r \<Rightarrow> 'r"
  visNewImage :: "ImageSize \<Rightarrow> u8 list"
  visSetFrom :: "'r \<Rightarrow> u8 list \<Rightarrow> u8 list"

text \<open>An image has one element per pixel, and a copy keeps the size of its destination.\<close>

definition vis_laws :: "('sc, 'r) vis_ops \<Rightarrow> bool" where
  "vis_laws vis \<longleftrightarrow>
     (\<forall>dims. length (visNewImage vis dims) = 4 * (nat (imgWidth dims) * nat (imgHeight dims)))
     \<and> (\<forall>r img. length (visSetFrom vis r img) = length img)"

section \<open>The render pipeline\<close>

record 'r ViewerPipeline =
  vlRenderImageSize :: ImageSize
  vlHasLayout :: bool
  vlRenderState :: "'r option"
  vlOutputImage :: "u8 list option"

definition InfiniTamViewerPipeline_new :: "'r ViewerPipeline" where
  "InfiniTamViewerPipeline_new =
     \<lparr>vlRenderImageSize = \<lparr>imgWidth = 0, imgHeight = 0\<rparr>, vlHasLayout = False, vlRenderState = None,
      vlOutputImage = None\<rparr>"

definition needsLayoutReset :: "ViewerPose \<Rightarrow> 'r ViewerPipeline \<Rightarrow> bool" where
  "needsLayoutReset p vl \<longleftrightarrow> \<not> vlHasLayout vl \<or> \<not> imageSize_eq (vpImageSize p) (vlRenderImageSize vl)"

definition resetLayout ::
    "('sc, 'r) vis_ops \<Rightarrow> 'sc \<Rightarrow> ViewerPose \<Rightarrow> 'r ViewerPipeline \<Rightarrow> 'r ViewerPipeline" where
  "resetLayout vis sc p vl =
     vl\<lparr>vlRenderState := Some (visNewRenderState vis (vlRenderState vl) (vpImageSize p) sc),
        vlOutputImage := Some (visNewImage vis (vpImageSize p)),
        vlRenderImageSize := vpImageSize p, vlHasLayout := True\<rparr>"

definition viewer_makeIntrinsics :: "ViewerPose \<Rightarrow> ImageSize \<times> CameraIntrinsics" where
  "viewer_makeIntrinsics p = (vpImageSize p, vpIntrinsics p)"

text \<open>The matrix that is handed to \<open>SetInvM\<close>.\<close>

definition makePose :: "ViewerPose \<Rightarrow> Pose4f" where
  "makePose p = vpPose p"

text \<open>One iteration of the packing loop.\<close>

definition packPixel :: "u8 list \<Rightarrow> nat \<Rightarrow> u8 list \<Rightarrow> u8 list option" where
  "packPixel src i storage =
     (if 4 * i + 2 < length src \<and> 3 * i + 2 < length storage then
        Some (storage[3 * i := src ! (4 * i), 3 * i + 1 := src ! (4 * i + 1),
                      3 * i + 2 := src ! (4 * i + 2)])
      else None)"

definition makeRgbBuffer :: "'r ViewerPipeline \<Rightarrow> FrameBuffer option" where
  "makeRgbBuffer vl =
     (let pixelCount = nat (imgWidth (vlRenderImageSize vl)) * nat (imgHeight (vlRenderImageSize vl)) in
      case vlOutputImage vl of
        None \<Rightarrow> None
      | Some src \<Rightarrow>
          map_option (\<lambda>storage. \<lparr>bufData = Some storage, bufByteCount = length storage, bufOwner = True\<rparr>)
            (foldo (packPixel src) [0..<pixelCount] (replicate (pixelCount * 3) 0)))"

text \<open>\<open>clock\<close> is the reading of the steady clock after the render.\<close>

definition render ::
    "('sc, 'r) vis_ops \<Rightarrow> int \<Rightarrow> 'sc \<Rightarrow> SceneVersionId \<Rightarrow> ViewerPose \<Rightarrow> 'r ViewerPipeline \<Rightarrow>
       ('r ViewerPipeline \<times> RenderOutput) option" where
  "render vis clock sc versionId p vl =
     (let vl = (if needsLayoutReset p vl then resetLayout vis sc p vl else vl);
          pose = makePose p; intr = viewer_makeIntrinsics p
      in case (vlRenderState vl, vlOutputImage vl) of
           (Some r, Some img) \<Rightarrow>
             let r = visFindVisibleBlocks vis sc pose intr r;
                 r = visCreateExpectedDepths vis sc pose intr r;
                 r = visRenderImage vis sc pose intr r;
                 vl = vl\<lparr>vlRenderState := Some r, vlOutputImage := Some (visSetFrom vis r img)\<rparr>
             in map_option (\<lambda>buf. (vl, \<lparr>roRgb = buf, roImageSize = vpImageSize p,
                    roPoseGeneration = vpGeneration p, roSceneVersionId = versionId,
                    roRenderTimestamp = clock, roCached = False\<rparr>))
                  (makeRgbBuffer vl)
         | _ \<Rightarrow> None)"

section \<open>The viewer\<close>

definition hasValidImageSize :: "ImageSize \<Rightarrow> bool" where
  "hasValidImageSize s \<longleftrightarrow>
     imgWidth s > 0 \<and> imgHeight s > 0 \<and> imgWidth s \<le> kMaxSaneImageDimension
     \<and> imgHeight s \<le> kMaxSaneImageDimension"

definition hasValidIntrinsics :: "CameraIntrinsics \<Rightarrow> bool" where
  "hasValidIntrinsics i \<longleftrightarrow>
     f32_isfinite (intrFx i) \<and> f32_isfinite (intrFy i)
     \<and> f32_isfinite (intrCx i) \<and> f32_isfinite (intrCy i)
     \<and> f32_less f32_zero (intrFx i) \<and> f32_less f32_zero (intrFy i)
     \<and> f32_le f32_zero (intrCx i) \<and> f32_le f32_zero (intrCy i)"

record 'r ViewerState =
  vwPipeline :: "'r ViewerPipeline"
  vwOutputs :: RenderOutputStore

definition isCachedOutput :: "RenderOutput option \<Rightarrow> RenderOutput \<Rightarrow> bool" where
  "isCachedOutput latest r =
     (case latest of
        None \<Rightarrow> False
      | Some l \<Rightarrow> roPoseGeneration l = roPoseGeneration r \<and> roSceneVersionId l = roSceneVersionId r)"

text \<open>
  \<open>shared\<close> is the scene's state when the read lock is granted; the read lease is held until the
  output is published and no step of another thread changes the scene meanwhile, so it is an input.
  The outer \<open>None\<close> is undefined behaviour or a lock that is not granted, the inner one the refusal
  of a malformed request.
\<close>

definition renderPose ::
    "('sc, 'r) vis_ops \<Rightarrow> int \<Rightarrow> nat \<Rightarrow> 'sc SharedSceneState \<Rightarrow> ViewerPose \<Rightarrow> 'r ViewerState \<Rightarrow>
       ('r ViewerState \<times> RenderOutput option) option" where
  "renderPose vis clock this shared p V =
     (if \<not> hasValidImageSize (vpImageSize p) \<or> \<not> hasValidIntrinsics (vpIntrinsics p) then Some (V, None)
      else
        case attemptRead this (announceRead shared) of
          None \<Rightarrow> None
        | Some (s, lease) \<Rightarrow>
            (case (readScene (Some lease) s, readVersion (Some lease)) of
               (Inr sc, Inr versionId) \<Rightarrow>
                 (case render vis clock sc versionId p (vwPipeline V) of
                    None \<Rightarrow> None
                  | Some (vl, out) \<Rightarrow>
                      let out = out\<lparr>roCached := isCachedOutput (RenderOutputStore_latest (vwOutputs V)) out\<rparr>
                      in Some (\<lparr>vwPipeline = vl, vwOutputs = RenderOutputStore_publish out (vwOutputs V)\<rparr>,
                               Some out))
             | _ \<Rightarrow> None))"

section \<open>What a render gives\<close>

definition rgbPixels :: "u8 list \<Rightarrow> nat \<Rightarrow> u8 list" where
  "rgbPixels src n = concat (map (\<lambda>i. [src ! (4 * i), src ! (4 * i + 1), src ! (4 * i + 2)]) [0..<n])"

lemma length_rgbPixels [simp]: "length (rgbPixels src n) = n * 3"
  unfolding rgbPixels_def by (subst length_concat_const [where c = 3]) simp_all

lemma packPixel_overwrite:
  assumes "4 * i + 2 < length src" "3 * i + 2 < length storage"
  shows "packPixel src i storage =
    Some (overwrite (0 + 3 * i) [src ! (4 * i), src ! (4 * i + 1), src ! (4 * i + 2)] storage)"
proof -
  let ?new = "storage[3 * i := src ! (4 * i), 3 * i + 1 := src ! (4 * i + 1), 3 * i + 2 := src ! (4 * i + 2)]"
  have "?new = overwrite (3 * i) [src ! (4 * i), src ! (4 * i + 1), src ! (4 * i + 2)] storage"
  proof (rule nth_equalityI)
    show "length ?new = length (overwrite (3 * i) [src ! (4 * i), src ! (4 * i + 1), src ! (4 * i + 2)] storage)"
      using assms(2) by simp
    fix j
    assume "j < length ?new"
    then have j: "j < length storage" by simp
    consider "j < 3 * i" | "j = 3 * i" | "j = 3 * i + 1" | "j = 3 * i + 2" | m where "j = Suc (Suc (Suc (3 * i + m)))"
      using le_Suc_ex [of "3 * i + 3" j] by (fastforce simp: numeral_eq_Suc)
    then show "?new ! j = overwrite (3 * i) [src ! (4 * i), src ! (4 * i + 1), src ! (4 * i + 2)] storage ! j"
      using j assms(2) by cases (simp_all add: overwrite_def nth_append)
  qed
  then show ?thesis using assms by (simp add: packPixel_def)
qed

lemma makeRgbBuffer_pixels:
  assumes "vlOutputImage vl = Some src"
    and n: "n = nat (imgWidth (vlRenderImageSize vl)) * nat (imgHeight (vlRenderImageSize vl))"
    and len: "length src = 4 * n"
  shows "makeRgbBuffer vl =
    Some \<lparr>bufData = Some (rgbPixels src n), bufByteCount = n * 3, bufOwner = True\<rparr>"
proof -
  let ?px = "\<lambda>i. [src ! (4 * i), src ! (4 * i + 1), src ! (4 * i + 2)]"
  have "foldo (packPixel src) [0..<n] (replicate (n * 3) 0) =
      Some (overwrite (0 + 3 * 0) (concat (map ?px [0..<n])) (replicate (n * 3) 0))"
    by (rule foldo_overwrite) (use len in \<open>simp_all add: packPixel_overwrite\<close>)
  also have "overwrite (0 + 3 * 0) (concat (map ?px [0..<n])) (replicate (n * 3) 0) = rgbPixels src n"
    unfolding rgbPixels_def [symmetric] by (simp add: overwrite_all)
  finally show ?thesis
    using assms(1) n by (simp add: makeRgbBuffer_def Let_def)
qed

definition viewer_ok :: "'r ViewerPipeline \<Rightarrow> bool" where
  "viewer_ok vl \<longleftrightarrow>
     (vlHasLayout vl \<longrightarrow> vlRenderState vl \<noteq> None \<and> (\<exists>img. vlOutputImage vl = Some img
        \<and> length img = 4 * (nat (imgWidth (vlRenderImageSize vl)) * nat (imgHeight (vlRenderImageSize vl)))))"

lemma viewer_ok_new: "viewer_ok InfiniTamViewerPipeline_new"
  by (simp add: viewer_ok_def InfiniTamViewerPipeline_new_def)

text \<open>The bytes of an output: tightly packed RGB rows of the requested size.\<close>

definition output_for :: "ViewerPose \<Rightarrow> SceneVersionId \<Rightarrow> RenderOutput \<Rightarrow> bool" where
  "output_for p versionId r \<longleftrightarrow>
     roImageSize r = vpImageSize p \<and> roPoseGeneration r = vpGeneration p \<and> roSceneVersionId r = versionId
     \<and> hasRgb r \<and> buffer_honest (roRgb r)
     \<and> bufByteCount (roRgb r) = nat (imgWidth (vpImageSize p)) * nat (imgHeight (vpImageSize p)) * 3"

lemma render_ok:
  assumes laws: "vis_laws vis" and ok: "viewer_ok vl" and dims: "hasValidImageSize (vpImageSize p)"
  obtains vl' r where "render vis clock sc versionId p vl = Some (vl', r)" "viewer_ok vl'"
    "output_for p versionId r" "\<not> roCached r"
proof -
  let ?n = "nat (imgWidth (vpImageSize p)) * nat (imgHeight (vpImageSize p))"
  have n: "0 < ?n" using dims by (simp add: hasValidImageSize_def)
  define vl1 where "vl1 = (if needsLayoutReset p vl then resetLayout vis sc p vl else vl)"
  obtain r img where l: "vlRenderState vl1 = Some r" "vlOutputImage vl1 = Some img" "length img = 4 * ?n"
    "vlRenderImageSize vl1 = vpImageSize p" "vlHasLayout vl1"
  proof (cases "needsLayoutReset p vl")
    case True
    then show thesis using that laws by (simp add: vl1_def resetLayout_def vis_laws_def)
  next
    case False
    then have "vlHasLayout vl" "vlRenderImageSize vl = vpImageSize p"
      by (auto simp: needsLayoutReset_def imageSize_eq_def)
    then show thesis using that ok False by (auto simp: vl1_def viewer_ok_def)
  qed
  define r1 where "r1 = visRenderImage vis sc (makePose p) (viewer_makeIntrinsics p)
    (visCreateExpectedDepths vis sc (makePose p) (viewer_makeIntrinsics p)
      (visFindVisibleBlocks vis sc (makePose p) (viewer_makeIntrinsics p) r))"
  let ?vl = "vl1\<lparr>vlRenderState := Some r1, vlOutputImage := Some (visSetFrom vis r1 img)\<rparr>"
  let ?buf = "\<lparr>bufData = Some (rgbPixels (visSetFrom vis r1 img) ?n), bufByteCount = ?n * 3, bufOwner = True\<rparr>"
  let ?out = "\<lparr>roRgb = ?buf, roImageSize = vpImageSize p, roPoseGeneration = vpGeneration p,
    roSceneVersionId = versionId, roRenderTimestamp = clock, roCached = False\<rparr>"
  have "makeRgbBuffer ?vl = Some ?buf"
    using laws l by (intro makeRgbBuffer_pixels) (simp_all add: vis_laws_def)
  then have "render vis clock sc versionId p vl = Some (?vl, ?out)"
    using l(1,2) by (simp add: render_def Let_def vl1_def [symmetric] r1_def [symmetric])
  moreover have "viewer_ok ?vl" using l laws by (simp add: viewer_ok_def vis_laws_def)
  moreover have "output_for p versionId ?out"
    using n by (simp add: output_for_def hasRgb_def FrameBuffer_empty_def buffer_honest_def)
  ultimately show thesis using that by simp
qed

definition pose_valid :: "ViewerPose \<Rightarrow> bool" where
  "pose_valid p \<longleftrightarrow> hasValidImageSize (vpImageSize p) \<and> hasValidIntrinsics (vpIntrinsics p)"

lemma renderPose_outcome:
  assumes laws: "vis_laws vis" and ok: "viewer_ok (vwPipeline V)" and free: "canAcquireRead shared"
  obtains
    (refused) "\<not> pose_valid p" "renderPose vis clock this shared p V = Some (V, None)"
  | (rendered) vl r where "pose_valid p" "viewer_ok vl" "output_for p (sceneVersionId shared) r"
      "roCached r \<longleftrightarrow> isCachedOutput (RenderOutputStore_latest (vwOutputs V)) r"
      "renderPose vis clock this shared p V =
        Some (\<lparr>vwPipeline = vl, vwOutputs = RenderOutputStore_publish r (vwOutputs V)\<rparr>, Some r)"
proof (cases "pose_valid p")
  case False
  then show thesis using refused by (auto simp: pose_valid_def renderPose_def)
next
  case True
  have lock: "canAcquireRead shared" "\<not> writerActive shared"
    using free by (auto simp: canAcquireRead_def split: SceneReadPolicy.splits)
  have v: "hasValidImageSize (vpImageSize p)" "hasValidIntrinsics (vpIntrinsics p)"
    using True by (simp_all add: pose_valid_def)
  obtain vl r where r: "render vis clock (sceneContents shared) (sceneVersionId shared) p (vwPipeline V) = Some (vl, r)"
    "viewer_ok vl" "output_for p (sceneVersionId shared) r" "\<not> roCached r"
    using render_ok [OF laws ok v(1)] by metis
  let ?c = "isCachedOutput (RenderOutputStore_latest (vwOutputs V)) r"
  have same: "isCachedOutput l (r\<lparr>roCached := c\<rparr>) = isCachedOutput l r" for l c
    by (simp add: isCachedOutput_def split: option.split)
  have "renderPose vis clock this shared p V =
      Some (\<lparr>vwPipeline = vl, vwOutputs = RenderOutputStore_publish (r\<lparr>roCached := ?c\<rparr>) (vwOutputs V)\<rparr>,
        Some (r\<lparr>roCached := ?c\<rparr>))"
    using v r(1) lock
    by (simp add: renderPose_def attemptRead_def announceRead_def readScene_def readVersion_def
        requireLease_def Let_def)
  moreover have "output_for p (sceneVersionId shared) (r\<lparr>roCached := ?c\<rparr>)"
    using r(3) by (simp add: output_for_def hasRgb_def)
  ultimately show thesis using rendered [OF True r(2)] same by simp
qed

end
