(* ===== verification/SceneViewerRunner.thy ===== *)
theory SceneViewerRunner
  imports SceneViewer Config BackgroundRunner
begin

text \<open>
  \<open>SceneViewerRunner\<close> of \<open>src/viewer/src\<close>: the render loop with its two policies.  The event of an
  iteration is what other threads did meanwhile: the pose store when the iteration looks at it and
  when its wait ends, the scene when the read lock is granted, and the clock.
\<close>

datatype SceneViewerRunnerActivity = ViewerIdle | WaitingForPose | RenderedOutput

record ('r) SceneViewerRunner = Runner +
  vrConfig :: ViewerRuntimeConfig
  vrViewer :: "'r ViewerState"
  vrLoopPoseGeneration :: ViewerPoseGeneration
  vrActivity :: SceneViewerRunnerActivity
  vrRenderAttemptCount :: u64
  vrPublishedOutputCount :: u64
  vrCachedOutputCount :: u64
  vrIdleIterationCount :: u64
  vrLastPoseGeneration :: "ViewerPoseGeneration option"
  vrLastSceneVersionId :: "SceneVersionId option"
  vrLastOutputWasCached :: bool

record 'sc ViewerEvent =
  vePosesAtEntry :: ViewerPoseStore
  vePosesAtEnd :: ViewerPoseStore
  veShared :: "'sc SharedSceneState"
  veClock :: int

definition SceneViewerRunner_new :: "ViewerRuntimeConfig \<Rightarrow> RenderOutputStore \<Rightarrow> 'r SceneViewerRunner" where
  "SceneViewerRunner_new config outputs =
     \<lparr>rnStopRequested = False, rnRunning = False, rnThread = NoThread, rnStatusRunning = False,
      rnStatusStopRequested = False, vrConfig = config,
      vrViewer = \<lparr>vwPipeline = InfiniTamViewerPipeline_new, vwOutputs = outputs\<rparr>,
      vrLoopPoseGeneration = 0, vrActivity = ViewerIdle, vrRenderAttemptCount = 0,
      vrPublishedOutputCount = 0, vrCachedOutputCount = 0, vrIdleIterationCount = 0,
      vrLastPoseGeneration = None, vrLastSceneVersionId = None, vrLastOutputWasCached = False\<rparr>"

definition SceneViewerRunner_start :: "'r SceneViewerRunner \<Rightarrow> 'r SceneViewerRunner \<times> bool" where
  "SceneViewerRunner_start r = Runner_start r"

definition SceneViewerRunner_requestStop :: "'r SceneViewerRunner \<Rightarrow> 'r SceneViewerRunner" where
  "SceneViewerRunner_requestStop r = Runner_requestStop r"

definition SceneViewerRunner_join :: "'r SceneViewerRunner \<Rightarrow> 'r SceneViewerRunner option" where
  "SceneViewerRunner_join r = Runner_join r"

definition SceneViewerRunner_running :: "'r SceneViewerRunner \<Rightarrow> bool" where
  "SceneViewerRunner_running r = rnRunning r"

definition SceneViewerRunner_setRunning :: "bool \<Rightarrow> 'r SceneViewerRunner \<Rightarrow> 'r SceneViewerRunner" where
  "SceneViewerRunner_setRunning b r = Runner_setRunning b r"

definition makeLoopPeriod :: "ViewerRuntimeConfig \<Rightarrow> int" where
  "makeLoopPeriod config = max (loopPeriodMs config) 1"

definition recordIdle :: "SceneViewerRunnerActivity \<Rightarrow> 'r SceneViewerRunner \<Rightarrow> 'r SceneViewerRunner" where
  "recordIdle activity r =
     r\<lparr>vrIdleIterationCount := vrIdleIterationCount r + 1, vrActivity := activity\<rparr>"

definition recordRenderAttempt :: "ViewerPose \<Rightarrow> 'r SceneViewerRunner \<Rightarrow> 'r SceneViewerRunner" where
  "recordRenderAttempt p r =
     r\<lparr>vrRenderAttemptCount := vrRenderAttemptCount r + 1, vrLastPoseGeneration := Some (vpGeneration p)\<rparr>"

definition recordOutput :: "RenderOutput \<Rightarrow> 'r SceneViewerRunner \<Rightarrow> 'r SceneViewerRunner" where
  "recordOutput out r =
     (let r = r\<lparr>vrPublishedOutputCount := vrPublishedOutputCount r + 1\<rparr>;
          r = (if roCached out then r\<lparr>vrCachedOutputCount := vrCachedOutputCount r + 1\<rparr> else r)
      in r\<lparr>vrActivity := RenderedOutput, vrLastPoseGeneration := Some (roPoseGeneration out),
           vrLastSceneVersionId := Some (roSceneVersionId out), vrLastOutputWasCached := roCached out\<rparr>)"

text \<open>The part both policies share: attempt to render \<open>p\<close> and record what came of it.\<close>

definition renderAndRecord ::
    "('sc, 'r) vis_ops \<Rightarrow> nat \<Rightarrow> 'sc ViewerEvent \<Rightarrow> SceneViewerRunnerActivity \<Rightarrow> ViewerPose \<Rightarrow>
       'r SceneViewerRunner \<Rightarrow> 'r SceneViewerRunner" where
  "renderAndRecord vis this e idle p r =
     (let r = recordRenderAttempt p r in
      case renderPose vis (veClock e) this (veShared e) p (vrViewer r) of
        None \<Rightarrow> r
      | Some (V, None) \<Rightarrow> recordIdle idle (r\<lparr>vrViewer := V\<rparr>)
      | Some (V, Some out) \<Rightarrow>
          recordOutput out (r\<lparr>vrViewer := V, vrLoopPoseGeneration := roPoseGeneration out\<rparr>))"

definition viewerIteration ::
    "('sc, 'r) vis_ops \<Rightarrow> nat \<Rightarrow> 'sc ViewerEvent \<Rightarrow> 'r SceneViewerRunner \<Rightarrow> 'r SceneViewerRunner" where
  "viewerIteration vis this e r =
     (case loopPolicy (vrConfig r) of
        EventLoop \<Rightarrow>
          (case waitForNewer (vrLoopPoseGeneration r) (makeLoopPeriod (vrConfig r)) (vePosesAtEntry e)
              (vePosesAtEnd e) of
             None \<Rightarrow> recordIdle WaitingForPose r
           | Some p \<Rightarrow> renderAndRecord vis this e WaitingForPose p r)
      | HotLoop \<Rightarrow>
          (case ViewerPoseStore_latest (vePosesAtEntry e) of
             None \<Rightarrow> recordIdle ViewerIdle r
           | Some p \<Rightarrow> renderAndRecord vis this e ViewerIdle p r))"


section \<open>One iteration\<close>

definition viewer_event_ok :: "'sc ViewerEvent \<Rightarrow> bool" where
  "viewer_event_ok e \<longleftrightarrow> canAcquireRead (veShared e)"

abbreviation published :: "'r SceneViewerRunner \<Rightarrow> RenderOutput list" where
  "published r \<equiv> osHistory (vwOutputs (vrViewer r))"

text \<open>The output store's latest output is the newest of its history.\<close>

definition outputs_ok :: "RenderOutputStore \<Rightarrow> bool" where
  "outputs_ok s \<longleftrightarrow>
     0 < osCapacity s \<and> osLatestOutput s = (if osHistory s = [] then None else Some (last (osHistory s)))"

lemma outputs_ok_new: "outputs_ok (RenderOutputStore_new n)"
  by (simp add: outputs_ok_def RenderOutputStore_new_def)

lemma publish_outputs:
  assumes "outputs_ok s"
  shows "outputs_ok (RenderOutputStore_publish r s)"
    and "\<exists>d. osHistory (RenderOutputStore_publish r s) = drop d (osHistory s) @ [r]"
proof -
  let ?d = "Suc (length (osHistory s)) - osCapacity s"
  have d: "?d \<le> length (osHistory s)" using assms unfolding outputs_ok_def by linarith
  have h: "osHistory (RenderOutputStore_publish r s) = drop ?d (osHistory s) @ [r]"
    using d by (simp add: RenderOutputStore_publish_def trimOutputs_drop)
  then show "\<exists>d. osHistory (RenderOutputStore_publish r s) = drop d (osHistory s) @ [r]" by blast
  show "outputs_ok (RenderOutputStore_publish r s)"
    using assms h by (simp add: outputs_ok_def) (simp add: RenderOutputStore_publish_def)
qed

definition viewer_inv :: "('sc, 'r) vis_ops \<Rightarrow> 'r SceneViewerRunner \<Rightarrow> bool" where
  "viewer_inv vis r \<longleftrightarrow>
     vis_laws vis \<and> viewer_ok (vwPipeline (vrViewer r)) \<and> outputs_ok (vwOutputs (vrViewer r))
     \<and> (loopPolicy (vrConfig r) = EventLoop \<longrightarrow>
          vrCachedOutputCount r = 0
          \<and> sorted_wrt (<) (map roPoseGeneration (published r))
          \<and> (\<forall>out \<in> set (published r). roPoseGeneration out \<le> vrLoopPoseGeneration r \<and> \<not> roCached out))"

text \<open>An attempt ends in an idle iteration or in one publication.\<close>

lemma renderAndRecord_outcome:
  assumes inv: "viewer_inv vis r" and e: "viewer_event_ok e"
  obtains
    (refused) V where "vwPipeline V = vwPipeline (vrViewer r)" "vwOutputs V = vwOutputs (vrViewer r)"
      "\<not> pose_valid p"
      "renderAndRecord vis this e idle p r = recordIdle idle ((recordRenderAttempt p r)\<lparr>vrViewer := V\<rparr>)"
  | (rendered) vl out where "pose_valid p" "viewer_ok vl" "output_for p (sceneVersionId (veShared e)) out"
      "roCached out \<longleftrightarrow> isCachedOutput (RenderOutputStore_latest (vwOutputs (vrViewer r))) out"
      "renderAndRecord vis this e idle p r = recordOutput out ((recordRenderAttempt p r)\<lparr>
         vrViewer := \<lparr>vwPipeline = vl, vwOutputs = RenderOutputStore_publish out (vwOutputs (vrViewer r))\<rparr>,
         vrLoopPoseGeneration := vpGeneration p\<rparr>)"
proof -
  have laws: "vis_laws vis" and ok: "viewer_ok (vwPipeline (vrViewer r))"
    using inv by (simp_all add: viewer_inv_def)
  have same: "vrViewer (recordRenderAttempt p r) = vrViewer r" by (simp add: recordRenderAttempt_def)
  show thesis
  proof (cases rule: renderPose_outcome [OF laws ok e [unfolded viewer_event_ok_def], of p "veClock e" this,
        case_names refuse render])
    case refuse
    then show thesis using refused [of "vrViewer r"] same by (simp add: renderAndRecord_def Let_def)
  next
    case (render vl out)
    then have "roPoseGeneration out = vpGeneration p" by (simp add: output_for_def)
    then show thesis using rendered [of vl out] render same by (simp add: renderAndRecord_def Let_def)
  qed
qed

lemma viewer_inv_idle:
  "viewer_inv vis (recordIdle a r) = viewer_inv vis r"
  by (simp add: viewer_inv_def recordIdle_def)

lemma renderAndRecord_inv:
  assumes inv: "viewer_inv vis r" and e: "viewer_event_ok e"
    and newer: "loopPolicy (vrConfig r) = EventLoop \<Longrightarrow> vrLoopPoseGeneration r < vpGeneration p"
  shows "viewer_inv vis (renderAndRecord vis this e idle p r)"
proof (cases rule: renderAndRecord_outcome [OF inv e, of p this idle, case_names refused rendered])
  case (refused V)
  then have "V = vrViewer r" by simp
  then show ?thesis
    using refused(4) inv by (simp add: viewer_inv_idle) (simp add: viewer_inv_def recordRenderAttempt_def)
next
  case (rendered vl out)
  let ?s = "vwOutputs (vrViewer r)"
  have out: "outputs_ok ?s" using inv by (simp add: viewer_inv_def)
  obtain d where d: "osHistory (RenderOutputStore_publish out ?s) = drop d (osHistory ?s) @ [out]"
    using publish_outputs(2) [OF out] by blast
  have g: "roPoseGeneration out = vpGeneration p" using rendered(3) by (simp add: output_for_def)
  have event: "\<not> roCached out \<and> sorted_wrt (<) (map roPoseGeneration (drop d (osHistory ?s) @ [out]))
      \<and> (\<forall>x \<in> set (drop d (osHistory ?s)). roPoseGeneration x \<le> vpGeneration p \<and> \<not> roCached x)
      \<and> vrCachedOutputCount r = 0" if ev: "loopPolicy (vrConfig r) = EventLoop"
  proof -
    have h: "sorted_wrt (<) (map roPoseGeneration (osHistory ?s))"
      "\<forall>x \<in> set (osHistory ?s). roPoseGeneration x \<le> vrLoopPoseGeneration r \<and> \<not> roCached x"
      "vrCachedOutputCount r = 0"
      using inv ev by (simp_all add: viewer_inv_def)
    have less: "roPoseGeneration x < vpGeneration p" if "x \<in> set (osHistory ?s)" for x
      using h(2) that newer [OF ev] by (metis le_less_trans)
    have latest: "osLatestOutput ?s = Some x \<Longrightarrow> x \<in> set (osHistory ?s)" for x
      using out by (auto simp: outputs_ok_def split: if_splits)
    have "\<not> roCached out"
      using rendered(4) less latest g
      by (fastforce simp: isCachedOutput_def RenderOutputStore_latest_def split: option.splits)
    moreover have "sorted_wrt (<) (map roPoseGeneration (drop d (osHistory ?s) @ [out]))"
      using sorted_wrt_drop [OF h(1), of d] less g
      by (auto simp: sorted_wrt_append drop_map dest: in_set_dropD)
    moreover have "\<forall>x \<in> set (drop d (osHistory ?s)). roPoseGeneration x \<le> vpGeneration p \<and> \<not> roCached x"
      using h(2) less by (meson in_set_dropD less_imp_le)
    ultimately show ?thesis using h(3) by blast
  qed
  show ?thesis
    using inv event publish_outputs(1) [OF out, of out] rendered(2) d g
    by (auto simp: rendered(5) viewer_inv_def recordOutput_def recordRenderAttempt_def Let_def)
qed

lemma viewerIteration_inv:
  assumes e: "viewer_event_ok e" and inv: "viewer_inv vis r"
  shows "viewer_inv vis (viewerIteration vis this e r)"
proof (cases "loopPolicy (vrConfig r)")
  case EventLoop
  show ?thesis
  proof (cases "waitForNewer (vrLoopPoseGeneration r) (makeLoopPeriod (vrConfig r)) (vePosesAtEntry e)
      (vePosesAtEnd e)")
    case None
    then show ?thesis using EventLoop inv by (simp add: viewerIteration_def viewer_inv_idle)
  next
    case (Some p)
    then have "vrLoopPoseGeneration r < vpGeneration p"
      by (auto simp: waitForNewer_def hasNewerGeneration_def split: if_splits option.splits)
    then show ?thesis
      using Some EventLoop renderAndRecord_inv [OF inv e] by (simp add: viewerIteration_def)
  qed
next
  case HotLoop
  then show ?thesis
    using inv renderAndRecord_inv [OF inv e]
    by (auto simp: viewerIteration_def viewer_inv_idle split: option.split)
qed

text \<open>Every iteration is counted once, as a publication or as idle.\<close>

lemma viewerIteration_counts:
  assumes e: "viewer_event_ok e" and inv: "viewer_inv vis r"
  shows "vrPublishedOutputCount (viewerIteration vis this e r) + vrIdleIterationCount (viewerIteration vis this e r) =
    vrPublishedOutputCount r + vrIdleIterationCount r + 1"
proof -
  have step: "vrPublishedOutputCount (renderAndRecord vis this e idle p r)
      + vrIdleIterationCount (renderAndRecord vis this e idle p r) =
    vrPublishedOutputCount r + vrIdleIterationCount r + 1" for idle p
    by (cases rule: renderAndRecord_outcome [OF inv e, of p this idle])
      (simp_all add: recordIdle_def recordOutput_def recordRenderAttempt_def Let_def)
  show ?thesis
    using step
    by (auto simp: viewerIteration_def recordIdle_def split: ViewerLoopPolicy.split option.split)
qed

interpretation vr: background_runner "viewerIteration vis this" "viewer_inv vis" viewer_event_ok
  for vis :: "('sc, 'r) vis_ops" and this
proof unfold_locales
  fix e and r :: "'r SceneViewerRunner"
  show "rnStopRequested (viewerIteration vis this e r) = rnStopRequested r"
    "rnRunning (viewerIteration vis this e r) = rnRunning r"
    "rnStatusRunning (viewerIteration vis this e r) = rnStatusRunning r"
    "rnStatusStopRequested (viewerIteration vis this e r) = rnStatusStopRequested r"
    by (simp_all add: viewerIteration_def renderAndRecord_def recordIdle_def recordOutput_def
        recordRenderAttempt_def Let_def split: ViewerLoopPolicy.split option.split prod.split)
qed (rule viewerIteration_inv, assumption+, simp add: viewer_inv_def)

fun is_iteration :: "'e runner_event \<Rightarrow> bool" where
  "is_iteration (LoopIteration e) = True"
| "is_iteration _ = False"

lemma control_counts:
  assumes "\<not> is_iteration ev" "runner_step iter ev r = Some (r' :: 'r SceneViewerRunner)"
  shows "vrPublishedOutputCount r' + vrIdleIterationCount r' = vrPublishedOutputCount r + vrIdleIterationCount r"
    and "vrConfig r' = vrConfig r"
  using assms
  by (cases ev; auto simp: Runner_start_def Runner_requestStop_def Runner_join_def Runner_loopHead_def
      Runner_setRunning_def split: if_splits loop_thread.splits)+

lemma viewer_run_counts:
  "flags_ok r \<Longrightarrow> viewer_inv vis r \<Longrightarrow> \<forall>ev \<in> set evs. vr.event_ok ev \<Longrightarrow>
     runner_run (viewerIteration vis this) evs r = Some r' \<Longrightarrow>
     vrPublishedOutputCount r' + vrIdleIterationCount r' =
       vrPublishedOutputCount r + vrIdleIterationCount r + of_nat (length (filter is_iteration evs))"
proof (induction evs arbitrary: r)
  case (Cons ev evs)
  then obtain r1 where r1: "runner_step (viewerIteration vis this) ev r = Some r1"
    "runner_run (viewerIteration vis this) evs r1 = Some r'"
    by (auto split: option.splits)
  have inv: "flags_ok r1" "viewer_inv vis r1"
    using vr.step_inv [OF Cons.prems(1,2) _ r1(1)] Cons.prems(3) by simp_all
  have "vrPublishedOutputCount r1 + vrIdleIterationCount r1 =
      vrPublishedOutputCount r + vrIdleIterationCount r + (if is_iteration ev then 1 else 0)"
  proof (cases ev)
    case (LoopIteration e)
    then have "viewer_event_ok e" using Cons.prems(3) by (simp add: vr.event_ok_def)
    then show ?thesis
      using r1(1) viewerIteration_counts [OF _ Cons.prems(2), of e this] LoopIteration
      by (auto split: if_splits)
  qed (use control_counts(1) [OF _ r1(1)] in simp_all)
  then show ?case using Cons.IH [OF inv _ r1(2)] Cons.prems(3) by simp
qed simp

end
