(* ===== verification/SceneViewerProperties.thy ===== *)
theory SceneViewerProperties
  imports SceneViewerRunner
begin

text \<open>
  The properties of the viewer.  InfiniTAM's visualisation is a parameter with its laws; the witnesses
  render on an engine that paints every pixel with the scene's number.
\<close>

section \<open>An engine and a request for the witnesses\<close>

definition sample_vis :: "(nat, nat) vis_ops" where
  "sample_vis =
     \<lparr>visNewRenderState = (\<lambda>r dims sc. 0), visFindVisibleBlocks = (\<lambda>sc p i r. r),
      visCreateExpectedDepths = (\<lambda>sc p i r. r), visRenderImage = (\<lambda>sc p i r. sc),
      visNewImage = (\<lambda>dims. replicate (4 * (nat (imgWidth dims) * nat (imgHeight dims))) 0),
      visSetFrom = (\<lambda>r img. map (\<lambda>_. word_of_nat r) img)\<rparr>"

lemma sample_vis_laws: "vis_laws sample_vis"
  by (simp add: vis_laws_def sample_vis_def)

definition sampleRequest :: "ViewerPoseGeneration \<Rightarrow> ViewerPose" where
  "sampleRequest g =
     \<lparr>vpPose = zeroPose,
      vpIntrinsics = \<lparr>intrFx = f32_one, intrFy = f32_one, intrCx = f32_zero, intrCy = f32_zero\<rparr>,
      vpImageSize = \<lparr>imgWidth = 2, imgHeight = 1\<rparr>, vpGeneration = g\<rparr>"

definition posesWith :: "ViewerPose option \<Rightarrow> ViewerPoseStore" where
  "posesWith p = \<lparr>psLatestPose = p, psRelativeBaselinePose = None, psNextGeneration = 9\<rparr>"

definition sampleEvent :: "ViewerPose option \<Rightarrow> nat ViewerEvent" where
  "sampleEvent p =
     \<lparr>vePosesAtEntry = posesWith p, vePosesAtEnd = posesWith p,
      veShared = (SharedSceneState_new Greedy 5)\<lparr>sceneVersionId := 3\<rparr>, veClock = 0\<rparr>"

lemma sampleEvent_ok: "viewer_event_ok (sampleEvent p)"
  by (simp add: viewer_event_ok_def sampleEvent_def canAcquireRead_def SharedSceneState_new_def)

definition sampleViewerEvents :: "nat ViewerEvent runner_event list" where
  "sampleViewerEvents =
     [OwnerStart, LoopHead, LoopIteration (sampleEvent None), LoopHead,
      LoopIteration (sampleEvent (Some (sampleRequest 4))), LoopHead,
      LoopIteration (sampleEvent (Some (sampleRequest 4))), LoopHead,
      LoopIteration (sampleEvent (Some (sampleRequest 6))), LoopHead]"

definition sampleViewerStart :: "nat SceneViewerRunner" where
  "sampleViewerStart =
     SceneViewerRunner_new \<lparr>loopPolicy = EventLoop, loopPeriodMs = 5, outputHistoryCapacity = 8\<rparr>
       (RenderOutputStore_new 8)"

lemma sampleViewer_events_ok:
  "\<forall>e. LoopIteration e \<in> set sampleViewerEvents \<longrightarrow> viewer_event_ok e"
  by (auto simp: sampleViewerEvents_def sampleEvent_ok)

lemma sampleViewer_run:
  "map_option (\<lambda>r. (vrPublishedOutputCount r, vrIdleIterationCount r,
       map (\<lambda>out. (roPoseGeneration out, bufData (roRgb out))) (published r)))
     (runner_run (viewerIteration sample_vis this_scene) sampleViewerEvents sampleViewerStart) =
   Some (2, 2, [(4, Some (replicate 6 5)), (6, Some (replicate 6 5))])"
  by code_simp

section \<open>Reachable runners\<close>

lemma viewer_start:
  assumes "vis_laws vis"
  shows "flags_ok (SceneViewerRunner_new config (RenderOutputStore_new n))"
    and "viewer_inv vis (SceneViewerRunner_new config (RenderOutputStore_new n))"
  using assms outputs_ok_new [of n]
  by (simp_all add: flags_ok_def SceneViewerRunner_new_def viewer_inv_def viewer_ok_new RenderOutputStore_new_def)

lemma viewer_reached:
  assumes "vis_laws vis" "\<forall>e. LoopIteration e \<in> set evs \<longrightarrow> viewer_event_ok e"
    and "runner_run (viewerIteration vis this) evs (SceneViewerRunner_new config (RenderOutputStore_new n)) = Some r"
  shows "flags_ok r" "viewer_inv vis r" "\<forall>ev \<in> set evs. vr.event_ok ev"
proof -
  show ok: "\<forall>ev \<in> set evs. vr.event_ok ev"
    using assms(2) by (auto simp: vr.event_ok_def split: runner_event.split)
  show "flags_ok r" "viewer_inv vis r"
    using vr.run_inv [OF viewer_start [OF assms(1)] ok assms(3)] by blast+
qed


section \<open>Properties\<close>

text \<open>C23: Rendering answers the request it was given.  A runner in any reachable state that renders a
  request while it holds the scene refuses it exactly when its size or intrinsics are malformed, and
  changes nothing then; otherwise it publishes, as the latest output, tightly packed RGB bytes of the
  requested size under the request's generation and the scene version it read, marked as cached
  exactly when the previous output had the same generation and version.\<close>

theorem render_answers_request:
  assumes "vis_laws vis" "\<forall>e. LoopIteration e \<in> set evs \<longrightarrow> viewer_event_ok e"
    and "runner_run (viewerIteration vis this) evs (SceneViewerRunner_new config (RenderOutputStore_new n)) = Some r"
    and "canAcquireRead shared"
  shows "\<exists>V res. renderPose vis clock this shared p (vrViewer r) = Some (V, res)
    \<and> (case res of
         None \<Rightarrow> \<not> pose_valid p \<and> V = vrViewer r
       | Some out \<Rightarrow>
           pose_valid p \<and> output_for p (SharedScene_version shared) out
           \<and> RenderOutputStore_latest (vwOutputs V) = Some out
           \<and> roCached out = isCachedOutput (RenderOutputStore_latest (vwOutputs (vrViewer r))) out)"
proof -
  have "viewer_inv vis r" by (rule viewer_reached(2) [OF assms(1-3)])
  then have ok: "viewer_ok (vwPipeline (vrViewer r))" by (simp add: viewer_inv_def)
  show ?thesis
    by (cases rule: renderPose_outcome [OF assms(1) ok assms(4), of p clock this])
      (auto simp: SharedScene_version_def RenderOutputStore_latest_def RenderOutputStore_publish_def)
qed

theorem render_answers_request_witness:
  "\<exists>r V out. runner_run (viewerIteration sample_vis this_scene) sampleViewerEvents sampleViewerStart = Some r
     \<and> renderPose sample_vis 0 this_scene (SharedSceneState_new Greedy 9) (sampleRequest 7) (vrViewer r) = Some (V, Some out)
     \<and> bufByteCount (roRgb out) = 6"
proof -
  obtain r where r: "runner_run (viewerIteration sample_vis this_scene) sampleViewerEvents sampleViewerStart = Some r"
    using sampleViewer_run by blast
  have free: "canAcquireRead (SharedSceneState_new Greedy (9 :: nat))"
    by (simp add: canAcquireRead_def SharedSceneState_new_def)
  have "pose_valid (sampleRequest 7)" by code_simp
  then show ?thesis
    using render_answers_request [OF sample_vis_laws sampleViewer_events_ok r [unfolded sampleViewerStart_def] free,
        of 0 "sampleRequest 7"] r
    by (auto simp: output_for_def sampleRequest_def split: option.splits)
qed



text \<open>
  A malformed request keeps the event loop busy: the request stays newer than the last rendered one,
  so the wait returns at once and the next iteration attempts the same request again.
\<close>

lemma malformed_request_is_retried:
  assumes "vis_laws vis" "viewer_inv vis r" "loopPolicy (vrConfig r) = EventLoop"
    and "viewer_event_ok e" "psLatestPose (vePosesAtEntry e) = Some p"
    and "vrLoopPoseGeneration r < vpGeneration p" "\<not> pose_valid p"
  shows "vrLoopPoseGeneration (viewerIteration vis this e r) = vrLoopPoseGeneration r
    \<and> vrRenderAttemptCount (viewerIteration vis this e r) = vrRenderAttemptCount r + 1
    \<and> vrViewer (viewerIteration vis this e r) = vrViewer r"
proof -
  have "viewerIteration vis this e r = renderAndRecord vis this e WaitingForPose p r"
    using assms by (simp add: viewerIteration_def waitForNewer_def hasNewerGeneration_def)
  then show ?thesis
    using assms(7)
    by (cases rule: renderAndRecord_outcome [OF assms(2,4), of p this WaitingForPose])
      (auto simp: recordIdle_def recordRenderAttempt_def)
qed

end
