(* ===== verification/ViewerFrameDumper.thy ===== *)
theory ViewerFrameDumper
  imports ViewerStores CxxStrings
begin

text \<open>
  \<open>ViewerFrameDumper\<close> of \<open>src/app/src/runtime\<close>: a poll of the render output store writes every new
  output that differs from the one written last as a numbered PPM file, up to a limit.

  The file system is a map from paths to bytes together with the outcome \<open>FileIo\<close> of the calls that
  can fail.  Reading pixels past the memory of a buffer is undefined in C++ and \<open>None\<close> here.
\<close>

unbundle bit_operations_syntax

section \<open>Files\<close>

type_synonym Disk = "string \<rightharpoonup> u8 list"

text \<open>
  For one path: whether the file opens, whether the stream is good after the writes, and how many
  bytes at the end never reach the file (a stream buffer may fail to flush after the check).
\<close>

record FileIo =
  ioDirError :: bool
  ioOpens :: "string \<Rightarrow> bool"
  ioGood :: "string \<Rightarrow> bool"
  ioLost :: "string \<Rightarrow> nat"

definition path_append :: "string \<Rightarrow> string \<Rightarrow> string" where
  "path_append dir name =
     (if dir = [] \<or> last dir = CHR ''/'' then dir @ name else dir @ ''/'' @ name)"

text \<open>\<open>std::setw(n) << std::setfill('0')\<close>.\<close>

definition zeroPadded :: "nat \<Rightarrow> nat \<Rightarrow> string" where
  "zeroPadded n k = replicate (n - length (decimal k)) (CHR ''0'') @ decimal k"

definition makeOutputPath :: "string \<Rightarrow> nat \<Rightarrow> string" where
  "makeOutputPath outputDirectory sequence =
     path_append outputDirectory (''viewer-output-'' @ zeroPadded 4 sequence @ ''.ppm'')"

definition char_bytes :: "string \<Rightarrow> u8 list" where
  "char_bytes s = map of_char s"

section \<open>Hashes\<close>

definition kFnvOffsetBasis :: u64 where
  "kFnvOffsetBasis = 14695981039346656037"

definition kFnvPrime :: u64 where
  "kFnvPrime = 1099511628211"

definition hashBytes :: "u8 list \<Rightarrow> u64 \<Rightarrow> u64" where
  "hashBytes bytes hash = fold (\<lambda>b h. (h XOR ucast b) * kFnvPrime) bytes hash"

text \<open>The object representation of an \<open>int\<close>, least significant byte first.\<close>

definition int_bytes :: "int \<Rightarrow> u8 list" where
  "int_bytes i = map (\<lambda>k. ucast (drop_bit (8 * k) (word_of_int i :: u32))) [0..<4]"

text \<open>The \<open>size_t\<close> product: for positive dimensions of type \<open>int\<close> it cannot wrap.\<close>

definition expectedByteCount :: "ImageSize \<Rightarrow> nat" where
  "expectedByteCount s =
     unat (word_of_int (imgWidth s) * word_of_int (imgHeight s) * 3 :: u64)"

definition read_bytes :: "FrameBuffer \<Rightarrow> nat \<Rightarrow> u8 list option" where
  "read_bytes b n =
     (case bufData b of
        None \<Rightarrow> if n = 0 then Some [] else None
      | Some bytes \<Rightarrow> if n \<le> length bytes then Some (take n bytes) else None)"

definition hashOutput :: "RenderOutput \<Rightarrow> u64 option" where
  "hashOutput r =
     map_option
       (\<lambda>px. hashBytes px (hashBytes (int_bytes (imgHeight (roImageSize r)))
               (hashBytes (int_bytes (imgWidth (roImageSize r))) kFnvOffsetBasis)))
       (read_bytes (roRgb r) (expectedByteCount (roImageSize r)))"

section \<open>The dumper\<close>

record ViewerFrameDumper =
  fdConfig :: ViewerDumpConfig
  fdOutputDirectory :: string
  fdLastProcessedTimestamp :: int
  fdDumpedOutputCount :: nat
  fdSkippedDuplicateCount :: nat
  fdLastDumpedHash :: u64
  fdHasLastDumpedHash :: bool
  fdObservedNonCachedOutput :: bool

definition ViewerFrameDumper_new :: "ViewerDumpConfig \<Rightarrow> string \<Rightarrow> ViewerFrameDumper" where
  "ViewerFrameDumper_new config outputDirectory =
     \<lparr>fdConfig = (if dumpMaxFrames config = 0 then config\<lparr>dumpMaxFrames := 1\<rparr> else config),
      fdOutputDirectory = outputDirectory, fdLastProcessedTimestamp = 0, fdDumpedOutputCount = 0,
      fdSkippedDuplicateCount = 0, fdLastDumpedHash = 0, fdHasLastDumpedHash = False,
      fdObservedNonCachedOutput = False\<rparr>"

definition dumpingEnabled :: "ViewerFrameDumper \<Rightarrow> bool" where
  "dumpingEnabled d = dumpEnabled (fdConfig d)"

definition ppmHeader :: "ImageSize \<Rightarrow> string" where
  "ppmHeader s =
     ''P6'' @ [CHR 0x0A] @ to_string (imgWidth s) @ '' '' @ to_string (imgHeight s)
     @ [CHR 0x0A] @ ''255'' @ [CHR 0x0A]"

definition writeOutput ::
    "FileIo \<Rightarrow> RenderOutput \<Rightarrow> nat \<Rightarrow> string \<Rightarrow> Disk \<Rightarrow> (Disk \<times> bool) option" where
  "writeOutput io r sequence dir disk =
     (let size = roImageSize r; path = makeOutputPath dir sequence in
      if imgWidth size \<le> 0 \<or> imgHeight size \<le> 0 then Some (disk, False)
      else if bufByteCount (roRgb r) < expectedByteCount size then Some (disk, False)
      else if ioDirError io then Some (disk, False)
      else if \<not> ioOpens io path then Some (disk, False)
      else
        map_option
          (\<lambda>px. let bytes = char_bytes (ppmHeader size) @ px in
                 (disk(path \<mapsto> take (length bytes - ioLost io path) bytes), ioGood io path))
          (read_bytes (roRgb r) (expectedByteCount size)))"

definition handleOutput ::
    "FileIo \<Rightarrow> RenderOutput \<Rightarrow> ViewerFrameDumper \<Rightarrow> Disk \<Rightarrow> (ViewerFrameDumper \<times> Disk \<times> bool) option" where
  "handleOutput io r d disk =
     (let size = roImageSize r; config = fdConfig d in
      if \<not> dumpEnabled config then Some (d\<lparr>fdObservedNonCachedOutput := True\<rparr>, disk, True)
      else if fdDumpedOutputCount d \<ge> dumpMaxFrames config then Some (d, disk, True)
      else if imgWidth size \<le> 0 \<or> imgHeight size \<le> 0 then Some (d, disk, False)
      else if bufByteCount (roRgb r) < expectedByteCount size then Some (d, disk, False)
      else case hashOutput r of None \<Rightarrow> None | Some outputHash \<Rightarrow>
        if fdHasLastDumpedHash d \<and> outputHash = fdLastDumpedHash d then
          Some (d\<lparr>fdSkippedDuplicateCount := fdSkippedDuplicateCount d + 1\<rparr>, disk, True)
        else case writeOutput io r (fdDumpedOutputCount d + 1) (fdOutputDirectory d) disk of
          None \<Rightarrow> None
        | Some (disk', ok) \<Rightarrow>
            if \<not> ok then Some (d, disk', False)
            else Some (d\<lparr>fdLastDumpedHash := outputHash, fdHasLastDumpedHash := True,
                         fdDumpedOutputCount := fdDumpedOutputCount d + 1\<rparr>, disk', True))"

fun processOutputs ::
    "FileIo \<Rightarrow> RenderOutput list \<Rightarrow> ViewerFrameDumper \<Rightarrow> Disk \<Rightarrow> (ViewerFrameDumper \<times> Disk \<times> bool) option" where
  "processOutputs io [] d disk = Some (d, disk, True)"
| "processOutputs io (r # rs) d disk =
     (if roRenderTimestamp r \<le> fdLastProcessedTimestamp d then processOutputs io rs d disk
      else
        let d = d\<lparr>fdLastProcessedTimestamp := roRenderTimestamp r\<rparr> in
        if \<not> hasRgb r then processOutputs io rs d disk
        else if \<not> dumpEnabled (fdConfig d) \<and> roCached r then processOutputs io rs d disk
        else case handleOutput io r d disk of
          None \<Rightarrow> None
        | Some (d', disk', ok) \<Rightarrow>
            if \<not> ok then Some (d', disk', False) else processOutputs io rs d' disk')"

text \<open>The poll asks for \<open>std::numeric_limits<std::size_t>::max()\<close> outputs.\<close>

definition processNewOutputs ::
    "FileIo \<Rightarrow> RenderOutputStore \<Rightarrow> ViewerFrameDumper \<Rightarrow> Disk \<Rightarrow> (ViewerFrameDumper \<times> Disk \<times> bool) option" where
  "processNewOutputs io store d disk =
     processOutputs io (RenderOutputStore_recent (2 ^ 64 - 1) store) d disk"

section \<open>Waiting\<close>

definition kPollInterval :: int where
  "kPollInterval = 10"

text \<open>
  Round \<open>k\<close> reads the clock (milliseconds), polls the store and calls \<open>onTick\<close> on the caller's
  state.  \<open>None\<close> stands for undefined behaviour and for not returning.
\<close>

record dump_env =
  deClock :: "nat \<Rightarrow> int"
  deStore :: "nat \<Rightarrow> RenderOutputStore"
  deIo :: "nat \<Rightarrow> FileIo"

definition configuredOutputsSeen :: "ViewerFrameDumper \<Rightarrow> bool" where
  "configuredOutputsSeen d =
     (if dumpEnabled (fdConfig d) then fdDumpedOutputCount d \<ge> dumpMaxFrames (fdConfig d)
      else fdObservedNonCachedOutput d)"

partial_function (option) waitLoop ::
    "dump_env \<Rightarrow> (nat \<Rightarrow> ViewerFrameDumper \<Rightarrow> 't \<Rightarrow> 't) \<Rightarrow> int \<Rightarrow> nat \<Rightarrow> ViewerFrameDumper \<Rightarrow> Disk \<Rightarrow> 't
     \<Rightarrow> (ViewerFrameDumper \<times> Disk \<times> 't \<times> bool) option" where
  "waitLoop env onTick deadline k d disk t =
     (if \<not> deClock env k < deadline then Some (d, disk, t, False)
      else case processNewOutputs (deIo env k) (deStore env k) d disk of
        None \<Rightarrow> None
      | Some (d', disk', ok) \<Rightarrow>
          if \<not> ok then Some (d', disk', t, False)
          else if configuredOutputsSeen d' then Some (d', disk', onTick k d' t, True)
          else waitLoop env onTick deadline (k + 1) d' disk' (onTick k d' t))"

definition waitForConfiguredOutputs ::
    "dump_env \<Rightarrow> int \<Rightarrow> int \<Rightarrow> (nat \<Rightarrow> ViewerFrameDumper \<Rightarrow> 't \<Rightarrow> 't) \<Rightarrow> ViewerFrameDumper \<Rightarrow> Disk \<Rightarrow> 't
     \<Rightarrow> (ViewerFrameDumper \<times> Disk \<times> 't \<times> bool) option" where
  "waitForConfiguredOutputs env start timeout onTick d disk t =
     waitLoop env onTick (start + timeout) 0 d disk t"

section \<open>Byte counts\<close>

definition dumpable :: "RenderOutput \<Rightarrow> bool" where
  "dumpable r \<longleftrightarrow>
     0 < imgWidth (roImageSize r) \<and> i32_range (imgWidth (roImageSize r))
     \<and> 0 < imgHeight (roImageSize r) \<and> i32_range (imgHeight (roImageSize r))
     \<and> nat (imgWidth (roImageSize r)) * nat (imgHeight (roImageSize r)) * 3 \<le> bufByteCount (roRgb r)
     \<and> buffer_honest (roRgb r)"

lemma expectedByteCount_exact:
  assumes "0 < imgWidth s" "i32_range (imgWidth s)" "0 < imgHeight s" "i32_range (imgHeight s)"
  shows "expectedByteCount s = nat (imgWidth s) * nat (imgHeight s) * 3"
proof -
  let ?w = "imgWidth s" and ?h = "imgHeight s"
  have "?w * ?h \<le> (2 ^ 31 - 1) * (2 ^ 31 - 1)"
    using assms by (intro mult_mono) (auto simp: i32_range_def)
  then have less: "?w * ?h * 3 < 2 ^ 64" by simp
  have "(word_of_int ?w * word_of_int ?h * 3 :: u64) = word_of_int (?w * ?h * 3)" by simp
  then have "expectedByteCount s = nat (?w * ?h * 3)"
    unfolding expectedByteCount_def using assms less by (simp only: unat_u64_of_int mult_nonneg_nonneg)
  also have "\<dots> = nat ?w * nat ?h * 3" using assms by (simp add: nat_mult_distrib)
  finally show ?thesis .
qed

definition pixelBytes :: "RenderOutput \<Rightarrow> u8 list" where
  "pixelBytes r =
     take (nat (imgWidth (roImageSize r)) * nat (imgHeight (roImageSize r)) * 3) (the (bufData (roRgb r)))"

lemma dumpable_read:
  assumes "dumpable r" "hasRgb r"
  shows "read_bytes (roRgb r) (expectedByteCount (roImageSize r)) = Some (pixelBytes r)"
    and "\<not> bufByteCount (roRgb r) < expectedByteCount (roImageSize r)"
    and "length (pixelBytes r) = nat (imgWidth (roImageSize r)) * nat (imgHeight (roImageSize r)) * 3"
proof -
  have n: "expectedByteCount (roImageSize r) =
      nat (imgWidth (roImageSize r)) * nat (imgHeight (roImageSize r)) * 3"
    using assms(1) by (intro expectedByteCount_exact) (simp_all add: dumpable_def)
  obtain bytes where b: "bufData (roRgb r) = Some bytes"
    using assms(2) by (auto simp: hasRgb_def FrameBuffer_empty_def)
  then have "bufByteCount (roRgb r) \<le> length bytes"
    using assms(1) by (simp add: dumpable_def buffer_honest_def)
  with assms(1) b n show "read_bytes (roRgb r) (expectedByteCount (roImageSize r)) = Some (pixelBytes r)"
    "length (pixelBytes r) = nat (imgWidth (roImageSize r)) * nat (imgHeight (roImageSize r)) * 3"
    by (simp_all add: read_bytes_def pixelBytes_def dumpable_def)
  show "\<not> bufByteCount (roRgb r) < expectedByteCount (roImageSize r)"
    using assms(1) n by (simp add: dumpable_def)
qed

end
