(* ===== verification/ViewerFrameDumperProofs.thy ===== *)
theory ViewerFrameDumperProofs
  imports ViewerFrameDumper
begin

text \<open>
  What one pass of the dumper does, against a reference: the outputs with pixels, without those
  whose hash repeats the previous one, written one after the other until the limit is reached.
\<close>

section \<open>File names\<close>

lemma decimal_value_zeros: "decimal_value (replicate n (CHR ''0'') @ s) = decimal_value s"
proof -
  have "foldl (\<lambda>n c. 10 * n + digit_value c) 0 (replicate n (CHR ''0'')) = 0"
    by (induction n) (simp_all add: digit_value_def)
  then show ?thesis by (simp add: decimal_value_def)
qed

lemma zeroPadded_value [simp]: "decimal_value (zeroPadded n k) = k"
  by (simp add: zeroPadded_def decimal_value_zeros)

lemma zeroPadded_inject [simp]: "zeroPadded n j = zeroPadded n k \<longleftrightarrow> j = k"
  by (metis zeroPadded_value)

lemma path_append_inject [simp]: "path_append dir a = path_append dir b \<longleftrightarrow> a = b"
  by (simp add: path_append_def)

lemma makeOutputPath_inject [simp]: "makeOutputPath dir j = makeOutputPath dir k \<longleftrightarrow> j = k"
  by (simp add: makeOutputPath_def)

section \<open>The reference\<close>

definition outputHash :: "RenderOutput \<Rightarrow> u64" where
  "outputHash r = the (hashOutput r)"

fun distinctRuns :: "u64 option \<Rightarrow> RenderOutput list \<Rightarrow> RenderOutput list" where
  "distinctRuns h [] = []"
| "distinctRuns h (r # rs) =
     (if h = Some (outputHash r) then distinctRuns h rs else r # distinctRuns (Some (outputHash r)) rs)"

definition ppmFile :: "RenderOutput \<Rightarrow> u8 list" where
  "ppmFile r = char_bytes (ppmHeader (roImageSize r)) @ pixelBytes r"

fun storeFrames :: "string \<Rightarrow> nat \<Rightarrow> RenderOutput list \<Rightarrow> Disk \<Rightarrow> Disk" where
  "storeFrames dir n [] disk = disk"
| "storeFrames dir n (r # rs) disk =
     storeFrames dir (n + 1) rs (disk(makeOutputPath dir (n + 1) \<mapsto> ppmFile r))"

definition runEnd :: "u64 option \<Rightarrow> RenderOutput list \<Rightarrow> u64 option" where
  "runEnd h rs = (if rs = [] then h else Some (outputHash (last rs)))"

lemma runEnd_simps [simp]:
  "runEnd h [] = h" "runEnd h (r # rs) = runEnd (Some (outputHash r)) rs"
  by (simp_all add: runEnd_def)

lemma distinctRuns_append:
  "distinctRuns h (xs @ ys) = distinctRuns h xs @ distinctRuns (runEnd h xs) ys"
  by (induction xs arbitrary: h) auto

lemma runEnd_distinctRuns: "runEnd h (distinctRuns h xs) = runEnd h xs"
  by (induction xs arbitrary: h) auto

lemma distinctRuns_remdups_adj:
  "map outputHash (distinctRuns None rs) = remdups_adj (map outputHash rs)"
proof -
  have tl: "map outputHash (distinctRuns (Some h) rs) = tl (remdups_adj (h # map outputHash rs))" for h rs
    by (induction rs arbitrary: h) simp_all
  have hd: "h # tl (remdups_adj (h # hs)) = remdups_adj (h # hs)" for h :: u64 and hs
    by (simp add: remdups_adj_Cons split: list.split)
  show ?thesis
  proof (cases rs)
    case (Cons r rs')
    then show ?thesis by (simp only: distinctRuns.simps) (simp add: tl hd)
  qed simp
qed

lemma storeFrames_append:
  "storeFrames dir n (xs @ ys) disk = storeFrames dir (n + length xs) ys (storeFrames dir n xs disk)"
  by (induction xs arbitrary: n disk) simp_all

lemma storeFrames_other:
  "(\<And>i. i < length rs \<Longrightarrow> p \<noteq> makeOutputPath dir (n + i + 1)) \<Longrightarrow> storeFrames dir n rs disk p = disk p"
proof (induction rs arbitrary: n disk)
  case (Cons r rs)
  have "storeFrames dir (n + 1) rs (disk(makeOutputPath dir (n + 1) \<mapsto> ppmFile r)) p =
      (disk(makeOutputPath dir (n + 1) \<mapsto> ppmFile r)) p"
  proof (rule Cons.IH)
    show "p \<noteq> makeOutputPath dir (n + 1 + i + 1)" if "i < length rs" for i
      using Cons.prems [of "Suc i"] that by simp
  qed
  then show ?case using Cons.prems [of 0] by simp
qed simp

lemma storeFrames_nth:
  "i < length rs \<Longrightarrow> storeFrames dir n rs disk (makeOutputPath dir (n + i + 1)) = Some (ppmFile (rs ! i))"
proof (induction rs arbitrary: n disk i)
  case (Cons r rs)
  show ?case
  proof (cases i)
    case 0
    have "storeFrames dir (n + 1) rs (disk(makeOutputPath dir (n + 1) \<mapsto> ppmFile r)) (makeOutputPath dir (n + 1)) =
        (disk(makeOutputPath dir (n + 1) \<mapsto> ppmFile r)) (makeOutputPath dir (n + 1))"
      by (rule storeFrames_other) simp
    then show ?thesis using 0 by simp
  next
    case (Suc j)
    then show ?thesis using Cons.IH [of j "n + 1"] Cons.prems by simp
  qed
qed simp

section \<open>One pass\<close>

definition lastHash :: "ViewerFrameDumper \<Rightarrow> u64 option" where
  "lastHash d = (if fdHasLastDumpedHash d then Some (fdLastDumpedHash d) else None)"

definition io_good :: "FileIo \<Rightarrow> bool" where
  "io_good io \<longleftrightarrow> \<not> ioDirError io \<and> (\<forall>p. ioOpens io p \<and> ioGood io p \<and> ioLost io p = 0)"

definition framesLeft :: "ViewerFrameDumper \<Rightarrow> nat" where
  "framesLeft d = dumpMaxFrames (fdConfig d) - fdDumpedOutputCount d"

lemma hashOutput_dumpable: "dumpable r \<Longrightarrow> hasRgb r \<Longrightarrow> hashOutput r = Some (outputHash r)"
  by (simp add: hashOutput_def outputHash_def dumpable_read)

lemma handleOutput_full:
  "dumpingEnabled d \<Longrightarrow> framesLeft d = 0 \<Longrightarrow> handleOutput io r d disk = Some (d, disk, True)"
  by (simp add: handleOutput_def Let_def dumpingEnabled_def framesLeft_def)

lemma handleOutput_repeat:
  assumes "dumpingEnabled d" "framesLeft d \<noteq> 0" "dumpable r" "hasRgb r" "lastHash d = Some (outputHash r)"
  shows "handleOutput io r d disk =
    Some (d\<lparr>fdSkippedDuplicateCount := fdSkippedDuplicateCount d + 1\<rparr>, disk, True)"
  using assms dumpable_read [OF assms(3,4)] hashOutput_dumpable [OF assms(3,4)]
  by (simp add: handleOutput_def Let_def dumpingEnabled_def framesLeft_def lastHash_def dumpable_def
      split: if_splits)

lemma handleOutput_fresh:
  assumes "dumpingEnabled d" "framesLeft d \<noteq> 0" "dumpable r" "hasRgb r" "lastHash d \<noteq> Some (outputHash r)"
    "io_good io"
  shows "handleOutput io r d disk =
    Some (d\<lparr>fdLastDumpedHash := outputHash r, fdHasLastDumpedHash := True,
            fdDumpedOutputCount := fdDumpedOutputCount d + 1\<rparr>,
          disk(makeOutputPath (fdOutputDirectory d) (fdDumpedOutputCount d + 1) \<mapsto> ppmFile r), True)"
proof -
  note read = dumpable_read [OF assms(3,4)] and hash = hashOutput_dumpable [OF assms(3,4)]
  have wr: "writeOutput io r n dir disk = Some (disk(makeOutputPath dir n \<mapsto> ppmFile r), True)" for n dir
    using assms(3,6) read by (simp add: writeOutput_def Let_def io_good_def ppmFile_def dumpable_def)
  have new: "\<not> (fdHasLastDumpedHash d \<and> outputHash r = fdLastDumpedHash d)"
    using assms(5) by (auto simp: lastHash_def)
  show ?thesis
    using assms(1-4) read hash wr new
    by (auto simp: handleOutput_def Let_def dumpingEnabled_def framesLeft_def dumpable_def)
qed

text \<open>What a pass leaves: the state that follows from the frames \<open>fs\<close> it wrote.\<close>

definition passed :: "ViewerFrameDumper \<Rightarrow> RenderOutput list \<Rightarrow> int \<Rightarrow> ViewerFrameDumper \<Rightarrow> bool" where
  "passed d fs ts d' \<longleftrightarrow>
     fdConfig d' = fdConfig d \<and> fdOutputDirectory d' = fdOutputDirectory d
     \<and> fdDumpedOutputCount d' = fdDumpedOutputCount d + length fs
     \<and> lastHash d' = runEnd (lastHash d) fs \<and> fdLastProcessedTimestamp d' = ts"

lemma passed_nil: "passed d [] (fdLastProcessedTimestamp d) d"
  by (simp add: passed_def)

lemma passed_trans: "passed d fs ts d1 \<Longrightarrow> passed d1 gs ts' d2 \<Longrightarrow> passed d (fs @ gs) ts' d2"
  by (auto simp: passed_def runEnd_def)

lemma pass_step:
  assumes "dumpingEnabled d" "io_good io" "hasRgb r" "dumpable r"
  obtains d1 disk1 fs where "handleOutput io r d disk = Some (d1, disk1, True)"
    "disk1 = storeFrames (fdOutputDirectory d) (fdDumpedOutputCount d) fs disk"
    "passed d fs (fdLastProcessedTimestamp d) d1"
    "\<And>rs. take (framesLeft d) (distinctRuns (lastHash d) (r # rs)) =
       fs @ take (framesLeft d1) (distinctRuns (lastHash d1) rs)"
proof -
  consider (full) "framesLeft d = 0"
    | (repeated) "framesLeft d \<noteq> 0" "lastHash d = Some (outputHash r)"
    | (fresh) "framesLeft d \<noteq> 0" "lastHash d \<noteq> Some (outputHash r)" by blast
  then show thesis
  proof cases
    case full
    show ?thesis
      by (rule that [OF handleOutput_full [OF assms(1) full], where fs = "[]"])
        (simp_all add: full passed_nil)
  next
    case repeated
    have same: "lastHash (d\<lparr>fdSkippedDuplicateCount := n\<rparr>) = lastHash d"
      "framesLeft (d\<lparr>fdSkippedDuplicateCount := n\<rparr>) = framesLeft d" for n
      by (simp_all add: lastHash_def framesLeft_def)
    show ?thesis
      by (rule that [OF handleOutput_repeat [OF assms(1) repeated(1) assms(4,3) repeated(2)], where fs = "[]"])
        (simp_all add: same passed_def repeated(2))
  next
    case fresh
    let ?d1 = "d\<lparr>fdLastDumpedHash := outputHash r, fdHasLastDumpedHash := True,
        fdDumpedOutputCount := fdDumpedOutputCount d + 1\<rparr>"
    define d1 where "d1 = ?d1"
    have l: "lastHash d1 = Some (outputHash r)" "framesLeft d = Suc (framesLeft d1)"
      "passed d [r] (fdLastProcessedTimestamp d) d1"
      using fresh(1) by (simp_all add: d1_def lastHash_def framesLeft_def passed_def)
    show ?thesis
      by (rule that [OF handleOutput_fresh [OF assms(1) fresh(1) assms(4,3) fresh(2) assms(2),
              folded d1_def], where fs = "[r]"])
        (simp_all add: l fresh(2))
  qed
qed

lemma processOutputs_pass:
  assumes "dumpingEnabled d" "io_good io" "\<forall>r \<in> set rs. hasRgb r \<longrightarrow> dumpable r"
    "sorted_wrt (<) (fdLastProcessedTimestamp d # map roRenderTimestamp rs)"
  shows "\<exists>d'. processOutputs io rs d disk =
      Some (d', storeFrames (fdOutputDirectory d) (fdDumpedOutputCount d)
        (take (framesLeft d) (distinctRuns (lastHash d) (filter hasRgb rs))) disk, True)
    \<and> passed d (take (framesLeft d) (distinctRuns (lastHash d) (filter hasRgb rs)))
        (last (fdLastProcessedTimestamp d # map roRenderTimestamp rs)) d'"
  using assms
proof (induction rs arbitrary: d disk)
  case Nil
  then show ?case by (simp add: passed_nil)
next
  case (Cons r rs)
  let ?d = "d\<lparr>fdLastProcessedTimestamp := roRenderTimestamp r\<rparr>"
  have en: "dumpEnabled (fdConfig d)" "dumpingEnabled ?d"
    using Cons.prems(1) by (simp_all add: dumpingEnabled_def)
  have new: "\<not> roRenderTimestamp r \<le> fdLastProcessedTimestamp d" using Cons.prems(4) by auto
  have same: "lastHash ?d = lastHash d" "framesLeft ?d = framesLeft d"
    by (simp_all add: lastHash_def framesLeft_def)
  have lst: "last (fdLastProcessedTimestamp d # map roRenderTimestamp (r # rs)) =
      last (roRenderTimestamp r # map roRenderTimestamp rs)" by simp
  show ?case
  proof (cases "hasRgb r")
    case False
    have "processOutputs io (r # rs) d disk = processOutputs io rs ?d disk"
      using new False by (simp add: Let_def)
    moreover have "sorted_wrt (<) (fdLastProcessedTimestamp ?d # map roRenderTimestamp rs)"
      using Cons.prems(4) by simp
    note Cons.IH [OF en(2) Cons.prems(2) _ this, of disk]
    ultimately show ?thesis
      using False Cons.prems(3) by (simp add: same passed_def)
  next
    case True
    have dump: "dumpable r" using Cons.prems(3) True by simp
    obtain d1 disk1 fs where h: "handleOutput io r ?d disk = Some (d1, disk1, True)"
      "disk1 = storeFrames (fdOutputDirectory ?d) (fdDumpedOutputCount ?d) fs disk"
      "passed ?d fs (fdLastProcessedTimestamp ?d) d1"
      "\<And>rs. take (framesLeft ?d) (distinctRuns (lastHash ?d) (r # rs)) =
         fs @ take (framesLeft d1) (distinctRuns (lastHash d1) rs)"
      using pass_step [OF en(2) Cons.prems(2) True dump] by metis
    have d1: "fdOutputDirectory d1 = fdOutputDirectory d" "dumpingEnabled d1"
      "fdDumpedOutputCount d1 = fdDumpedOutputCount d + length fs"
      "fdLastProcessedTimestamp d1 = roRenderTimestamp r"
      using h(3) en(1) by (simp_all add: passed_def dumpingEnabled_def)
    have "processOutputs io (r # rs) d disk = processOutputs io rs d1 disk1"
      using new True en(1) h(1) by (simp add: Let_def)
    moreover have "sorted_wrt (<) (fdLastProcessedTimestamp d1 # map roRenderTimestamp rs)"
      using Cons.prems(4) d1(4) by simp
    note ih = Cons.IH [OF d1(2) Cons.prems(2) _ this, of disk1]
    moreover have d: "passed d fs (roRenderTimestamp r) d1"
      using h(3) same by (simp add: passed_def)
    moreover have "take (framesLeft d) (distinctRuns (lastHash d) (filter hasRgb (r # rs))) =
        fs @ take (framesLeft d1) (distinctRuns (lastHash d1) (filter hasRgb rs))"
      using h(4) [of "filter hasRgb rs"] True by (simp only: same filter.simps if_True)
    ultimately show ?thesis
      using Cons.prems(3) passed_trans [OF d] by (auto simp: lst d1 h(2) storeFrames_append)
  qed
qed

text \<open>Outputs that an earlier poll has processed are passed over.\<close>

lemma processOutputs_skip:
  "\<forall>r \<in> set xs. roRenderTimestamp r \<le> fdLastProcessedTimestamp d \<Longrightarrow>
     processOutputs io (xs @ ys) d disk = processOutputs io ys d disk"
  by (induction xs) simp_all

end
