(* ===== verification/ViewerFrameDumperProperties.thy ===== *)
theory ViewerFrameDumperProperties
  imports ViewerFrameDumperProofs
begin

text \<open>
  The dumper's promises: the file it writes decodes to the pixels that were rendered, waiting for
  the configured outputs ends, and what has been written then is the sequence of distinct outputs.
\<close>

section \<open>Waiting ends\<close>

text \<open>A buffer that claims no more than it has, with dimensions of type \<open>int\<close>.\<close>

definition render_honest :: "RenderOutput \<Rightarrow> bool" where
  "render_honest r \<longleftrightarrow>
     i32_range (imgWidth (roImageSize r)) \<and> i32_range (imgHeight (roImageSize r))
     \<and> buffer_honest (roRgb r)"

definition store_honest :: "RenderOutputStore \<Rightarrow> bool" where
  "store_honest s \<longleftrightarrow> list_all render_honest (osHistory s)"

text \<open>\<open>sleep_for\<close> sleeps at least as long as it is told to.\<close>

definition clock_sleeps :: "(nat \<Rightarrow> int) \<Rightarrow> bool" where
  "clock_sleeps clock \<longleftrightarrow> (\<forall>k. clock k + kPollInterval \<le> clock (k + 1))"

lemma handleOutput_total:
  assumes "hasRgb r" "render_honest r"
  shows "handleOutput io r d disk \<noteq> None"
proof (cases "imgWidth (roImageSize r) \<le> 0 \<or> imgHeight (roImageSize r) \<le> 0
    \<or> bufByteCount (roRgb r) < expectedByteCount (roImageSize r)")
  case True
  then show ?thesis by (auto simp: handleOutput_def Let_def)
next
  case False
  then have "expectedByteCount (roImageSize r) =
      nat (imgWidth (roImageSize r)) * nat (imgHeight (roImageSize r)) * 3"
    using assms(2) by (intro expectedByteCount_exact) (simp_all add: render_honest_def)
  with False have "dumpable r" using assms(2) by (simp add: dumpable_def render_honest_def)
  from dumpable_read [OF this assms(1)] hashOutput_dumpable [OF this assms(1)]
  show ?thesis by (auto simp: handleOutput_def writeOutput_def Let_def)
qed

lemma processOutputs_total:
  "list_all render_honest rs \<Longrightarrow> processOutputs io rs d disk \<noteq> None"
proof (induction rs arbitrary: d disk)
  case (Cons r rs)
  have h: "handleOutput io r d disk = None \<longleftrightarrow> False" if "hasRgb r" for d disk
    using Cons.prems that handleOutput_total by simp
  show ?case using Cons by (auto simp: h Let_def split: option.split)
qed simp

lemma processNewOutputs_total: "store_honest s \<Longrightarrow> processNewOutputs io s d disk \<noteq> None"
  unfolding processNewOutputs_def store_honest_def recent_drop
  by (rule processOutputs_total) (auto simp: list_all_iff dest: in_set_dropD)

text \<open>The loop from round \<open>k\<close> on: it returns, and a tick that counts is called once per round.\<close>

lemma waitLoop_returns:
  assumes clock: "clock_sleeps (deClock env)" and store: "\<forall>k. store_honest (deStore env k)"
  shows "waitLoop env onTick deadline k d disk t \<noteq> None"
proof (induction "nat (deadline - deClock env k)" arbitrary: k d disk t rule: less_induct)
  case less
  show ?case
  proof (cases "deClock env k < deadline")
    case False
    then show ?thesis by (subst waitLoop.simps) simp
  next
    case True
    have "deClock env k + 10 \<le> deClock env (k + 1)"
      using clock by (simp add: clock_sleeps_def kPollInterval_def)
    with True have "nat (deadline - deClock env (k + 1)) < nat (deadline - deClock env k)" by linarith
    note rest = less.hyps [OF this]
    obtain d' disk' ok where p: "processNewOutputs (deIo env k) (deStore env k) d disk = Some (d', disk', ok)"
      using processNewOutputs_total store by fastforce
    show ?thesis
      by (subst waitLoop.simps) (use rest p True in \<open>simp del: not_None_eq split: if_split\<close>)
  qed
qed

lemma waitLoop_ticks:
  assumes clock: "clock_sleeps (deClock env)"
    and "waitLoop env (\<lambda>_ _ n. n + 1) deadline k d disk n = Some (d', disk', n', ok)"
  shows "n' = n \<or> n < n' \<and> deClock env k + 10 * int (n' - n - 1) < deadline"
  using assms(2)
proof (induction "nat (deadline - deClock env k)" arbitrary: k d disk n rule: less_induct)
  case less
  show ?case
  proof (cases "deClock env k < deadline")
    case False
    then show ?thesis using less.prems by (subst (asm) waitLoop.simps) simp
  next
    case True
    have step: "deClock env k + 10 \<le> deClock env (k + 1)"
      using clock by (simp add: clock_sleeps_def kPollInterval_def)
    with True have dec: "nat (deadline - deClock env (k + 1)) < nat (deadline - deClock env k)" by linarith
    obtain d1 disk1 ok1 where p: "processNewOutputs (deIo env k) (deStore env k) d disk = Some (d1, disk1, ok1)"
      using less.prems True by (subst (asm) waitLoop.simps) (auto split: option.splits)
    consider "n' = n" | "n' = n + 1"
      | "waitLoop env (\<lambda>_ _ n. n + 1) deadline (k + 1) d1 disk1 (n + 1) = Some (d', disk', n', ok)"
      using less.prems True p by (subst (asm) waitLoop.simps) (auto split: if_splits)
    then show ?thesis
    proof cases
      case 3
      from less.hyps [OF dec this] show ?thesis using True step by auto
    qed (use True in simp_all)
  qed
qed

text \<open>C26: Waiting for the configured outputs ends: whatever the store publishes, whatever the file
  system answers and whatever the caller does on a tick, the loop returns, without reading past a
  buffer, and it has made at most one round for each ten milliseconds of the timeout.\<close>

theorem dump_wait_terminates:
  assumes "clock_sleeps (deClock env)" "\<forall>k. store_honest (deStore env k)" "start \<le> deClock env 0"
  shows "waitForConfiguredOutputs env start timeout onTick d disk t \<noteq> None
    \<and> (\<exists>d' disk' rounds ok.
         waitForConfiguredOutputs env start timeout (\<lambda>_ _ n. n + 1) d disk 0 = Some (d', disk', rounds, ok)
         \<and> (rounds = 0 \<or> 10 * (int rounds - 1) < timeout))"
proof -
  obtain d' disk' rounds ok where
    w: "waitForConfiguredOutputs env start timeout (\<lambda>_ _ n. n + 1) d disk (0 :: nat) = Some (d', disk', rounds, ok)"
    using waitLoop_returns [OF assms(1,2), of "\<lambda>_ _ n. n + 1" "start + timeout" 0 d disk "0 :: nat"]
    unfolding waitForConfiguredOutputs_def by (metis not_None_eq prod.collapse)
  have "rounds = 0 \<or> 10 * (int rounds - 1) < timeout"
    using waitLoop_ticks [OF assms(1) w [unfolded waitForConfiguredOutputs_def]] assms(3) by auto
  moreover have "waitForConfiguredOutputs env start timeout onTick d disk t \<noteq> None"
    unfolding waitForConfiguredOutputs_def by (rule waitLoop_returns [OF assms(1,2)])
  ultimately show ?thesis using w by blast
qed

section \<open>What has been written\<close>

text \<open>
  The store as the rounds see it: the publications grow from poll to poll by batches that fit into
  the store, with increasing positive render timestamps.
\<close>

definition published :: "(nat \<Rightarrow> RenderOutput list) \<Rightarrow> nat \<Rightarrow> RenderOutput list" where
  "published batch k = concat (map batch [0..<k])"

definition batches_ok :: "nat \<Rightarrow> (nat \<Rightarrow> RenderOutput list) \<Rightarrow> bool" where
  "batches_ok capacity batch \<longleftrightarrow>
     capacity < 2 ^ 64
     \<and> (\<forall>k. length (batch k) \<le> max 1 capacity
        \<and> sorted_wrt (<) (0 # map roRenderTimestamp (published batch k))
        \<and> (\<forall>r \<in> set (batch k). hasRgb r \<longrightarrow> dumpable r))"

definition expectedFrames :: "ViewerDumpConfig \<Rightarrow> (nat \<Rightarrow> RenderOutput list) \<Rightarrow> nat \<Rightarrow> RenderOutput list" where
  "expectedFrames config batch k =
     take (max 1 (dumpMaxFrames config)) (distinctRuns None (filter hasRgb (published batch k)))"

definition lastPublishedAt :: "(nat \<Rightarrow> RenderOutput list) \<Rightarrow> nat \<Rightarrow> int" where
  "lastPublishedAt batch k = last (0 # map roRenderTimestamp (published batch k))"

lemma published_Suc: "published batch (Suc k) = published batch k @ batch k"
  by (simp add: published_def)

lemma sorted_last:
  "sorted_wrt (<) (ts :: int list) \<Longrightarrow> t \<in> set ts \<Longrightarrow> t \<le> last ts"
  by (induction ts) (auto intro: less_imp_le)

text \<open>The poll of round \<open>k\<close> handles exactly the outputs of its batch.\<close>

lemma poll_batch:
  assumes "batches_ok capacity batch" "fdLastProcessedTimestamp d = lastPublishedAt batch k"
  shows "processNewOutputs io (storeOutputs capacity (published batch (Suc k))) d disk =
      processOutputs io (batch k) d disk"
proof -
  let ?old = "published batch k" and ?h = "osHistory (storeOutputs capacity (published batch (Suc k)))"
  have len: "length (batch k) \<le> max 1 capacity" "capacity < 2 ^ 64"
    using assms(1) by (simp_all add: batches_ok_def)
  have h: "?h = drop (length (?old @ batch k) - max 1 capacity) (?old @ batch k)"
    by (simp add: storeOutputs_window published_Suc)
  have "length ?h \<le> max 1 capacity" by (simp add: h)
  then have "length ?h \<le> 2 ^ 64 - 1" using len(2) by simp
  then have "RenderOutputStore_recent (2 ^ 64 - 1) (storeOutputs capacity (published batch (Suc k))) = ?h"
    unfolding recent_drop by (simp only: diff_is_0_eq' drop_0)
  moreover have "?h = drop (length (?old @ batch k) - max 1 capacity) ?old @ batch k"
    using len(1) by (simp add: h)
  moreover have "\<forall>r \<in> set (drop (length (?old @ batch k) - max 1 capacity) ?old).
      roRenderTimestamp r \<le> fdLastProcessedTimestamp d"
  proof -
    have "sorted_wrt (<) (0 # map roRenderTimestamp ?old)" using assms(1) unfolding batches_ok_def by blast
    then have "\<forall>r \<in> set ?old. roRenderTimestamp r \<le> lastPublishedAt batch k"
      unfolding lastPublishedAt_def by (intro ballI sorted_last) auto
    then show ?thesis using assms(2) by (auto dest: in_set_dropD)
  qed
  ultimately show ?thesis by (simp add: processNewOutputs_def processOutputs_skip)
qed

lemma expectedFrames_Suc:
  fixes config batch k
  defines "fs \<equiv> expectedFrames config batch k"
  shows "expectedFrames config batch (Suc k) =
    fs @ take (max 1 (dumpMaxFrames config) - length fs)
      (distinctRuns (runEnd None fs) (filter hasRgb (batch k)))"
proof -
  let ?n = "max 1 (dumpMaxFrames config)" and ?old = "filter hasRgb (published batch k)"
  have all: "expectedFrames config batch (Suc k) =
      take ?n (distinctRuns None ?old @ distinctRuns (runEnd None ?old) (filter hasRgb (batch k)))"
    by (simp add: expectedFrames_def published_Suc distinctRuns_append)
  show ?thesis
  proof (cases "length (distinctRuns None ?old) \<le> ?n")
    case True
    then have "fs = distinctRuns None ?old" by (simp add: fs_def expectedFrames_def)
    then show ?thesis using True by (simp add: all runEnd_distinctRuns)
  next
    case False
    then have "length fs = ?n" by (simp add: fs_def expectedFrames_def min_absorb2)
    then show ?thesis using False by (simp add: all) (simp add: fs_def expectedFrames_def)
  qed
qed

text \<open>The state after \<open>k\<close> rounds over these publications.\<close>

definition caughtUp ::
    "ViewerDumpConfig \<Rightarrow> string \<Rightarrow> (nat \<Rightarrow> RenderOutput list) \<Rightarrow> Disk \<Rightarrow> nat \<Rightarrow> ViewerFrameDumper \<Rightarrow> Disk \<Rightarrow> bool" where
  "caughtUp config dir batch disk0 k d disk \<longleftrightarrow>
     passed (ViewerFrameDumper_new config dir) (expectedFrames config batch k) (lastPublishedAt batch k) d
     \<and> disk = storeFrames dir 0 (expectedFrames config batch k) disk0"

lemma caughtUp_start: "caughtUp config dir batch disk 0 (ViewerFrameDumper_new config dir) disk"
  by (simp add: caughtUp_def passed_def expectedFrames_def published_def lastPublishedAt_def
      ViewerFrameDumper_new_def lastHash_def)

lemma caughtUp_state:
  assumes "caughtUp config dir batch disk0 k d disk"
  shows "dumpEnabled (fdConfig d) = dumpEnabled config"
    "dumpMaxFrames (fdConfig d) = max 1 (dumpMaxFrames config)"
    "fdDumpedOutputCount d = length (expectedFrames config batch k)"
    "lastHash d = runEnd None (expectedFrames config batch k)"
    "fdLastProcessedTimestamp d = lastPublishedAt batch k" "fdOutputDirectory d = dir"
  using assms by (auto simp: caughtUp_def passed_def ViewerFrameDumper_new_def lastHash_def runEnd_def)

lemma caughtUp_round:
  assumes "caughtUp config dir batch disk0 k d disk" "batches_ok capacity batch" "dumpEnabled config"
    "io_good io"
  obtains d' disk' where
    "processNewOutputs io (storeOutputs capacity (published batch (Suc k))) d disk = Some (d', disk', True)"
    "caughtUp config dir batch disk0 (Suc k) d' disk'"
proof -
  note st = caughtUp_state [OF assms(1)]
  let ?fs = "expectedFrames config batch k"
  let ?new = "take (framesLeft d) (distinctRuns (lastHash d) (filter hasRgb (batch k)))"
  have left: "framesLeft d = max 1 (dumpMaxFrames config) - length ?fs" by (simp add: framesLeft_def st)
  have next_fs: "expectedFrames config batch (Suc k) = ?fs @ ?new"
    by (simp only: expectedFrames_Suc left st(4))
  have sorted: "sorted_wrt (<) (0 # map roRenderTimestamp (published batch (Suc k)))"
    using assms(2) unfolding batches_ok_def by blast
  have last: "last (lastPublishedAt batch k # map roRenderTimestamp (batch k)) = lastPublishedAt batch (Suc k)"
    by (simp add: lastPublishedAt_def published_Suc)
  have "sorted_wrt (<) (fdLastProcessedTimestamp d # map roRenderTimestamp (batch k))"
  proof -
    have "lastPublishedAt batch k \<in> set (0 # map roRenderTimestamp (published batch k))"
      unfolding lastPublishedAt_def by (rule last_in_set) simp
    then show ?thesis using sorted by (auto simp: published_Suc sorted_wrt_append st(5))
  qed
  then obtain d' where p: "processOutputs io (batch k) d disk =
      Some (d', storeFrames (fdOutputDirectory d) (fdDumpedOutputCount d) ?new disk, True)"
    "passed d ?new (last (fdLastProcessedTimestamp d # map roRenderTimestamp (batch k))) d'"
    using processOutputs_pass [of d io "batch k" disk] assms(2,3,4) st(1)
    by (auto simp: dumpingEnabled_def batches_ok_def)
  have new: "passed d ?new (lastPublishedAt batch (Suc k)) d'"
    using p(2) unfolding st(5) last .
  have old: "passed (ViewerFrameDumper_new config dir) ?fs (lastPublishedAt batch k) d"
    using assms(1) by (simp add: caughtUp_def)
  show thesis
  proof (rule that)
    show "processNewOutputs io (storeOutputs capacity (published batch (Suc k))) d disk =
        Some (d', storeFrames (fdOutputDirectory d) (fdDumpedOutputCount d) ?new disk, True)"
      using poll_batch [OF assms(2) st(5)] p(1) by simp
    show "caughtUp config dir batch disk0 (Suc k) d'
        (storeFrames (fdOutputDirectory d) (fdDumpedOutputCount d) ?new disk)"
      using assms(1) passed_trans [OF old new] st
      by (simp add: caughtUp_def next_fs storeFrames_append)
  qed
qed

lemma waitLoop_caughtUp:
  assumes env: "clock_sleeps (deClock env)" "\<And>k. io_good (deIo env k)"
      "\<And>k. deStore env k = storeOutputs capacity (published batch (Suc k))"
    and ok: "batches_ok capacity batch" "dumpEnabled config"
    and start: "caughtUp config dir batch disk0 k d disk"
      "length (expectedFrames config batch k) < max 1 (dumpMaxFrames config)"
  shows "\<exists>n d' disk' t' b. waitLoop env onTick deadline k d disk t = Some (d', disk', t', b)
    \<and> caughtUp config dir batch disk0 n d' disk'
    \<and> b = (length (expectedFrames config batch n) = max 1 (dumpMaxFrames config))
    \<and> (\<not> b \<longrightarrow> deadline \<le> deClock env n)"
  using start
proof (induction "nat (deadline - deClock env k)" arbitrary: k d disk t rule: less_induct)
  case less
  let ?full = "\<lambda>n. length (expectedFrames config batch n) = max 1 (dumpMaxFrames config)"
  show ?case
  proof (cases "deClock env k < deadline")
    case False
    then have "waitLoop env onTick deadline k d disk t = Some (d, disk, t, False)"
      by (subst waitLoop.simps) simp
    moreover have "False = ?full k" "\<not> False \<longrightarrow> deadline \<le> deClock env k"
      using less.prems(2) False by simp_all
    ultimately show ?thesis using less.prems(1) by blast
  next
    case True
    obtain d' disk' where p:
      "processNewOutputs (deIo env k) (storeOutputs capacity (published batch (Suc k))) d disk = Some (d', disk', True)"
      and up: "caughtUp config dir batch disk0 (Suc k) d' disk'"
      using caughtUp_round [OF less.prems(1) ok env(2)] by blast
    note st = caughtUp_state [OF up]
    have le: "length (expectedFrames config batch n) \<le> max 1 (dumpMaxFrames config)" for n
      by (simp add: expectedFrames_def)
    have seen: "configuredOutputsSeen d' \<longleftrightarrow> ?full (Suc k)"
      using le [of "Suc k"] ok(2) by (auto simp: configuredOutputsSeen_def st)
    show ?thesis
    proof (cases "?full (Suc k)")
      case True
      then have "waitLoop env onTick deadline k d disk t = Some (d', disk', onTick k d' t, True)"
        using \<open>deClock env k < deadline\<close> p seen env(3) by (subst waitLoop.simps) simp
      then show ?thesis using up True by blast
    next
      case False
      have "deClock env k + 10 \<le> deClock env (Suc k)"
        using env(1) by (simp add: clock_sleeps_def kPollInterval_def)
      with \<open>deClock env k < deadline\<close>
      have "nat (deadline - deClock env (Suc k)) < nat (deadline - deClock env k)" by linarith
      moreover have "length (expectedFrames config batch (Suc k)) < max 1 (dumpMaxFrames config)"
        using False le [of "Suc k"] by simp
      moreover have "waitLoop env onTick deadline k d disk t =
          waitLoop env onTick deadline (Suc k) d' disk' (onTick k d' t)"
        using \<open>deClock env k < deadline\<close> p seen False env(3) by (subst waitLoop.simps) simp
      ultimately show ?thesis using less.hyps [OF _ up] by simp
    qed
  qed
qed

text \<open>C25: While outputs are published in batches that fit into the store, waiting writes exactly the
  outputs with pixels whose hash differs from the one before, in order, numbered from one, none
  missed and none twice, up to the configured number of frames (at least one); it reports success
  exactly when that number is reached, and failure only after the deadline.\<close>

theorem dump_writes_distinct_outputs:
  assumes "clock_sleeps (deClock env)" "\<forall>k. io_good (deIo env k)"
    "\<forall>k. deStore env k = storeOutputs capacity (published batch (Suc k))"
    "batches_ok capacity batch" "dumpEnabled config"
  shows "\<exists>n d' disk' t' ok.
      waitForConfiguredOutputs env start timeout onTick (ViewerFrameDumper_new config dir) disk t =
        Some (d', disk', t', ok)
    \<and> fdDumpedOutputCount d' = length (expectedFrames config batch n)
    \<and> (\<forall>i < length (expectedFrames config batch n).
         disk' (makeOutputPath dir (i + 1)) = Some (ppmFile (expectedFrames config batch n ! i)))
    \<and> (\<forall>p. (\<forall>i < length (expectedFrames config batch n). p \<noteq> makeOutputPath dir (i + 1)) \<longrightarrow> disk' p = disk p)
    \<and> ok = (length (expectedFrames config batch n) = max 1 (dumpMaxFrames config))
    \<and> (\<not> ok \<longrightarrow> start + timeout \<le> deClock env n)"
proof -
  let ?fs = "expectedFrames config batch"
  have lt: "length (?fs 0) < max 1 (dumpMaxFrames config)" by (simp add: expectedFrames_def published_def)
  have env: "io_good (deIo env k)" "deStore env k = storeOutputs capacity (published batch (Suc k))" for k
    using assms(2,3) by blast+
  obtain n d' disk' t' ok where w:
    "waitLoop env onTick (start + timeout) 0 (ViewerFrameDumper_new config dir) disk t = Some (d', disk', t', ok)"
    "caughtUp config dir batch disk n d' disk'"
    "ok = (length (?fs n) = max 1 (dumpMaxFrames config))" "\<not> ok \<longrightarrow> start + timeout \<le> deClock env n"
    using waitLoop_caughtUp [OF assms(1) env assms(4,5) caughtUp_start lt,
        of onTick "start + timeout" dir disk t]
    by (elim exE conjE) (rule that)
  have disk': "disk' = storeFrames dir 0 (?fs n) disk" using w(2) by (simp add: caughtUp_def)
  have files: "\<forall>i < length (?fs n). disk' (makeOutputPath dir (i + 1)) = Some (ppmFile (?fs n ! i))"
    using storeFrames_nth [where n = 0] by (simp add: disk')
  have others: "\<forall>p. (\<forall>i < length (?fs n). p \<noteq> makeOutputPath dir (i + 1)) \<longrightarrow> disk' p = disk p"
    using storeFrames_other [where n = 0] by (simp add: disk')
  note facts = w(1) caughtUp_state(3) [OF w(2)] files others w(3,4)
  show ?thesis
    unfolding waitForConfiguredOutputs_def
    by (rule exI [of _ n], rule exI [of _ d'], rule exI [of _ disk'], rule exI [of _ t'],
        rule exI [of _ ok], intro conjI) (rule facts)+
qed

section \<open>The file format\<close>

text \<open>A reader of binary PPM files with one byte for each sample.\<close>

definition byte_char :: "u8 \<Rightarrow> char" where
  "byte_char b = char_of (unat b)"

definition stripPrefix :: "u8 list \<Rightarrow> u8 list \<Rightarrow> u8 list option" where
  "stripPrefix p xs = (if take (length p) xs = p then Some (drop (length p) xs) else None)"

definition readNumber :: "u8 list \<Rightarrow> (nat \<times> u8 list) option" where
  "readNumber xs =
     (let ds = takeWhile (\<lambda>b. is_digit (byte_char b)) xs in
      if ds = [] then None else Some (decimal_value (map byte_char ds), drop (length ds) xs))"

definition readPpm :: "u8 list \<Rightarrow> (nat \<times> nat \<times> u8 list) option" where
  "readPpm bytes =
     (case stripPrefix (char_bytes (''P6'' @ [CHR 0x0A])) bytes of None \<Rightarrow> None | Some rest \<Rightarrow>
      case readNumber rest of None \<Rightarrow> None | Some (w, rest) \<Rightarrow>
      case stripPrefix (char_bytes '' '') rest of None \<Rightarrow> None | Some rest \<Rightarrow>
      case readNumber rest of None \<Rightarrow> None | Some (h, rest) \<Rightarrow>
      case stripPrefix (char_bytes ([CHR 0x0A] @ ''255'' @ [CHR 0x0A])) rest of None \<Rightarrow> None | Some px \<Rightarrow>
        if length px = 3 * w * h then Some (w, h, px) else None)"

lemma byte_char_of_char [simp]: "byte_char (of_char c) = c"
proof -
  have "(of_char c :: u8) = of_nat (of_char c)" by (simp only: of_nat_of_char)
  then have "unat (of_char c :: u8) = (of_char c :: nat)" by (simp add: unat_of_nat)
  then show ?thesis by (simp add: byte_char_def)
qed

lemma map_byte_char [simp]: "map byte_char (char_bytes s) = s"
  by (simp add: char_bytes_def comp_def)

lemma stripPrefix_append [simp]: "stripPrefix p (p @ xs) = Some xs"
  by (simp add: stripPrefix_def)

lemma readNumber_decimal:
  assumes "\<not> is_digit c"
  shows "readNumber (char_bytes (decimal n) @ of_char c # xs) = Some (n, of_char c # xs)"
proof -
  have "takeWhile (\<lambda>b. is_digit (byte_char b)) (char_bytes (decimal n) @ of_char c # xs) = char_bytes (decimal n)"
    using assms decimal_digits by (subst takeWhile_append2) (auto simp: char_bytes_def)
  then show ?thesis by (simp add: readNumber_def Let_def) (simp add: char_bytes_def)
qed

text \<open>A written file is a binary PPM image: reading it back gives the width, the height and
  exactly the pixel bytes of the output, whatever lies behind them in the buffer.\<close>

theorem written_file_reads_back:
  assumes "dumpable r" "hasRgb r" "io_good io"
  shows "case writeOutput io r sequence dir disk of
      None \<Rightarrow> False
    | Some (disk', ok) \<Rightarrow> ok \<and> map_option readPpm (disk' (makeOutputPath dir sequence)) =
        Some (Some (nat (imgWidth (roImageSize r)), nat (imgHeight (roImageSize r)), pixelBytes r))"
proof -
  let ?w = "imgWidth (roImageSize r)" and ?h = "imgHeight (roImageSize r)"
  note read = dumpable_read [OF assms(1,2)]
  have pos: "\<not> ?w \<le> 0" "\<not> ?h \<le> 0" using assms(1) by (simp_all add: dumpable_def)
  have wr: "writeOutput io r sequence dir disk = Some (disk(makeOutputPath dir sequence \<mapsto> ppmFile r), True)"
    using assms(3) pos read by (simp add: writeOutput_def Let_def io_good_def ppmFile_def)
  have ppm: "ppmFile r = char_bytes (''P6'' @ [CHR 0x0A]) @ char_bytes (decimal (nat ?w)) @ char_bytes '' ''
      @ char_bytes (decimal (nat ?h)) @ char_bytes ([CHR 0x0A] @ ''255'' @ [CHR 0x0A]) @ pixelBytes r"
    using pos by (simp add: ppmFile_def ppmHeader_def to_string_def char_bytes_def)
  have num: "readNumber (char_bytes (decimal n) @ char_bytes (c # s) @ xs) = Some (n, char_bytes (c # s) @ xs)"
    if "\<not> is_digit c" for n c s xs
    using readNumber_decimal [OF that] by (simp add: char_bytes_def)
  have sep: "\<not> is_digit (CHR '' '')" "\<not> is_digit (CHR 0x0A)" by (simp_all add: is_digit_def)
  have nl: "char_bytes ([CHR 0x0A] @ ''255'' @ [CHR 0x0A]) = char_bytes (CHR 0x0A # ''255'' @ [CHR 0x0A])"
    by simp
  have "readPpm (ppmFile r) = Some (nat ?w, nat ?h, pixelBytes r)"
    unfolding readPpm_def ppm stripPrefix_append option.case nl num [OF sep(1)] num [OF sep(2)] prod.case
    using read(3) by simp
  then show ?thesis by (simp add: wr)
qed

section \<open>Sample inputs\<close>

definition sample_dump_output :: RenderOutput where
  "sample_dump_output =
     \<lparr>roRgb = \<lparr>bufData = Some [1, 2, 3, 4], bufByteCount = 3, bufOwner = True\<rparr>,
      roImageSize = \<lparr>imgWidth = 1, imgHeight = 1\<rparr>, roPoseGeneration = 1, roSceneVersionId = 1,
      roRenderTimestamp = 5, roCached = False\<rparr>"

definition sample_io :: FileIo where
  "sample_io = \<lparr>ioDirError = False, ioOpens = \<lambda>_. True, ioGood = \<lambda>_. True, ioLost = \<lambda>_. 0\<rparr>"

definition sample_batch :: "nat \<Rightarrow> RenderOutput list" where
  "sample_batch k = (if k = 1 then [sample_dump_output] else [])"

definition defaultDump :: ViewerDumpConfig where
  "defaultDump = \<lparr>dumpEnabled = True, dumpMaxFrames = 1\<rparr>"

definition sample_dump_env :: dump_env where
  "sample_dump_env =
     \<lparr>deClock = (\<lambda>k. 10 * int k), deStore = (\<lambda>k. storeOutputs 4 (published sample_batch (Suc k))),
      deIo = (\<lambda>_. sample_io)\<rparr>"

lemma published_sample: "published sample_batch n = (if n \<le> 1 then [] else [sample_dump_output])"
  by (induction n) (auto simp: published_Suc published_def sample_batch_def)

lemma sample_dump_env_ok:
  "clock_sleeps (deClock sample_dump_env)" "io_good (deIo sample_dump_env k)"
  "batches_ok 4 sample_batch" "store_honest (deStore sample_dump_env k)"
  "deStore sample_dump_env k = storeOutputs 4 (published sample_batch (Suc k))"
  "io_good sample_io" "dumpable sample_dump_output" "hasRgb sample_dump_output"
  by (auto simp: sample_dump_env_def clock_sleeps_def kPollInterval_def io_good_def sample_io_def
      batches_ok_def published_sample sample_batch_def sample_dump_output_def dumpable_def i32_range_def
      buffer_honest_def store_honest_def storeOutputs_window render_honest_def hasRgb_def
      FrameBuffer_empty_def)

lemma sample_dump_output_values:
  "nat (imgWidth (roImageSize sample_dump_output)) = 1"
  "nat (imgHeight (roImageSize sample_dump_output)) = 1"
  "pixelBytes sample_dump_output = [1, 2, 3]"
  by (simp_all add: sample_dump_output_def pixelBytes_def)

theorem written_file_reads_back_witness:
  "case writeOutput sample_io sample_dump_output 7 ''/tmp'' Map.empty of
      None \<Rightarrow> False
    | Some (disk', ok) \<Rightarrow> ok \<and> map_option readPpm (disk' (makeOutputPath ''/tmp'' 7)) =
        Some (Some (1, 1, [1, 2, 3]))"
  using written_file_reads_back [OF sample_dump_env_ok(7,8,6),
      where sequence = 7 and dir = "''/tmp''" and disk = Map.empty]
  unfolding sample_dump_output_values .

theorem dump_wait_terminates_witness:
  "waitForConfiguredOutputs sample_dump_env 0 50 (\<lambda>_ _ n. n) (ViewerFrameDumper_new defaultDump ''/tmp'')
     Map.empty (0 :: nat) \<noteq> None"
proof (rule dump_wait_terminates [THEN conjunct1])
  show "0 \<le> deClock sample_dump_env 0" by (simp add: sample_dump_env_def)
qed (rule sample_dump_env_ok allI)+

theorem dump_writes_distinct_outputs_witness:
  "\<exists>n d' disk' ok.
      waitForConfiguredOutputs sample_dump_env 0 50 (\<lambda>_ _ n. n) (ViewerFrameDumper_new defaultDump ''/tmp'')
        Map.empty (0 :: nat) = Some (d', disk', n, ok)
    \<and> (ok \<longleftrightarrow> fdDumpedOutputCount d' = 1)"
  using dump_writes_distinct_outputs [of sample_dump_env 4 sample_batch defaultDump 0 50 "\<lambda>_ _ n. n" "''/tmp''" Map.empty "0 :: nat"]
  by (force simp: sample_dump_env_ok defaultDump_def)

end
