(* ===== verification/ViewerPoseSeeder.thy ===== *)
theory ViewerPoseSeeder
  imports FrameStoreProperties SceneVersions ViewerStores
begin

text \<open>
  \<open>ViewerPoseSeeder\<close> of \<open>src/app/src/runtime\<close>: the first viewer pose is taken from the first scene
  version whose frame is still stored.  While the seeder polls, other threads act on the stores: a
  round sees the stores as they are then, and the calls that WebRTC clients make on the pose store
  between the check and the update are part of the round.
\<close>

record 'q seed_env =
  seClock :: "nat \<Rightarrow> int"
  seFrameStore :: "nat \<Rightarrow> 'q FrameStore"
  seSceneVersionStore :: "nat \<Rightarrow> SceneVersionStore"
  seClientCalls :: "nat \<Rightarrow> pose_call list"

definition makeInitialViewerPose ::
    "'q FrameStore \<Rightarrow> SceneVersionStore \<Rightarrow> ImageSize \<Rightarrow> ViewerPose option" where
  "makeInitialViewerPose frameStore sceneVersionStore imageSize =
     (case SceneVersionStore_latest sceneVersionStore of
        None \<Rightarrow> None
      | Some sceneVersion \<Rightarrow>
          case FrameStore_getFrame frameStore (svLastIntegratedFrameId sceneVersion) of
            None \<Rightarrow> None
          | Some frame \<Rightarrow>
              Some \<lparr>vpPose = svCameraToWorld sceneVersion, vpIntrinsics = frameIntrinsics frame,
                    vpImageSize = imageSize, vpGeneration = 0\<rparr>)"

text \<open>The result is \<open>None\<close> if the loop does not return.\<close>

partial_function (option) seedLoop ::
    "'q seed_env \<Rightarrow> ImageSize \<Rightarrow> int \<Rightarrow> nat \<Rightarrow> ViewerPoseStore \<Rightarrow> (ViewerPoseStore \<times> bool) option" where
  "seedLoop env imageSize deadline k poses =
     (if \<not> seClock env k < deadline then Some (poses, False)
      else
        let viewerPose = makeInitialViewerPose (seFrameStore env k) (seSceneVersionStore env k) imageSize;
            poses = fst (pose_calls (seClientCalls env k) poses)
        in case viewerPose of
             Some p \<Rightarrow> Some (fst (ViewerPoseStore_update p poses), True)
           | None \<Rightarrow> seedLoop env imageSize deadline (k + 1) poses)"

definition seedOnce ::
    "'q seed_env \<Rightarrow> ImageSize \<Rightarrow> int \<Rightarrow> int \<Rightarrow> ViewerPoseStore \<Rightarrow> (ViewerPoseStore \<times> bool) option" where
  "seedOnce env imageSize start timeout poses =
     (if ViewerPoseStore_latest poses \<noteq> None then Some (poses, True)
      else seedLoop env imageSize (start + timeout) 0 poses)"

section \<open>Clients before the seed\<close>

text \<open>
  A client connects with \<open>resetRelativeBaseline\<close> and moves with \<open>applyRelativePose\<close>.  Without a pose
  and without a baseline neither has an effect.
\<close>

fun client_call :: "pose_call \<Rightarrow> bool" where
  "client_call CallResetBaseline = True"
| "client_call (CallApplyRelative m) = True"
| "client_call (CallUpdate p) = False"

definition unseeded :: "ViewerPoseStore \<Rightarrow> bool" where
  "unseeded s \<longleftrightarrow> psLatestPose s = None \<and> psRelativeBaselinePose s = None"

lemma unseeded_client_calls:
  "unseeded s \<Longrightarrow> list_all client_call cs \<Longrightarrow> pose_calls cs s = (s, [])"
proof (induction cs)
  case (Cons c cs)
  then have "pose_call_step c s = (s, [])"
    by (cases c) (simp_all add: unseeded_def resetRelativeBaseline_def applyRelativePose_def)
  with Cons show ?case by simp
qed simp

lemma no_baseline_moves:
  "psRelativeBaselinePose s = None \<Longrightarrow> pose_calls (map CallApplyRelative ms) s = (s, [])"
  by (induction ms) (simp_all add: applyRelativePose_def)

lemma unseeded_update:
  assumes "unseeded s" "psNextGeneration s \<noteq> 0"
  shows "ViewerPoseStore_update (p\<lparr>vpGeneration := 0\<rparr>) s =
     (s\<lparr>psNextGeneration := psNextGeneration s + 1,
        psLatestPose := Some (p\<lparr>vpGeneration := psNextGeneration s\<rparr>)\<rparr>,
      p\<lparr>vpGeneration := psNextGeneration s\<rparr>)"
  using assms by (simp add: ViewerPoseStore_update_def publishPose_def word_gt_0 Let_def)

section \<open>The promise\<close>

definition seed_env_ok :: "'q seed_env \<Rightarrow> bool" where
  "seed_env_ok env \<longleftrightarrow>
     (\<forall>k. seClock env k + 10 \<le> seClock env (k + 1)) \<and> (\<forall>k. list_all client_call (seClientCalls env k))"

lemma seedLoop_result:
  assumes "seed_env_ok env" "unseeded poses"
  shows "(\<exists>n \<ge> k. \<exists>p. makeInitialViewerPose (seFrameStore env n) (seSceneVersionStore env n) imageSize = Some p
        \<and> (\<forall>j. k \<le> j \<and> j < n \<longrightarrow>
             makeInitialViewerPose (seFrameStore env j) (seSceneVersionStore env j) imageSize = None)
        \<and> seClock env n < deadline
        \<and> seedLoop env imageSize deadline k poses = Some (fst (ViewerPoseStore_update p poses), True))
    \<or> seedLoop env imageSize deadline k poses = Some (poses, False)
      \<and> (\<forall>j \<ge> k. seClock env j < deadline \<longrightarrow>
           makeInitialViewerPose (seFrameStore env j) (seSceneVersionStore env j) imageSize = None)"
proof (induction "nat (deadline - seClock env k)" arbitrary: k rule: less_induct)
  case less
  let ?pose = "\<lambda>j. makeInitialViewerPose (seFrameStore env j) (seSceneVersionStore env j) imageSize"
  have calls: "fst (pose_calls (seClientCalls env k) poses) = poses" for k
    using assms unseeded_client_calls by (simp add: seed_env_ok_def)
  have mono: "seClock env k \<le> seClock env j" if "k \<le> j" for j k
    using that
  proof (induction j)
    case (Suc j)
    moreover have "seClock env j + 10 \<le> seClock env (Suc j)" using assms(1) by (simp add: seed_env_ok_def)
    ultimately show ?case by (cases "k = Suc j") auto
  qed simp
  consider (late) "\<not> seClock env k < deadline"
    | (found) p where "seClock env k < deadline" "?pose k = Some p"
    | (again) "seClock env k < deadline" "?pose k = None" by fastforce
  then show ?case
  proof cases
    case late
    then have "seedLoop env imageSize deadline k poses = Some (poses, False)"
      by (subst seedLoop.simps) simp
    moreover have "\<forall>j \<ge> k. \<not> seClock env j < deadline" using late mono by fastforce
    ultimately show ?thesis by blast
  next
    case (found p)
    then have "seedLoop env imageSize deadline k poses = Some (fst (ViewerPoseStore_update p poses), True)"
      by (subst seedLoop.simps) (simp add: calls)
    moreover have "\<forall>j. k \<le> j \<and> j < k \<longrightarrow> ?pose j = None" by auto
    ultimately show ?thesis using found by (intro disjI1 exI [of _ k] conjI exI [of _ p]) simp_all
  next
    case again
    have "seClock env k + 10 \<le> seClock env (k + 1)" using assms(1) by (simp add: seed_env_ok_def)
    with again(1) have dec: "nat (deadline - seClock env (k + 1)) < nat (deadline - seClock env k)"
      by linarith
    have step: "seedLoop env imageSize deadline k poses = seedLoop env imageSize deadline (k + 1) poses"
      using again by (subst seedLoop.simps) (simp add: calls)
    have all: "?pose j = None" if "k \<le> j" "k + 1 \<le> j \<Longrightarrow> ?pose j = None" for j
      using that again(2) by (cases "j = k") auto
    show ?thesis
      using less.hyps [OF dec]
    proof (elim disjE exE conjE)
      fix n p
      assume "n \<ge> k + 1" "?pose n = Some p" "\<forall>j. k + 1 \<le> j \<and> j < n \<longrightarrow> ?pose j = None"
        "seClock env n < deadline"
        "seedLoop env imageSize deadline (k + 1) poses = Some (fst (ViewerPoseStore_update p poses), True)"
      then show ?thesis using all step by (intro disjI1 exI [of _ n] conjI exI [of _ p]) auto
    qed (use all step in auto)
  qed
qed

text \<open>C27: Seeding publishes the pose of the first poll that finds a scene version whose frame is still
  stored: the camera pose of that version with the frame's intrinsics and the configured image size,
  and the store's next generation.  It publishes nothing exactly when no poll before the timeout
  finds one, and it returns in either case.\<close>

theorem seeder_seeds_first_usable_version:
  assumes "seed_env_ok env" "unseeded poses" "psNextGeneration poses \<noteq> 0"
  shows "(\<exists>n p. makeInitialViewerPose (seFrameStore env n) (seSceneVersionStore env n) imageSize = Some p
        \<and> (\<forall>j < n. makeInitialViewerPose (seFrameStore env j) (seSceneVersionStore env j) imageSize = None)
        \<and> seClock env n < start + timeout
        \<and> (\<exists>poses'. seedOnce env imageSize start timeout poses = Some (poses', True)
             \<and> ViewerPoseStore_latest poses' = Some (p\<lparr>vpGeneration := psNextGeneration poses\<rparr>)))
    \<or> seedOnce env imageSize start timeout poses = Some (poses, False)
      \<and> (\<forall>j. seClock env j < start + timeout \<longrightarrow>
           makeInitialViewerPose (seFrameStore env j) (seSceneVersionStore env j) imageSize = None)"
proof -
  have once: "seedOnce env imageSize start timeout poses = seedLoop env imageSize (start + timeout) 0 poses"
    using assms(2) by (simp add: seedOnce_def unseeded_def ViewerPoseStore_latest_def)
  have latest: "ViewerPoseStore_latest (fst (ViewerPoseStore_update p poses)) =
      Some (p\<lparr>vpGeneration := psNextGeneration poses\<rparr>)"
    if "makeInitialViewerPose fs vs imageSize = Some p" for p and fs :: "'a FrameStore" and vs
  proof -
    have "p = p\<lparr>vpGeneration := 0\<rparr>" using that by (auto simp: makeInitialViewerPose_def split: option.splits)
    then have "ViewerPoseStore_update p poses = ViewerPoseStore_update (p\<lparr>vpGeneration := 0\<rparr>) poses" by simp
    then show ?thesis by (simp add: unseeded_update [OF assms(2,3)] ViewerPoseStore_latest_def)
  qed
  from seedLoop_result [OF assms(1,2), of 0 imageSize "start + timeout"] show ?thesis
  proof (elim disjE exE conjE)
    fix n p
    assume "makeInitialViewerPose (seFrameStore env n) (seSceneVersionStore env n) imageSize = Some p"
      "\<forall>j. 0 \<le> j \<and> j < n \<longrightarrow>
         makeInitialViewerPose (seFrameStore env j) (seSceneVersionStore env j) imageSize = None"
      "seClock env n < start + timeout"
      "seedLoop env imageSize (start + timeout) 0 poses = Some (fst (ViewerPoseStore_update p poses), True)"
    then show ?thesis
      using latest once by (intro disjI1 exI [of _ n] exI [of _ p] conjI exI [of _ "fst (ViewerPoseStore_update p poses)"]) auto
  qed (use once in auto)
qed

text \<open>C28: A client that connects before the seed cannot move the camera: its baseline is taken when it
  connects, there is no pose then, and after the seed every relative pose it sends is ignored.  A
  client that connects after the seed is not affected.\<close>

theorem client_before_seed_cannot_move:
  assumes "unseeded s" "list_all client_call early"
  shows "pose_calls (early @ CallUpdate p # map CallApplyRelative moves) s =
      (fst (ViewerPoseStore_update p s), [snd (ViewerPoseStore_update p s)])
    \<and> (let seeded = snd (ViewerPoseStore_update p s); target = seeded\<lparr>vpPose := multiplyRowMajor m (vpPose seeded)\<rparr> in
        samePoseRequest seeded target
        \<or> (\<exists>moved. snd (pose_calls (early @ [CallUpdate p, CallResetBaseline, CallApplyRelative m]) s) = [seeded, moved]
             \<and> vpPose moved = vpPose target))"
proof -
  obtain s1 r where u: "ViewerPoseStore_update p s = (s1, r)" by fastforce
  note g = publishPose_generation [OF u [unfolded ViewerPoseStore_update_def]]
  have early: "pose_calls (early @ cs) s = pose_calls cs s" for cs
  proof -
    have "pose_calls (xs @ cs) s = (let (s', ps) = pose_calls xs s in let (s'', qs) = pose_calls cs s' in (s'', ps @ qs))"
      for xs s by (induction xs arbitrary: s) (auto split: prod.split)
    then show ?thesis using unseeded_client_calls [OF assms] by simp
  qed
  have base: "psRelativeBaselinePose s1 = None" using g(5) assms(1) by (simp add: unseeded_def)
  let ?target = "r\<lparr>vpPose := multiplyRowMajor m (vpPose r)\<rparr>"
  have "samePoseRequest r ?target \<or> (\<exists>moved. snd (pose_calls [CallUpdate p, CallResetBaseline, CallApplyRelative m] s)
      = [r, moved] \<and> vpPose moved = vpPose ?target)"
  proof (cases "samePoseRequest r ?target")
    case False
    let ?s = "s1\<lparr>psRelativeBaselinePose := Some r\<rparr>"
    obtain s2 moved where m: "publishPose ?target ?s = (s2, moved)" by fastforce
    then have "applyRelativePose m ?s = (s2, Some moved)"
      using False g(4) by (simp add: applyRelativePose_def Let_def)
    then show ?thesis
      using publishPose_generation(6) [OF m] g(4) by (simp add: u resetRelativeBaseline_def)
  qed simp
  then show ?thesis
    using no_baseline_moves [OF base] by (simp add: early u Let_def)
qed

section \<open>Witnesses\<close>

definition sampleSeedEnv :: "(Frame list \<times> nat) seed_env" where
  "sampleSeedEnv =
     \<lparr>seClock = (\<lambda>k. 10 * int k),
      seFrameStore = (\<lambda>_. fst (submitFrame list_ring (sampleFrame 3) (FrameStore_new list_ring sampleConfig))),
      seSceneVersionStore = (\<lambda>_. SceneVersionStore_add (sampleVersion 3) (SceneVersionStore_new 4)),
      seClientCalls = (\<lambda>_. [CallResetBaseline])\<rparr>"

theorem seeder_seeds_first_usable_version_witness:
  "\<exists>poses'. seedOnce sampleSeedEnv \<lparr>imgWidth = 4, imgHeight = 2\<rparr> 0 100 ViewerPoseStore_new = Some (poses', True)
     \<and> map_option vpGeneration (ViewerPoseStore_latest poses') = Some 1"
proof -
  let ?size = "\<lparr>imgWidth = 4, imgHeight = 2\<rparr>"
  have env: "seed_env_ok sampleSeedEnv" "unseeded ViewerPoseStore_new" "psNextGeneration ViewerPoseStore_new = 1"
    by (simp_all add: seed_env_ok_def sampleSeedEnv_def unseeded_def ViewerPoseStore_new_def)
  have "makeInitialViewerPose (seFrameStore sampleSeedEnv 0) (seSceneVersionStore sampleSeedEnv 0) ?size \<noteq> None"
    by code_simp
  moreover have "seClock sampleSeedEnv 0 < 0 + 100" by (simp add: sampleSeedEnv_def)
  ultimately show ?thesis
    using seeder_seeds_first_usable_version [OF env(1,2), of ?size 0 100] env(3) by (fastforce simp del: add_0)
qed

theorem client_before_seed_cannot_move_witness:
  "pose_calls ([CallResetBaseline] @ CallUpdate (samplePose 0) # map CallApplyRelative [zeroPose, zeroPose]) ViewerPoseStore_new =
     (fst (ViewerPoseStore_update (samplePose 0) ViewerPoseStore_new), [samplePose 1])"
proof -
  have "unseeded ViewerPoseStore_new" "list_all client_call [CallResetBaseline]"
    by (simp_all add: unseeded_def ViewerPoseStore_new_def)
  note client_before_seed_cannot_move [OF this, THEN conjunct1, of "samplePose 0" "[zeroPose, zeroPose]"]
  moreover have "snd (ViewerPoseStore_update (samplePose 0) ViewerPoseStore_new) = samplePose 1"
    by (simp add: ViewerPoseStore_update_def publishPose_def ViewerPoseStore_new_def samplePose_def Let_def)
  ultimately show ?thesis by simp
qed

end
