(* ===== verification/ViewerDebugSession.thy ===== *)
theory ViewerDebugSession
  imports Complex_Main ViewerFrameDumperProofs
begin

text \<open>
  \<open>ViewerDebugSession\<close> of \<open>src/app/src/runtime\<close>: a dumper with a log of frame rates.  A log line is a
  value; its text (labels, fixed notation with one digit) is not modelled, and a rate is the exact
  quotient where the code has the nearest \<open>double\<close>.  Times are nanoseconds.
\<close>

section \<open>Counters and rates\<close>

record ViewerDebugCounters =
  dcSubmittedFrameCount :: nat
  dcConsumedFrameCount :: nat
  dcPublishedOutputCount :: nat
  dcCachedOutputCount :: nat

record ViewerDebugRates =
  drIngestFps :: rat
  drBuildFps :: rat
  drViewFps :: rat
  drUncachedViewFps :: rat
  drCachedViewFps :: rat

definition emptyCounters :: ViewerDebugCounters where
  "emptyCounters =
     \<lparr>dcSubmittedFrameCount = 0, dcConsumedFrameCount = 0, dcPublishedOutputCount = 0,
      dcCachedOutputCount = 0\<rparr>"

definition emptyRates :: ViewerDebugRates where
  "emptyRates =
     \<lparr>drIngestFps = 0, drBuildFps = 0, drViewFps = 0, drUncachedViewFps = 0, drCachedViewFps = 0\<rparr>"

definition clampedDelta :: "nat \<Rightarrow> nat \<Rightarrow> nat" where
  "clampedDelta end' begin' = (if end' \<ge> begin' then end' - begin' else 0)"

definition uncachedOutputCount :: "ViewerDebugCounters \<Rightarrow> nat" where
  "uncachedOutputCount c =
     (if dcPublishedOutputCount c \<ge> dcCachedOutputCount c
      then dcPublishedOutputCount c - dcCachedOutputCount c else 0)"

definition nanoseconds :: "int \<Rightarrow> rat" where
  "nanoseconds n = of_int n / 1000000000"

definition computeViewerDebugRates ::
    "ViewerDebugCounters \<Rightarrow> ViewerDebugCounters \<Rightarrow> rat \<Rightarrow> ViewerDebugRates" where
  "computeViewerDebugRates begin' end' elapsedSeconds =
     (if elapsedSeconds \<le> 0 then emptyRates
      else
        let submittedDelta = clampedDelta (dcSubmittedFrameCount end') (dcSubmittedFrameCount begin');
            consumedDelta = clampedDelta (dcConsumedFrameCount end') (dcConsumedFrameCount begin');
            publishedDelta = clampedDelta (dcPublishedOutputCount end') (dcPublishedOutputCount begin');
            cachedDelta = clampedDelta (dcCachedOutputCount end') (dcCachedOutputCount begin');
            uncachedDelta = (if publishedDelta \<ge> cachedDelta then publishedDelta - cachedDelta else 0)
        in \<lparr>drIngestFps = of_nat submittedDelta / elapsedSeconds,
            drBuildFps = of_nat consumedDelta / elapsedSeconds,
            drViewFps = of_nat publishedDelta / elapsedSeconds,
            drUncachedViewFps = of_nat uncachedDelta / elapsedSeconds,
            drCachedViewFps = of_nat cachedDelta / elapsedSeconds\<rparr>)"

section \<open>The session\<close>

datatype log_line =
    MetricsLine ViewerDebugRates nat
  | SummaryLine rat ViewerDebugCounters nat nat
  | AverageLine ViewerDebugRates nat

text \<open>\<open>vdLogStream\<close> is \<open>None\<close> while the stream is not open; the sampler may be empty.\<close>

record ViewerDebugSession =
  vdHasSampler :: bool
  vdLogPath :: string
  vdStartedAt :: int
  vdLastReportedAt :: int
  vdStartedCounters :: ViewerDebugCounters
  vdLastReportedCounters :: ViewerDebugCounters
  vdLogStream :: "log_line list option"
  vdSummaryWritten :: bool

definition kReportPeriod :: int where
  "kReportPeriod = 1000000000"

text \<open>\<open>sampled\<close> is what the sampler would answer at that moment.\<close>

definition sampleCounters :: "ViewerDebugSession \<Rightarrow> ViewerDebugCounters \<Rightarrow> ViewerDebugCounters" where
  "sampleCounters s sampled = (if vdHasSampler s then sampled else emptyCounters)"

definition ViewerDebugSession_new ::
    "ViewerDumpConfig \<Rightarrow> bool \<Rightarrow> string \<Rightarrow> int \<Rightarrow> ViewerDebugCounters \<Rightarrow> bool \<Rightarrow> bool
     \<Rightarrow> ViewerFrameDumper \<times> ViewerDebugSession" where
  "ViewerDebugSession_new config hasSampler outputDirectory now sampled dirError logOpens =
     (let dumper = ViewerFrameDumper_new config outputDirectory;
          counters = (if hasSampler then sampled else emptyCounters)
      in (dumper,
          \<lparr>vdHasSampler = hasSampler, vdLogPath = path_append outputDirectory ''viewer-debug.log'',
           vdStartedAt = now, vdLastReportedAt = now, vdStartedCounters = counters,
           vdLastReportedCounters = counters,
           vdLogStream = (if dumpingEnabled dumper \<and> \<not> dirError \<and> logOpens then Some [] else None),
           vdSummaryWritten = False\<rparr>))"

definition maybeLogSample ::
    "int \<Rightarrow> ViewerDebugCounters \<Rightarrow> ViewerFrameDumper \<Rightarrow> ViewerDebugSession \<Rightarrow> ViewerDebugSession" where
  "maybeLogSample now sampled dumper s =
     (case vdLogStream s of
        None \<Rightarrow> s
      | Some written \<Rightarrow>
          if \<not> vdHasSampler s then s
          else if now - vdLastReportedAt s < kReportPeriod then s
          else
            let counters = sampleCounters s sampled;
                rates = computeViewerDebugRates (vdLastReportedCounters s) counters
                  (nanoseconds (now - vdLastReportedAt s))
            in s\<lparr>vdLogStream := Some (written @ [MetricsLine rates (fdSkippedDuplicateCount dumper)]),
                 vdLastReportedAt := now, vdLastReportedCounters := counters\<rparr>)"

definition writeFinalSummary ::
    "int \<Rightarrow> ViewerDebugCounters \<Rightarrow> ViewerFrameDumper \<Rightarrow> ViewerDebugSession \<Rightarrow> ViewerDebugSession" where
  "writeFinalSummary now sampled dumper s =
     (case vdLogStream s of
        None \<Rightarrow> s\<lparr>vdSummaryWritten := True\<rparr>
      | Some written \<Rightarrow>
          if vdSummaryWritten s then s\<lparr>vdSummaryWritten := True\<rparr>
          else
            let counters = sampleCounters s sampled; start = vdStartedCounters s;
                elapsed = nanoseconds (now - vdStartedAt s);
                rates = computeViewerDebugRates start counters elapsed;
                totals =
                  \<lparr>dcSubmittedFrameCount = clampedDelta (dcSubmittedFrameCount counters) (dcSubmittedFrameCount start),
                   dcConsumedFrameCount = clampedDelta (dcConsumedFrameCount counters) (dcConsumedFrameCount start),
                   dcPublishedOutputCount = clampedDelta (dcPublishedOutputCount counters) (dcPublishedOutputCount start),
                   dcCachedOutputCount = clampedDelta (dcCachedOutputCount counters) (dcCachedOutputCount start)\<rparr>;
                skipped = fdSkippedDuplicateCount dumper
            in s\<lparr>vdLogStream := Some (written
                   @ [SummaryLine elapsed totals (uncachedOutputCount totals) skipped, AverageLine rates skipped]),
                 vdSummaryWritten := True\<rparr>)"

text \<open>The tick of round \<open>k\<close> reads the clock and the counters; the summary reads both once more.\<close>

record session_env =
  svDump :: dump_env
  svTickClock :: "nat \<Rightarrow> int"
  svTickCounters :: "nat \<Rightarrow> ViewerDebugCounters"
  svEndClock :: int
  svEndCounters :: ViewerDebugCounters

definition waitForCompletion ::
    "session_env \<Rightarrow> int \<Rightarrow> int \<Rightarrow> ViewerFrameDumper \<times> ViewerDebugSession \<Rightarrow> Disk
     \<Rightarrow> ((ViewerFrameDumper \<times> ViewerDebugSession) \<times> Disk \<times> bool) option" where
  "waitForCompletion env start timeout session disk =
     (case waitForConfiguredOutputs (svDump env) start timeout
             (\<lambda>k. maybeLogSample (svTickClock env k) (svTickCounters env k)) (fst session) disk (snd session) of
        None \<Rightarrow> None
      | Some (dumper, disk', s, completed) \<Rightarrow>
          Some ((dumper, writeFinalSummary (svEndClock env) (svEndCounters env) dumper s), disk', completed))"

section \<open>The shape of the log\<close>

definition is_metrics :: "log_line \<Rightarrow> bool" where
  "is_metrics l = (case l of MetricsLine _ _ \<Rightarrow> True | _ \<Rightarrow> False)"

text \<open>Metrics only, at most one for each second between the start and the last report.\<close>

definition sampling :: "ViewerDebugSession \<Rightarrow> bool" where
  "sampling s \<longleftrightarrow> \<not> vdSummaryWritten s
     \<and> (\<forall>written. vdLogStream s = Some written \<longrightarrow>
          list_all is_metrics written
          \<and> kReportPeriod * int (length written) \<le> vdLastReportedAt s - vdStartedAt s)"

lemma sampling_new: "sampling (snd (ViewerDebugSession_new config b dir now sampled e opens))"
  by (simp add: sampling_def ViewerDebugSession_new_def Let_def)

lemma maybeLogSample_keeps:
  "vdStartedAt (maybeLogSample now sampled d s) = vdStartedAt s"
  "vdStartedCounters (maybeLogSample now sampled d s) = vdStartedCounters s"
  "vdHasSampler (maybeLogSample now sampled d s) = vdHasSampler s"
  "vdLogStream (maybeLogSample now sampled d s) = None \<longleftrightarrow> vdLogStream s = None"
  by (auto simp: maybeLogSample_def Let_def split: option.split)

lemma maybeLogSample_sampling: "sampling s \<Longrightarrow> sampling (maybeLogSample now sampled d s)"
  by (auto simp: maybeLogSample_def sampling_def Let_def is_metrics_def kReportPeriod_def split: option.split)

lemma waitLoop_tick_inv:
  assumes "waitLoop env onTick deadline k d disk t = Some r"
    and "\<And>k d t. Q t \<Longrightarrow> Q (onTick k d t)" and "Q t"
  shows "Q (fst (snd (snd r)))"
proof -
  let ?P = "\<lambda>env onTick (deadline :: int) k d disk t r.
    (\<forall>k d t. Q t \<longrightarrow> Q (onTick k d t)) \<longrightarrow> Q t \<longrightarrow> Q (fst (snd (snd r)))"
  have "?P env onTick deadline k d disk t r"
  proof (rule waitLoop.raw_induct [where P = ?P, OF _ assms(1)], intro impI)
    fix loop env onTick deadline k d disk t r
    assume ih: "\<And>env onTick deadline k d disk t r. loop env onTick deadline k d disk t = Some r \<Longrightarrow>
          ?P env onTick deadline k d disk t r"
      and body: "(if \<not> deClock env k < deadline then Some (d, disk, t, False)
        else case processNewOutputs (deIo env k) (deStore env k) d disk of None \<Rightarrow> None
          | Some (d', disk', ok) \<Rightarrow>
              if \<not> ok then Some (d', disk', t, False)
              else if configuredOutputsSeen d' then Some (d', disk', onTick k d' t, True)
              else loop env onTick deadline (k + 1) d' disk' (onTick k d' t)) = Some r"
      and keep: "\<forall>k d t. Q t \<longrightarrow> Q (onTick k d t)" and t: "Q t"
    from keep t have tick: "Q (onTick k d' t)" for d' by blast
    have rest: "Q (fst (snd (snd r)))" if "loop env onTick deadline k' d' disk' t' = Some r" "Q t'" for k' d' disk' t'
      using ih [OF that(1)] keep that(2) by blast
    from body show "Q (fst (snd (snd r)))"
      using t tick by (auto split: if_splits option.splits) (rule rest, assumption, simp)
  qed
  then show ?thesis using assms(2,3) by blast
qed

definition monotone_counters :: "ViewerDebugCounters \<Rightarrow> ViewerDebugCounters \<Rightarrow> bool" where
  "monotone_counters a b \<longleftrightarrow>
     dcSubmittedFrameCount a \<le> dcSubmittedFrameCount b \<and> dcConsumedFrameCount a \<le> dcConsumedFrameCount b
     \<and> dcPublishedOutputCount a \<le> dcPublishedOutputCount b \<and> dcCachedOutputCount a \<le> dcCachedOutputCount b"

text \<open>The log of a debug session that opened its file and runs to completion is a sequence of
  metrics lines, at most one for each second since the start, followed by one summary and one
  average line; the totals are the differences of the counters, and the average rates times the
  elapsed time give these totals back.\<close>

theorem debug_log_shape:
  assumes "waitForCompletion env start timeout
      (ViewerDebugSession_new config True dir began c0 False True) disk = Some ((dumper, s), disk', completed)"
    and "dumpEnabled config" "monotone_counters c0 (svEndCounters env)" "began < svEndClock env"
  shows "\<exists>metrics totals rates skipped.
      vdLogStream s = Some (metrics
        @ [SummaryLine (nanoseconds (svEndClock env - began)) totals (uncachedOutputCount totals) skipped,
           AverageLine rates skipped])
    \<and> list_all is_metrics metrics
    \<and> kReportPeriod * int (length metrics) \<le> vdLastReportedAt s - began
    \<and> dcSubmittedFrameCount totals + dcSubmittedFrameCount c0 = dcSubmittedFrameCount (svEndCounters env)
    \<and> dcPublishedOutputCount totals + dcPublishedOutputCount c0 = dcPublishedOutputCount (svEndCounters env)
    \<and> drIngestFps rates * nanoseconds (svEndClock env - began) = of_nat (dcSubmittedFrameCount totals)
    \<and> drViewFps rates * nanoseconds (svEndClock env - began) = of_nat (dcPublishedOutputCount totals)
    \<and> drUncachedViewFps rates * nanoseconds (svEndClock env - began) = of_nat (uncachedOutputCount totals)"
proof -
  let ?new = "ViewerDebugSession_new config True dir began c0 False True"
  let ?Q = "\<lambda>t. sampling t \<and> vdLogStream t \<noteq> None \<and> vdStartedAt t = began \<and> vdStartedCounters t = c0
      \<and> vdHasSampler t"
  obtain t where w: "waitForConfiguredOutputs (svDump env) start timeout
      (\<lambda>k. maybeLogSample (svTickClock env k) (svTickCounters env k)) (fst ?new) disk (snd ?new) =
        Some (dumper, disk', t, completed)"
    and s: "s = writeFinalSummary (svEndClock env) (svEndCounters env) dumper t"
    using assms(1) by (auto simp: waitForCompletion_def split: option.splits)
  have new: "?Q (snd ?new)"
    using assms(2)
    by (intro conjI sampling_new)
      (simp_all add: ViewerDebugSession_new_def Let_def dumpingEnabled_def ViewerFrameDumper_new_def)
  have tick: "?Q (maybeLogSample (svTickClock env k) (svTickCounters env k) d t)" if "?Q t" for k d t
    using that maybeLogSample_keeps maybeLogSample_sampling by simp
  have Q: "?Q t"
    using waitLoop_tick_inv [where Q = ?Q, OF w [unfolded waitForConfiguredOutputs_def] tick new] by simp
  then obtain metrics where m: "vdLogStream t = Some metrics" "list_all is_metrics metrics"
    "kReportPeriod * int (length metrics) \<le> vdLastReportedAt t - began" "\<not> vdSummaryWritten t"
    by (auto simp: sampling_def)
  have pos: "\<not> nanoseconds (svEndClock env - began) \<le> 0"
    using assms(4) by (simp add: nanoseconds_def divide_le_0_iff)
  have counters: "sampleCounters t c = c" for c using Q by (simp add: sampleCounters_def)
  show ?thesis
    using Q m pos assms(3)
    unfolding s writeFinalSummary_def Let_def
    by (simp add: counters computeViewerDebugRates_def Let_def clampedDelta_def monotone_counters_def
        uncachedOutputCount_def)
qed

definition sampleCountersAt :: "nat \<Rightarrow> ViewerDebugCounters" where
  "sampleCountersAt n =
     \<lparr>dcSubmittedFrameCount = 3 * n, dcConsumedFrameCount = 2 * n, dcPublishedOutputCount = 2 * n,
      dcCachedOutputCount = n\<rparr>"

definition sampleSessionEnv :: session_env where
  "sampleSessionEnv =
     \<lparr>svDump = \<lparr>deClock = (\<lambda>k. 10 * int k), deStore = (\<lambda>_. RenderOutputStore_new 1),
        deIo = (\<lambda>_. \<lparr>ioDirError = False, ioOpens = \<lambda>_. True, ioGood = \<lambda>_. True, ioLost = \<lambda>_. 0\<rparr>)\<rparr>,
      svTickClock = (\<lambda>k. 1000000000 * int (k + 1)), svTickCounters = (\<lambda>k. sampleCountersAt (k + 1)),
      svEndClock = 2000000000, svEndCounters = sampleCountersAt 2\<rparr>"

theorem debug_log_shape_witness:
  "\<exists>r metrics totals rates skipped.
      waitForCompletion sampleSessionEnv 0 10
        (ViewerDebugSession_new \<lparr>dumpEnabled = True, dumpMaxFrames = 1\<rparr> True ''/tmp'' 0 (sampleCountersAt 0) False True)
        Map.empty = Some r
    \<and> vdLogStream (snd (fst r)) = Some (metrics
        @ [SummaryLine 2 totals (uncachedOutputCount totals) skipped, AverageLine rates skipped])
    \<and> dcSubmittedFrameCount totals = 6 \<and> drIngestFps rates * 2 = 6"
proof -
  let ?new = "ViewerDebugSession_new \<lparr>dumpEnabled = True, dumpMaxFrames = 1\<rparr> True ''/tmp'' 0 (sampleCountersAt 0) False True"
  have poll: "processNewOutputs io (RenderOutputStore_new 1) d disk = Some (d, disk, True)" for io d disk
    by (simp add: processNewOutputs_def recent_drop RenderOutputStore_new_def)
  have seen: "\<not> configuredOutputsSeen (fst ?new)"
    by (simp add: ViewerDebugSession_new_def ViewerFrameDumper_new_def configuredOutputsSeen_def Let_def)
  have "waitForCompletion sampleSessionEnv 0 10 ?new Map.empty \<noteq> None"
    using poll seen
    by (simp add: waitForCompletion_def waitForConfiguredOutputs_def sampleSessionEnv_def
        waitLoop.simps [of _ _ _ 0] waitLoop.simps [of _ _ _ "Suc 0"])
  then obtain dumper s disk' c where w: "waitForCompletion sampleSessionEnv 0 10 ?new Map.empty = Some ((dumper, s), disk', c)"
    by (metis not_None_eq prod.collapse)
  have end': "nanoseconds (svEndClock sampleSessionEnv - 0) = 2"
    "svEndCounters sampleSessionEnv = sampleCountersAt 2"
    by (simp_all add: nanoseconds_def sampleSessionEnv_def)
  have "monotone_counters (sampleCountersAt 0) (svEndCounters sampleSessionEnv)" "0 < svEndClock sampleSessionEnv"
    by (simp_all add: sampleSessionEnv_def monotone_counters_def sampleCountersAt_def)
  from debug_log_shape [OF w _ this] show ?thesis
    unfolding end' using w by (auto simp: sampleCountersAt_def)
qed

end
