(* ===== verification/JsonMessages.thy ===== *)
theory JsonMessages
  imports SceneTypes
begin

text \<open>
  The JSON values of the streaming code and the pose messages of
  \<open>src/streaming/webrtc/src/utils/PoseUpdateHandler.cpp\<close>.  The library nlohmann::json is a parameter:
  the operations that the code calls, over its type of values \<open>'j\<close>, with \<open>None\<close> for a call that throws.
\<close>

section \<open>The library\<close>

text \<open>
  \<open>jsValue m key\<close> is \<open>m.value(key, "")\<close>, which throws if \<open>m\<close> is no object or the member is no string;
  \<open>jsAtInt m key\<close> is \<open>m.at(key).get<int>()\<close> and \<open>jsElemFloat m i\<close> is \<open>m[i].get<float>()\<close>.
\<close>

record 'j json_ops =
  jsParse :: "string \<Rightarrow> 'j option"
  jsValue :: "'j \<Rightarrow> string \<Rightarrow> string option"
  jsContains :: "'j \<Rightarrow> string \<Rightarrow> bool"
  jsAt :: "'j \<Rightarrow> string \<Rightarrow> 'j option"
  jsAtInt :: "'j \<Rightarrow> string \<Rightarrow> int option"
  jsIsArray :: "'j \<Rightarrow> bool"
  jsSize :: "'j \<Rightarrow> nat"
  jsElemFloat :: "'j \<Rightarrow> nat \<Rightarrow> f32 option"
  jsString :: "string \<Rightarrow> 'j"
  jsInt :: "int \<Rightarrow> 'j"
  jsArray :: "'j list \<Rightarrow> 'j"
  jsObject :: "(string \<times> 'j) list \<Rightarrow> 'j"
  jsDump :: "'j \<Rightarrow> string"

section \<open>Pose messages\<close>

fun readFloats :: "'j json_ops \<Rightarrow> 'j \<Rightarrow> nat list \<Rightarrow> f32 list option" where
  "readFloats js m [] = Some []"
| "readFloats js m (i # is) =
     (case jsElemFloat js m i of
        None \<Rightarrow> None
      | Some x \<Rightarrow> map_option (\<lambda>xs. x # xs) (readFloats js m is))"

text \<open>Every exception is caught and means that there is no pose.\<close>

definition parsePoseUpdateMessage :: "'j json_ops \<Rightarrow> string \<Rightarrow> Pose4f option" where
  "parsePoseUpdateMessage js payload =
     (case jsParse js payload of None \<Rightarrow> None | Some message \<Rightarrow>
      case jsValue js message ''type'' of None \<Rightarrow> None | Some type \<Rightarrow>
      if type \<noteq> ''pose'' then None
      else
        case (if jsContains js message ''matrix'' then jsAt js message ''matrix''
              else if jsContains js message ''pose'' then jsAt js message ''pose''
              else None) of
          None \<Rightarrow> None
        | Some matrix \<Rightarrow>
            if \<not> jsIsArray js matrix \<or> jsSize js matrix \<noteq> 16 then None
            else map_option Pose4f (readFloats js matrix [0..<16]))"

lemma readFloats_length: "readFloats js m is = Some xs \<Longrightarrow> length xs = length is"
  by (induction "is" arbitrary: xs) (auto split: option.splits)

text \<open>A pose that is handed on has sixteen entries.\<close>

lemma parsePoseUpdateMessage_shaped: "parsePoseUpdateMessage js payload = Some p \<Longrightarrow> pose_shaped p"
  by (auto simp: parsePoseUpdateMessage_def pose_shaped_def split: option.splits if_splits
      dest!: readFloats_length)

section \<open>A sample library\<close>

text \<open>Values with a parser that knows a few texts, to evaluate the model on.\<close>

datatype sjson =
  SNull | SString string | SInt int | SFloat f32 | SArray "sjson list" | SObject "(string \<times> sjson) list"

fun sMember :: "sjson \<Rightarrow> string \<Rightarrow> sjson option" where
  "sMember (SObject kvs) key = map_of kvs key"
| "sMember _ key = None"

fun sText :: "sjson \<Rightarrow> string option" where
  "sText (SString s) = Some s"
| "sText _ = None"

definition sample_texts :: "(string \<times> sjson) list" where
  "sample_texts =
     [(''[]'', SArray []),
      (''answer'', SObject [(''type'', SString ''answer''), (''sdp'', SString ''v=0'')]),
      (''ice'', SObject [(''type'', SString ''ice''), (''candidate'', SString ''c1''), (''sdpMLineIndex'', SInt 0)]),
      (''ice-null'', SObject [(''type'', SString ''ice''), (''candidate'', SString ''c1''), (''sdpMLineIndex'', SNull)]),
      (''pose'', SObject [(''type'', SString ''pose''), (''matrix'', SArray (replicate 16 (SFloat f32_one)))])]"

definition sample_json :: "sjson json_ops" where
  "sample_json =
     \<lparr>jsParse = map_of sample_texts,
      jsValue = (\<lambda>m key. case m of
          SObject kvs \<Rightarrow> (case map_of kvs key of None \<Rightarrow> Some [] | Some v \<Rightarrow> sText v)
        | _ \<Rightarrow> None),
      jsContains = (\<lambda>m key. sMember m key \<noteq> None),
      jsAt = sMember,
      jsAtInt = (\<lambda>m key. case sMember m key of Some (SInt i) \<Rightarrow> Some i | _ \<Rightarrow> None),
      jsIsArray = (\<lambda>m. case m of SArray _ \<Rightarrow> True | _ \<Rightarrow> False),
      jsSize = (\<lambda>m. case m of SArray xs \<Rightarrow> length xs | SObject kvs \<Rightarrow> length kvs | _ \<Rightarrow> 1),
      jsElemFloat = (\<lambda>m i. case m of
          SArray xs \<Rightarrow> (case drop i xs of SFloat x # _ \<Rightarrow> Some x | _ \<Rightarrow> None)
        | _ \<Rightarrow> None),
      jsString = SString, jsInt = SInt, jsArray = SArray, jsObject = SObject,
      jsDump = (\<lambda>m. case map_of (map (\<lambda>(t, v). (v, t)) sample_texts) m of None \<Rightarrow> ''?'' | Some t \<Rightarrow> t)\<rparr>"

lemma sample_pose_parses:
  "parsePoseUpdateMessage sample_json ''pose'' = Some (Pose4f (replicate 16 f32_one))"
  "parsePoseUpdateMessage sample_json ''[]'' = None"
  by code_simp+

end
