(* ===== verification/SignallingHandler.thy ===== *)
theory SignallingHandler
  imports JsonMessages CxxStrings
begin

text \<open>
  \<open>SignallingHandler\<close> of \<open>src/streaming/webrtc/src\<close>: a WebSocket server for one client at a time.  The
  WebSocket library runs all handlers and posted tasks one after the other on one thread, until a
  handler lets an exception escape or the server has stopped; other threads only post tasks.

  A connection is a number, and a weak handle to it is valid while the connection object lives.  The
  callbacks work on the state \<open>'a\<close> of the owner; \<open>None\<close> is an exception that leaves a callback.
\<close>

section \<open>State\<close>

type_synonym conn = nat

datatype posted = PostStartup conn | PostSend conn string | PostClose conn string

type_synonym 'a callback = "'a \<Rightarrow> ('a \<times> posted list) option"

record ('a, 'j) SignallingCallbacks =
  cbOnAnswer :: "(string \<Rightarrow> 'a callback) option"
  cbOnIce :: "('j \<Rightarrow> 'a callback) option"
  cbOnClientConnected :: "(conn \<Rightarrow> 'a callback) option"
  cbOnClientDisconnected :: "'a callback option"

text \<open>
  Beside the members: the connections whose objects live, the posted tasks, whether the thread is
  in \<open>run()\<close>, and what was handed to the library (texts sent, closes with their reason).
\<close>

record SignallingHandler =
  shHost :: string
  shPort :: u16
  shRunning :: bool
  shStopping :: bool
  shClient :: "conn option"
  shAlive :: "conn list"
  shPosted :: "posted list"
  shLoop :: bool
  shSent :: "(conn \<times> string) list"
  shClosed :: "(conn \<times> string) list"

definition SignallingHandler_new :: "string \<Rightarrow> u16 \<Rightarrow> SignallingHandler" where
  "SignallingHandler_new host port =
     \<lparr>shHost = host, shPort = port, shRunning = False, shStopping = False, shClient = None,
      shAlive = [], shPosted = [], shLoop = False, shSent = [], shClosed = []\<rparr>"

definition post :: "posted list \<Rightarrow> SignallingHandler \<Rightarrow> SignallingHandler" where
  "post ps s = s\<lparr>shPosted := shPosted s @ ps\<rparr>"

section \<open>Control\<close>

text \<open>\<open>listens\<close>: neither \<open>listen\<close> nor \<open>start_accept\<close> throws.\<close>

definition SignallingHandler_start :: "bool \<Rightarrow> SignallingHandler \<Rightarrow> SignallingHandler" where
  "SignallingHandler_start listens s =
     (if shRunning s then s
      else s\<lparr>shRunning := True, shStopping := False, shLoop := listens\<rparr>)"

definition expired :: "conn option \<Rightarrow> SignallingHandler \<Rightarrow> bool" where
  "expired handle s = (case handle of None \<Rightarrow> True | Some c \<Rightarrow> c \<notin> set (shAlive s))"

definition closeActiveClient :: "string \<Rightarrow> SignallingHandler \<Rightarrow> SignallingHandler" where
  "closeActiveClient reason s =
     (case shClient s of
        None \<Rightarrow> s
      | Some c \<Rightarrow> if expired (Some c) s then s else post [PostClose c reason] s)"

text \<open>What \<open>stop\<close> does before it joins the thread.\<close>

definition SignallingHandler_stop :: "SignallingHandler \<Rightarrow> SignallingHandler" where
  "SignallingHandler_stop s =
     (if \<not> shRunning s then s
      else closeActiveClient ''shutdown'' (s\<lparr>shRunning := False, shStopping := True\<rparr>))"

definition isActiveClientLocked :: "conn \<Rightarrow> SignallingHandler \<Rightarrow> bool" where
  "isActiveClientLocked hdl s \<longleftrightarrow>
     \<not> expired (shClient s) s \<and> \<not> expired (Some hdl) s \<and> shClient s = Some hdl"

definition isActiveClient :: "conn \<Rightarrow> SignallingHandler \<Rightarrow> bool" where
  "isActiveClient hdl s = isActiveClientLocked hdl s"

text \<open>The function that \<open>makeSendFunc\<close> returns, applied to a payload.\<close>

definition makeSendFunc :: "conn \<Rightarrow> string \<Rightarrow> posted" where
  "makeSendFunc hdl payload = PostSend hdl payload"

section \<open>Handlers\<close>

definition call ::
    "'a callback \<Rightarrow> SignallingHandler \<times> 'a \<Rightarrow> (SignallingHandler \<times> 'a) option" where
  "call f sa = (case f (snd sa) of None \<Rightarrow> None | Some (a, ps) \<Rightarrow> Some (post ps (fst sa), a))"

definition onOpen ::
    "('a, 'j) SignallingCallbacks \<Rightarrow> conn \<Rightarrow> SignallingHandler \<times> 'a \<Rightarrow> (SignallingHandler \<times> 'a) option" where
  "onOpen cbs hdl sa =
     (let s = fst sa;
          previousClient = (if expired (shClient s) s then None else shClient s);
          s = s\<lparr>shClient := Some hdl\<rparr>;
          s = (case previousClient of
                 None \<Rightarrow> s
               | Some p \<Rightarrow> s\<lparr>shClosed := shClosed s @ [(p, ''superseded'')]\<rparr>);
          s = (if cbOnClientConnected cbs \<noteq> None then post [PostStartup hdl] s else s)
      in Some (s, snd sa))"

definition onClose ::
    "('a, 'j) SignallingCallbacks \<Rightarrow> conn \<Rightarrow> SignallingHandler \<times> 'a \<Rightarrow> (SignallingHandler \<times> 'a) option" where
  "onClose cbs hdl sa =
     (let s = fst sa; closedActiveClient = isActiveClientLocked hdl s;
          s = (if closedActiveClient then s\<lparr>shClient := None\<rparr> else s)
      in case cbOnClientDisconnected cbs of
           None \<Rightarrow> Some (s, snd sa)
         | Some f \<Rightarrow> if closedActiveClient then call f (s, snd sa) else Some (s, snd sa))"

definition onMessage ::
    "'j json_ops \<Rightarrow> ('a, 'j) SignallingCallbacks \<Rightarrow> conn \<Rightarrow> string \<Rightarrow> SignallingHandler \<times> 'a
     \<Rightarrow> (SignallingHandler \<times> 'a) option" where
  "onMessage js cbs hdl payload sa =
     (if \<not> isActiveClient hdl (fst sa) then Some sa
      else case jsParse js payload of
        None \<Rightarrow> Some sa
      | Some j \<Rightarrow>
          (case jsValue js j ''type'' of
             None \<Rightarrow> None
           | Some type \<Rightarrow>
               if type = ''answer'' \<and> cbOnAnswer cbs \<noteq> None then
                 (case jsValue js j ''sdp'' of
                    None \<Rightarrow> None
                  | Some sdp \<Rightarrow> call (the (cbOnAnswer cbs) sdp) sa)
               else if type = ''ice'' \<and> cbOnIce cbs \<noteq> None then call (the (cbOnIce cbs) j) sa
               else Some sa))"

text \<open>
  A posted task.  \<open>sendThrows\<close>: whether \<open>send\<close> throws, which is caught, as is everything that
  \<open>close\<close> throws.
\<close>

definition runPosted ::
    "('a, 'j) SignallingCallbacks \<Rightarrow> bool \<Rightarrow> posted \<Rightarrow> SignallingHandler \<times> 'a \<Rightarrow> (SignallingHandler \<times> 'a) option" where
  "runPosted cbs sendThrows p sa =
     (let s = fst sa in
      case p of
        PostStartup hdl \<Rightarrow>
          if \<not> isActiveClient hdl s then Some sa
          else (case cbOnClientConnected cbs of None \<Rightarrow> Some sa | Some f \<Rightarrow> call (f hdl) sa)
      | PostSend hdl payload \<Rightarrow>
          if \<not> isActiveClientLocked hdl s \<or> sendThrows then Some sa
          else Some (s\<lparr>shSent := shSent s @ [(hdl, payload)]\<rparr>, snd sa)
      | PostClose hdl reason \<Rightarrow>
          if \<not> isActiveClientLocked hdl s then Some sa
          else Some (s\<lparr>shClosed := shClosed s @ [(hdl, reason)]\<rparr>, snd sa))"

section \<open>The thread\<close>

text \<open>
  A connection opens under a number that was not used before; its object dies some time after it
  was closed.  An escaping exception ends \<open>run()\<close>, and with it the handling of all later events.
\<close>

datatype ws_event =
    WsOpen conn
  | WsClose conn
  | WsMessage conn string
  | WsDestroyed conn
  | WsRunPosted bool
  | WsPost posted

definition ws_handle ::
    "'j json_ops \<Rightarrow> ('a, 'j) SignallingCallbacks \<Rightarrow> ws_event \<Rightarrow> SignallingHandler \<times> 'a
     \<Rightarrow> (SignallingHandler \<times> 'a) option" where
  "ws_handle js cbs ev sa =
     (let s = fst sa; a = snd sa in
      case ev of
        WsOpen c \<Rightarrow> onOpen cbs c (s\<lparr>shAlive := c # shAlive s\<rparr>, a)
      | WsClose c \<Rightarrow> if c \<in> set (shAlive s) then onClose cbs c sa else Some sa
      | WsMessage c payload \<Rightarrow> if c \<in> set (shAlive s) then onMessage js cbs c payload sa else Some sa
      | WsDestroyed c \<Rightarrow> Some (s\<lparr>shAlive := removeAll c (shAlive s)\<rparr>, a)
      | WsRunPosted sendThrows \<Rightarrow>
          (case shPosted s of
             [] \<Rightarrow> Some sa
           | p # ps \<Rightarrow> runPosted cbs sendThrows p (s\<lparr>shPosted := ps\<rparr>, a))
      | WsPost p \<Rightarrow> Some (post [p] s, a))"

definition ws_step ::
    "'j json_ops \<Rightarrow> ('a, 'j) SignallingCallbacks \<Rightarrow> ws_event \<Rightarrow> SignallingHandler \<times> 'a \<Rightarrow> SignallingHandler \<times> 'a" where
  "ws_step js cbs ev sa =
     (if \<not> shLoop (fst sa) then sa
      else case ws_handle js cbs ev sa of
        None \<Rightarrow> ((fst sa)\<lparr>shLoop := False\<rparr>, snd sa)
      | Some sa' \<Rightarrow> sa')"

definition ws_run ::
    "'j json_ops \<Rightarrow> ('a, 'j) SignallingCallbacks \<Rightarrow> ws_event list \<Rightarrow> SignallingHandler \<times> 'a \<Rightarrow> SignallingHandler \<times> 'a" where
  "ws_run js cbs evs sa = fold (ws_step js cbs) evs sa"

end
