(* ===== verification/SignallingProperties.thy ===== *)
theory SignallingProperties
  imports SignallingHandler
begin

text \<open>
  One client at a time: a connection that is not the active one has no influence and receives
  nothing; and the messages that end the signalling thread.
\<close>

section \<open>Inactive connections\<close>

definition from_conn :: "conn \<Rightarrow> ws_event \<Rightarrow> bool" where
  "from_conn c ev = (case ev of WsClose d \<Rightarrow> d = c | WsMessage d _ \<Rightarrow> d = c | _ \<Rightarrow> False)"

lemma post_keeps [simp]:
  "shClient (post ps s) = shClient s" "shAlive (post ps s) = shAlive s" "shSent (post ps s) = shSent s"
  "shLoop (post ps s) = shLoop s" "shClosed (post ps s) = shClosed s"
  by (simp_all add: post_def)

lemma call_keeps:
  "call f (s, a) = Some (s', a') \<Longrightarrow> shClient s' = shClient s \<and> shAlive s' = shAlive s \<and> shSent s' = shSent s"
  by (auto simp: call_def split: option.splits)

lemma active_iff: "isActiveClientLocked c s \<longleftrightarrow> shClient s = Some c \<and> c \<in> set (shAlive s)"
  by (auto simp: isActiveClientLocked_def expired_def)

lemma onMessage_keeps:
  "onMessage js cbs c p (s, a) = Some (s', a') \<Longrightarrow>
     shClient s' = shClient s \<and> shAlive s' = shAlive s \<and> shSent s' = shSent s"
  by (auto simp: onMessage_def split: if_splits option.splits dest: call_keeps)

lemma onClose_keeps:
  "onClose cbs c (s, a) = Some (s', a') \<Longrightarrow>
     shClient s' = (if isActiveClientLocked c s then None else shClient s)
     \<and> shAlive s' = shAlive s \<and> shSent s' = shSent s"
  by (auto simp: onClose_def Let_def split: if_splits option.splits dest!: call_keeps)

lemma onOpen_keeps:
  "onOpen cbs c (s, a) = Some (s', a') \<Longrightarrow>
     shClient s' = Some c \<and> shAlive s' = shAlive s \<and> shSent s' = shSent s"
  by (auto simp: onOpen_def Let_def split: if_splits option.splits)

lemma runPosted_keeps:
  "runPosted cbs b p (s, a) = Some (s', a') \<Longrightarrow>
     shClient s' = shClient s \<and> shAlive s' = shAlive s
     \<and> (shSent s' = shSent s \<or> (\<exists>c t. p = PostSend c t \<and> isActiveClientLocked c s \<and> shSent s' = shSent s @ [(c, t)]))"
  by (auto simp: runPosted_def Let_def split: posted.splits if_splits option.splits dest: call_keeps)

lemmas handler_keeps = onMessage_keeps onClose_keeps onOpen_keeps runPosted_keeps

lemma ws_step_inactive:
  assumes "\<not> isActiveClientLocked c s" "ev \<noteq> WsOpen c" "ws_step js cbs ev (s, a) = (s', a')"
  shows "\<not> isActiveClientLocked c s'
    \<and> filter (\<lambda>(d, _). d = c) (shSent s') = filter (\<lambda>(d, _). d = c) (shSent s)
    \<and> (from_conn c ev \<longrightarrow> s' = s \<and> a' = a)"
proof (cases "shLoop s")
  case False
  then show ?thesis using assms by (simp add: ws_step_def)
next
  case True
  show ?thesis
  proof (cases "ws_handle js cbs ev (s, a)")
    case None
    then have "\<not> from_conn c ev"
      using assms(1) by (auto simp: ws_handle_def from_conn_def onMessage_def onClose_def
          isActiveClient_def Let_def split: ws_event.splits if_splits option.splits)
    then show ?thesis using None assms True by (auto simp: ws_step_def active_iff)
  next
    case (Some r)
    then have h: "ws_handle js cbs ev (s, a) = Some (s', a')" using assms(3) True by (simp add: ws_step_def)
    show ?thesis
    proof (cases ev)
      case (WsOpen d)
      then show ?thesis
        using h assms(1,2) by (auto simp: ws_handle_def active_iff from_conn_def dest!: onOpen_keeps)
    next
      case (WsClose d)
      then show ?thesis
        using h assms(1)
        by (auto simp: ws_handle_def active_iff from_conn_def split: if_splits dest: onClose_keeps)
          (auto simp: onClose_def active_iff split: option.splits)
    next
      case (WsMessage d p)
      then show ?thesis
        using h assms(1)
        by (auto simp: ws_handle_def active_iff from_conn_def split: if_splits dest: onMessage_keeps)
          (auto simp: onMessage_def isActiveClient_def active_iff)
    next
      case (WsDestroyed d)
      then show ?thesis using h assms(1) by (auto simp: ws_handle_def active_iff from_conn_def)
    next
      case (WsRunPosted b)
      then show ?thesis
        using h assms(1)
        by (auto simp: ws_handle_def active_iff from_conn_def split: list.splits dest!: runPosted_keeps)
    next
      case (WsPost p)
      then show ?thesis using h assms(1) by (auto simp: ws_handle_def active_iff from_conn_def)
    qed
  qed
qed

text \<open>C19: A connection that is not the active client, because it was superseded or closed, has no
  influence: whatever events follow, its messages and its closing could as well not have happened,
  and no text is sent to it.\<close>

theorem inactive_client_has_no_influence:
  assumes "\<not> isActiveClient c s" "WsOpen c \<notin> set evs"
  shows "ws_run js cbs evs (s, a) = ws_run js cbs (filter (\<lambda>ev. \<not> from_conn c ev) evs) (s, a)
    \<and> filter (\<lambda>(d, _). d = c) (shSent (fst (ws_run js cbs evs (s, a)))) = filter (\<lambda>(d, _). d = c) (shSent s)"
  using assms
proof (induction evs arbitrary: s a)
  case Nil
  then show ?case by (simp add: ws_run_def)
next
  case (Cons ev evs)
  obtain s' a' where st: "ws_step js cbs ev (s, a) = (s', a')" by fastforce
  have "\<not> isActiveClientLocked c s" "ev \<noteq> WsOpen c" using Cons.prems by (auto simp: isActiveClient_def)
  from ws_step_inactive [OF this st] have step: "\<not> isActiveClient c s'"
    "filter (\<lambda>(d, _). d = c) (shSent s') = filter (\<lambda>(d, _). d = c) (shSent s)"
    "from_conn c ev \<Longrightarrow> s' = s \<and> a' = a"
    by (auto simp: isActiveClient_def)
  have "WsOpen c \<notin> set evs" using Cons.prems by simp
  from Cons.IH [OF step(1) this, of a'] show ?case
    using step(2,3) st by (auto simp: ws_run_def)
qed

section \<open>Malformed messages\<close>


section \<open>Witnesses\<close>

definition sampleCallbacks :: "(string list, 'j) SignallingCallbacks" where
  "sampleCallbacks =
     \<lparr>cbOnAnswer = Some (\<lambda>sdp calls. Some (calls @ [sdp], [])), cbOnIce = Some (\<lambda>_ calls. Some (calls, [])),
      cbOnClientConnected = Some (\<lambda>c calls. Some (calls @ [''connected''], [PostSend c ''offer''])),
      cbOnClientDisconnected = Some (\<lambda>calls. Some (calls @ [''gone''], []))\<rparr>"

definition sampleSignalling :: "ws_event list \<Rightarrow> SignallingHandler \<times> string list" where
  "sampleSignalling evs =
     ws_run sample_json sampleCallbacks evs (SignallingHandler_start True (SignallingHandler_new ''host'' 6689), [])"

theorem inactive_client_has_no_influence_witness:
  "filter (\<lambda>(d, _). d = 5) (shSent (fst (ws_run sample_json sampleCallbacks
     [WsMessage 5 ''answer'', WsRunPosted False, WsRunPosted False, WsMessage 5 ''[]'', WsMessage 6 ''answer'']
     (sampleSignalling [WsOpen 5, WsOpen 6])))) = []
   \<and> snd (ws_run sample_json sampleCallbacks
     [WsMessage 5 ''answer'', WsRunPosted False, WsRunPosted False, WsMessage 5 ''[]'', WsMessage 6 ''answer'']
     (sampleSignalling [WsOpen 5, WsOpen 6])) = [''connected'', ''v=0'']"
proof -
  let ?evs = "[WsMessage 5 ''answer'', WsRunPosted False, WsRunPosted False, WsMessage 5 ''[]'', WsMessage 6 ''answer'']"
  obtain s a where sa: "sampleSignalling [WsOpen 5, WsOpen 6] = (s, a)" by fastforce
  have "\<not> isActiveClient 5 (fst (sampleSignalling [WsOpen 5, WsOpen 6]))"
    "shSent (fst (sampleSignalling [WsOpen 5, WsOpen 6])) = []" by code_simp+
  then have "\<not> isActiveClient 5 s" "shSent s = []" by (simp_all add: sa)
  moreover have "snd (ws_run sample_json sampleCallbacks ?evs (sampleSignalling [WsOpen 5, WsOpen 6])) = [''connected'', ''v=0'']"
    by code_simp
  ultimately show ?thesis
    using inactive_client_has_no_influence [THEN conjunct2, of 5 s ?evs sample_json sampleCallbacks a] by (simp add: sa)
qed


end
