(* ===== verification/GstPipeline.thy ===== *)
theory GstPipeline
  imports Config CxxStrings "HOL-Library.Multiset" "HOL-Library.Monad_Syntax"
begin

text \<open>
  \<open>PipelineBuilder\<close> of \<open>src/streaming/webrtc/src\<close> and the functions of \<open>WebRtcServer.cpp\<close> that only
  work on GStreamer objects.

  GStreamer is a parameter: the calls with the answers the code looks at.  An object is an address;
  \<open>refs\<close> is the multiset of the references that the program holds, an object that a call returns
  comes with one, and giving a reference back that is not held is undefined (\<open>None\<close>).
\<close>

section \<open>GStreamer\<close>

type_synonym gobj = nat

type_synonym refs = "gobj multiset"

datatype gst_state = GST_STATE_NULL | GST_STATE_READY | GST_STATE_PLAYING

text \<open>
  \<open>gstParseLaunch\<close> gives the pipeline and whether an error is set, \<open>gstElementSetState\<close> whether the
  change does not fail, \<open>gstPadLink\<close> whether the link is made.  A session description takes over the
  message it is made from.
\<close>

record gst_ops =
  gstParseLaunch :: "string \<Rightarrow> gobj option \<times> bool"
  gstBinGetByName :: "gobj \<Rightarrow> string \<Rightarrow> gobj option"
  gstElementSetState :: "gobj \<Rightarrow> gst_state \<Rightarrow> bool"
  gstElementGetBus :: "gobj \<Rightarrow> gobj option"
  gstRequestPad :: "gobj \<Rightarrow> string \<Rightarrow> gobj option"
  gstPadTransceiver :: "gobj \<Rightarrow> gobj option"
  gstMLineIndex :: "gobj \<Rightarrow> u32"
  gstCapsFromString :: "string \<Rightarrow> gobj option"
  gstPadIsLinked :: "gobj \<Rightarrow> bool"
  gstGetStaticPad :: "gobj \<Rightarrow> string \<Rightarrow> gobj option"
  gstPadLink :: "gobj \<Rightarrow> gobj \<Rightarrow> bool"
  gstCreateDataChannel :: "gobj \<Rightarrow> string \<Rightarrow> gobj option"
  gstPromiseNew :: gobj
  gstSdpMessageParse :: "string \<Rightarrow> gobj option"
  gstSessionDescription :: "gobj \<Rightarrow> gobj option"

definition own :: "gobj option \<Rightarrow> refs \<Rightarrow> refs" where
  "own x refs = (case x of None \<Rightarrow> refs | Some obj \<Rightarrow> add_mset obj refs)"

definition unref :: "gobj \<Rightarrow> refs \<Rightarrow> refs option" where
  "unref obj refs = (if obj \<in># refs then Some (refs - {#obj#}) else None)"

definition unref_opt :: "gobj option \<Rightarrow> refs \<Rightarrow> refs option" where
  "unref_opt x refs = (case x of None \<Rightarrow> Some refs | Some obj \<Rightarrow> unref obj refs)"

lemma unref_add [simp]: "unref obj (add_mset obj refs) = Some refs"
  by (simp add: unref_def)

definition held :: "gobj option \<Rightarrow> refs" where
  "held x = (case x of None \<Rightarrow> {#} | Some obj \<Rightarrow> {#obj#})"

lemma held_simps [simp]: "held None = {#}" "held (Some obj) = {#obj#}"
  by (simp_all add: held_def)

lemma own_held: "own x refs = held x + refs"
  by (cases x) (simp_all add: own_def)

lemma unref_held [simp]: "unref_opt x (held x + refs) = Some refs"
  by (cases x) (simp_all add: unref_opt_def)

section \<open>The pipeline\<close>

record PipelineHandles =
  phPipeline :: "gobj option"
  phWebrtcbin :: "gobj option"
  phVideoAppSrc :: "gobj option"
  phVideoPayloader :: "gobj option"

definition noHandles :: PipelineHandles where
  "noHandles = \<lparr>phPipeline = None, phWebrtcbin = None, phVideoAppSrc = None, phVideoPayloader = None\<rparr>"

definition makeVideoBranchString :: "WebRtcStreamingConfig \<Rightarrow> ImageSize \<Rightarrow> string" where
  "makeVideoBranchString cfg imageSize =
     (let kbps = bitrateBps cfg div 1000 in
      ''appsrc name=src_video is-live=true do-timestamp=true format=time''
      @ '' caps='' @ [CHR 0x22] @ ''video/x-raw,format=RGB,width='' @ to_string (imgWidth imageSize)
      @ '',height='' @ to_string (imgHeight imageSize) @ '',framerate='' @ to_string (uint (rtcFps cfg))
      @ ''/1'' @ [CHR 0x22]
      @ '' ! queue max-size-buffers=2 leaky=downstream''
      @ '' ! videoconvert ! video/x-raw,format=I420''
      @ '' ! x264enc tune=zerolatency speed-preset=ultrafast''
      @ '' bitrate='' @ to_string (uint kbps) @ '' threads=2''
      @ '' key-int-max='' @ to_string (uint (rtcFps cfg)) @ '' ! video/x-h264,profile=constrained-baseline''
      @ '' ! h264parse config-interval=-1''
      @ '' ! video/x-h264,profile=constrained-baseline,stream-format=byte-stream,alignment=au''
      @ '' ! rtph264pay name=pay_video pt=96 config-interval=-1'')"

definition pipelineString :: "WebRtcStreamingConfig \<Rightarrow> ImageSize \<Rightarrow> string" where
  "pipelineString cfg imageSize =
     makeVideoBranchString cfg imageSize @ '' webrtcbin name=sendrecv''
     @ (if stunServer cfg \<noteq> [] then '' stun-server='' @ stunServer cfg else [])
     @ '' bundle-policy=max-bundle''"

definition gstBinFind :: "gst_ops \<Rightarrow> gobj option \<Rightarrow> string \<Rightarrow> gobj option" where
  "gstBinFind ops bin name = (case bin of None \<Rightarrow> None | Some b \<Rightarrow> gstBinGetByName ops b name)"

definition buildPipeline ::
    "gst_ops \<Rightarrow> WebRtcStreamingConfig \<Rightarrow> ImageSize \<Rightarrow> refs \<Rightarrow> (refs \<times> PipelineHandles) option" where
  "buildPipeline ops cfg imageSize refs =
     (let (pipeline, err) = gstParseLaunch ops (pipelineString cfg imageSize);
          refs = own pipeline refs
      in if err then do {
           refs \<leftarrow> unref_opt pipeline refs;
           Some (refs, noHandles)
         }
         else
           let webrtcbin = gstBinFind ops pipeline ''sendrecv'';
               videoAppSrc = gstBinFind ops pipeline ''src_video'';
               videoPayloader = gstBinFind ops pipeline ''pay_video''
           in Some (own videoPayloader (own videoAppSrc (own webrtcbin refs)),
                    \<lparr>phPipeline = pipeline, phWebrtcbin = webrtcbin, phVideoAppSrc = videoAppSrc,
                     phVideoPayloader = videoPayloader\<rparr>))"

definition handles_held :: "PipelineHandles \<Rightarrow> refs" where
  "handles_held h =
     held (phPipeline h) + held (phWebrtcbin h) + held (phVideoAppSrc h) + held (phVideoPayloader h)"

text \<open>Without a pipeline there are no other handles.\<close>

definition handles_ok :: "PipelineHandles \<Rightarrow> bool" where
  "handles_ok h \<longleftrightarrow> (phPipeline h = None \<longrightarrow> h = noHandles)"

lemma handles_simps [simp]: "handles_held noHandles = {#}" "handles_ok noHandles"
  by (simp_all add: handles_held_def noHandles_def handles_ok_def)

lemma buildPipeline_result:
  obtains h where "buildPipeline ops cfg imageSize refs = Some (handles_held h + refs, h)" "handles_ok h"
proof -
  obtain p err where launch: "gstParseLaunch ops (pipelineString cfg imageSize) = (p, err)" by fastforce
  show thesis
  proof (cases err)
    case True
    then have "buildPipeline ops cfg imageSize refs = Some (handles_held noHandles + refs, noHandles)"
      by (simp add: buildPipeline_def Let_def own_held launch)
    then show thesis using that by simp
  next
    case False
    let ?h = "\<lparr>phPipeline = p, phWebrtcbin = gstBinFind ops p ''sendrecv'',
        phVideoAppSrc = gstBinFind ops p ''src_video'', phVideoPayloader = gstBinFind ops p ''pay_video''\<rparr>"
    have "buildPipeline ops cfg imageSize refs = Some (handles_held ?h + refs, ?h)"
      using False by (simp add: buildPipeline_def Let_def own_held handles_held_def ac_simps launch)
    moreover have "handles_ok ?h" by (auto simp: handles_ok_def gstBinFind_def noHandles_def)
    ultimately show thesis by (rule that)
  qed
qed

section \<open>Pads and transceivers\<close>

definition kVideoMLineIndex :: u32 where
  "kVideoMLineIndex = 0"

definition kH264CodecPreferencesCaps :: string where
  "kH264CodecPreferencesCaps =
     ''application/x-rtp,media=(string)video,encoding-name=(string)H264,''
     @ ''payload=(int)96,clock-rate=(int)90000,packetization-mode=(string)1,''
     @ ''level-asymmetry-allowed=(string)1,profile-level-id=(string)42e01f''"

definition requestVerifiedVideoSinkPadLocked ::
    "gst_ops \<Rightarrow> gobj option \<Rightarrow> u32 \<Rightarrow> refs \<Rightarrow> (refs \<times> gobj option) option" where
  "requestVerifiedVideoSinkPadLocked ops webrtcbin requestedMLineIndex refs =
     (case webrtcbin of
        None \<Rightarrow> Some (refs, None)
      | Some bin \<Rightarrow>
          (case gstRequestPad ops bin (''sink_'' @ to_string (uint requestedMLineIndex)) of
             None \<Rightarrow> Some (refs, None)
           | Some sinkPad \<Rightarrow>
               let refs = own (Some sinkPad) refs in
               case gstPadTransceiver ops sinkPad of
                 None \<Rightarrow> do { refs \<leftarrow> unref sinkPad refs; Some (refs, None) }
               | Some transceiver \<Rightarrow>
                   let matches = (gstMLineIndex ops transceiver = requestedMLineIndex) in do {
                     refs \<leftarrow> unref transceiver (own (Some transceiver) refs);
                     if \<not> matches then do { refs \<leftarrow> unref sinkPad refs; Some (refs, None) }
                     else Some (refs, Some sinkPad)
                   }))"

definition configurePadTransceiverCodecPreferencesLocked ::
    "gst_ops \<Rightarrow> gobj option \<Rightarrow> refs \<Rightarrow> (refs \<times> bool) option" where
  "configurePadTransceiverCodecPreferencesLocked ops sinkPad refs =
     (case sinkPad of
        None \<Rightarrow> Some (refs, False)
      | Some pad \<Rightarrow>
          (case gstPadTransceiver ops pad of
             None \<Rightarrow> Some (refs, False)
           | Some transceiver \<Rightarrow>
               let refs = own (Some transceiver) refs in
               case gstCapsFromString ops kH264CodecPreferencesCaps of
                 None \<Rightarrow> do { refs \<leftarrow> unref transceiver refs; Some (refs, False) }
               | Some caps \<Rightarrow> do {
                   refs \<leftarrow> unref caps (own (Some caps) refs);
                   refs \<leftarrow> unref transceiver refs;
                   Some (refs, True)
                 }))"

definition configurePadTransceiverDirectionLocked ::
    "gst_ops \<Rightarrow> gobj option \<Rightarrow> refs \<Rightarrow> (refs \<times> bool) option" where
  "configurePadTransceiverDirectionLocked ops sinkPad refs =
     (case sinkPad of
        None \<Rightarrow> Some (refs, False)
      | Some pad \<Rightarrow>
          (case gstPadTransceiver ops pad of
             None \<Rightarrow> Some (refs, False)
           | Some transceiver \<Rightarrow> do {
               refs \<leftarrow> unref transceiver (own (Some transceiver) refs);
               Some (refs, True)
             }))"

definition linkVideoPayloaderToSinkPadLocked ::
    "gst_ops \<Rightarrow> gobj option \<Rightarrow> gobj option \<Rightarrow> refs \<Rightarrow> (refs \<times> bool) option" where
  "linkVideoPayloaderToSinkPadLocked ops videoPayloader sinkPad refs =
     (case (sinkPad, videoPayloader) of
        (Some pad, Some payloader) \<Rightarrow>
          if gstPadIsLinked ops pad then Some (refs, True)
          else (case gstGetStaticPad ops payloader ''src'' of
             None \<Rightarrow> Some (refs, False)
           | Some payloaderSrcPad \<Rightarrow>
               let linked = gstPadLink ops payloaderSrcPad pad in do {
                 refs \<leftarrow> unref payloaderSrcPad (own (Some payloaderSrcPad) refs);
                 Some (refs, linked)
               })
      | _ \<Rightarrow> Some (refs, False))"

text \<open>Installing and removing the handler of bus messages, which are only logged.\<close>

definition pipelineBusLogging :: "gst_ops \<Rightarrow> gobj option \<Rightarrow> refs \<Rightarrow> refs option" where
  "pipelineBusLogging ops pipeline refs =
     (case pipeline of
        None \<Rightarrow> Some refs
      | Some p \<Rightarrow>
          (case gstElementGetBus ops p of
             None \<Rightarrow> Some refs
           | Some bus \<Rightarrow> unref bus (own (Some bus) refs)))"

text \<open>None of them keeps or loses a reference, apart from the pad that a request returns.\<close>

lemma pad_functions_refs:
  "\<exists>x. requestVerifiedVideoSinkPadLocked ops bin i refs = Some (held x + refs, x)"
  "\<exists>b. configurePadTransceiverCodecPreferencesLocked ops pad refs = Some (refs, b)"
  "\<exists>b. configurePadTransceiverDirectionLocked ops pad refs = Some (refs, b)"
  "\<exists>b. linkVideoPayloaderToSinkPadLocked ops pay pad refs = Some (refs, b)"
  "pipelineBusLogging ops p refs = Some refs"
  by (auto simp: requestVerifiedVideoSinkPadLocked_def configurePadTransceiverCodecPreferencesLocked_def
      configurePadTransceiverDirectionLocked_def linkVideoPayloaderToSinkPadLocked_def
      pipelineBusLogging_def own_def Let_def split: option.split)

end
