(* ===== verification/IceFilter.thy ===== *)
theory IceFilter
  imports CxxStrings
begin

text \<open>
  The candidate filter of \<open>src/streaming/webrtc/src/WebRtcServer.cpp\<close>: with the environment variable
  \<open>EDGEVISION_WEBRTC_DIRECT_IPV4\<close> only UDP host candidates of the named addresses are exchanged.  The
  value of an environment variable is an argument, \<open>None\<close> if it is not set.
\<close>

record DirectIpv4Link =
  serverIp :: string
  clientIp :: string

definition toLowerAscii :: "string \<Rightarrow> string" where
  "toLowerAscii s = map to_lower s"

definition disableDataChannelFromEnv :: "string option \<Rightarrow> bool" where
  "disableDataChannelFromEnv env =
     (case env of
        None \<Rightarrow> False
      | Some v \<Rightarrow> v \<noteq> [] \<and> v \<noteq> ''0'' \<and> v \<noteq> ''false'' \<and> v \<noteq> ''FALSE'')"

definition directIpv4LinkFromEnv :: "string option \<Rightarrow> DirectIpv4Link option" where
  "directIpv4LinkFromEnv env =
     (case env of
        None \<Rightarrow> None
      | Some raw \<Rightarrow>
          if raw = [] then None
          else case find_substring '','' raw of
            None \<Rightarrow> None
          | Some separator \<Rightarrow>
              if separator = 0 \<or> separator + 1 \<ge> length raw then None
              else Some \<lparr>serverIp = take separator raw, clientIp = drop (separator + 1) raw\<rparr>)"

text \<open>The empty reason lets the candidate pass.\<close>

definition directCandidateDropReason :: "string \<Rightarrow> string \<Rightarrow> string" where
  "directCandidateDropReason candidate requiredIp =
     (let lower = toLowerAscii candidate in
      if \<not> contains_substring '' udp '' lower then ''not UDP''
      else if \<not> contains_substring '' typ host'' lower then ''not host''
      else if \<not> contains_substring ('' '' @ requiredIp @ '' '') candidate then ''not required IP '' @ requiredIp
      else [])"

definition stripLineEnd :: "string \<Rightarrow> string" where
  "stripLineEnd line = (if line \<noteq> [] \<and> last line = CHR 0x0D then butlast line else line)"

definition allowLocalCandidate :: "DirectIpv4Link option \<Rightarrow> string \<Rightarrow> bool" where
  "allowLocalCandidate link candidate =
     (case link of None \<Rightarrow> True | Some l \<Rightarrow> directCandidateDropReason candidate (serverIp l) = [])"

definition allowRemoteCandidate :: "DirectIpv4Link option \<Rightarrow> string \<Rightarrow> bool" where
  "allowRemoteCandidate link candidate =
     (case link of None \<Rightarrow> True | Some l \<Rightarrow> directCandidateDropReason candidate (clientIp l) = [])"

text \<open>The lines that repeated \<open>std::getline\<close> reads.\<close>

function getlines :: "string \<Rightarrow> string list" where
  "getlines [] = []"
| "getlines (c # cs) =
     takeWhile (\<lambda>c. c \<noteq> CHR 0x0A) (c # cs)
     # getlines (drop 1 (dropWhile (\<lambda>c. c \<noteq> CHR 0x0A) (c # cs)))"
  by pat_completeness auto

termination
proof (relation "measure length")
  fix c :: char and cs :: string
  have "length (dropWhile (\<lambda>c. c \<noteq> CHR 0x0A) (c # cs)) \<le> length (c # cs)" by (rule length_dropWhile_le)
  then show "(drop 1 (dropWhile (\<lambda>c. c \<noteq> CHR 0x0A) (c # cs)), c # cs) \<in> measure length" by simp
qed simp

definition crlf :: string where
  "crlf = [CHR 0x0D, CHR 0x0A]"

fun filterLines :: "DirectIpv4Link option \<Rightarrow> string list \<Rightarrow> string \<Rightarrow> string" where
  "filterLines link [] out = out"
| "filterLines link (line # lines) out =
     (let normalizedLine = stripLineEnd line in
      if starts_with ''a=candidate:'' normalizedLine \<and> \<not> allowRemoteCandidate link normalizedLine
      then filterLines link lines out
      else filterLines link lines (out @ normalizedLine @ crlf))"

definition filterRemoteAnswerSdpForDirectIpv4 :: "DirectIpv4Link option \<Rightarrow> string \<Rightarrow> string" where
  "filterRemoteAnswerSdpForDirectIpv4 link sdp =
     (case link of None \<Rightarrow> sdp | Some _ \<Rightarrow> filterLines link (getlines sdp) [])"

section \<open>What remains of an answer\<close>

definition line_passes :: "DirectIpv4Link \<Rightarrow> string \<Rightarrow> bool" where
  "line_passes link line \<longleftrightarrow>
     (starts_with ''a=candidate:'' line \<longrightarrow>
        contains_substring '' udp '' (toLowerAscii line) \<and> contains_substring '' typ host'' (toLowerAscii line)
        \<and> contains_substring ('' '' @ clientIp link @ '' '') line)"

lemma allowRemoteCandidate_iff:
  "\<not> starts_with ''a=candidate:'' line \<or> allowRemoteCandidate (Some link) line \<longleftrightarrow> line_passes link line"
  by (auto simp: allowRemoteCandidate_def directCandidateDropReason_def line_passes_def Let_def)

definition sdpLines :: "string list \<Rightarrow> string" where
  "sdpLines lines = concat (map (\<lambda>l. l @ crlf) lines)"

lemma filterLines_spec:
  "filterLines (Some link) lines out =
     out @ sdpLines (filter (line_passes link) (map stripLineEnd lines))"
proof (induction lines arbitrary: out)
  case (Cons line lines)
  show ?case
    using Cons allowRemoteCandidate_iff [of "stripLineEnd line" link]
    by (auto simp: Let_def sdpLines_def)
qed (simp add: sdpLines_def)

lemma getlines_no_newline: "line \<in> set (getlines s) \<Longrightarrow> CHR 0x0A \<notin> set line"
  by (induction s rule: getlines.induct) (auto dest: set_takeWhileD)

lemma getlines_sdpLines:
  "(\<And>l. l \<in> set lines \<Longrightarrow> CHR 0x0A \<notin> set l) \<Longrightarrow> getlines (sdpLines lines) = map (\<lambda>l. l @ [CHR 0x0D]) lines"
proof (induction lines)
  case (Cons l lines)
  let ?rest = "sdpLines lines"
  have l: "\<And>c. c \<in> set (l @ [CHR 0x0D]) \<Longrightarrow> c \<noteq> CHR 0x0A" using Cons.prems by auto
  have s: "sdpLines (l # lines) = (l @ [CHR 0x0D]) @ CHR 0x0A # ?rest" by (simp add: sdpLines_def crlf_def)
  have tw: "takeWhile (\<lambda>c. c \<noteq> CHR 0x0A) ((l @ [CHR 0x0D]) @ CHR 0x0A # ?rest) = l @ [CHR 0x0D]"
    and dw: "dropWhile (\<lambda>c. c \<noteq> CHR 0x0A) ((l @ [CHR 0x0D]) @ CHR 0x0A # ?rest) = CHR 0x0A # ?rest"
    using l by (simp_all add: takeWhile_append dropWhile_append del: append.assoc)
  obtain c cs where c: "(l @ [CHR 0x0D]) @ CHR 0x0A # ?rest = c # cs" by (cases l) auto
  have "getlines (sdpLines (l # lines)) = (l @ [CHR 0x0D]) # getlines ?rest"
    unfolding s using tw dw unfolding c by simp
  then show ?case using Cons by simp
qed (simp add: sdpLines_def)

lemma stripLineEnd_cr [simp]: "stripLineEnd (l @ [CHR 0x0D]) = l"
  by (simp add: stripLineEnd_def)

text \<open>C33: With the direct link enabled, what is left of an answer is exactly its lines, in order and
  each ended by CRLF, without the candidate lines that are not UDP host candidates of the client's
  address; filtering again changes nothing.\<close>

theorem answer_filter_exact:
  "filterRemoteAnswerSdpForDirectIpv4 (Some link) sdp =
     sdpLines (filter (line_passes link) (map stripLineEnd (getlines sdp)))
   \<and> getlines (filterRemoteAnswerSdpForDirectIpv4 (Some link) sdp) =
       map (\<lambda>l. l @ [CHR 0x0D]) (filter (line_passes link) (map stripLineEnd (getlines sdp)))
   \<and> filterRemoteAnswerSdpForDirectIpv4 (Some link) (filterRemoteAnswerSdpForDirectIpv4 (Some link) sdp) =
       filterRemoteAnswerSdpForDirectIpv4 (Some link) sdp"
proof -
  let ?kept = "filter (line_passes link) (map stripLineEnd (getlines sdp))"
  have out: "filterRemoteAnswerSdpForDirectIpv4 (Some link) s =
      sdpLines (filter (line_passes link) (map stripLineEnd (getlines s)))" for s
    by (simp add: filterRemoteAnswerSdpForDirectIpv4_def filterLines_spec)
  have "CHR 0x0A \<notin> set (stripLineEnd l)" if "l \<in> set (getlines sdp)" for l
    using getlines_no_newline [OF that] by (auto simp: stripLineEnd_def dest: in_set_butlastD)
  then have lines: "getlines (sdpLines ?kept) = map (\<lambda>l. l @ [CHR 0x0D]) ?kept"
    by (intro getlines_sdpLines) auto
  have "filter (line_passes link) (map stripLineEnd (map (\<lambda>l. l @ [CHR 0x0D]) ?kept)) = ?kept"
    by (simp add: comp_def)
  then show ?thesis by (simp only: out lines)
qed

end
