(* ===== verification/WebRtcServer.thy ===== *)
theory WebRtcServer
  imports GstPipeline IceFilter SignallingHandler ViewerFrameDumper
begin

text \<open>
  \<open>WebRtcServer::Impl\<close> of \<open>src/streaming/webrtc/src/WebRtcServer.cpp\<close>: the session and negotiation
  state behind \<open>m_peerConnectionMutex\<close>.  Every function here is one critical section (or the code
  between two of them); what runs later, a promise callback or the rest of a function after the
  mutex was given up, is a task in \<open>wsTasks\<close>.
\<close>

section \<open>Names of GStreamer's states\<close>

datatype data_channel_state = ChannelNew | ChannelConnecting | ChannelOpen | ChannelClosing | ChannelClosed | ChannelOther

fun dataChannelStateName :: "data_channel_state \<Rightarrow> string" where
  "dataChannelStateName ChannelNew = ''new''"
| "dataChannelStateName ChannelConnecting = ''connecting''"
| "dataChannelStateName ChannelOpen = ''open''"
| "dataChannelStateName ChannelClosing = ''closing''"
| "dataChannelStateName ChannelClosed = ''closed''"
| "dataChannelStateName ChannelOther = ''unknown''"

datatype ice_connection_state =
  IceNew | IceChecking | IceConnected | IceCompleted | IceFailed | IceDisconnected | IceClosed | IceOther

fun iceConnectionStateName :: "ice_connection_state \<Rightarrow> string" where
  "iceConnectionStateName IceNew = ''new''"
| "iceConnectionStateName IceChecking = ''checking''"
| "iceConnectionStateName IceConnected = ''connected''"
| "iceConnectionStateName IceCompleted = ''completed''"
| "iceConnectionStateName IceFailed = ''failed''"
| "iceConnectionStateName IceDisconnected = ''disconnected''"
| "iceConnectionStateName IceClosed = ''closed''"
| "iceConnectionStateName IceOther = ''unknown''"

datatype peer_connection_state =
  PeerNew | PeerConnecting | PeerConnected | PeerDisconnected | PeerFailed | PeerClosed | PeerOther

fun peerConnectionStateName :: "peer_connection_state \<Rightarrow> string" where
  "peerConnectionStateName PeerNew = ''new''"
| "peerConnectionStateName PeerConnecting = ''connecting''"
| "peerConnectionStateName PeerConnected = ''connected''"
| "peerConnectionStateName PeerDisconnected = ''disconnected''"
| "peerConnectionStateName PeerFailed = ''failed''"
| "peerConnectionStateName PeerClosed = ''closed''"
| "peerConnectionStateName PeerOther = ''unknown''"

datatype signaling_state =
  SigStable | SigClosed | SigHaveLocalOffer | SigHaveRemoteOffer | SigHaveLocalPranswer
  | SigHaveRemotePranswer | SigOther

fun signalingStateName :: "signaling_state \<Rightarrow> string" where
  "signalingStateName SigStable = ''stable''"
| "signalingStateName SigClosed = ''closed''"
| "signalingStateName SigHaveLocalOffer = ''have-local-offer''"
| "signalingStateName SigHaveRemoteOffer = ''have-remote-offer''"
| "signalingStateName SigHaveLocalPranswer = ''have-local-pranswer''"
| "signalingStateName SigHaveRemotePranswer = ''have-remote-pranswer''"
| "signalingStateName SigOther = ''unknown''"

section \<open>State\<close>

type_synonym WebRtcSessionId = u64

text \<open>
  A promise callback owns the promise and the references of its context; the last four are the rest
  of a callback, of the pump loop and of the data channel handlers.
\<close>

datatype rtc_task =
    CreateLocalOffer WebRtcSessionId
  | OnOfferCreated gobj gobj WebRtcSessionId
  | OnLocalDescriptionSet gobj gobj gobj gobj WebRtcSessionId string "conn option"
  | ApplyRemoteDescription WebRtcSessionId string
  | OnRemoteAnswerApplied gobj gobj WebRtcSessionId
  | SetVideoPush bool
  | SendControlText string
  | ApplyPoseUpdate Pose4f
  | PushLatestOutput gobj

text \<open>
  Members of \<open>Impl\<close> in their order, then what is outside: the references held, the tasks, the pose
  store, and the effects (candidates given to a webrtcbin, texts posted for the client and sent on a
  data channel, frames pushed, calls of \<open>closeActiveClient\<close> with the session they were made in).
\<close>

record 'j WebRtcServer =
  wsConfig :: WebRtcStreamingConfig
  wsImageSize :: ImageSize
  wsDirectIpv4Link :: "DirectIpv4Link option"
  wsRunning :: bool
  wsHandles :: PipelineHandles
  wsNextSessionId :: WebRtcSessionId
  wsActiveSessionId :: WebRtcSessionId
  wsActiveWebRtcbin :: "gobj option"
  wsActiveDataChannel :: "gobj option"
  wsReplyToClient :: "conn option"
  wsDataChannel :: "gobj option"
  wsVideoWebRtcSinkPad :: "gobj option"
  wsLocalOfferSent :: bool
  wsRemoteDescriptionApplied :: bool
  wsVideoSendPathReady :: bool
  wsMediaPipelineStarted :: bool
  wsVideoPushEnabled :: bool
  wsPendingRemoteIce :: "'j list"
  wsLocalMediaMids :: "string list"
  wsLocalVideoMid :: string
  wsWatchdogArmed :: bool
  wsWatchdogSessionId :: WebRtcSessionId
  wsWatchdogDeadline :: int
  wsWatchdogStage :: string
  wsWarnedFrameShapeMismatch :: bool
  wsRefs :: refs
  wsTasks :: "rtc_task list"
  wsPoses :: ViewerPoseStore
  wsIceAdded :: "(gobj \<times> u32 \<times> string) list"
  wsPosted :: "posted list"
  wsControlSent :: "(gobj \<times> string) list"
  wsPushed :: "(gobj \<times> u8 list) list"
  wsCloseRequests :: "(WebRtcSessionId \<times> string) list"

definition WebRtcServer_new ::
    "WebRtcStreamingConfig \<Rightarrow> ImageSize \<Rightarrow> string option \<Rightarrow> ViewerPoseStore \<Rightarrow> 'j WebRtcServer" where
  "WebRtcServer_new config imageSize directIpv4Env poses =
     \<lparr>wsConfig = config, wsImageSize = imageSize,
      wsDirectIpv4Link = directIpv4LinkFromEnv directIpv4Env, wsRunning = False,
      wsHandles = noHandles, wsNextSessionId = 1, wsActiveSessionId = 0, wsActiveWebRtcbin = None,
      wsActiveDataChannel = None, wsReplyToClient = None, wsDataChannel = None,
      wsVideoWebRtcSinkPad = None, wsLocalOfferSent = False, wsRemoteDescriptionApplied = False,
      wsVideoSendPathReady = False, wsMediaPipelineStarted = False, wsVideoPushEnabled = False,
      wsPendingRemoteIce = [], wsLocalMediaMids = [], wsLocalVideoMid = [], wsWatchdogArmed = False,
      wsWatchdogSessionId = 0, wsWatchdogDeadline = 0, wsWatchdogStage = [],
      wsWarnedFrameShapeMismatch = False, wsRefs = {#}, wsTasks = [], wsPoses = poses,
      wsIceAdded = [], wsPosted = [], wsControlSent = [], wsPushed = [], wsCloseRequests = []\<rparr>"

definition addTasks :: "rtc_task list \<Rightarrow> 'j WebRtcServer \<Rightarrow> 'j WebRtcServer" where
  "addTasks ts s = s\<lparr>wsTasks := wsTasks s @ ts\<rparr>"

definition withRefs :: "(refs \<Rightarrow> refs option) \<Rightarrow> 'j WebRtcServer \<Rightarrow> 'j WebRtcServer option" where
  "withRefs f s = map_option (\<lambda>refs. s\<lparr>wsRefs := refs\<rparr>) (f (wsRefs s))"

section \<open>Sessions and the negotiation watchdog\<close>

definition isCurrentSessionLocked :: "WebRtcSessionId \<Rightarrow> gobj option \<Rightarrow> 'j WebRtcServer \<Rightarrow> bool" where
  "isCurrentSessionLocked sessionId webrtcbin s \<longleftrightarrow>
     sessionId \<noteq> 0 \<and> sessionId = wsActiveSessionId s
     \<and> phWebrtcbin (wsHandles s) \<noteq> None \<and> phWebrtcbin (wsHandles s) = webrtcbin"

definition kNegotiationWatchdogTimeout :: int where
  "kNegotiationWatchdogTimeout = 5000"

definition armNegotiationWatchdogLocked ::
    "int \<Rightarrow> WebRtcSessionId \<Rightarrow> string \<Rightarrow> 'j WebRtcServer \<Rightarrow> 'j WebRtcServer" where
  "armNegotiationWatchdogLocked now sessionId stage s =
     (if sessionId = 0 \<or> sessionId \<noteq> wsActiveSessionId s then s
      else s\<lparr>wsWatchdogArmed := True, wsWatchdogSessionId := sessionId, wsWatchdogStage := stage,
             wsWatchdogDeadline := now + kNegotiationWatchdogTimeout\<rparr>)"

definition clearNegotiationWatchdogLocked :: "WebRtcSessionId \<Rightarrow> 'j WebRtcServer \<Rightarrow> 'j WebRtcServer" where
  "clearNegotiationWatchdogLocked sessionId s =
     (if wsWatchdogSessionId s \<noteq> sessionId then s
      else s\<lparr>wsWatchdogArmed := False, wsWatchdogSessionId := 0, wsWatchdogStage := []\<rparr>)"

definition checkNegotiationWatchdogLocked ::
    "int \<Rightarrow> 'j WebRtcServer \<Rightarrow> 'j WebRtcServer \<times> string option" where
  "checkNegotiationWatchdogLocked now s =
     (if \<not> wsWatchdogArmed s \<or> now < wsWatchdogDeadline s then (s, None)
      else (clearNegotiationWatchdogLocked (wsWatchdogSessionId s) s,
            Some (''WebRTC negotiation timed out at '' @ wsWatchdogStage s)))"

definition tearDownPipeline :: "gst_ops \<Rightarrow> 'j WebRtcServer \<Rightarrow> 'j WebRtcServer option" where
  "tearDownPipeline ops s0 =
     (let s = s0\<lparr>wsActiveSessionId := 0, wsActiveWebRtcbin := None, wsActiveDataChannel := None,
                wsReplyToClient := None\<rparr> in do {
        s \<leftarrow> withRefs (unref_opt (wsDataChannel s)) s;
        let s = s\<lparr>wsDataChannel := None, wsLocalOfferSent := False,
                 wsRemoteDescriptionApplied := False, wsVideoSendPathReady := False,
                 wsMediaPipelineStarted := False, wsVideoPushEnabled := False,
                 wsPendingRemoteIce := [], wsLocalMediaMids := [], wsLocalVideoMid := [],
                 wsWatchdogArmed := False, wsWatchdogSessionId := 0, wsWatchdogStage := []\<rparr>;
        s \<leftarrow> withRefs (unref_opt (wsVideoWebRtcSinkPad s)) s;
        let s = s\<lparr>wsVideoWebRtcSinkPad := None\<rparr>;
        let h = wsHandles s;
        if phPipeline h = None then Some s
        else do {
          s \<leftarrow> withRefs (pipelineBusLogging ops (phPipeline h)) s;
          s \<leftarrow> withRefs (unref_opt (phWebrtcbin h)) s;
          s \<leftarrow> withRefs (unref_opt (phVideoAppSrc h)) s;
          s \<leftarrow> withRefs (unref_opt (phVideoPayloader h)) s;
          s \<leftarrow> withRefs (unref_opt (phPipeline h)) s;
          Some (s\<lparr>wsHandles := noHandles\<rparr>)
        }
      })"

section \<open>A client connects\<close>

definition prepareVideoSendPathLocked :: "gst_ops \<Rightarrow> 'j WebRtcServer \<Rightarrow> ('j WebRtcServer \<times> bool) option" where
  "prepareVideoSendPathLocked ops s =
     (if wsVideoSendPathReady s then Some (s, True)
      else do {
        (s, ok) \<leftarrow>
          (if wsVideoWebRtcSinkPad s \<noteq> None then Some (s, True)
           else do {
             (refs, pad) \<leftarrow> requestVerifiedVideoSinkPadLocked ops (phWebrtcbin (wsHandles s)) kVideoMLineIndex (wsRefs s);
             let s = s\<lparr>wsRefs := refs, wsVideoWebRtcSinkPad := pad\<rparr>;
             if pad = None then Some (s, False)
             else do {
               (refs, ok) \<leftarrow> configurePadTransceiverCodecPreferencesLocked ops pad (wsRefs s);
               let s = s\<lparr>wsRefs := refs\<rparr>;
               if \<not> ok then Some (s, False)
               else do {
                 (refs, ok) \<leftarrow> configurePadTransceiverDirectionLocked ops pad (wsRefs s);
                 Some (s\<lparr>wsRefs := refs\<rparr>, ok)
               }
             }
           });
        if \<not> ok then Some (s, False)
        else do {
          (refs, linked) \<leftarrow> linkVideoPayloaderToSinkPadLocked ops (phVideoPayloader (wsHandles s)) (wsVideoWebRtcSinkPad s) (wsRefs s);
          let s = s\<lparr>wsRefs := refs\<rparr>;
          if \<not> linked then Some (s, False)
          else Some (s\<lparr>wsVideoSendPathReady := True\<rparr>, True)
        }
      })"

definition createControlDataChannelLocked :: "gst_ops \<Rightarrow> 'j WebRtcServer \<Rightarrow> 'j WebRtcServer \<times> bool" where
  "createControlDataChannelLocked ops s =
     (if wsDataChannel s \<noteq> None then (s, True)
      else case phWebrtcbin (wsHandles s) of
        None \<Rightarrow> (s, False)
      | Some bin \<Rightarrow>
          (case gstCreateDataChannel ops bin ''control'' of
             None \<Rightarrow> (s, False)
           | Some channel \<Rightarrow>
               (s\<lparr>wsRefs := own (Some channel) (wsRefs s), wsDataChannel := Some channel,
                  wsActiveDataChannel := Some channel\<rparr>, True)))"

text \<open>The critical section of \<open>onClientConnected\<close>; \<open>createLocalOffer\<close> follows as a task.\<close>

definition onClientConnected ::
    "gst_ops \<Rightarrow> int \<Rightarrow> string option \<Rightarrow> conn \<Rightarrow> 'j WebRtcServer \<Rightarrow> 'j WebRtcServer option" where
  "onClientConnected ops now disableDataChannelEnv reply s = do {
     s \<leftarrow> tearDownPipeline ops s;
     let sessionId = wsNextSessionId s;
     let s = s\<lparr>wsNextSessionId := wsNextSessionId s + 1, wsActiveSessionId := sessionId\<rparr>;
     (refs, handles) \<leftarrow> buildPipeline ops (wsConfig s) (wsImageSize s) (wsRefs s);
     let s = s\<lparr>wsRefs := refs, wsHandles := handles\<rparr>;
     if phPipeline handles = None \<or> phWebrtcbin handles = None then tearDownPipeline ops s
     else do {
       let s = s\<lparr>wsActiveWebRtcbin := phWebrtcbin handles\<rparr>;
       s \<leftarrow> withRefs (pipelineBusLogging ops (phPipeline handles)) s;
       if \<not> gstElementSetState ops (the (phPipeline handles)) GST_STATE_READY then tearDownPipeline ops s
       else do {
         let s = s\<lparr>wsReplyToClient := Some reply\<rparr>;
         (s, ok) \<leftarrow> prepareVideoSendPathLocked ops s;
         if \<not> ok then tearDownPipeline ops s
         else
           let (s, ok) = (if disableDataChannelFromEnv disableDataChannelEnv then (s, True)
                          else createControlDataChannelLocked ops s) in
           if \<not> ok then tearDownPipeline ops s
           else Some (addTasks [CreateLocalOffer sessionId]
             (armNegotiationWatchdogLocked now sessionId ''create-offer'' s))
       }
     }
   }"

definition createLocalOffer :: "gst_ops \<Rightarrow> WebRtcSessionId \<Rightarrow> 'j WebRtcServer \<Rightarrow> 'j WebRtcServer" where
  "createLocalOffer ops sessionId s =
     (case phWebrtcbin (wsHandles s) of
        None \<Rightarrow> s
      | Some bin \<Rightarrow>
          if \<not> isCurrentSessionLocked sessionId (Some bin) s then s
          else
            let promise = gstPromiseNew ops in
            addTasks [OnOfferCreated promise bin sessionId]
              (s\<lparr>wsRefs := own (Some promise) (own (Some bin) (wsRefs s))\<rparr>))"

end
