(* ===== verification/WebRtcNegotiation.thy ===== *)
theory WebRtcNegotiation
  imports WebRtcServer
begin

text \<open>
  \<open>WebRtcServer::Impl\<close>, continued: the offer, the answer, ICE candidates, the data channel, the video
  pump, and all of it as events on the state.
\<close>

section \<open>The local offer\<close>

text \<open>A description with its media sections (type and mid, \<open>None\<close> for a null pointer) and its text.\<close>

record sdp_offer =
  ofDescription :: gobj
  ofMedias :: "(string option \<times> string option) option list option"
  ofText :: "string option"

definition extractMediaMids :: "(string option \<times> string option) option list option \<Rightarrow> string list" where
  "extractMediaMids message =
     (case message of
        None \<Rightarrow> []
      | Some medias \<Rightarrow>
          map (\<lambda>media. case media of Some (_, Some mid) \<Rightarrow> mid | _ \<Rightarrow> []) medias)"

fun firstMidOf :: "string \<Rightarrow> (string option \<times> string option) option list \<Rightarrow> string" where
  "firstMidOf mediaType [] = []"
| "firstMidOf mediaType (media # medias) =
     (case media of
        None \<Rightarrow> firstMidOf mediaType medias
      | Some (current, mid) \<Rightarrow>
          if current \<noteq> Some mediaType then firstMidOf mediaType medias
          else (case mid of None \<Rightarrow> [] | Some m \<Rightarrow> m))"

definition firstMediaMid :: "(string option \<times> string option) option list option \<Rightarrow> string \<Rightarrow> string" where
  "firstMediaMid message mediaType =
     (case message of None \<Rightarrow> [] | Some medias \<Rightarrow> firstMidOf mediaType medias)"

definition setLocalDescriptionAndSendOffer ::
    "gst_ops \<Rightarrow> int \<Rightarrow> sdp_offer \<Rightarrow> gobj \<Rightarrow> WebRtcSessionId \<Rightarrow> 'j WebRtcServer \<Rightarrow> 'j WebRtcServer option" where
  "setLocalDescriptionAndSendOffer ops now offer offerWebRtcbin sessionId s =
     (case phPipeline (wsHandles s) of
        None \<Rightarrow> withRefs (unref (ofDescription offer)) s
      | Some pipeline \<Rightarrow>
          if \<not> isCurrentSessionLocked sessionId (Some offerWebRtcbin) s
          then withRefs (unref (ofDescription offer)) s
          else
            let s = armNegotiationWatchdogLocked now sessionId ''set-local-description'' s;
                s = s\<lparr>wsLocalMediaMids := extractMediaMids (ofMedias offer),
                      wsLocalVideoMid := firstMediaMid (ofMedias offer) ''video'',
                      wsRemoteDescriptionApplied := False, wsMediaPipelineStarted := False,
                      wsVideoPushEnabled := False\<rparr>;
                promise = gstPromiseNew ops;
                s = s\<lparr>wsRefs := own (Some promise) (own (Some pipeline) (own (Some offerWebRtcbin) (wsRefs s)))\<rparr>
            in Some (addTasks [OnLocalDescriptionSet promise offerWebRtcbin pipeline (ofDescription offer)
                 sessionId (case ofText offer of None \<Rightarrow> [] | Some t \<Rightarrow> t) (wsReplyToClient s)] s))"

text \<open>\<open>offer\<close> is the description in the reply of the promise, \<open>None\<close> if there is none.\<close>

definition onOfferCreated ::
    "gst_ops \<Rightarrow> int \<Rightarrow> sdp_offer option \<Rightarrow> gobj \<Rightarrow> gobj \<Rightarrow> WebRtcSessionId \<Rightarrow> 'j WebRtcServer \<Rightarrow> 'j WebRtcServer option" where
  "onOfferCreated ops now offer promise webrtcbin sessionId s = do {
     s \<leftarrow> withRefs (unref promise) (s\<lparr>wsRefs := own (map_option ofDescription offer) (wsRefs s)\<rparr>);
     s \<leftarrow> (case offer of
        None \<Rightarrow> if isCurrentSessionLocked sessionId (Some webrtcbin) s then tearDownPipeline ops s else Some s
      | Some of' \<Rightarrow> setLocalDescriptionAndSendOffer ops now of' webrtcbin sessionId s);
     withRefs (unref webrtcbin) s
   }"

definition offerMessage :: "'j json_ops \<Rightarrow> string \<Rightarrow> string" where
  "offerMessage js sdpText =
     jsDump js (jsObject js [(''type'', jsString js ''offer''), (''sdp'', jsString js sdpText)])"

definition onLocalDescriptionSet ::
    "'j json_ops \<Rightarrow> gst_ops \<Rightarrow> int \<Rightarrow> bool \<Rightarrow> gobj \<Rightarrow> gobj \<Rightarrow> gobj \<Rightarrow> gobj \<Rightarrow> WebRtcSessionId \<Rightarrow> string \<Rightarrow> conn option
     \<Rightarrow> 'j WebRtcServer \<Rightarrow> 'j WebRtcServer option" where
  "onLocalDescriptionSet js ops now replied promise webrtcbin pipeline offer sessionId sdpText reply s = do {
     s \<leftarrow> withRefs (unref promise) s;
     s \<leftarrow> (if \<not> replied then
             (if isCurrentSessionLocked sessionId (Some webrtcbin) s then tearDownPipeline ops s else Some s)
           else
             let sessionStillActive = (isCurrentSessionLocked sessionId (Some webrtcbin) s
                                       \<and> phPipeline (wsHandles s) = Some pipeline) in
             if \<not> sessionStillActive then Some s
             else
               let s = armNegotiationWatchdogLocked now sessionId ''remote answer'' (s\<lparr>wsLocalOfferSent := True\<rparr>)
               in Some (case reply of
                    None \<Rightarrow> s
                  | Some hdl \<Rightarrow> s\<lparr>wsPosted := wsPosted s @ [makeSendFunc hdl (offerMessage js sdpText)]\<rparr>));
     s \<leftarrow> withRefs (unref offer) s;
     s \<leftarrow> withRefs (unref pipeline) s;
     withRefs (unref webrtcbin) s
   }"

section \<open>The remote answer\<close>

definition onAnswer :: "int \<Rightarrow> string \<Rightarrow> 'j WebRtcServer \<Rightarrow> 'j WebRtcServer" where
  "onAnswer now sdp s =
     (if phWebrtcbin (wsHandles s) = None \<or> \<not> wsLocalOfferSent s then s
      else
        let sessionId = wsActiveSessionId s;
            s = armNegotiationWatchdogLocked now sessionId ''set-remote-description'' s;
            filteredSdp = filterRemoteAnswerSdpForDirectIpv4 (wsDirectIpv4Link s) sdp
        in addTasks [ApplyRemoteDescription sessionId filteredSdp] s)"

definition applyRemoteDescription ::
    "gst_ops \<Rightarrow> string \<Rightarrow> WebRtcSessionId \<Rightarrow> 'j WebRtcServer \<Rightarrow> 'j WebRtcServer option" where
  "applyRemoteDescription ops sdp sessionId s =
     (case phWebrtcbin (wsHandles s) of
        None \<Rightarrow> Some s
      | Some webrtcbin \<Rightarrow>
          if \<not> isCurrentSessionLocked sessionId (Some webrtcbin) s then Some s
          else
            let s = s\<lparr>wsRefs := own (Some webrtcbin) (wsRefs s)\<rparr> in
            case gstSdpMessageParse ops sdp of
              None \<Rightarrow> withRefs (unref webrtcbin) s
            | Some message \<Rightarrow>
                let s = s\<lparr>wsRefs := own (Some message) (wsRefs s)\<rparr> in
                case gstSessionDescription ops message of
                  None \<Rightarrow> do {
                    s \<leftarrow> withRefs (unref message) s;
                    withRefs (unref webrtcbin) s
                  }
                | Some description \<Rightarrow> do {
                    s \<leftarrow> withRefs (unref message) s;
                    let s = s\<lparr>wsRefs := own (Some (gstPromiseNew ops)) (own (Some description) (wsRefs s))\<rparr>;
                    let s = addTasks [OnRemoteAnswerApplied (gstPromiseNew ops) webrtcbin sessionId] s;
                    withRefs (unref description) s
                  })"

text \<open>The candidate text and the line of an ICE message; \<open>None\<close> if reading it throws.\<close>

definition iceFields :: "'j json_ops \<Rightarrow> 'j \<Rightarrow> (string \<times> int option) option" where
  "iceFields js candidate =
     (case jsValue js candidate ''candidate'' of
        None \<Rightarrow> None
      | Some candidateValue \<Rightarrow>
          if jsContains js candidate ''sdpMLineIndex'' then
            (case jsAtInt js candidate ''sdpMLineIndex'' of
               None \<Rightarrow> None
             | Some i \<Rightarrow> Some (candidateValue, Some i))
          else Some (candidateValue, None))"

definition addIceCandidateLocked :: "gobj \<Rightarrow> int \<Rightarrow> string \<Rightarrow> 'j WebRtcServer \<Rightarrow> 'j WebRtcServer" where
  "addIceCandidateLocked webrtcbin mediaLineIndex candidateValue s =
     s\<lparr>wsIceAdded := wsIceAdded s @ [(webrtcbin, word_of_int mediaLineIndex, candidateValue)]\<rparr>"

fun flushCandidates :: "'j json_ops \<Rightarrow> gobj \<Rightarrow> 'j list \<Rightarrow> 'j WebRtcServer \<Rightarrow> 'j WebRtcServer option" where
  "flushCandidates js webrtcbin [] s = Some s"
| "flushCandidates js webrtcbin (candidate # candidates) s =
     (case iceFields js candidate of
        None \<Rightarrow> None
      | Some (candidateValue, mediaLineIndex) \<Rightarrow>
          (case mediaLineIndex of
             None \<Rightarrow> flushCandidates js webrtcbin candidates s
           | Some i \<Rightarrow>
               if candidateValue = [] then flushCandidates js webrtcbin candidates s
               else flushCandidates js webrtcbin candidates (addIceCandidateLocked webrtcbin i candidateValue s)))"

definition flushPendingRemoteIceLocked :: "'j json_ops \<Rightarrow> gobj \<Rightarrow> 'j WebRtcServer \<Rightarrow> 'j WebRtcServer option" where
  "flushPendingRemoteIceLocked js webrtcbin s =
     map_option (\<lambda>s. s\<lparr>wsPendingRemoteIce := []\<rparr>) (flushCandidates js webrtcbin (wsPendingRemoteIce s) s)"

definition startMediaPipelineLocked :: "gst_ops \<Rightarrow> 'j WebRtcServer \<Rightarrow> 'j WebRtcServer \<times> bool" where
  "startMediaPipelineLocked ops s =
     (if wsMediaPipelineStarted s then (s, True)
      else case phPipeline (wsHandles s) of
        None \<Rightarrow> (s, False)
      | Some p \<Rightarrow>
          if \<not> gstElementSetState ops p GST_STATE_PLAYING then (s, False)
          else (s\<lparr>wsMediaPipelineStarted := True\<rparr>, True))"

definition onRemoteAnswerApplied ::
    "'j json_ops \<Rightarrow> gst_ops \<Rightarrow> bool \<Rightarrow> gobj \<Rightarrow> gobj \<Rightarrow> WebRtcSessionId \<Rightarrow> 'j WebRtcServer \<Rightarrow> 'j WebRtcServer option" where
  "onRemoteAnswerApplied js ops replied promise webrtcbin sessionId s = do {
     s \<leftarrow> withRefs (unref promise) s;
     s \<leftarrow> (if \<not> isCurrentSessionLocked sessionId (Some webrtcbin) s \<or> phPipeline (wsHandles s) = None then Some s
           else if \<not> replied then tearDownPipeline ops s
           else do {
             let s = s\<lparr>wsRemoteDescriptionApplied := True\<rparr>;
             let s = clearNegotiationWatchdogLocked sessionId s;
             s \<leftarrow> flushPendingRemoteIceLocked js webrtcbin s;
             let (s, started) = startMediaPipelineLocked ops s;
             if \<not> started then tearDownPipeline ops s else Some s
           });
     withRefs (unref webrtcbin) s
   }"

text \<open>\<open>None\<close> if the message makes the JSON library throw.\<close>

definition onIceFromClient :: "'j json_ops \<Rightarrow> 'j \<Rightarrow> 'j WebRtcServer \<Rightarrow> 'j WebRtcServer option" where
  "onIceFromClient js candidate s =
     (case iceFields js candidate of
        None \<Rightarrow> None
      | Some (candidateValue, mediaLineIndex) \<Rightarrow>
          if candidateValue = [] \<or> mediaLineIndex = None then Some s
          else if \<not> allowRemoteCandidate (wsDirectIpv4Link s) candidateValue then Some s
          else case phWebrtcbin (wsHandles s) of
            None \<Rightarrow> Some s
          | Some webrtcbin \<Rightarrow>
              if \<not> wsRemoteDescriptionApplied s
              then Some (s\<lparr>wsPendingRemoteIce := wsPendingRemoteIce s @ [candidate]\<rparr>)
              else Some (addIceCandidateLocked webrtcbin (the mediaLineIndex) candidateValue s))"

section \<open>Local candidates\<close>

definition localMidForMediaLineIndexLocked :: "u32 \<Rightarrow> 'j WebRtcServer \<Rightarrow> string" where
  "localMidForMediaLineIndexLocked mediaLineIndex s =
     (if unat mediaLineIndex < length (wsLocalMediaMids s) \<and> wsLocalMediaMids s ! unat mediaLineIndex \<noteq> []
      then wsLocalMediaMids s ! unat mediaLineIndex
      else to_string (uint mediaLineIndex))"

definition onLocalIceTrampoline ::
    "'j json_ops \<Rightarrow> gobj \<Rightarrow> u32 \<Rightarrow> string option \<Rightarrow> 'j WebRtcServer \<Rightarrow> 'j WebRtcServer" where
  "onLocalIceTrampoline js webrtcbin mediaLineIndex candidate s =
     (let candidateValue = (case candidate of None \<Rightarrow> [] | Some c \<Rightarrow> c) in
      if wsActiveWebRtcbin s \<noteq> Some webrtcbin then s
      else if candidateValue = [] \<or> \<not> allowLocalCandidate (wsDirectIpv4Link s) candidateValue then s
      else if phWebrtcbin (wsHandles s) \<noteq> Some webrtcbin then s
      else case wsReplyToClient s of
        None \<Rightarrow> s
      | Some hdl \<Rightarrow>
          let message = jsObject js
                [(''type'', jsString js ''ice''), (''candidate'', jsString js candidateValue),
                 (''sdpMLineIndex'', jsInt js (sint mediaLineIndex)),
                 (''sdpMid'', jsString js (localMidForMediaLineIndexLocked mediaLineIndex s))]
          in s\<lparr>wsPosted := wsPosted s @ [makeSendFunc hdl (jsDump js message)]\<rparr>)"

section \<open>The data channel\<close>

definition onChannelOpenTrampoline :: "'j json_ops \<Rightarrow> gobj \<Rightarrow> 'j WebRtcServer \<Rightarrow> 'j WebRtcServer" where
  "onChannelOpenTrampoline js openedChannel s =
     (if wsActiveDataChannel s \<noteq> Some openedChannel then s
      else
        let videoMid = wsLocalVideoMid s;
            hello = jsDump js (jsObject js
              [(''type'', jsString js ''hello''), (''from'', jsString js ''edgevision-jetson'')]);
            tracks = jsDump js (jsObject js
              [(''type'', jsString js ''track_info''),
               (''tracks'', jsArray js [jsObject js
                  [(''mid'', jsString js videoMid), (''kind'', jsString js ''render_output'')]])])
        in addTasks (SendControlText hello # (if videoMid \<noteq> [] then [SendControlText tracks] else [])) s)"

definition sendControlText :: "string \<Rightarrow> 'j WebRtcServer \<Rightarrow> 'j WebRtcServer" where
  "sendControlText txt s =
     (case wsDataChannel s of
        None \<Rightarrow> s
      | Some channel \<Rightarrow> s\<lparr>wsControlSent := wsControlSent s @ [(channel, txt)]\<rparr>)"

definition onMessageStringTrampoline ::
    "'j json_ops \<Rightarrow> gobj \<Rightarrow> string option \<Rightarrow> 'j WebRtcServer \<Rightarrow> 'j WebRtcServer" where
  "onMessageStringTrampoline js channel txt s =
     (if wsActiveDataChannel s \<noteq> Some channel then s
      else case parsePoseUpdateMessage js (case txt of None \<Rightarrow> [] | Some t \<Rightarrow> t) of
        None \<Rightarrow> s
      | Some pose \<Rightarrow> addTasks [ApplyPoseUpdate pose] s)"

definition applyPoseUpdate :: "Pose4f \<Rightarrow> 'j WebRtcServer \<Rightarrow> 'j WebRtcServer" where
  "applyPoseUpdate pose s = s\<lparr>wsPoses := fst (applyRelativePose pose (wsPoses s))\<rparr>"

section \<open>Connection states and video\<close>

datatype rtc_notify =
    NotifySignalingState signaling_state
  | NotifyIceConnectionState ice_connection_state
  | NotifyConnectionState peer_connection_state
  | NotifyOther int

text \<open>All but the connection state is only logged; \<open>m_videoPushEnabled\<close> is set after the check.\<close>

definition onWebRtcStateNotifyTrampoline :: "gobj \<Rightarrow> rtc_notify \<Rightarrow> 'j WebRtcServer \<Rightarrow> 'j WebRtcServer" where
  "onWebRtcStateNotifyTrampoline webrtcbin property s =
     (if wsActiveWebRtcbin s \<noteq> Some webrtcbin then s
      else case property of
        NotifyConnectionState state \<Rightarrow> addTasks [SetVideoPush (state = PeerConnected)] s
      | _ \<Rightarrow> s)"

definition setVideoPushEnabled :: "bool \<Rightarrow> 'j WebRtcServer \<Rightarrow> 'j WebRtcServer" where
  "setVideoPushEnabled shouldEnable s = s\<lparr>wsVideoPushEnabled := shouldEnable\<rparr>"

definition copyRenderOutputRgb :: "RenderOutput \<Rightarrow> u8 list option option" where
  "copyRenderOutputRgb output =
     (if \<not> hasRgb output \<or> imgWidth (roImageSize output) \<le> 0 \<or> imgHeight (roImageSize output) \<le> 0
      then Some None
      else if bufByteCount (roRgb output) \<noteq> expectedByteCount (roImageSize output) then Some None
      else map_option Some (read_bytes (roRgb output) (bufByteCount (roRgb output))))"

definition pushBuffer :: "gobj \<Rightarrow> u8 list \<Rightarrow> 'j WebRtcServer \<Rightarrow> 'j WebRtcServer" where
  "pushBuffer appSrc rgb s = (if rgb = [] then s else s\<lparr>wsPushed := wsPushed s @ [(appSrc, rgb)]\<rparr>)"

definition pushRenderOutput :: "gobj \<Rightarrow> RenderOutput \<Rightarrow> 'j WebRtcServer \<Rightarrow> 'j WebRtcServer option" where
  "pushRenderOutput appSrc output s =
     (if \<not> imageSize_eq (roImageSize output) (wsImageSize s) then Some (s\<lparr>wsWarnedFrameShapeMismatch := True\<rparr>)
      else case copyRenderOutputRgb output of
        None \<Rightarrow> None
      | Some None \<Rightarrow> Some s
      | Some (Some rgb) \<Rightarrow> Some (pushBuffer appSrc rgb s))"

text \<open>A round of the pump: the critical section and \<open>closeActiveClient\<close>; the push is a task.\<close>

definition pumpFrameDurationMs :: "WebRtcStreamingConfig \<Rightarrow> u32" where
  "pumpFrameDurationMs config = 1000 div max (rtcFps config) 1"

definition pumpVideo :: "int \<Rightarrow> 'j WebRtcServer \<Rightarrow> 'j WebRtcServer" where
  "pumpVideo now s =
     (if \<not> wsRunning s then s
      else case checkNegotiationWatchdogLocked now s of
        (s, Some reason) \<Rightarrow> s\<lparr>wsCloseRequests := wsCloseRequests s @ [(wsActiveSessionId s, reason)]\<rparr>
      | (s, None) \<Rightarrow>
          (case phVideoAppSrc (wsHandles s) of
             Some appSrc \<Rightarrow>
               if wsMediaPipelineStarted s \<and> wsVideoPushEnabled s
               then addTasks [PushLatestOutput appSrc] (s\<lparr>wsRefs := own (Some appSrc) (wsRefs s)\<rparr>)
               else s
           | None \<Rightarrow> s))"

definition pushLatestOutput :: "RenderOutput option \<Rightarrow> gobj \<Rightarrow> 'j WebRtcServer \<Rightarrow> 'j WebRtcServer option" where
  "pushLatestOutput latest appSrc s = do {
     s \<leftarrow> (case latest of None \<Rightarrow> Some s | Some output \<Rightarrow> pushRenderOutput appSrc output s);
     withRefs (unref appSrc) s
   }"

section \<open>Events\<close>

text \<open>What the outside answers when a task runs.\<close>

record task_answer =
  taOps :: gst_ops
  taNow :: int
  taReplied :: bool
  taOffer :: "sdp_offer option"
  taLatest :: "RenderOutput option"

definition runTask :: "'j json_ops \<Rightarrow> task_answer \<Rightarrow> rtc_task \<Rightarrow> 'j WebRtcServer \<Rightarrow> 'j WebRtcServer option" where
  "runTask js ans t s =
     (case t of
        CreateLocalOffer sid \<Rightarrow> Some (createLocalOffer (taOps ans) sid s)
      | OnOfferCreated p b sid \<Rightarrow> onOfferCreated (taOps ans) (taNow ans) (taOffer ans) p b sid s
      | OnLocalDescriptionSet p b pipe d sid txt reply \<Rightarrow>
          onLocalDescriptionSet js (taOps ans) (taNow ans) (taReplied ans) p b pipe d sid txt reply s
      | ApplyRemoteDescription sid sdp \<Rightarrow> applyRemoteDescription (taOps ans) sdp sid s
      | OnRemoteAnswerApplied p b sid \<Rightarrow> onRemoteAnswerApplied js (taOps ans) (taReplied ans) p b sid s
      | SetVideoPush b \<Rightarrow> Some (setVideoPushEnabled b s)
      | SendControlText txt \<Rightarrow> Some (sendControlText txt s)
      | ApplyPoseUpdate pose \<Rightarrow> Some (applyPoseUpdate pose s)
      | PushLatestOutput a \<Rightarrow> pushLatestOutput (taLatest ans) a s)"

definition clientConnected ::
    "gst_ops \<Rightarrow> int \<Rightarrow> string option \<Rightarrow> conn \<Rightarrow> 'j WebRtcServer \<Rightarrow> 'j WebRtcServer option" where
  "clientConnected ops now env reply s =
     onClientConnected ops now env reply (s\<lparr>wsPoses := fst (resetRelativeBaseline (wsPoses s))\<rparr>)"

datatype 'j rtc_event =
    RtcClientConnected gst_ops int "string option" conn
  | RtcAnswer int string
  | RtcIce 'j
  | RtcClientDisconnected gst_ops
  | RtcLocalIce gobj u32 "string option"
  | RtcStateNotify gobj rtc_notify
  | RtcChannelOpen gobj
  | RtcChannelMessage gobj "string option"
  | RtcPump int
  | RtcTask nat task_answer

text \<open>
  \<open>None\<close> is undefined behaviour.  An ICE message that throws leaves the state as it is: the exception
  ends the signalling thread.
\<close>

definition rtc_step :: "'j json_ops \<Rightarrow> 'j rtc_event \<Rightarrow> 'j WebRtcServer \<Rightarrow> 'j WebRtcServer option" where
  "rtc_step js ev s =
     (case ev of
        RtcClientConnected ops now env reply \<Rightarrow> clientConnected ops now env reply s
      | RtcAnswer now sdp \<Rightarrow> Some (onAnswer now sdp s)
      | RtcIce j \<Rightarrow> (case onIceFromClient js j s of None \<Rightarrow> Some s | Some s' \<Rightarrow> Some s')
      | RtcClientDisconnected ops \<Rightarrow> tearDownPipeline ops s
      | RtcLocalIce b i c \<Rightarrow> Some (onLocalIceTrampoline js b i c s)
      | RtcStateNotify b p \<Rightarrow> Some (onWebRtcStateNotifyTrampoline b p s)
      | RtcChannelOpen c \<Rightarrow> Some (onChannelOpenTrampoline js c s)
      | RtcChannelMessage c t \<Rightarrow> Some (onMessageStringTrampoline js c t s)
      | RtcPump now \<Rightarrow> Some (pumpVideo now s)
      | RtcTask n ans \<Rightarrow>
          if n < length (wsTasks s)
          then runTask js ans (wsTasks s ! n) (s\<lparr>wsTasks := take n (wsTasks s) @ drop (n + 1) (wsTasks s)\<rparr>)
          else Some s)"

fun rtc_run :: "'j json_ops \<Rightarrow> 'j rtc_event list \<Rightarrow> 'j WebRtcServer \<Rightarrow> 'j WebRtcServer option" where
  "rtc_run js [] s = Some s"
| "rtc_run js (ev # evs) s = (case rtc_step js ev s of None \<Rightarrow> None | Some s' \<Rightarrow> rtc_run js evs s')"

section \<open>Starting and stopping\<close>

definition WebRtcServer_start ::
    "bool \<Rightarrow> SignallingHandler option \<times> 'j WebRtcServer \<Rightarrow> SignallingHandler option \<times> 'j WebRtcServer" where
  "WebRtcServer_start listens ss =
     (let s = snd ss in
      if wsRunning s then ss
      else (Some (SignallingHandler_start listens
               (SignallingHandler_new (signallingHost (wsConfig s)) (signallingPort (wsConfig s)))),
            s\<lparr>wsRunning := True\<rparr>))"

text \<open>The tear-down runs without the mutex, after the two threads were joined.\<close>

definition WebRtcServer_stop ::
    "gst_ops \<Rightarrow> SignallingHandler option \<times> 'j WebRtcServer
     \<Rightarrow> (SignallingHandler option \<times> 'j WebRtcServer) option" where
  "WebRtcServer_stop ops ss =
     (let s = snd ss in
      if \<not> wsRunning s then Some ss
      else map_option (\<lambda>s. (map_option SignallingHandler_stop (fst ss), s))
        (tearDownPipeline ops (s\<lparr>wsRunning := False\<rparr>)))"

text \<open>The callbacks that \<open>start\<close> registers; what they post for the client goes into the queue.\<close>

definition posting :: "('j WebRtcServer \<Rightarrow> 'j WebRtcServer option) \<Rightarrow> 'j WebRtcServer callback" where
  "posting f s = map_option (\<lambda>s'. (s'\<lparr>wsPosted := []\<rparr>, wsPosted s')) (f s)"

definition serverCallbacks ::
    "'j json_ops \<Rightarrow> gst_ops \<Rightarrow> int \<Rightarrow> string option \<Rightarrow> ('j WebRtcServer, 'j) SignallingCallbacks" where
  "serverCallbacks js ops now env =
     \<lparr>cbOnAnswer = Some (\<lambda>sdp. posting (\<lambda>s. Some (onAnswer now sdp s))),
      cbOnIce = Some (\<lambda>j. posting (onIceFromClient js j)),
      cbOnClientConnected = Some (\<lambda>hdl. posting (clientConnected ops now env hdl)),
      cbOnClientDisconnected = Some (posting (tearDownPipeline ops))\<rparr>"

end
