(* ===== verification/WebRtcInvariant.thy ===== *)
theory WebRtcInvariant
  imports WebRtcNegotiation
begin

text \<open>
  Reachable states of the WebRTC server and their invariant: the references held are exactly those
  of the members and of the tasks in flight, the flags follow the order of the negotiation, and a
  session whose negotiation is not finished is under the watchdog.
\<close>

section \<open>References\<close>

fun task_refs :: "rtc_task \<Rightarrow> refs" where
  "task_refs (OnOfferCreated p b sid) = {#p, b#}"
| "task_refs (OnLocalDescriptionSet p b pipe d sid txt reply) = {#p, b, pipe, d#}"
| "task_refs (OnRemoteAnswerApplied p b sid) = {#p, b#}"
| "task_refs (PushLatestOutput a) = {#a#}"
| "task_refs _ = {#}"

definition tasks_held :: "rtc_task list \<Rightarrow> refs" where
  "tasks_held ts = sum_list (map task_refs ts)"

lemma tasks_held_simps [simp]:
  "tasks_held [] = {#}" "tasks_held (t # ts) = task_refs t + tasks_held ts"
  "tasks_held (xs @ ys) = tasks_held xs + tasks_held ys"
  by (simp_all add: tasks_held_def)

definition members_held :: "'j WebRtcServer \<Rightarrow> refs" where
  "members_held s = held (wsDataChannel s) + held (wsVideoWebRtcSinkPad s) + handles_held (wsHandles s)"

text \<open>The state after a tear-down that leaves the references \<open>rest\<close>.\<close>

definition torn :: "refs \<Rightarrow> 'j WebRtcServer \<Rightarrow> 'j WebRtcServer" where
  "torn rest s =
     s\<lparr>wsHandles := noHandles, wsActiveSessionId := 0, wsActiveWebRtcbin := None,
       wsActiveDataChannel := None, wsReplyToClient := None, wsDataChannel := None,
       wsVideoWebRtcSinkPad := None, wsLocalOfferSent := False, wsRemoteDescriptionApplied := False,
       wsVideoSendPathReady := False, wsMediaPipelineStarted := False, wsVideoPushEnabled := False,
       wsPendingRemoteIce := [], wsLocalMediaMids := [], wsLocalVideoMid := [],
       wsWatchdogArmed := False, wsWatchdogSessionId := 0, wsWatchdogStage := [], wsRefs := rest\<rparr>"

lemma tearDownPipeline_torn:
  assumes "handles_ok (wsHandles s)" "wsRefs s = members_held s + rest"
  shows "tearDownPipeline ops s = Some (torn rest s)"
proof (cases "phPipeline (wsHandles s)")
  case None
  then have h: "wsHandles s = noHandles" using assms(1) by (simp add: handles_ok_def)
  have refs: "wsRefs s = held (wsDataChannel s) + (held (wsVideoWebRtcSinkPad s) + rest)"
    using assms(2) by (simp add: members_held_def h add.assoc)
  show ?thesis
    by (simp add: tearDownPipeline_def Let_def withRefs_def refs h torn_def) (simp add: noHandles_def h)
next
  case (Some p)
  let ?h = "wsHandles s"
  have refs: "wsRefs s = held (wsDataChannel s) + (held (wsVideoWebRtcSinkPad s) + (held (phWebrtcbin ?h)
      + (held (phVideoAppSrc ?h) + (held (phVideoPayloader ?h) + (held (phPipeline ?h) + rest)))))"
    using assms(2) by (simp add: members_held_def handles_held_def ac_simps)
  show ?thesis
    using Some unref_held [of "Some p"]
    by (simp add: tearDownPipeline_def Let_def withRefs_def refs torn_def pad_functions_refs del: held_simps)
qed

section \<open>The invariant\<close>

fun task_session :: "rtc_task \<Rightarrow> WebRtcSessionId option" where
  "task_session (CreateLocalOffer sid) = Some sid"
| "task_session (OnOfferCreated p b sid) = Some sid"
| "task_session (OnLocalDescriptionSet p b pipe d sid txt reply) = Some sid"
| "task_session (ApplyRemoteDescription sid sdp) = Some sid"
| "task_session (OnRemoteAnswerApplied p b sid) = Some sid"
| "task_session _ = None"

fun answer_session :: "rtc_task \<Rightarrow> WebRtcSessionId option" where
  "answer_session (ApplyRemoteDescription sid sdp) = Some sid"
| "answer_session (OnRemoteAnswerApplied p b sid) = Some sid"
| "answer_session _ = None"

lemma answer_session_task: "answer_session t = Some sid \<Longrightarrow> task_session t = Some sid"
  by (cases t) simp_all

text \<open>Session numbers are given out in increasing order.\<close>

definition rtc_fresh :: "'j WebRtcServer \<Rightarrow> bool" where
  "rtc_fresh s \<longleftrightarrow> wsActiveSessionId s < wsNextSessionId s
     \<and> (\<forall>t \<in> set (wsTasks s). \<forall>sid. task_session t = Some sid \<longrightarrow> sid < wsNextSessionId s)"

definition rtc_base :: "refs \<Rightarrow> 'j WebRtcServer \<Rightarrow> bool" where
  "rtc_base extra s \<longleftrightarrow> handles_ok (wsHandles s) \<and> rtc_fresh s
     \<and> wsRefs s = members_held s + tasks_held (wsTasks s) + extra"

definition rtc_idle :: "'j WebRtcServer \<Rightarrow> bool" where
  "rtc_idle s \<longleftrightarrow> wsActiveSessionId s = 0 \<and> wsHandles s = noHandles \<and> wsActiveWebRtcbin s = None
     \<and> wsActiveDataChannel s = None \<and> wsReplyToClient s = None \<and> wsDataChannel s = None
     \<and> wsVideoWebRtcSinkPad s = None \<and> \<not> wsLocalOfferSent s \<and> \<not> wsRemoteDescriptionApplied s
     \<and> \<not> wsMediaPipelineStarted s \<and> wsPendingRemoteIce s = [] \<and> \<not> wsWatchdogArmed s"

definition rtc_connected :: "'j WebRtcServer \<Rightarrow> bool" where
  "rtc_connected s \<longleftrightarrow> wsActiveSessionId s \<noteq> 0 \<and> phPipeline (wsHandles s) \<noteq> None
     \<and> phWebrtcbin (wsHandles s) \<noteq> None \<and> wsActiveWebRtcbin s = phWebrtcbin (wsHandles s)
     \<and> wsActiveDataChannel s = wsDataChannel s \<and> wsReplyToClient s \<noteq> None
     \<and> wsVideoWebRtcSinkPad s \<noteq> None"

text \<open>A candidate that is waiting is one that would have been accepted.\<close>

definition candidate_ok :: "'j json_ops \<Rightarrow> DirectIpv4Link option \<Rightarrow> 'j \<Rightarrow> bool" where
  "candidate_ok js link j \<longleftrightarrow>
     (case iceFields js j of
        Some (c, Some i) \<Rightarrow> c \<noteq> [] \<and> allowRemoteCandidate link c
      | _ \<Rightarrow> False)"

definition rtc_progress :: "'j json_ops \<Rightarrow> 'j WebRtcServer \<Rightarrow> bool" where
  "rtc_progress js s \<longleftrightarrow>
     (wsMediaPipelineStarted s \<longrightarrow> wsRemoteDescriptionApplied s)
     \<and> (wsRemoteDescriptionApplied s \<longrightarrow> wsLocalOfferSent s \<and> wsPendingRemoteIce s = [])
     \<and> (\<forall>t \<in> set (wsTasks s). answer_session t = Some (wsActiveSessionId s) \<longrightarrow>
          wsActiveSessionId s \<noteq> 0 \<longrightarrow> wsLocalOfferSent s)
     \<and> list_all (candidate_ok js (wsDirectIpv4Link s)) (wsPendingRemoteIce s)"

definition rtc_watched :: "'j WebRtcServer \<Rightarrow> bool" where
  "rtc_watched s \<longleftrightarrow>
     (wsWatchdogArmed s \<longrightarrow> wsWatchdogSessionId s = wsActiveSessionId s \<and> wsActiveSessionId s \<noteq> 0)
     \<and> (wsActiveSessionId s \<noteq> 0 \<and> \<not> wsRemoteDescriptionApplied s \<longrightarrow>
          wsWatchdogArmed s \<or> (\<exists>r. (wsActiveSessionId s, r) \<in> set (wsCloseRequests s)))"

definition rtc_inv :: "'j json_ops \<Rightarrow> refs \<Rightarrow> 'j WebRtcServer \<Rightarrow> bool" where
  "rtc_inv js extra s \<longleftrightarrow>
     rtc_base extra s \<and> (rtc_idle s \<or> rtc_connected s) \<and> rtc_progress js s \<and> rtc_watched s"

lemma rtc_inv_parts:
  assumes "rtc_inv js extra s"
  shows "rtc_base extra s" "rtc_idle s \<or> rtc_connected s" "rtc_progress js s" "rtc_watched s"
    "handles_ok (wsHandles s)" "rtc_fresh s"
    "wsRefs s = members_held s + tasks_held (wsTasks s) + extra"
  using assms by (simp_all add: rtc_inv_def rtc_base_def)

lemma u64_zero_less: "(a :: u64) < b \<Longrightarrow> 0 < b"
  by (meson word_gt_0 le_less_trans word_zero_le)

lemma tear_down_inv:
  assumes "rtc_base extra s"
  shows "tearDownPipeline ops s = Some (torn (tasks_held (wsTasks s) + extra) s)"
    and "rtc_inv js extra (torn (tasks_held (wsTasks s) + extra) s)"
proof -
  show "tearDownPipeline ops s = Some (torn (tasks_held (wsTasks s) + extra) s)"
    using assms by (intro tearDownPipeline_torn) (simp_all add: rtc_base_def add.assoc)
  have "0 < wsNextSessionId s" using assms u64_zero_less by (auto simp: rtc_base_def rtc_fresh_def)
  then show "rtc_inv js extra (torn (tasks_held (wsTasks s) + extra) s)"
    using assms
    by (auto simp: rtc_inv_def rtc_base_def rtc_fresh_def rtc_idle_def rtc_progress_def rtc_watched_def
        torn_def members_held_def)
qed

section \<open>Connecting\<close>

lemma prepare_result:
  assumes "wsVideoWebRtcSinkPad s = None" "\<not> wsVideoSendPathReady s"
  obtains pad ok where "prepareVideoSendPathLocked ops s =
      Some (s\<lparr>wsRefs := held pad + wsRefs s, wsVideoWebRtcSinkPad := pad, wsVideoSendPathReady := ok\<rparr>, ok)"
    "ok \<Longrightarrow> pad \<noteq> None"
proof -
  let ?idx = kVideoMLineIndex and ?h = "wsHandles s"
  obtain pad where pad: "requestVerifiedVideoSinkPadLocked ops (phWebrtcbin ?h) ?idx (wsRefs s) =
      Some (held pad + wsRefs s, pad)"
    using pad_functions_refs(1) by blast
  let ?refs = "held pad + wsRefs s"
  obtain b1 b2 b3 where fns:
    "configurePadTransceiverCodecPreferencesLocked ops pad ?refs = Some (?refs, b1)"
    "configurePadTransceiverDirectionLocked ops pad ?refs = Some (?refs, b2)"
    "linkVideoPayloaderToSinkPadLocked ops (phVideoPayloader ?h) pad ?refs = Some (?refs, b3)"
    using pad_functions_refs by metis
  let ?ok = "pad \<noteq> None \<and> b1 \<and> b2 \<and> b3"
  have "s\<lparr>wsRefs := ?refs, wsVideoWebRtcSinkPad := pad, wsVideoSendPathReady := False\<rparr> =
      s\<lparr>wsRefs := ?refs, wsVideoWebRtcSinkPad := pad\<rparr>"
    using assms(2) by (cases s) simp
  then have "prepareVideoSendPathLocked ops s =
      Some (s\<lparr>wsRefs := ?refs, wsVideoWebRtcSinkPad := pad, wsVideoSendPathReady := ?ok\<rparr>, ?ok)"
    using assms by (simp add: prepareVideoSendPathLocked_def Let_def pad fns del: held_simps)
  then show thesis using that by blast
qed

lemma createControl_result:
  assumes "wsDataChannel s = None" "wsActiveDataChannel s = None"
  obtains ch ok where "createControlDataChannelLocked ops s =
      (s\<lparr>wsRefs := held ch + wsRefs s, wsDataChannel := ch, wsActiveDataChannel := ch\<rparr>, ok)"
proof -
  have same: "s = s\<lparr>wsRefs := held None + wsRefs s, wsDataChannel := None, wsActiveDataChannel := None\<rparr>"
    using assms by (cases s) simp
  show thesis
  proof (cases "\<exists>bin ch. phWebrtcbin (wsHandles s) = Some bin \<and> gstCreateDataChannel ops bin ''control'' = Some ch")
    case True
    then obtain bin ch where "phWebrtcbin (wsHandles s) = Some bin" "gstCreateDataChannel ops bin ''control'' = Some ch"
      by blast
    then show ?thesis
      using that [of "Some ch" True] assms by (simp add: createControlDataChannelLocked_def own_def)
  next
    case False
    then have "createControlDataChannelLocked ops s = (s, False)"
      using assms(1) by (auto simp: createControlDataChannelLocked_def split: option.split)
    then show ?thesis using that [of None False] same by simp
  qed
qed

text \<open>The state of a session whose local set-up has succeeded, before the watchdog is armed.\<close>

definition connected_state ::
    "'j WebRtcServer \<Rightarrow> PipelineHandles \<Rightarrow> conn \<Rightarrow> gobj option \<Rightarrow> gobj option \<Rightarrow> refs \<Rightarrow> 'j WebRtcServer" where
  "connected_state s h reply pad ch rest =
     (torn rest s)\<lparr>wsNextSessionId := wsNextSessionId s + 1, wsActiveSessionId := wsNextSessionId s,
       wsHandles := h, wsActiveWebRtcbin := phWebrtcbin h, wsReplyToClient := Some reply,
       wsVideoWebRtcSinkPad := pad, wsVideoSendPathReady := True, wsDataChannel := ch,
       wsActiveDataChannel := ch, wsRefs := held ch + (held pad + (handles_held h + rest))\<rparr>"

lemma connect_cases:
  fixes s :: "'j WebRtcServer"
  assumes "rtc_base extra s" "wsNextSessionId s \<noteq> - 1"
  defines "rest \<equiv> tasks_held (wsTasks s) + extra"
  obtains (failed) "onClientConnected ops now env reply s =
      Some (torn rest (s\<lparr>wsNextSessionId := wsNextSessionId s + 1\<rparr>))"
    | (connected) h pad ch where "phPipeline h \<noteq> None" "phWebrtcbin h \<noteq> None" "pad \<noteq> None"
      "onClientConnected ops now env reply s =
        Some (addTasks [CreateLocalOffer (wsNextSessionId s)]
          (armNegotiationWatchdogLocked now (wsNextSessionId s) ''create-offer''
            (connected_state s h reply pad ch rest)))"
proof -
  let ?sid = "wsNextSessionId s"
  note tear = tear_down_inv(1) [OF assms(1), folded rest_def]
  let ?s1 = "(torn rest s)\<lparr>wsNextSessionId := ?sid + 1, wsActiveSessionId := ?sid\<rparr>"
  obtain h where h: "buildPipeline ops (wsConfig s) (wsImageSize s) rest = Some (handles_held h + rest, h)"
    "handles_ok h"
    by (rule buildPipeline_result)
  let ?s2 = "?s1\<lparr>wsRefs := handles_held h + rest, wsHandles := h\<rparr>"
  have undo: "tearDownPipeline ops t = Some (torn rest (s\<lparr>wsNextSessionId := ?sid + 1\<rparr>))"
    if "t = ?s2\<lparr>wsActiveWebRtcbin := b, wsReplyToClient := r, wsVideoWebRtcSinkPad := pad,
        wsVideoSendPathReady := ok, wsDataChannel := ch, wsActiveDataChannel := ch',
        wsRefs := held ch + (held pad + (handles_held h + rest))\<rparr>" for t b r pad ok ch ch'
  proof -
    have "tearDownPipeline ops t = Some (torn rest t)"
      using h(2) by (intro tearDownPipeline_torn) (simp_all add: that members_held_def ac_simps)
    then show ?thesis by (simp add: that torn_def)
  qed
  show thesis
  proof (cases "phPipeline h = None \<or> phWebrtcbin h = None")
    case True
    have "?s2 = ?s2\<lparr>wsActiveWebRtcbin := None, wsReplyToClient := None, wsVideoWebRtcSinkPad := None,
        wsVideoSendPathReady := False, wsDataChannel := None, wsActiveDataChannel := None,
        wsRefs := held None + (held None + (handles_held h + rest))\<rparr>" by (simp add: torn_def)
    from undo [OF this] show ?thesis
      using True by (intro failed) (simp add: onClientConnected_def tear torn_def Let_def h(1))
  next
    case False
    then obtain p b where pb: "phPipeline h = Some p" "phWebrtcbin h = Some b" by auto
    let ?s3 = "?s2\<lparr>wsActiveWebRtcbin := Some b\<rparr>"
    show ?thesis
    proof (cases "gstElementSetState ops p GST_STATE_READY")
      case not_ready: False
      have "?s3 = ?s2\<lparr>wsActiveWebRtcbin := Some b, wsReplyToClient := None, wsVideoWebRtcSinkPad := None,
          wsVideoSendPathReady := False, wsDataChannel := None, wsActiveDataChannel := None,
          wsRefs := held None + (held None + (handles_held h + rest))\<rparr>" by (simp add: torn_def)
      from undo [OF this] show ?thesis
        using not_ready pb
        by (intro failed) (simp add: onClientConnected_def tear torn_def Let_def h(1) withRefs_def pad_functions_refs)
    next
      case ready: True
      let ?s4 = "?s3\<lparr>wsReplyToClient := Some reply\<rparr>"
      obtain pad ok where prep: "prepareVideoSendPathLocked ops ?s4 =
          Some (?s4\<lparr>wsRefs := held pad + wsRefs ?s4, wsVideoWebRtcSinkPad := pad, wsVideoSendPathReady := ok\<rparr>, ok)"
        "ok \<Longrightarrow> pad \<noteq> None"
        by (rule prepare_result [of ?s4 ops]) (simp_all add: torn_def)
      let ?s5 = "?s4\<lparr>wsRefs := held pad + wsRefs ?s4, wsVideoWebRtcSinkPad := pad, wsVideoSendPathReady := ok\<rparr>"
      have start: "onClientConnected ops now env reply s =
          (if \<not> ok then tearDownPipeline ops ?s5
           else case (if disableDataChannelFromEnv env then (?s5, True) else createControlDataChannelLocked ops ?s5) of
             (t, ok) \<Rightarrow> if \<not> ok then tearDownPipeline ops t
               else Some (addTasks [CreateLocalOffer ?sid] (armNegotiationWatchdogLocked now ?sid ''create-offer'' t)))"
        using ready pb prep(1)
        by (simp add: onClientConnected_def tear torn_def Let_def h(1) withRefs_def pad_functions_refs
            split: prod.splits)
      obtain ch ok' where ch: "(if disableDataChannelFromEnv env then (?s5, True) else createControlDataChannelLocked ops ?s5) =
          (?s5\<lparr>wsRefs := held ch + wsRefs ?s5, wsDataChannel := ch, wsActiveDataChannel := ch\<rparr>, ok')"
      proof (cases "disableDataChannelFromEnv env")
        case True
        then show ?thesis using that [of None True] by (simp add: torn_def)
      next
        case no_env: False
        show ?thesis
          by (rule createControl_result [of ?s5 ops]) (use that no_env in \<open>simp_all add: torn_def\<close>)
      qed
      let ?s6 = "?s5\<lparr>wsRefs := held ch + wsRefs ?s5, wsDataChannel := ch, wsActiveDataChannel := ch\<rparr>"
      show ?thesis
      proof (cases "ok \<and> ok'")
        case True
        then have "?s6 = connected_state s h reply pad ch rest"
          by (simp add: connected_state_def torn_def pb)
        then show ?thesis using True start ch prep(2) pb by (intro connected [of h pad ch]) simp_all
      next
        case bad: False
        have s5: "?s5 = ?s2\<lparr>wsActiveWebRtcbin := Some b, wsReplyToClient := Some reply, wsVideoWebRtcSinkPad := pad,
            wsVideoSendPathReady := ok, wsDataChannel := None, wsActiveDataChannel := None,
            wsRefs := held None + (held pad + (handles_held h + rest))\<rparr>"
          and s6: "?s6 = ?s2\<lparr>wsActiveWebRtcbin := Some b, wsReplyToClient := Some reply, wsVideoWebRtcSinkPad := pad,
            wsVideoSendPathReady := ok, wsDataChannel := ch, wsActiveDataChannel := ch,
            wsRefs := held ch + (held pad + (handles_held h + rest))\<rparr>"
          by (simp_all add: torn_def)
        show ?thesis
          by (rule failed) (use start ch bad undo [OF s5] undo [OF s6] in \<open>auto split: if_splits\<close>)
      qed
    qed
  qed
qed

end
