(* ===== verification/WebRtcInvariantProofs.thy ===== *)
theory WebRtcInvariantProofs
  imports WebRtcInvariant
begin

text \<open>Every event of the WebRTC server is defined and keeps the invariant.\<close>

lemmas rtc_defs = rtc_inv_def rtc_base_def rtc_fresh_def rtc_idle_def rtc_connected_def rtc_progress_def
  rtc_watched_def members_held_def

section \<open>Steps that change little\<close>

lemma rtc_inv_outside [simp]:
  "rtc_inv js x (s\<lparr>wsPoses := a\<rparr>) = rtc_inv js x s"
  "rtc_inv js x (s\<lparr>wsIceAdded := b\<rparr>) = rtc_inv js x s"
  "rtc_inv js x (s\<lparr>wsPosted := c\<rparr>) = rtc_inv js x s"
  "rtc_inv js x (s\<lparr>wsControlSent := d\<rparr>) = rtc_inv js x s"
  "rtc_inv js x (s\<lparr>wsPushed := e\<rparr>) = rtc_inv js x s"
  "rtc_inv js x (s\<lparr>wsVideoPushEnabled := f\<rparr>) = rtc_inv js x s"
  "rtc_inv js x (s\<lparr>wsWarnedFrameShapeMismatch := g\<rparr>) = rtc_inv js x s"
  "rtc_inv js x (s\<lparr>wsRunning := h\<rparr>) = rtc_inv js x s"
  "rtc_inv js x (s\<lparr>wsLocalMediaMids := i\<rparr>) = rtc_inv js x s"
  "rtc_inv js x (s\<lparr>wsLocalVideoMid := j\<rparr>) = rtc_inv js x s"
  by (simp_all add: rtc_defs)

lemma rtc_inv_own:
  "rtc_inv js x s \<Longrightarrow> rtc_inv js (held r + x) (s\<lparr>wsRefs := own r (wsRefs s)\<rparr>)"
  by (simp add: rtc_defs own_held ac_simps)

lemma rtc_inv_unref:
  assumes "rtc_inv js (add_mset r x) s"
  shows "withRefs (unref r) s = Some (s\<lparr>wsRefs := wsRefs s - {#r#}\<rparr>)"
    and "rtc_inv js x (s\<lparr>wsRefs := wsRefs s - {#r#}\<rparr>)"
  using assms by (simp_all add: rtc_defs withRefs_def unref_def)

lemma rtc_inv_addTasks:
  assumes "rtc_inv js (tasks_held ts + x) s"
    and "\<And>t sid. t \<in> set ts \<Longrightarrow> task_session t = Some sid \<Longrightarrow> sid < wsNextSessionId s"
    and "\<And>t sid. t \<in> set ts \<Longrightarrow> answer_session t = Some (wsActiveSessionId s) \<Longrightarrow>
      wsActiveSessionId s \<noteq> 0 \<Longrightarrow> wsLocalOfferSent s"
  shows "rtc_inv js x (addTasks ts s)"
  using assms by (auto simp: rtc_defs addTasks_def ac_simps)

lemma rtc_inv_takeTask:
  assumes "rtc_inv js x s" "n < length (wsTasks s)"
  shows "rtc_inv js (task_refs (wsTasks s ! n) + x)
    (s\<lparr>wsTasks := take n (wsTasks s) @ drop (n + 1) (wsTasks s)\<rparr>)"
proof -
  have ts: "wsTasks s = take n (wsTasks s) @ wsTasks s ! n # drop (n + 1) (wsTasks s)"
    using assms(2) by (simp add: id_take_nth_drop)
  have "tasks_held (wsTasks s) = task_refs (wsTasks s ! n) + tasks_held (take n (wsTasks s) @ drop (n + 1) (wsTasks s))"
    by (subst ts) (simp add: ac_simps)
  moreover have "set (take n (wsTasks s) @ drop (n + 1) (wsTasks s)) \<subseteq> set (wsTasks s)"
    using set_take_subset set_drop_subset by fastforce
  ultimately show ?thesis
    using assms(1) by (simp add: rtc_defs ac_simps) blast
qed

lemma rtc_inv_arm: "rtc_inv js x s \<Longrightarrow> rtc_inv js x (armNegotiationWatchdogLocked now sid stage s)"
  by (auto simp: rtc_defs armNegotiationWatchdogLocked_def)

lemma arm_keeps [simp]:
  "wsRefs (armNegotiationWatchdogLocked now sid stage s) = wsRefs s"
  "wsTasks (armNegotiationWatchdogLocked now sid stage s) = wsTasks s"
  "wsActiveSessionId (armNegotiationWatchdogLocked now sid stage s) = wsActiveSessionId s"
  "wsNextSessionId (armNegotiationWatchdogLocked now sid stage s) = wsNextSessionId s"
  "wsLocalOfferSent (armNegotiationWatchdogLocked now sid stage s) = wsLocalOfferSent s"
  "wsHandles (armNegotiationWatchdogLocked now sid stage s) = wsHandles s"
  "wsReplyToClient (armNegotiationWatchdogLocked now sid stage s) = wsReplyToClient s"
  "wsRemoteDescriptionApplied (armNegotiationWatchdogLocked now sid stage s) = wsRemoteDescriptionApplied s"
  "wsPendingRemoteIce (armNegotiationWatchdogLocked now sid stage s) = wsPendingRemoteIce s"
  "wsIceAdded (armNegotiationWatchdogLocked now sid stage s) = wsIceAdded s"
  "wsDirectIpv4Link (armNegotiationWatchdogLocked now sid stage s) = wsDirectIpv4Link s"
  by (simp_all add: armNegotiationWatchdogLocked_def)

lemma current_session:
  "isCurrentSessionLocked sid b s \<Longrightarrow> sid = wsActiveSessionId s \<and> wsActiveSessionId s \<noteq> 0 \<and> phWebrtcbin (wsHandles s) = b"
  by (auto simp: isCurrentSessionLocked_def)

lemma rtc_inv_session: "rtc_inv js x s \<Longrightarrow> wsActiveSessionId s < wsNextSessionId s"
  by (simp add: rtc_defs)

lemma tear_down_step:
  assumes "rtc_inv js x s"
  shows "\<exists>s'. tearDownPipeline ops s = Some s' \<and> rtc_inv js x s'"
  using tear_down_inv [OF rtc_inv_parts(1) [OF assms]] by blast

lemma unref_step:
  assumes "rtc_inv js (add_mset r x) s"
  shows "\<exists>s'. withRefs (unref r) s = Some s' \<and> rtc_inv js x s'"
  using rtc_inv_unref [OF assms] by blast

section \<open>Connecting\<close>

lemma onClientConnected_inv:
  assumes "rtc_inv js x s" "wsNextSessionId s \<noteq> - 1"
  shows "\<exists>s'. onClientConnected ops now env reply s = Some s' \<and> rtc_inv js x s'"
proof -
  let ?rest = "tasks_held (wsTasks s) + x"
  have base: "rtc_base x s" by (rule rtc_inv_parts(1) [OF assms(1)])
  have less: "wsNextSessionId s < wsNextSessionId s + 1" using assms(2) by (rule u64_less_Suc)
  have pos: "wsNextSessionId s \<noteq> 0"
    using rtc_inv_session [OF assms(1)] u64_zero_less by fastforce
  have tasks: "\<forall>t \<in> set (wsTasks s). \<forall>sid. task_session t = Some sid \<longrightarrow> sid < wsNextSessionId s"
    using base by (simp add: rtc_base_def rtc_fresh_def)
  show ?thesis
  proof (cases rule: connect_cases [OF base assms(2), of ops now env reply, case_names failed connected])
    case failed
    have "rtc_base x (s\<lparr>wsNextSessionId := wsNextSessionId s + 1\<rparr>)"
      using base tasks less rtc_inv_session [OF assms(1)]
      by (auto simp: rtc_base_def rtc_fresh_def members_held_def intro: less_trans)
    from tear_down_inv(2) [OF this, of js] failed show ?thesis by simp
  next
    case (connected h pad ch)
    let ?s = "connected_state s h reply pad ch ?rest"
    have old: "answer_session t \<noteq> Some (wsNextSessionId s)" if "t \<in> set (wsTasks s)" for t
      using tasks that answer_session_task by fastforce
    have "rtc_inv js x (armNegotiationWatchdogLocked now (wsNextSessionId s) ''create-offer'' ?s)"
      using connected(1-3) pos tasks less old
      by (auto simp: rtc_defs connected_state_def torn_def armNegotiationWatchdogLocked_def handles_ok_def
          ac_simps intro: less_trans)
    then have "rtc_inv js x (addTasks [CreateLocalOffer (wsNextSessionId s)]
        (armNegotiationWatchdogLocked now (wsNextSessionId s) ''create-offer'' ?s))"
      using less by (intro rtc_inv_addTasks) (auto simp: connected_state_def)
    then show ?thesis using connected(4) by blast
  qed
qed

section \<open>Tasks\<close>

lemma createLocalOffer_inv:
  assumes "rtc_inv js x s" "sid < wsNextSessionId s"
  shows "rtc_inv js x (createLocalOffer ops sid s)"
proof (cases "\<exists>bin. phWebrtcbin (wsHandles s) = Some bin \<and> isCurrentSessionLocked sid (Some bin) s")
  case True
  then obtain bin where bin: "phWebrtcbin (wsHandles s) = Some bin" "isCurrentSessionLocked sid (Some bin) s" by blast
  let ?p = "gstPromiseNew ops"
  have "rtc_inv js (held (Some ?p) + (held (Some bin) + x))
      (s\<lparr>wsRefs := own (Some ?p) (own (Some bin) (wsRefs s))\<rparr>)"
    using rtc_inv_own [OF rtc_inv_own [OF assms(1)], of "Some ?p" "Some bin"] by simp
  then have "rtc_inv js x (addTasks [OnOfferCreated ?p bin sid] (s\<lparr>wsRefs := own (Some ?p) (own (Some bin) (wsRefs s))\<rparr>))"
    using assms(2) by (intro rtc_inv_addTasks) (auto simp: ac_simps)
  then show ?thesis using bin by (simp add: createLocalOffer_def Let_def)
next
  case False
  then show ?thesis using assms(1) by (auto simp: createLocalOffer_def split: option.split)
qed

lemma setLocalDescription_inv:
  assumes "rtc_inv js (add_mset (ofDescription offer) x) s" "sid < wsNextSessionId s"
  shows "\<exists>s'. setLocalDescriptionAndSendOffer ops now offer b sid s = Some s' \<and> rtc_inv js x s'"
proof (cases "\<exists>p. phPipeline (wsHandles s) = Some p \<and> isCurrentSessionLocked sid (Some b) s")
  case True
  then obtain p where p: "phPipeline (wsHandles s) = Some p" "isCurrentSessionLocked sid (Some b) s" by blast
  note cur = current_session [OF p(2)]
  let ?d = "ofDescription offer" and ?pr = "gstPromiseNew ops"
  define s1 where "s1 = (armNegotiationWatchdogLocked now sid ''set-local-description'' s)
      \<lparr>wsLocalMediaMids := extractMediaMids (ofMedias offer),
       wsLocalVideoMid := firstMediaMid (ofMedias offer) ''video'',
       wsRemoteDescriptionApplied := False, wsMediaPipelineStarted := False, wsVideoPushEnabled := False\<rparr>"
  have "rtc_inv js (add_mset ?d x) s1"
    using assms(1) cur by (auto simp: rtc_defs s1_def armNegotiationWatchdogLocked_def)
  note own3 = rtc_inv_own [OF rtc_inv_own [OF rtc_inv_own [OF this]], of "Some ?pr" "Some p" "Some b"]
  let ?s2 = "s1\<lparr>wsRefs := own (Some ?pr) (own (Some p) (own (Some b) (wsRefs s1)))\<rparr>"
  let ?txt = "case ofText offer of None \<Rightarrow> [] | Some t \<Rightarrow> t"
  have "rtc_inv js x (addTasks [OnLocalDescriptionSet ?pr b p ?d sid ?txt (wsReplyToClient s1)] ?s2)"
    by (rule rtc_inv_addTasks) (use own3 assms(2) in \<open>auto simp: ac_simps add_mset_commute s1_def\<close>)
  moreover have "setLocalDescriptionAndSendOffer ops now offer b sid s =
      Some (addTasks [OnLocalDescriptionSet ?pr b p ?d sid ?txt (wsReplyToClient s1)] ?s2)"
    using p by (simp add: setLocalDescriptionAndSendOffer_def Let_def s1_def)
  ultimately show ?thesis by blast
next
  case False
  then have "setLocalDescriptionAndSendOffer ops now offer b sid s = withRefs (unref (ofDescription offer)) s"
    by (auto simp: setLocalDescriptionAndSendOffer_def split: option.split)
  then show ?thesis using unref_step [OF assms(1)] by simp
qed

lemma onOfferCreated_inv:
  assumes "rtc_inv js (add_mset p (add_mset b x)) s" "sid < wsNextSessionId s"
  shows "\<exists>s'. onOfferCreated ops now offer p b sid s = Some s' \<and> rtc_inv js x s'"
proof -
  let ?d = "map_option ofDescription offer"
  let ?s0 = "s\<lparr>wsRefs := own ?d (wsRefs s)\<rparr>"
  have "rtc_inv js (add_mset p (held ?d + add_mset b x)) ?s0"
    using rtc_inv_own [OF assms(1), of ?d] by (simp add: ac_simps)
  note un = rtc_inv_unref [OF this]
  define s1 where "s1 = ?s0\<lparr>wsRefs := wsRefs ?s0 - {#p#}\<rparr>"
  let ?mid = "case offer of
        None \<Rightarrow> if isCurrentSessionLocked sid (Some b) s1 then tearDownPipeline ops s1 else Some s1
      | Some of' \<Rightarrow> setLocalDescriptionAndSendOffer ops now of' b sid s1"
  have "\<exists>s2. ?mid = Some s2 \<and> rtc_inv js (add_mset b x) s2"
  proof (cases offer)
    case None
    then have "rtc_inv js (add_mset b x) s1" using un(2) by (simp add: s1_def)
    then show ?thesis using None tear_down_step by auto
  next
    case (Some of')
    then have "rtc_inv js (add_mset (ofDescription of') (add_mset b x)) s1"
      using un(2) by (simp add: add_mset_commute s1_def)
    moreover have "sid < wsNextSessionId s1" using assms(2) by (simp add: s1_def)
    ultimately show ?thesis using setLocalDescription_inv Some by auto
  qed
  then obtain s2 where s2: "?mid = Some s2" "rtc_inv js (add_mset b x) s2" by blast
  obtain s' where s': "withRefs (unref b) s2 = Some s'" "rtc_inv js x s'"
    using unref_step [OF s2(2)] by blast
  have "onOfferCreated ops now offer p b sid s = Some s'"
    unfolding onOfferCreated_def un(1) [folded s1_def] using s2(1) s'(1) by simp
  then show ?thesis using s'(2) by blast
qed

lemma onLocalDescriptionSet_inv:
  assumes "rtc_inv js (add_mset p (add_mset b (add_mset pipe (add_mset d x)))) s"
  shows "\<exists>s'. onLocalDescriptionSet js ops now replied p b pipe d sid txt reply s = Some s' \<and> rtc_inv js x s'"
proof -
  let ?x = "add_mset d (add_mset pipe (add_mset b x))"
  have "rtc_inv js (add_mset p ?x) s" using assms by (simp add: add_mset_commute)
  from unref_step [OF this] obtain s1 where s1: "withRefs (unref p) s = Some s1" "rtc_inv js ?x s1" by blast
  let ?active = "isCurrentSessionLocked sid (Some b) s1 \<and> phPipeline (wsHandles s1) = Some pipe"
  let ?s2 = "armNegotiationWatchdogLocked now sid ''remote answer'' (s1\<lparr>wsLocalOfferSent := True\<rparr>)"
  let ?mid = "if \<not> replied then
        (if isCurrentSessionLocked sid (Some b) s1 then tearDownPipeline ops s1 else Some s1)
      else if \<not> ?active then Some s1
      else Some (case reply of None \<Rightarrow> ?s2
        | Some hdl \<Rightarrow> ?s2\<lparr>wsPosted := wsPosted ?s2 @ [makeSendFunc hdl (offerMessage js txt)]\<rparr>)"
  have sent: "rtc_inv js ?x ?s2" if "isCurrentSessionLocked sid (Some b) s1"
    using s1(2) current_session [OF that] by (intro rtc_inv_arm) (auto simp: rtc_defs)
  have "\<exists>s2. ?mid = Some s2 \<and> rtc_inv js ?x s2"
    using s1(2) tear_down_step [OF s1(2)] sent by (auto split: option.split)
  then obtain s2 where s2: "?mid = Some s2" "rtc_inv js ?x s2" by blast
  obtain s3 where s3: "withRefs (unref d) s2 = Some s3" "rtc_inv js (add_mset pipe (add_mset b x)) s3"
    using unref_step [OF s2(2)] by blast
  obtain s4 where s4: "withRefs (unref pipe) s3 = Some s4" "rtc_inv js (add_mset b x) s4"
    using unref_step [OF s3(2)] by blast
  obtain s5 where s5: "withRefs (unref b) s4 = Some s5" "rtc_inv js x s5"
    using unref_step [OF s4(2)] by blast
  have "onLocalDescriptionSet js ops now replied p b pipe d sid txt reply s = Some s5"
    using s2(1) by (simp add: onLocalDescriptionSet_def Let_def s1(1) s3(1) s4(1) s5(1) cong: if_cong option.case_cong)
  then show ?thesis using s5(2) by blast
qed

lemma applyRemoteDescription_inv:
  assumes "rtc_inv js x s" "sid < wsNextSessionId s"
    and "sid = wsActiveSessionId s \<Longrightarrow> sid \<noteq> 0 \<Longrightarrow> wsLocalOfferSent s"
  shows "\<exists>s'. applyRemoteDescription ops sdp sid s = Some s' \<and> rtc_inv js x s'"
proof (cases "\<exists>b. phWebrtcbin (wsHandles s) = Some b \<and> isCurrentSessionLocked sid (Some b) s")
  case False
  then have "applyRemoteDescription ops sdp sid s = Some s"
    by (auto simp: applyRemoteDescription_def split: option.split)
  then show ?thesis using assms(1) by blast
next
  case True
  then obtain b where b: "phWebrtcbin (wsHandles s) = Some b" "isCurrentSessionLocked sid (Some b) s" by blast
  note cur = current_session [OF b(2)]
  let ?s1 = "s\<lparr>wsRefs := own (Some b) (wsRefs s)\<rparr>"
  have i1: "rtc_inv js (add_mset b x) ?s1" using rtc_inv_own [OF assms(1), of "Some b"] by simp
  show ?thesis
  proof (cases "gstSdpMessageParse ops sdp")
    case None
    then have "applyRemoteDescription ops sdp sid s = withRefs (unref b) ?s1"
      using b by (simp add: applyRemoteDescription_def Let_def)
    then show ?thesis using unref_step [OF i1] by simp
  next
    case (Some m)
    let ?s2 = "?s1\<lparr>wsRefs := own (Some m) (wsRefs ?s1)\<rparr>"
    have i2: "rtc_inv js (add_mset m (add_mset b x)) ?s2"
      using rtc_inv_own [OF i1, of "Some m"] by (simp add: add_mset_commute)
    note un = rtc_inv_unref [OF i2]
    let ?s3 = "?s2\<lparr>wsRefs := wsRefs ?s2 - {#m#}\<rparr>"
    show ?thesis
    proof (cases "gstSessionDescription ops m")
      case None
      then have "applyRemoteDescription ops sdp sid s = withRefs (unref b) ?s3"
        using b Some un(1) by (simp add: applyRemoteDescription_def Let_def)
      then show ?thesis using unref_step [OF un(2)] by simp
    next
      case (Some d)
      let ?pr = "gstPromiseNew ops"
      let ?s4 = "?s3\<lparr>wsRefs := own (Some ?pr) (own (Some d) (wsRefs ?s3))\<rparr>"
      let ?t = "OnRemoteAnswerApplied ?pr b sid"
      have "rtc_inv js (add_mset ?pr (add_mset d (add_mset b x))) ?s4"
        using rtc_inv_own [OF rtc_inv_own [OF un(2)], of "Some ?pr" "Some d"] by (simp add: add_mset_commute)
      then have "rtc_inv js (add_mset d x) (addTasks [?t] ?s4)"
        by (intro rtc_inv_addTasks) (use assms(2,3) cur in \<open>auto simp: add_mset_commute\<close>)
      from unref_step [OF this] obtain s5 where s5:
        "withRefs (unref d) (addTasks [?t] ?s4) = Some s5" "rtc_inv js x s5" by blast
      have "applyRemoteDescription ops sdp sid s = withRefs (unref d) (addTasks [?t] ?s4)"
        using b \<open>gstSdpMessageParse ops sdp = Some m\<close> Some un(1)
        by (simp add: applyRemoteDescription_def Let_def)
      then show ?thesis using s5 by simp
    qed
  qed
qed

text \<open>Flushing adds the waiting candidates in order and cannot throw.\<close>

definition iceEntry :: "'j json_ops \<Rightarrow> gobj \<Rightarrow> 'j \<Rightarrow> gobj \<times> u32 \<times> string" where
  "iceEntry js b j =
     (case iceFields js j of Some (c, Some i) \<Rightarrow> (b, word_of_int i, c) | _ \<Rightarrow> (b, 0, []))"

lemma flushCandidates_all:
  "list_all (candidate_ok js link) cs \<Longrightarrow>
     flushCandidates js b cs s = Some (s\<lparr>wsIceAdded := wsIceAdded s @ map (iceEntry js b) cs\<rparr>)"
proof (induction cs arbitrary: s)
  case (Cons c cs)
  then have "candidate_ok js link c" by simp
  then obtain v i where v: "iceFields js c = Some (v, Some i)" "v \<noteq> []"
    by (auto simp: candidate_ok_def split: option.splits)
  then show ?case
    using Cons by (simp add: addIceCandidateLocked_def iceEntry_def)
qed simp

lemma flush_all:
  assumes "rtc_inv js x s"
  shows "flushPendingRemoteIceLocked js b s =
    Some (s\<lparr>wsIceAdded := wsIceAdded s @ map (iceEntry js b) (wsPendingRemoteIce s), wsPendingRemoteIce := []\<rparr>)"
  using assms flushCandidates_all [of js "wsDirectIpv4Link s" "wsPendingRemoteIce s" b s]
  by (simp add: flushPendingRemoteIceLocked_def rtc_defs)

lemma onRemoteAnswerApplied_inv:
  assumes "rtc_inv js (add_mset p (add_mset b x)) s"
    and "sid = wsActiveSessionId s \<Longrightarrow> sid \<noteq> 0 \<Longrightarrow> wsLocalOfferSent s"
  shows "\<exists>s'. onRemoteAnswerApplied js ops replied p b sid s = Some s' \<and> rtc_inv js x s'"
proof -
  let ?x = "add_mset b x"
  note un = rtc_inv_unref [OF assms(1)]
  define s1 where "s1 = s\<lparr>wsRefs := wsRefs s - {#p#}\<rparr>"
  have i1: "rtc_inv js ?x s1" using un(2) by (simp add: s1_def)
  have sent: "sid = wsActiveSessionId s1 \<Longrightarrow> sid \<noteq> 0 \<Longrightarrow> wsLocalOfferSent s1"
    using assms(2) by (simp add: s1_def)
  define t2 where "t2 = clearNegotiationWatchdogLocked sid (s1\<lparr>wsRemoteDescriptionApplied := True\<rparr>)"
  let ?done = "\<not> isCurrentSessionLocked sid (Some b) s1 \<or> phPipeline (wsHandles s1) = None"
  let ?mid = "if ?done then Some s1
      else if \<not> replied then tearDownPipeline ops s1
      else (case flushPendingRemoteIceLocked js b t2 of None \<Rightarrow> None
        | Some s3 \<Rightarrow> (case startMediaPipelineLocked ops s3 of
            (s4, started) \<Rightarrow> if \<not> started then tearDownPipeline ops s4 else Some s4))"
  have "\<exists>s2. ?mid = Some s2 \<and> rtc_inv js ?x s2"
  proof (cases "?done \<or> \<not> replied")
    case True
    then show ?thesis using i1 tear_down_step [OF i1] by auto
  next
    case False
    then have cur: "sid = wsActiveSessionId s1" "sid \<noteq> 0" by (auto simp: isCurrentSessionLocked_def)
    define t3 where "t3 = t2\<lparr>wsIceAdded := wsIceAdded t2 @ map (iceEntry js b) (wsPendingRemoteIce t2),
        wsPendingRemoteIce := []\<rparr>"
    have ok: "list_all (candidate_ok js (wsDirectIpv4Link s1)) (wsPendingRemoteIce s1)"
      using i1 by (simp add: rtc_defs)
    have keeps: "wsPendingRemoteIce t2 = wsPendingRemoteIce s1" "wsDirectIpv4Link t2 = wsDirectIpv4Link s1"
      by (simp_all add: clearNegotiationWatchdogLocked_def t2_def)
    have flush: "flushPendingRemoteIceLocked js b t2 = Some t3"
      using flushCandidates_all [OF ok, of b t2] by (simp add: flushPendingRemoteIceLocked_def keeps t3_def)
    have i3: "rtc_inv js ?x t3"
      using i1 cur sent by (auto simp: rtc_defs clearNegotiationWatchdogLocked_def t3_def t2_def)
    have "wsRemoteDescriptionApplied t3" by (simp add: t3_def t2_def clearNegotiationWatchdogLocked_def)
    moreover have "wsActiveSessionId t3 \<noteq> 0" using cur by (simp add: t3_def t2_def clearNegotiationWatchdogLocked_def)
    ultimately have i3m: "rtc_inv js ?x (t3\<lparr>wsMediaPipelineStarted := True\<rparr>)"
      using i3 by (auto simp: rtc_defs)
    obtain s4 started where st: "startMediaPipelineLocked ops t3 = (s4, started)" by fastforce
    then have "s4 = t3 \<or> s4 = t3\<lparr>wsMediaPipelineStarted := True\<rparr>"
      by (auto simp: startMediaPipelineLocked_def split: if_splits option.splits)
    then have "rtc_inv js ?x s4" using i3 i3m by blast
    then show ?thesis using False tear_down_step [of js ?x s4 ops] by (auto simp: flush st)
  qed
  then obtain s2 where s2: "?mid = Some s2" "rtc_inv js ?x s2" by blast
  from unref_step [OF s2(2)] obtain s' where s': "withRefs (unref b) s2 = Some s'" "rtc_inv js x s'" by blast
  have "onRemoteAnswerApplied js ops replied p b sid s = Some s'"
    unfolding onRemoteAnswerApplied_def un(1) [folded s1_def] using s2(1) s'(1)
    by (auto simp: Let_def t2_def [symmetric] split: if_splits option.splits prod.splits)
  then show ?thesis using s'(2) by blast
qed

lemma pushLatestOutput_inv:
  assumes "rtc_inv js (add_mset a x) s" "\<And>r. latest = Some r \<Longrightarrow> buffer_honest (roRgb r)"
  shows "\<exists>s'. pushLatestOutput latest a s = Some s' \<and> rtc_inv js x s'"
proof -
  have "\<exists>s1. pushRenderOutput a r s = Some s1 \<and> rtc_inv js (add_mset a x) s1" if r: "latest = Some r" for r
  proof -
    have "copyRenderOutputRgb r \<noteq> None"
      using assms(2) [OF r]
      by (auto simp: copyRenderOutputRgb_def read_bytes_def buffer_honest_def hasRgb_def FrameBuffer_empty_def
          split: option.split)
    then show ?thesis
      using assms(1) by (auto simp: pushRenderOutput_def pushBuffer_def split: option.split)
  qed
  then obtain s1 where "(case latest of None \<Rightarrow> Some s | Some r \<Rightarrow> pushRenderOutput a r s) = Some s1"
    "rtc_inv js (add_mset a x) s1"
    using assms(1) by (cases latest) auto
  then show ?thesis using unref_step by (auto simp: pushLatestOutput_def)
qed

section \<open>Events\<close>

lemma onAnswer_inv:
  assumes "rtc_inv js x s"
  shows "rtc_inv js x (onAnswer now sdp s)"
proof -
  have "rtc_inv js x (addTasks [ApplyRemoteDescription (wsActiveSessionId s) sdp']
      (armNegotiationWatchdogLocked now (wsActiveSessionId s) stage s))" if "wsLocalOfferSent s" for sdp' stage
    by (rule rtc_inv_addTasks) (use assms that rtc_inv_session [OF assms] in \<open>auto intro: rtc_inv_arm\<close>)
  then show ?thesis using assms by (simp add: onAnswer_def Let_def)
qed

lemma onIceFromClient_inv:
  assumes "rtc_inv js x s" "onIceFromClient js j s = Some s'"
  shows "rtc_inv js x s'"
proof -
  have "rtc_inv js x (s\<lparr>wsPendingRemoteIce := wsPendingRemoteIce s @ [j]\<rparr>)"
    if "candidate_ok js (wsDirectIpv4Link s) j" "phWebrtcbin (wsHandles s) \<noteq> None" "\<not> wsRemoteDescriptionApplied s"
    using assms(1) that by (auto simp: rtc_defs noHandles_def)
  then show ?thesis
    using assms
    by (auto simp: onIceFromClient_def addIceCandidateLocked_def candidate_ok_def split: option.splits if_splits)
qed

lemma no_session_tasks:
  assumes "rtc_inv js x s" "\<And>t. t \<in> set ts \<Longrightarrow> task_refs t = {#} \<and> task_session t = None"
  shows "rtc_inv js x (addTasks ts s)"
proof (rule rtc_inv_addTasks)
  have "tasks_held ts = {#}" using assms(2) by (induction ts) auto
  then show "rtc_inv js (tasks_held ts + x) s" using assms(1) by simp
next
  fix t sid
  assume "t \<in> set ts" "answer_session t = Some (wsActiveSessionId s)"
  then show "wsLocalOfferSent s" using assms(2) answer_session_task by fastforce
qed (use assms(2) in fastforce)

lemma handlers_inv:
  assumes "rtc_inv js x s"
  shows "rtc_inv js x (onLocalIceTrampoline js b i c s)" "rtc_inv js x (onWebRtcStateNotifyTrampoline b n s)"
    "rtc_inv js x (onChannelOpenTrampoline js ch s)" "rtc_inv js x (onMessageStringTrampoline js ch txt s)"
proof -
  show "rtc_inv js x (onLocalIceTrampoline js b i c s)"
    using assms by (auto simp: onLocalIceTrampoline_def Let_def split: option.split)
  have "rtc_inv js x (addTasks [SetVideoPush e] s)" for e by (rule no_session_tasks [OF assms]) auto
  then show "rtc_inv js x (onWebRtcStateNotifyTrampoline b n s)"
    using assms by (simp add: onWebRtcStateNotifyTrampoline_def split: rtc_notify.split)
  have "rtc_inv js x (addTasks (map SendControlText ts) s)" for ts by (rule no_session_tasks [OF assms]) auto
  from this [of "[t]" for t] this [of "[t, t']" for t t']
  show "rtc_inv js x (onChannelOpenTrampoline js ch s)"
    using assms by (simp add: onChannelOpenTrampoline_def Let_def)
  have "rtc_inv js x (addTasks [ApplyPoseUpdate p] s)" for p by (rule no_session_tasks [OF assms]) auto
  then show "rtc_inv js x (onMessageStringTrampoline js ch txt s)"
    using assms by (simp add: onMessageStringTrampoline_def split: option.split)
qed

lemma rtc_inv_timed_out:
  assumes "rtc_inv js x s"
  shows "rtc_inv js x ((clearNegotiationWatchdogLocked (wsWatchdogSessionId s) s)
      \<lparr>wsCloseRequests := wsCloseRequests s @ [(wsActiveSessionId s, r)]\<rparr>)"
proof -
  let ?s' = "(clearNegotiationWatchdogLocked (wsWatchdogSessionId s) s)
      \<lparr>wsCloseRequests := wsCloseRequests s @ [(wsActiveSessionId s, r)]\<rparr>"
  note parts = rtc_inv_parts [OF assms]
  have "rtc_base x ?s'" using parts(1) by (simp add: rtc_base_def rtc_fresh_def clearNegotiationWatchdogLocked_def members_held_def)
  moreover have "rtc_idle ?s' \<or> rtc_connected ?s'"
    using parts(2)
  proof
    assume "rtc_idle s"
    then show ?thesis by (simp add: rtc_idle_def clearNegotiationWatchdogLocked_def)
  next
    assume "rtc_connected s"
    then have "rtc_connected ?s'" by (simp add: rtc_connected_def clearNegotiationWatchdogLocked_def)
    then show ?thesis ..
  qed
  moreover have "rtc_progress js ?s'"
    using parts(3) by (simp add: rtc_progress_def clearNegotiationWatchdogLocked_def)
  moreover have "rtc_watched ?s'" by (auto simp: rtc_watched_def clearNegotiationWatchdogLocked_def)
  ultimately show ?thesis by (simp add: rtc_inv_def)
qed

lemma pumpVideo_inv:
  assumes "rtc_inv js x s"
  shows "rtc_inv js x (pumpVideo now s)"
proof -
  have own: "rtc_inv js x (addTasks [PushLatestOutput a] (s\<lparr>wsRefs := own (Some a) (wsRefs s)\<rparr>))" for a
  proof (rule rtc_inv_addTasks)
    show "rtc_inv js (tasks_held [PushLatestOutput a] + x) (s\<lparr>wsRefs := own (Some a) (wsRefs s)\<rparr>)"
      using rtc_inv_own [OF assms, of "Some a"] by simp
  qed simp_all
  have keeps: "wsCloseRequests (clearNegotiationWatchdogLocked i s) = wsCloseRequests s"
    "wsActiveSessionId (clearNegotiationWatchdogLocked i s) = wsActiveSessionId s" for i
    by (simp_all add: clearNegotiationWatchdogLocked_def)
  show ?thesis
    using assms own rtc_inv_timed_out [OF assms]
    by (simp add: pumpVideo_def checkNegotiationWatchdogLocked_def keeps split: option.split)
qed

definition event_ok :: "'j rtc_event \<Rightarrow> 'j WebRtcServer \<Rightarrow> bool" where
  "event_ok ev s \<longleftrightarrow>
     (case ev of
        RtcClientConnected ops now env reply \<Rightarrow> wsNextSessionId s \<noteq> - 1
      | RtcTask n ans \<Rightarrow> (case taLatest ans of None \<Rightarrow> True | Some r \<Rightarrow> buffer_honest (roRgb r))
      | _ \<Rightarrow> True)"

lemma runTask_inv:
  assumes "rtc_inv js (task_refs t + x) s" "\<And>sid. task_session t = Some sid \<Longrightarrow> sid < wsNextSessionId s"
    and "answer_session t = Some (wsActiveSessionId s) \<Longrightarrow> wsActiveSessionId s \<noteq> 0 \<Longrightarrow> wsLocalOfferSent s"
    and "\<And>r. taLatest ans = Some r \<Longrightarrow> buffer_honest (roRgb r)"
  shows "\<exists>s'. runTask js ans t s = Some s' \<and> rtc_inv js x s'"
  using assms
proof (cases t)
  case (CreateLocalOffer sid)
  then show ?thesis using assms createLocalOffer_inv by (auto simp: runTask_def)
next
  case (OnOfferCreated p b sid)
  then show ?thesis using assms onOfferCreated_inv by (auto simp: runTask_def)
next
  case (OnLocalDescriptionSet p b pipe d sid sdp reply)
  then show ?thesis using assms onLocalDescriptionSet_inv by (auto simp: runTask_def)
next
  case (ApplyRemoteDescription sid sdp)
  then show ?thesis using assms applyRemoteDescription_inv [of js x s sid] by (auto simp: runTask_def)
next
  case (OnRemoteAnswerApplied p b sid)
  then show ?thesis using assms onRemoteAnswerApplied_inv [of js p b x s sid] by (auto simp: runTask_def)
next
  case (PushLatestOutput a)
  then have "rtc_inv js (add_mset a x) s" using assms(1) by simp
  from pushLatestOutput_inv [OF this assms(4)] show ?thesis using PushLatestOutput by (simp add: runTask_def)
qed (simp_all add: runTask_def setVideoPushEnabled_def sendControlText_def applyPoseUpdate_def split: option.split)

lemma rtc_step_inv:
  assumes "rtc_inv js {#} s" "event_ok ev s"
  shows "\<exists>s'. rtc_step js ev s = Some s' \<and> rtc_inv js {#} s'"
proof (cases ev)
  case (RtcClientConnected ops now env reply)
  have "rtc_inv js {#} (s\<lparr>wsPoses := fst (resetRelativeBaseline (wsPoses s))\<rparr>)" using assms(1) by simp
  from onClientConnected_inv [OF this] show ?thesis
    using RtcClientConnected assms(2) by (simp add: rtc_step_def clientConnected_def event_ok_def)
next
  case (RtcTask n ans)
  show ?thesis
  proof (cases "n < length (wsTasks s)")
    case True
    let ?t = "wsTasks s ! n"
    have t: "?t \<in> set (wsTasks s)" using True by simp
    have "rtc_inv js (task_refs ?t + {#}) (s\<lparr>wsTasks := take n (wsTasks s) @ drop (n + 1) (wsTasks s)\<rparr>)"
      by (rule rtc_inv_takeTask [OF assms(1) True])
    moreover have "task_session ?t = Some sid \<Longrightarrow> sid < wsNextSessionId s" for sid
      using assms(1) t by (auto simp: rtc_defs)
    moreover have "answer_session ?t = Some (wsActiveSessionId s) \<Longrightarrow> wsActiveSessionId s \<noteq> 0 \<Longrightarrow> wsLocalOfferSent s"
      using assms(1) t unfolding rtc_inv_def rtc_progress_def by blast
    moreover have "taLatest ans = Some r \<Longrightarrow> buffer_honest (roRgb r)" for r
      using assms(2) RtcTask by (simp add: event_ok_def)
    ultimately have "\<exists>s'. runTask js ans ?t (s\<lparr>wsTasks := take n (wsTasks s) @ drop (n + 1) (wsTasks s)\<rparr>) = Some s'
        \<and> rtc_inv js {#} s'"
      by (intro runTask_inv) simp_all
    then show ?thesis using True RtcTask by (simp add: rtc_step_def)
  qed (use assms RtcTask in \<open>simp add: rtc_step_def\<close>)
next
  case (RtcIce j)
  then show ?thesis using assms onIceFromClient_inv by (auto simp: rtc_step_def split: option.split)
next
  case (RtcClientDisconnected ops)
  then show ?thesis using tear_down_step [OF assms(1)] by (simp add: rtc_step_def)
qed (use assms onAnswer_inv handlers_inv pumpVideo_inv in \<open>simp_all add: rtc_step_def\<close>)

lemma rtc_inv_new: "rtc_inv js {#} (WebRtcServer_new config imageSize env poses)"
  by (simp add: rtc_defs WebRtcServer_new_def)

end
