(* ===== verification/WebRtcFrame.thy ===== *)
theory WebRtcFrame
  imports WebRtcInvariantProofs
begin

text \<open>
  What an event of the WebRTC server leaves alone: session numbers, the running flag, the watchdog's
  deadline and the stream of remote candidates.
\<close>

section \<open>The candidate stream\<close>

text \<open>What was given to a webrtcbin, followed by what waits for the current one.\<close>

definition candidateStream :: "'j json_ops \<Rightarrow> 'j WebRtcServer \<Rightarrow> (gobj \<times> u32 \<times> string) list" where
  "candidateStream js s =
     wsIceAdded s @ map (iceEntry js (the (phWebrtcbin (wsHandles s)))) (wsPendingRemoteIce s)"

definition rtc_frame :: "'j json_ops \<Rightarrow> int \<Rightarrow> 'j WebRtcServer \<Rightarrow> 'j WebRtcServer \<Rightarrow> bool" where
  "rtc_frame js now s s' \<longleftrightarrow>
     wsNextSessionId s' = wsNextSessionId s \<and> wsRunning s' = wsRunning s
     \<and> wsDirectIpv4Link s' = wsDirectIpv4Link s
     \<and> (wsWatchdogArmed s' \<longrightarrow>
          wsWatchdogArmed s \<and> wsWatchdogDeadline s' = wsWatchdogDeadline s
          \<or> wsWatchdogDeadline s' = now + kNegotiationWatchdogTimeout)
     \<and> (wsActiveSessionId s' = 0
        \<or> wsActiveSessionId s' = wsActiveSessionId s \<and> wsHandles s' = wsHandles s
          \<and> candidateStream js s' = candidateStream js s)"

lemma rtc_frame_refl [simp]: "rtc_frame js now s s"
  by (simp add: rtc_frame_def)

lemma rtc_frame_trans:
  "rtc_frame js now s s1 \<Longrightarrow> rtc_frame js now s1 s2 \<Longrightarrow> rtc_frame js now s s2"
  by (auto simp: rtc_frame_def)

text \<open>Updates of other members.\<close>

lemma rtc_frame_updates [simp]:
  "rtc_frame js now s (s\<lparr>wsRefs := a\<rparr>)" "rtc_frame js now s (s\<lparr>wsTasks := b\<rparr>)"
  "rtc_frame js now s (s\<lparr>wsPoses := c\<rparr>)" "rtc_frame js now s (s\<lparr>wsPosted := d\<rparr>)"
  "rtc_frame js now s (s\<lparr>wsControlSent := e\<rparr>)" "rtc_frame js now s (s\<lparr>wsPushed := f\<rparr>)"
  "rtc_frame js now s (s\<lparr>wsVideoPushEnabled := g\<rparr>)" "rtc_frame js now s (s\<lparr>wsLocalOfferSent := h\<rparr>)"
  "rtc_frame js now s (s\<lparr>wsWarnedFrameShapeMismatch := i\<rparr>)" "rtc_frame js now s (s\<lparr>wsMediaPipelineStarted := k\<rparr>)"
  "rtc_frame js now s (s\<lparr>wsRemoteDescriptionApplied := l\<rparr>)" "rtc_frame js now s (s\<lparr>wsLocalMediaMids := m\<rparr>)"
  "rtc_frame js now s (s\<lparr>wsLocalVideoMid := n\<rparr>)" "rtc_frame js now s (s\<lparr>wsCloseRequests := p\<rparr>)"
  "rtc_frame js now s (addTasks ts s)"
  by (simp_all add: rtc_frame_def candidateStream_def addTasks_def)

lemma rtc_frame_watchdog [simp]:
  "rtc_frame js now s (armNegotiationWatchdogLocked now sid stage s)"
  "rtc_frame js now s (clearNegotiationWatchdogLocked sid s)"
  by (simp_all add: rtc_frame_def candidateStream_def armNegotiationWatchdogLocked_def
      clearNegotiationWatchdogLocked_def)

lemma rtc_frame_withRefs: "withRefs f s = Some s' \<Longrightarrow> rtc_frame js now s s'"
  by (auto simp: withRefs_def)

lemma rtc_frame_tearDown:
  assumes "tearDownPipeline ops s = Some s'"
  shows "rtc_frame js now s s'"
  using assms
  by (auto simp: tearDownPipeline_def withRefs_def Let_def rtc_frame_def bind_eq_Some_conv split: if_splits)

lemma rtc_frame_then:
  "rtc_frame js now s1 s2 \<Longrightarrow> rtc_frame js now s s1 \<Longrightarrow> rtc_frame js now s s2"
  using rtc_frame_trans by blast

section \<open>Operations\<close>

lemma createLocalOffer_frame: "rtc_frame js now s (createLocalOffer ops sid s)"
  by (auto simp: createLocalOffer_def Let_def rtc_frame_def candidateStream_def addTasks_def split: option.split)

lemma setLocal_frame:
  assumes "setLocalDescriptionAndSendOffer ops now offer b sid s = Some s'"
  shows "rtc_frame js now s s'"
  using assms
  by (auto simp: setLocalDescriptionAndSendOffer_def Let_def addTasks_def rtc_frame_def candidateStream_def
      armNegotiationWatchdogLocked_def withRefs_def split: option.splits if_splits)

lemma onOfferCreated_frame:
  assumes "onOfferCreated ops now offer p b sid s = Some s'"
  shows "rtc_frame js now s s'"
proof -
  obtain s1 s2 where s1: "withRefs (unref p) (s\<lparr>wsRefs := own (map_option ofDescription offer) (wsRefs s)\<rparr>) = Some s1"
    and s2: "(case offer of
        None \<Rightarrow> if isCurrentSessionLocked sid (Some b) s1 then tearDownPipeline ops s1 else Some s1
      | Some of' \<Rightarrow> setLocalDescriptionAndSendOffer ops now of' b sid s1) = Some s2"
    and s': "withRefs (unref b) s2 = Some s'"
    using assms by (auto simp: onOfferCreated_def bind_eq_Some_conv)
  have "rtc_frame js now s1 s2"
    using s2 rtc_frame_tearDown setLocal_frame by (fastforce split: option.splits if_splits)
  with rtc_frame_trans [OF rtc_frame_updates(1) rtc_frame_withRefs [OF s1]] show ?thesis
    using rtc_frame_withRefs [OF s'] by (rule rtc_frame_trans [OF rtc_frame_trans])
qed

lemma onLocalDescriptionSet_frame:
  assumes "onLocalDescriptionSet js' ops now replied p b pipe d sid txt reply s = Some s'"
  shows "rtc_frame js now s s'"
proof -
  obtain s1 s2 s3 s4 where st: "withRefs (unref p) s = Some s1" "withRefs (unref d) s2 = Some s3"
      "withRefs (unref pipe) s3 = Some s4" "withRefs (unref b) s4 = Some s'"
    and s2: "(if \<not> replied then
             (if isCurrentSessionLocked sid (Some b) s1 then tearDownPipeline ops s1 else Some s1)
           else
             let sessionStillActive = (isCurrentSessionLocked sid (Some b) s1
                                       \<and> phPipeline (wsHandles s1) = Some pipe) in
             if \<not> sessionStillActive then Some s1
             else
               let s = armNegotiationWatchdogLocked now sid ''remote answer'' (s1\<lparr>wsLocalOfferSent := True\<rparr>)
               in Some (case reply of
                    None \<Rightarrow> s
                  | Some hdl \<Rightarrow> s\<lparr>wsPosted := wsPosted s @ [makeSendFunc hdl (offerMessage js' txt)]\<rparr>)) = Some s2"
    using assms by (auto simp: onLocalDescriptionSet_def bind_eq_Some_conv)
  have "rtc_frame js now s1 s2"
  proof (cases replied)
    case True
    let ?s2 = "armNegotiationWatchdogLocked now sid ''remote answer'' (s1\<lparr>wsLocalOfferSent := True\<rparr>)"
    have "rtc_frame js now s1 ?s2" by (rule rtc_frame_trans [OF rtc_frame_updates(8) rtc_frame_watchdog(1)])
    moreover from this have "rtc_frame js now s1 (?s2\<lparr>wsPosted := ps\<rparr>)" for ps
      by (rule rtc_frame_trans) simp
    ultimately show ?thesis using s2 True by (auto simp: Let_def split: option.splits if_splits)
  next
    case False
    then show ?thesis using s2 rtc_frame_tearDown by (auto split: if_splits)
  qed
  from rtc_frame_trans [OF rtc_frame_withRefs [OF st(1)] this]
  have "rtc_frame js now s s2" .
  from rtc_frame_trans [OF this rtc_frame_withRefs [OF st(2)]]
  have "rtc_frame js now s s3" .
  from rtc_frame_trans [OF this rtc_frame_withRefs [OF st(3)]]
  have "rtc_frame js now s s4" .
  from rtc_frame_trans [OF this rtc_frame_withRefs [OF st(4)]]
  show ?thesis .
qed

lemma applyRemoteDescription_frame:
  assumes "applyRemoteDescription ops sdp sid s = Some s'"
  shows "rtc_frame js now s s'"
  using assms
  by (auto simp: applyRemoteDescription_def Let_def withRefs_def addTasks_def rtc_frame_def candidateStream_def
      bind_eq_Some_conv split: option.splits if_splits)

lemma onRemoteAnswerApplied_frame:
  assumes "onRemoteAnswerApplied js ops replied p b sid s = Some s'" "rtc_inv js x s"
  shows "rtc_frame js now s s'"
proof -
  obtain s1 s2 where st: "withRefs (unref p) s = Some s1" "withRefs (unref b) s2 = Some s'"
    and s2: "(if \<not> isCurrentSessionLocked sid (Some b) s1 \<or> phPipeline (wsHandles s1) = None then Some s1
           else if \<not> replied then tearDownPipeline ops s1
           else do {
             let s = s1\<lparr>wsRemoteDescriptionApplied := True\<rparr>;
             let s = clearNegotiationWatchdogLocked sid s;
             s \<leftarrow> flushPendingRemoteIceLocked js b s;
             let (s, started) = startMediaPipelineLocked ops s;
             if \<not> started then tearDownPipeline ops s else Some s
           }) = Some s2"
    using assms(1) by (auto simp: onRemoteAnswerApplied_def bind_eq_Some_conv)
  have s1: "s1 = s\<lparr>wsRefs := wsRefs s1\<rparr>" using st(1) by (auto simp: withRefs_def)
  have "rtc_frame js now s1 s2"
  proof (cases "\<not> isCurrentSessionLocked sid (Some b) s1 \<or> phPipeline (wsHandles s1) = None \<or> \<not> replied")
    case True
    then show ?thesis using s2 rtc_frame_tearDown by (auto split: if_splits)
  next
    case False
    then have b: "phWebrtcbin (wsHandles s1) = Some b" using current_session by blast
    let ?t1 = "clearNegotiationWatchdogLocked sid (s1\<lparr>wsRemoteDescriptionApplied := True\<rparr>)"
    obtain t2 t3 started where t: "flushPendingRemoteIceLocked js b ?t1 = Some t2"
      "startMediaPipelineLocked ops t2 = (t3, started)"
      "(if \<not> started then tearDownPipeline ops t3 else Some t3) = Some s2"
    proof -
      from s2 False obtain t2 where f: "flushPendingRemoteIceLocked js b ?t1 = Some t2"
        by (auto simp: bind_eq_Some_conv Let_def)
      obtain t3 started where "startMediaPipelineLocked ops t2 = (t3, started)" by fastforce
      with f show thesis using s2 False that by (auto simp: Let_def)
    qed
    have keeps: "wsPendingRemoteIce ?t1 = wsPendingRemoteIce s" "wsDirectIpv4Link ?t1 = wsDirectIpv4Link s"
      "wsHandles ?t1 = wsHandles s1"
      by (subst s1, simp add: clearNegotiationWatchdogLocked_def)+
    have "list_all (candidate_ok js (wsDirectIpv4Link s)) (wsPendingRemoteIce s)"
      using assms(2) by (simp add: rtc_inv_def rtc_progress_def)
    from flushCandidates_all [OF this, of b ?t1] t(1)
    have t2: "t2 = ?t1\<lparr>wsIceAdded := wsIceAdded ?t1 @ map (iceEntry js b) (wsPendingRemoteIce ?t1), wsPendingRemoteIce := []\<rparr>"
      by (simp add: flushPendingRemoteIceLocked_def keeps)
    have "rtc_frame js now ?t1 t2"
      by (simp add: t2 rtc_frame_def candidateStream_def keeps b)
    moreover have "rtc_frame js now t2 t3"
      using t(2) by (auto simp: startMediaPipelineLocked_def split: if_splits option.splits)
    moreover have "rtc_frame js now t3 s2"
      using t(3) rtc_frame_tearDown by (auto split: if_splits)
    moreover have "rtc_frame js now s1 ?t1"
      using rtc_frame_trans rtc_frame_updates(11) rtc_frame_watchdog(2) by blast
    ultimately show ?thesis using rtc_frame_trans by blast
  qed
  then show ?thesis using st rtc_frame_trans rtc_frame_withRefs by blast
qed

lemma onAnswer_frame: "rtc_frame js now s (onAnswer now sdp s)"
proof -
  have "rtc_frame js now s (addTasks ts (armNegotiationWatchdogLocked now sid stage s))" for ts sid stage
    by (rule rtc_frame_trans [OF rtc_frame_watchdog(1) [where sid = sid and stage = stage]]) simp
  then show ?thesis by (simp add: onAnswer_def Let_def)
qed

lemma handlers_frame:
  "rtc_frame js now s (onLocalIceTrampoline js' b i c s)" "rtc_frame js now s (onWebRtcStateNotifyTrampoline b n s)"
  "rtc_frame js now s (onChannelOpenTrampoline js' ch s)" "rtc_frame js now s (onMessageStringTrampoline js' ch str s)"
  by (auto simp: onLocalIceTrampoline_def onWebRtcStateNotifyTrampoline_def onChannelOpenTrampoline_def
      onMessageStringTrampoline_def Let_def split: option.split rtc_notify.split)

lemma pumpVideo_frame: "rtc_frame js now s (pumpVideo t s)"
proof -
  have closing: "rtc_frame js now s ((clearNegotiationWatchdogLocked i s)\<lparr>wsCloseRequests := c\<rparr>)" for i c
    by (rule rtc_frame_trans [OF rtc_frame_watchdog(2) [where sid = i]]) simp
  have pushing: "rtc_frame js now s (addTasks ts (s\<lparr>wsRefs := r\<rparr>))" for ts r
    by (rule rtc_frame_trans [OF rtc_frame_updates(1) [where a = r]]) simp
  show ?thesis
    by (simp add: pumpVideo_def checkNegotiationWatchdogLocked_def closing pushing split: option.split)
qed

lemma pushLatestOutput_frame:
  assumes "pushLatestOutput latest a s = Some s'"
  shows "rtc_frame js now s s'"
proof -
  obtain s1 where s1: "(case latest of None \<Rightarrow> Some s | Some output \<Rightarrow> pushRenderOutput a output s) = Some s1"
    and s': "withRefs (unref a) s1 = Some s'"
    using assms by (auto simp: pushLatestOutput_def bind_eq_Some_conv)
  have "rtc_frame js now s s1"
    using s1 by (auto simp: pushRenderOutput_def pushBuffer_def split: option.splits if_splits)
  then show ?thesis using rtc_frame_withRefs [OF s'] by (rule rtc_frame_trans)
qed

lemma runTask_frame:
  assumes "runTask js ans t s = Some s'" "rtc_inv js x s"
  shows "rtc_frame js (taNow ans) s s'"
proof (cases t)
  case (CreateLocalOffer sid)
  then show ?thesis using assms(1) createLocalOffer_frame by (auto simp: runTask_def)
next
  case (OnOfferCreated p b sid)
  then show ?thesis using assms(1) by (intro onOfferCreated_frame) (simp add: runTask_def)
next
  case (OnLocalDescriptionSet p b pipe d sid sdp reply)
  then show ?thesis using assms(1) by (intro onLocalDescriptionSet_frame) (simp add: runTask_def)
next
  case (ApplyRemoteDescription sid sdp)
  then show ?thesis using assms(1) by (intro applyRemoteDescription_frame) (simp add: runTask_def)
next
  case (OnRemoteAnswerApplied p b sid)
  then show ?thesis using assms by (intro onRemoteAnswerApplied_frame) (auto simp: runTask_def)
next
  case (PushLatestOutput a)
  then show ?thesis using assms(1) by (intro pushLatestOutput_frame) (simp add: runTask_def)
qed (use assms(1) in \<open>auto simp: runTask_def setVideoPushEnabled_def sendControlText_def applyPoseUpdate_def
  split: option.splits\<close>)

section \<open>Events\<close>

text \<open>The candidates that an event adds to the stream, and the time it happens at.\<close>

fun ice_entries :: "'j json_ops \<Rightarrow> DirectIpv4Link option \<Rightarrow> gobj option \<Rightarrow> 'j rtc_event \<Rightarrow> (gobj \<times> u32 \<times> string) list" where
  "ice_entries js link (Some b) (RtcIce j) = (if candidate_ok js link j then [iceEntry js b j] else [])"
| "ice_entries js link b ev = []"

fun event_time :: "'j rtc_event \<Rightarrow> int option" where
  "event_time (RtcClientConnected ops now env reply) = Some now"
| "event_time (RtcAnswer now sdp) = Some now"
| "event_time (RtcTask n ans) = Some (taNow ans)"
| "event_time _ = None"

lemma onIce_result:
  "(case onIceFromClient js j s of None \<Rightarrow> s | Some s' \<Rightarrow> s') =
     (case phWebrtcbin (wsHandles s) of
        None \<Rightarrow> s
      | Some b \<Rightarrow>
          if \<not> candidate_ok js (wsDirectIpv4Link s) j then s
          else if wsRemoteDescriptionApplied s then s\<lparr>wsIceAdded := wsIceAdded s @ [iceEntry js b j]\<rparr>
          else s\<lparr>wsPendingRemoteIce := wsPendingRemoteIce s @ [j]\<rparr>)"
  by (auto simp: onIceFromClient_def candidate_ok_def iceEntry_def addIceCandidateLocked_def split: option.splits)

definition rtc_step_frame :: "'j json_ops \<Rightarrow> 'j rtc_event \<Rightarrow> 'j WebRtcServer \<Rightarrow> 'j WebRtcServer \<Rightarrow> bool" where
  "rtc_step_frame js ev s s' \<longleftrightarrow>
     wsNextSessionId s \<le> wsNextSessionId s' \<and> wsRunning s' = wsRunning s
     \<and> wsDirectIpv4Link s' = wsDirectIpv4Link s
     \<and> (wsWatchdogArmed s' \<longrightarrow>
          wsWatchdogArmed s \<and> wsWatchdogDeadline s' = wsWatchdogDeadline s
          \<or> (\<exists>now. event_time ev = Some now \<and> wsWatchdogDeadline s' = now + kNegotiationWatchdogTimeout))
     \<and> (wsActiveSessionId s' = 0 \<or> wsActiveSessionId s' = wsNextSessionId s
        \<or> wsActiveSessionId s' = wsActiveSessionId s \<and> wsHandles s' = wsHandles s
          \<and> candidateStream js s' = candidateStream js s
              @ ice_entries js (wsDirectIpv4Link s) (phWebrtcbin (wsHandles s)) ev)"

lemma rtc_step_frameI:
  assumes "\<And>now. rtc_frame js now s s'" "ice_entries js (wsDirectIpv4Link s) (phWebrtcbin (wsHandles s)) ev = []"
  shows "rtc_step_frame js ev s s'"
proof -
  have "wsWatchdogArmed s' \<Longrightarrow> wsWatchdogArmed s \<and> wsWatchdogDeadline s' = wsWatchdogDeadline s"
    using assms(1) [of "wsWatchdogDeadline s'"] by (simp add: rtc_frame_def kNegotiationWatchdogTimeout_def)
  then show ?thesis using assms(1) [of 0] assms(2) by (auto simp: rtc_step_frame_def rtc_frame_def)
qed

lemma rtc_step_frame_timed:
  assumes "rtc_frame js now s s'" "event_time ev = Some now"
    "ice_entries js (wsDirectIpv4Link s) (phWebrtcbin (wsHandles s)) ev = []"
  shows "rtc_step_frame js ev s s'"
  using assms by (auto simp: rtc_step_frame_def rtc_frame_def)

lemma clientConnected_frame:
  assumes "rtc_inv js {#} s" "wsNextSessionId s \<noteq> - 1" "clientConnected ops now env reply s = Some s'"
  shows "rtc_step_frame js (RtcClientConnected ops now env reply) s s'"
proof -
  let ?s0 = "s\<lparr>wsPoses := fst (resetRelativeBaseline (wsPoses s))\<rparr>"
  have base: "rtc_base {#} ?s0" using assms(1) by (simp add: rtc_inv_def rtc_base_def rtc_fresh_def members_held_def)
  have n: "wsNextSessionId ?s0 \<noteq> - 1" "wsNextSessionId s \<le> wsNextSessionId s + 1"
    using assms(2) order.strict_implies_order [OF u64_less_Suc(1) [OF assms(2)]] by simp_all
  have pos: "wsNextSessionId s \<noteq> 0" using rtc_inv_session [OF assms(1)] u64_zero_less by fastforce
  show ?thesis
    by (cases rule: connect_cases [OF base n(1), of ops now env reply])
      (use assms(3) n(2) pos in \<open>auto simp: clientConnected_def rtc_step_frame_def torn_def addTasks_def
        connected_state_def armNegotiationWatchdogLocked_def\<close>)
qed

lemma rtc_step_framed:
  assumes "rtc_inv js {#} s" "event_ok ev s" "rtc_step js ev s = Some s'"
  shows "rtc_step_frame js ev s s'"
proof (cases ev)
  case (RtcClientConnected ops now env reply)
  then show ?thesis using assms by (auto simp: rtc_step_def event_ok_def intro: clientConnected_frame)
next
  case (RtcTask n ans)
  show ?thesis
  proof (cases "n < length (wsTasks s)")
    case True
    let ?s1 = "s\<lparr>wsTasks := take n (wsTasks s) @ drop (n + 1) (wsTasks s)\<rparr>"
    have "runTask js ans (wsTasks s ! n) ?s1 = Some s'" using assms(3) True RtcTask by (simp add: rtc_step_def)
    from runTask_frame [OF this rtc_inv_takeTask [OF assms(1) True]]
    have "rtc_frame js (taNow ans) s s'" by (rule rtc_frame_trans [OF rtc_frame_updates(2)])
    then show ?thesis by (rule rtc_step_frame_timed) (simp_all add: RtcTask)
  next
    case False
    then have "s' = s" using assms(3) RtcTask by (simp add: rtc_step_def)
    then show ?thesis by (intro rtc_step_frameI) (simp_all add: RtcTask)
  qed
next
  case (RtcIce j)
  then have "s' = (case onIceFromClient js j s of None \<Rightarrow> s | Some s' \<Rightarrow> s')"
    using assms(3) by (auto simp: rtc_step_def split: option.splits)
  moreover have "wsRemoteDescriptionApplied s \<Longrightarrow> wsPendingRemoteIce s = []"
    using assms(1) by (simp add: rtc_inv_def rtc_progress_def)
  ultimately show ?thesis
    by (simp add: onIce_result rtc_step_frame_def candidateStream_def RtcIce split: option.split)
next
  case (RtcAnswer now sdp)
  then show ?thesis using assms(3) onAnswer_frame
    by (intro rtc_step_frame_timed [where now = now]) (auto simp: rtc_step_def)
next
  case (RtcClientDisconnected ops)
  then show ?thesis using assms(3) by (intro rtc_step_frameI) (simp_all add: rtc_step_def rtc_frame_tearDown)
qed (use assms(3) handlers_frame pumpVideo_frame in \<open>auto simp: rtc_step_def intro!: rtc_step_frameI\<close>)

end
