(* ===== verification/WebRtcProperties.thy ===== *)
theory WebRtcProperties
  imports WebRtcFrame
begin

text \<open>
  What holds in every reachable state of the WebRTC server: references, the order of the negotiation,
  stale sessions, remote candidates and the watchdog.
\<close>

section \<open>Reachable states\<close>

text \<open>No event up to now has happened later than \<open>T\<close>.\<close>

inductive rtc_reach :: "'j json_ops \<Rightarrow> int \<Rightarrow> 'j WebRtcServer \<Rightarrow> bool" for js where
  start: "rtc_reach js T (snd (WebRtcServer_start listens (None, WebRtcServer_new config imageSize env poses)))"
| event: "rtc_reach js T s \<Longrightarrow> event_ok ev s \<Longrightarrow> rtc_step js ev s = Some s' \<Longrightarrow> T \<le> T' \<Longrightarrow>
    (\<forall>now. event_time ev = Some now \<longrightarrow> now \<le> T') \<Longrightarrow> rtc_reach js T' s'"
| stop: "rtc_reach js T s \<Longrightarrow> WebRtcServer_stop ops (sig, s) = Some (sig', s') \<Longrightarrow> rtc_reach js T s'"
| restart: "rtc_reach js T s \<Longrightarrow> rtc_reach js T (snd (WebRtcServer_start listens (sig, s)))"

definition watchdog_by :: "int \<Rightarrow> 'j WebRtcServer \<Rightarrow> bool" where
  "watchdog_by T s \<longleftrightarrow> (wsWatchdogArmed s \<longrightarrow> wsWatchdogDeadline s \<le> T + kNegotiationWatchdogTimeout)"

lemma rtc_start_snd: "snd (WebRtcServer_start listens (sig, s)) = s\<lparr>wsRunning := True\<rparr>"
  by (simp add: WebRtcServer_start_def Let_def)

lemma rtc_stop_cases:
  fixes ops :: gst_ops
  assumes "rtc_inv js {#} s" "WebRtcServer_stop ops (sig, s) = Some (sig', s')"
  shows "rtc_inv js {#} s' \<and> (s' = s \<or> \<not> wsWatchdogArmed s')"
proof (cases "wsRunning s")
  case True
  let ?s = "s\<lparr>wsRunning := False\<rparr>"
  have "rtc_base {#} ?s" using rtc_inv_parts(1) [OF assms(1)] by (simp add: rtc_base_def rtc_fresh_def members_held_def)
  from tear_down_inv(1) [OF this, of ops] tear_down_inv(2) [OF this, of js] show ?thesis
    using assms(2) True by (auto simp: WebRtcServer_stop_def torn_def)
next
  case False
  then show ?thesis using assms by (simp add: WebRtcServer_stop_def)
qed

lemma rtc_reach_inv: "rtc_reach js T s \<Longrightarrow> rtc_inv js {#} s \<and> watchdog_by T s"
proof (induction rule: rtc_reach.induct)
  case start
  show ?case
    by (intro conjI) (simp_all only: rtc_start_snd rtc_inv_outside rtc_inv_new, simp add: watchdog_by_def WebRtcServer_new_def)
next
  case (event T s ev s' T')
  then have "rtc_inv js {#} s'" using rtc_step_inv by fastforce
  moreover have "rtc_step_frame js ev s s'" using event rtc_step_framed by blast
  ultimately show ?case using event by (auto simp: watchdog_by_def rtc_step_frame_def)
next
  case (stop T s ops sig sig' s')
  then show ?case using rtc_stop_cases [of js s ops sig sig' s'] by (auto simp: watchdog_by_def)
next
  case restart
  then show ?case by (simp add: rtc_start_snd watchdog_by_def)
qed

section \<open>A sample negotiation\<close>

definition sample_gst :: gst_ops where
  "sample_gst =
     \<lparr>gstParseLaunch = (\<lambda>_. (Some 10, False)),
      gstBinGetByName = (\<lambda>_ name. Some (if name = ''sendrecv'' then 11 else if name = ''src_video'' then 12 else 13)),
      gstElementSetState = (\<lambda>_ _. True), gstElementGetBus = (\<lambda>_. Some 14),
      gstRequestPad = (\<lambda>_ _. Some 15), gstPadTransceiver = (\<lambda>_. Some 16), gstMLineIndex = (\<lambda>_. 0),
      gstCapsFromString = (\<lambda>_. Some 17), gstPadIsLinked = (\<lambda>_. False),
      gstGetStaticPad = (\<lambda>_ _. Some 18), gstPadLink = (\<lambda>_ _. True),
      gstCreateDataChannel = (\<lambda>_ _. Some 19), gstPromiseNew = 20,
      gstSdpMessageParse = (\<lambda>_. Some 21), gstSessionDescription = (\<lambda>_. Some 22)\<rparr>"

definition sample_answer :: task_answer where
  "sample_answer =
     \<lparr>taOps = sample_gst, taNow = 100, taReplied = True,
      taOffer = Some \<lparr>ofDescription = 23, ofMedias = Some [Some (Some ''video'', Some ''video0'')], ofText = Some ''v=0''\<rparr>,
      taLatest = None\<rparr>"

definition sample_server :: "sjson WebRtcServer" where
  "sample_server = snd (WebRtcServer_start True (None,
     WebRtcServer_new (streamWebrtc defaultStreamingConfig) \<lparr>imgWidth = 2, imgHeight = 2\<rparr> None ViewerPoseStore_new))"

definition sample_candidate :: "string \<Rightarrow> sjson" where
  "sample_candidate c =
     SObject [(''type'', SString ''ice''), (''candidate'', SString c), (''sdpMLineIndex'', SInt 0)]"

definition sample_connect :: "sjson rtc_event" where
  "sample_connect = RtcClientConnected sample_gst 100 None 3"

text \<open>The offer is created and sent, then two candidates and the answer arrive and a third candidate.\<close>

definition sample_negotiation :: "sjson rtc_event list" where
  "sample_negotiation =
     [RtcTask 0 sample_answer, RtcTask 0 sample_answer, RtcTask 0 sample_answer,
      RtcIce (sample_candidate ''c1''), RtcIce (sample_candidate ''c2''), RtcAnswer 100 ''v=0'',
      RtcTask 0 sample_answer, RtcTask 0 sample_answer, RtcIce (sample_candidate ''c3'')]"

fun events_ok :: "'j json_ops \<Rightarrow> 'j rtc_event list \<Rightarrow> 'j WebRtcServer \<Rightarrow> bool" where
  "events_ok js [] s = True"
| "events_ok js (ev # evs) s =
     (event_ok ev s \<and> (case rtc_step js ev s of None \<Rightarrow> False | Some s' \<Rightarrow> events_ok js evs s'))"

lemma rtc_reach_run:
  assumes "rtc_reach js T s" "events_ok js evs s" "rtc_run js evs s = Some s'"
    "list_all (\<lambda>ev. case event_time ev of None \<Rightarrow> True | Some now \<Rightarrow> now \<le> T) evs"
  shows "rtc_reach js T s'"
  using assms
proof (induction evs arbitrary: s)
  case (Cons ev evs)
  then obtain s1 where s1: "rtc_step js ev s = Some s1" "event_ok ev s" "events_ok js evs s1" "rtc_run js evs s1 = Some s'"
    by (auto split: option.splits)
  have "rtc_reach js T s1"
    using rtc_reach.event [OF Cons.prems(1) s1(2,1)] Cons.prems(4) by (auto split: option.splits)
  then show ?case using Cons.IH s1 Cons.prems(4) by simp
qed simp

definition sample_state :: "nat \<Rightarrow> sjson WebRtcServer" where
  "sample_state n = the (rtc_run sample_json (take n (sample_connect # sample_negotiation)) sample_server)"

lemma sample_runs: "events_ok sample_json (sample_connect # sample_negotiation) sample_server"
  by code_simp

lemma sample_reach: "rtc_reach sample_json 100 (sample_state n)"
proof -
  let ?evs = "sample_connect # sample_negotiation"
  have start: "rtc_reach sample_json 100 sample_server" unfolding sample_server_def by (rule rtc_reach.start)
  have prefix: "events_ok js (take n evs) s \<and> rtc_run js (take n evs) s \<noteq> None" if "events_ok js evs s"
    for js :: "sjson json_ops" and evs s n
    using that by (induction evs arbitrary: s n) (auto simp: take_Cons' split: option.splits)
  have "list_all (\<lambda>ev. case event_time ev of None \<Rightarrow> True | Some now \<Rightarrow> now \<le> 100) ?evs" by code_simp
  then have "list_all (\<lambda>ev. case event_time ev of None \<Rightarrow> True | Some now \<Rightarrow> now \<le> 100) (take n ?evs)"
    by (meson list_all_iff in_set_takeD)
  from rtc_reach_run [OF start _ _ this] prefix [OF sample_runs, of n] show ?thesis
    by (auto simp: sample_state_def)
qed

section \<open>References\<close>



section \<open>The order of a negotiation\<close>



section \<open>Callbacks of an older session\<close>

lemma setLocal_stale:
  "\<not> isCurrentSessionLocked sid (Some b) s \<Longrightarrow>
     setLocalDescriptionAndSendOffer ops now offer b sid s = withRefs (unref (ofDescription offer)) s"
  by (simp add: setLocalDescriptionAndSendOffer_def split: option.split)

lemma stale_runTask:
  assumes "task_session t = Some sid" "sid \<noteq> wsActiveSessionId s" "runTask js ans t s = Some s'"
  shows "\<exists>r. s' = s\<lparr>wsRefs := r\<rparr>"
proof -
  have not_current: "\<not> isCurrentSessionLocked sid b (s\<lparr>wsRefs := r\<rparr>)" "\<not> isCurrentSessionLocked sid b s" for b r
    using assms(2) by (simp_all add: isCurrentSessionLocked_def)
  have same: "\<exists>r. s = s\<lparr>wsRefs := r\<rparr>" by (rule exI [of _ "wsRefs s"]) simp
  show ?thesis
  proof (cases t)
    case (CreateLocalOffer i)
    then have "s' = s" using assms not_current by (auto simp: runTask_def createLocalOffer_def split: option.splits)
    then show ?thesis using same by blast
  next
    case (OnOfferCreated p b i)
    then show ?thesis using assms not_current
      by (intro exI [of _ "wsRefs s'"], cases "taOffer ans")
        (auto simp: runTask_def onOfferCreated_def setLocal_stale withRefs_def bind_eq_Some_conv)
  next
    case (OnLocalDescriptionSet p b pipe d i sdp reply)
    then show ?thesis using assms not_current
      by (intro exI [of _ "wsRefs s'"], cases "taReplied ans")
        (auto simp: runTask_def onLocalDescriptionSet_def withRefs_def bind_eq_Some_conv)
  next
    case (ApplyRemoteDescription i sdp)
    then have "s' = s" using assms not_current by (auto simp: runTask_def applyRemoteDescription_def split: option.splits)
    then show ?thesis using same by blast
  next
    case (OnRemoteAnswerApplied p b i)
    then show ?thesis using assms not_current
      by (intro exI [of _ "wsRefs s'"]) (auto simp: runTask_def onRemoteAnswerApplied_def withRefs_def bind_eq_Some_conv)
  qed (use assms in simp_all)
qed

text \<open>C16: A callback of a session that is no longer the active one, however late it runs, only gives
  back the references it holds: the state of the session that has taken its place, the candidates and
  what the clients are sent stay as they are.\<close>

theorem stale_callback_is_inert:
  assumes "rtc_reach js T s" "n < length (wsTasks s)" "event_ok (RtcTask n ans) s"
    "task_session (wsTasks s ! n) = Some sid" "sid \<noteq> wsActiveSessionId s"
  shows "\<exists>refs. rtc_step js (RtcTask n ans) s =
      Some (s\<lparr>wsTasks := take n (wsTasks s) @ drop (n + 1) (wsTasks s), wsRefs := refs\<rparr>)
    \<and> wsRefs s = task_refs (wsTasks s ! n) + refs"
proof -
  note inv = conjunct1 [OF rtc_reach_inv [OF assms(1)]]
  let ?s1 = "s\<lparr>wsTasks := take n (wsTasks s) @ drop (n + 1) (wsTasks s)\<rparr>"
  obtain s' where s': "rtc_step js (RtcTask n ans) s = Some s'" "rtc_inv js {#} s'"
    using rtc_step_inv [OF inv assms(3)] by blast
  have run: "runTask js ans (wsTasks s ! n) ?s1 = Some s'" using s'(1) assms(2) by (simp add: rtc_step_def)
  have "\<exists>r. s' = ?s1\<lparr>wsRefs := r\<rparr>" by (rule stale_runTask [OF assms(4) _ run]) (simp add: assms(5))
  then obtain refs where refs: "s' = ?s1\<lparr>wsRefs := refs\<rparr>" ..
  have "wsRefs s = task_refs (wsTasks s ! n) + refs"
    using rtc_inv_parts(7) [OF s'(2)] rtc_inv_parts(7) [OF rtc_inv_takeTask [OF inv assms(2)]]
    by (simp add: refs members_held_def ac_simps)
  then show ?thesis using s'(1) refs by auto
qed

definition sample_reconnected :: "sjson WebRtcServer" where
  "sample_reconnected = the (rtc_step sample_json sample_connect (sample_state 2))"

lemma sample_reconnected_reach: "rtc_reach sample_json 100 sample_reconnected"
proof -
  have ok: "event_ok sample_connect (sample_state 2)" "rtc_step sample_json sample_connect (sample_state 2) \<noteq> None"
    by code_simp+
  show ?thesis
    by (rule rtc_reach.event [OF sample_reach [of 2] ok(1)])
      (use ok(2) in \<open>auto simp: sample_reconnected_def sample_connect_def\<close>)
qed

theorem stale_callback_is_inert_witness:
  "wsActiveSessionId sample_reconnected = 2
   \<and> (\<exists>refs. rtc_step sample_json (RtcTask 0 sample_answer) sample_reconnected =
        Some (sample_reconnected\<lparr>wsTasks := take 0 (wsTasks sample_reconnected) @ drop (0 + 1) (wsTasks sample_reconnected),
               wsRefs := refs\<rparr>)
      \<and> wsRefs sample_reconnected = task_refs (wsTasks sample_reconnected ! 0) + refs)"
proof -
  have st: "0 < length (wsTasks sample_reconnected)" "task_session (wsTasks sample_reconnected ! 0) = Some 1"
    "wsActiveSessionId sample_reconnected = 2" "event_ok (RtcTask 0 sample_answer) sample_reconnected"
    by code_simp+
  have "(1 :: u64) \<noteq> wsActiveSessionId sample_reconnected" by (simp add: st(3))
  from stale_callback_is_inert [OF sample_reconnected_reach st(1,4,2) this] st(3) show ?thesis by blast
qed

section \<open>Remote candidates\<close>

lemma events_ok_stream:
  assumes "rtc_inv js {#} s0" "events_ok js evs s0" "rtc_run js evs s0 = Some s"
    "sid \<noteq> 0" "wsActiveSessionId s = sid" "wsActiveSessionId s0 = sid \<or> sid < wsNextSessionId s0"
  shows "wsActiveSessionId s0 = sid \<and> wsHandles s = wsHandles s0 \<and> wsDirectIpv4Link s = wsDirectIpv4Link s0
    \<and> candidateStream js s = candidateStream js s0
        @ concat (map (ice_entries js (wsDirectIpv4Link s0) (phWebrtcbin (wsHandles s0))) evs)
    \<and> rtc_inv js {#} s"
  using assms
proof (induction evs arbitrary: s0)
  case (Cons ev evs)
  then obtain s1 where s1: "rtc_step js ev s0 = Some s1" "event_ok ev s0" "events_ok js evs s1" "rtc_run js evs s1 = Some s"
    by (auto split: option.splits)
  have inv: "rtc_inv js {#} s1" using rtc_step_inv [OF Cons.prems(1) s1(2)] s1(1) by auto
  have less: "sid < wsNextSessionId s0" using Cons.prems(6) rtc_inv_session [OF Cons.prems(1)] by blast
  have frame: "rtc_step_frame js ev s0 s1" by (rule rtc_step_framed [OF Cons.prems(1) s1(2,1)])
  then have "sid < wsNextSessionId s1" using less by (auto simp: rtc_step_frame_def)
  from Cons.IH [OF inv s1(3,4) Cons.prems(4,5) disjI2 [OF this]]
  have IH: "wsActiveSessionId s1 = sid" "wsHandles s = wsHandles s1" "wsDirectIpv4Link s = wsDirectIpv4Link s1"
    "candidateStream js s = candidateStream js s1
        @ concat (map (ice_entries js (wsDirectIpv4Link s1) (phWebrtcbin (wsHandles s1))) evs)" "rtc_inv js {#} s"
    by simp_all
  have "wsActiveSessionId s1 \<noteq> 0" "wsActiveSessionId s1 \<noteq> wsNextSessionId s0" using IH(1) Cons.prems(4) less by auto
  with frame have "wsActiveSessionId s1 = wsActiveSessionId s0 \<and> wsHandles s1 = wsHandles s0
      \<and> wsDirectIpv4Link s1 = wsDirectIpv4Link s0
      \<and> candidateStream js s1 = candidateStream js s0 @ ice_entries js (wsDirectIpv4Link s0) (phWebrtcbin (wsHandles s0)) ev"
    by (simp add: rtc_step_frame_def)
  then show ?case using IH by simp
qed simp

text \<open>C15: While a session lasts, the candidates its client sends and the filter lets pass reach the
  session's webrtcbin exactly once and in the order they came in, after those that were there before;
  the ones that came before the answer was applied wait, and none waits once it is.\<close>

theorem candidates_delivered_in_order:
  assumes "rtc_reach js T s0" "events_ok js evs s0" "rtc_run js evs s0 = Some s"
    "wsActiveSessionId s0 \<noteq> 0" "wsActiveSessionId s = wsActiveSessionId s0"
    "phWebrtcbin (wsHandles s0) = Some b"
  shows "wsIceAdded s @ map (iceEntry js b) (wsPendingRemoteIce s) =
      wsIceAdded s0 @ map (iceEntry js b) (wsPendingRemoteIce s0)
        @ concat (map (ice_entries js (wsDirectIpv4Link s0) (Some b)) evs)
    \<and> (wsRemoteDescriptionApplied s \<longrightarrow> wsPendingRemoteIce s = [])"
proof -
  note inv = conjunct1 [OF rtc_reach_inv [OF assms(1)]]
  note stream = events_ok_stream [OF inv assms(2,3,4,5) disjI1 [OF refl]]
  have b: "phWebrtcbin (wsHandles s) = Some b" using stream assms(6) by simp
  have "wsRemoteDescriptionApplied s \<Longrightarrow> wsPendingRemoteIce s = []"
    using stream rtc_inv_parts(3) [of js "{#}" s] by (simp add: rtc_progress_def)
  moreover have "candidateStream js s = candidateStream js s0
      @ concat (map (ice_entries js (wsDirectIpv4Link s0) (phWebrtcbin (wsHandles s0))) evs)"
    using stream by blast
  ultimately show ?thesis by (simp add: candidateStream_def b assms(6))
qed

theorem candidates_delivered_in_order_witness:
  "wsIceAdded (sample_state 10) = [(11, 0, ''c1''), (11, 0, ''c2''), (11, 0, ''c3'')]"
proof -
  have run: "events_ok sample_json sample_negotiation (sample_state 1)"
    "rtc_run sample_json sample_negotiation (sample_state 1) = Some (sample_state 10)"
    by code_simp+
  have st: "wsActiveSessionId (sample_state 1) = 1" "wsActiveSessionId (sample_state 10) = 1"
    "phWebrtcbin (wsHandles (sample_state 1)) = Some 11" "wsIceAdded (sample_state 1) = []"
    "wsPendingRemoteIce (sample_state 1) = []" "wsRemoteDescriptionApplied (sample_state 10)"
    "concat (map (ice_entries sample_json (wsDirectIpv4Link (sample_state 1)) (Some 11)) sample_negotiation) =
       [(11, 0, ''c1''), (11, 0, ''c2''), (11, 0, ''c3'')]"
    "wsPendingRemoteIce (sample_state 10) = []"
    by code_simp+
  have "wsActiveSessionId (sample_state 1) \<noteq> 0" "wsActiveSessionId (sample_state 10) = wsActiveSessionId (sample_state 1)"
    unfolding st(1,2) by simp_all
  from candidates_delivered_in_order [OF sample_reach [of 1] run this st(3)] st(4,5,7,8) show ?thesis by simp
qed

section \<open>The watchdog\<close>

text \<open>C17: A client whose negotiation is not finished cannot hold the server: a pump of the running server
  that happens five seconds after the last event leaves a request to close the connection of the active
  session, if there is none yet.\<close>

theorem unfinished_negotiation_is_closed:
  assumes "rtc_reach js T s" "wsRunning s" "wsActiveSessionId s \<noteq> 0" "\<not> wsRemoteDescriptionApplied s"
    "T + kNegotiationWatchdogTimeout \<le> now"
  shows "\<exists>reason. (wsActiveSessionId s, reason) \<in> set (wsCloseRequests (pumpVideo now s))"
proof -
  have inv: "rtc_inv js {#} s" "watchdog_by T s" using rtc_reach_inv [OF assms(1)] by simp_all
  show ?thesis
  proof (cases "wsWatchdogArmed s")
    case True
    then have "wsWatchdogDeadline s \<le> now" using inv(2) assms(5) by (simp add: watchdog_by_def)
    then show ?thesis using True assms(2)
      by (auto simp: pumpVideo_def checkNegotiationWatchdogLocked_def clearNegotiationWatchdogLocked_def)
  next
    case False
    then have "\<exists>r. (wsActiveSessionId s, r) \<in> set (wsCloseRequests s)"
      using rtc_inv_parts(4) [OF inv(1)] assms(3,4) by (simp add: rtc_watched_def)
    moreover have "set (wsCloseRequests s) \<subseteq> set (wsCloseRequests (pumpVideo now s))"
      using False by (auto simp: pumpVideo_def checkNegotiationWatchdogLocked_def addTasks_def split: option.split)
    ultimately show ?thesis by blast
  qed
qed

theorem unfinished_negotiation_is_closed_witness:
  "\<exists>reason. (wsActiveSessionId (sample_state 4), reason) \<in> set (wsCloseRequests (pumpVideo 5100 (sample_state 4)))"
proof -
  have st: "wsRunning (sample_state 4)" "wsActiveSessionId (sample_state 4) = 1"
    "\<not> wsRemoteDescriptionApplied (sample_state 4)" by code_simp+
  have "wsActiveSessionId (sample_state 4) \<noteq> 0" by (simp add: st(2))
  from unfinished_negotiation_is_closed [OF sample_reach [of 4] st(1) this st(3), of 5100] show ?thesis
    by (simp add: kNegotiationWatchdogTimeout_def)
qed

end
