(* ===== verification/RenderServer.thy ===== *)
theory RenderServer
  imports Float32 CxxStrings
begin

text \<open>
  \<open>src/streaming/src/streaming/RenderServer.cpp\<close>: the TCP server of the older remote-viewer protocol,
  which \<open>main\<close> does not start.  A request is a length and a JSON text; the reply is a JPEG image with
  its size and some trailers.

  An action on the connection returns a value, throws a \<open>std::exception\<close>, ends the process (libjpeg's
  standard error handler calls \<open>exit\<close>, \<open>SIGPIPE\<close> terminates) or runs into undefined behaviour.
\<close>

section \<open>Actions\<close>

datatype 'x outcome = Returns 'x | Throws string | Exits | Undefined

type_synonym ('s, 'x) action = "'s \<Rightarrow> 's \<times> 'x outcome"

definition andThen :: "('s, 'x) action \<Rightarrow> ('x \<Rightarrow> ('s, 'y) action) \<Rightarrow> ('s, 'y) action" where
  "andThen m f s =
     (case m s of
        (s, Returns x) \<Rightarrow> f x s
      | (s, Throws e) \<Rightarrow> (s, Throws e)
      | (s, Exits) \<Rightarrow> (s, Exits)
      | (s, Undefined) \<Rightarrow> (s, Undefined))"

definition yields :: "'x outcome \<Rightarrow> ('s, 'x) action" where
  "yields x s = (s, x)"

section \<open>Socket\<close>

text \<open>
  A read or write moves at most as many bytes as the network takes at that call; none is a closed or
  failed connection.  A write that finds the peer gone raises \<open>SIGPIPE\<close>, which nothing in the program
  ignores or handles.  \<open>skIn\<close> are the bytes still to be read, \<open>skOut\<close> those written.
\<close>

record network =
  netRead :: "nat \<Rightarrow> nat"
  netWrite :: "nat \<Rightarrow> nat"
  netBroken :: "nat \<Rightarrow> bool"

record socket =
  skIn :: "u8 list"
  skOut :: "u8 list"
  skCalls :: nat

definition sys_read :: "network \<Rightarrow> nat \<Rightarrow> socket \<Rightarrow> socket \<times> u8 list" where
  "sys_read net len s =
     (let n = min len (netRead net (skCalls s)) in
      (s\<lparr>skIn := drop n (skIn s), skCalls := skCalls s + 1\<rparr>, take n (skIn s)))"

definition sys_write :: "network \<Rightarrow> u8 list \<Rightarrow> socket \<Rightarrow> socket \<times> nat" where
  "sys_write net bs s =
     (let n = if netBroken net (skCalls s) then 0 else min (length bs) (netWrite net (skCalls s)) in
      (s\<lparr>skOut := skOut s @ take n bs, skCalls := skCalls s + 1\<rparr>, n))"

lemma sys_read_length: "length (snd (sys_read net len s)) \<le> len"
  by (simp add: sys_read_def Let_def)

function readExact :: "network \<Rightarrow> nat \<Rightarrow> (socket, u8 list) action" where
  "readExact net len s =
     (if len = 0 then (s, Returns [])
      else
        let (s, bs) = sys_read net len s in
        if bs = [] then (s, Throws ''read: peer closed'')
        else andThen (readExact net (len - length bs)) (\<lambda>rest. yields (Returns (bs @ rest))) s)"
  by pat_completeness auto
termination by (relation "measure (\<lambda>(net, len, s). len)") auto

function writeExact :: "network \<Rightarrow> u8 list \<Rightarrow> (socket, unit) action" where
  "writeExact net bs s =
     (if bs = [] then (s, Returns ())
      else
        let broken = netBroken net (skCalls s); (s, n) = sys_write net bs s in
        if broken then (s, Exits)
        else if n = 0 then (s, Throws ''write failed'') else writeExact net (drop n bs) s)"
  by pat_completeness auto
termination by (relation "measure (\<lambda>(net, bs, s). length bs)") auto

declare readExact.simps [simp del] writeExact.simps [simp del]

text \<open>The target is little-endian.\<close>

definition val_bytes :: "u32 \<Rightarrow> u8 list" where
  "val_bytes w = [ucast w, ucast (drop_bit 8 w), ucast (drop_bit 16 w), ucast (drop_bit 24 w)]"

definition bytes_val :: "u8 list \<Rightarrow> u32" where
  "bytes_val bs = foldr (\<lambda>b acc. or (push_bit 8 acc) (ucast b)) bs 0"

definition writeVal :: "network \<Rightarrow> u32 \<Rightarrow> (socket, unit) action" where
  "writeVal net val = writeExact net (val_bytes val)"

definition float_bytes :: "f32 list \<Rightarrow> u8 list" where
  "float_bytes fs = concat (map (\<lambda>f. val_bytes (f32_bits f)) fs)"

section \<open>Requests\<close>

record RenderPoseRequest =
  rqFx :: f32
  rqFy :: f32
  rqCx :: f32
  rqCy :: f32
  rqWidth :: int
  rqHeight :: int
  rqPose :: "f32 list"
  rqMinimal :: bool

text \<open>
  The libraries: the JSON calls (\<open>None\<close> if one throws), \<open>std::tan\<close>, libjpeg (which sizes it accepts,
  and the file it makes of the scan lines) and the allocations that succeed.
\<close>

record 'j render_libs =
  lbParse :: "u8 list \<Rightarrow> 'j option"
  lbAtFloat :: "'j \<Rightarrow> string \<Rightarrow> f32 option"
  lbContains :: "'j \<Rightarrow> string \<Rightarrow> bool"
  lbAtBool :: "'j \<Rightarrow> string \<Rightarrow> bool option"
  lbAtFloats :: "'j \<Rightarrow> string \<Rightarrow> f32 list option"
  lbTan :: "f32 \<Rightarrow> f32"
  lbJpegAccepts :: "u32 \<Rightarrow> u32 \<Rightarrow> bool"
  lbJpeg :: "u32 \<Rightarrow> u32 \<Rightarrow> int \<Rightarrow> u8 list list \<Rightarrow> u8 list"
  lbAllocates :: "nat \<Rightarrow> bool"

definition f32_two :: f32 where "f32_two = F32 0x40000000"

definition orThrow :: "string \<Rightarrow> 'x option \<Rightarrow> 'x outcome" where
  "orThrow e x = (case x of None \<Rightarrow> Throws e | Some v \<Rightarrow> Returns v)"

definition orUndefined :: "'x option \<Rightarrow> 'x outcome" where
  "orUndefined x = (case x of None \<Rightarrow> Undefined | Some v \<Rightarrow> Returns v)"

text \<open>The row-major matrix with its columns 1 and 2 negated, by way of a column-major copy.\<close>

definition transposed :: "f32 list \<Rightarrow> f32 list" where
  "transposed m = map (\<lambda>i. m ! ((i mod 4) * 4 + i div 4)) [0..<16]"

definition negateColumns :: "f32 list \<Rightarrow> f32 list" where
  "negateColumns col = map (\<lambda>i. if i div 4 = 1 \<or> i div 4 = 2 then f32_mul (col ! i) f32_minus_one else col ! i) [0..<16]"

definition convertPose :: "f32 list \<Rightarrow> f32 list" where
  "convertPose poseVec = transposed (negateColumns (transposed poseVec))"

definition requestOf :: "'j render_libs \<Rightarrow> 'j \<Rightarrow> RenderPoseRequest outcome" where
  "requestOf lb msg =
     snd (andThen (yields (orThrow ''json'' (lbAtFloat lb msg ''resolution_x''))) (\<lambda>resX.
       andThen (yields (orThrow ''json'' (lbAtFloat lb msg ''resolution_y''))) (\<lambda>resY.
       andThen (yields (orThrow ''json'' (lbAtFloat lb msg ''fov_x''))) (\<lambda>fovX.
       andThen (yields (orThrow ''json'' (lbAtFloat lb msg ''fov_y''))) (\<lambda>fovY.
       andThen (yields (orUndefined (f32_to_int resX))) (\<lambda>width.
       andThen (yields (orUndefined (f32_to_int resY))) (\<lambda>height.
       andThen (yields (if lbContains lb msg ''minimal'' then orThrow ''json'' (lbAtBool lb msg ''minimal'')
                        else Returns False)) (\<lambda>minimal.
       andThen (yields (orThrow ''json'' (lbAtFloats lb msg ''pose''))) (\<lambda>poseVec.
       if length poseVec \<noteq> 16 then yields (Throws ''pose must have exactly 16 floats'')
       else yields (Returns
         \<lparr>rqFx = f32_div resX (f32_mul f32_two (lbTan lb (f32_div fovX f32_two))),
          rqFy = f32_div resY (f32_mul f32_two (lbTan lb (f32_div fovY f32_two))),
          rqCx = f32_div resX f32_two, rqCy = f32_div resY f32_two,
          rqWidth = width, rqHeight = height, rqPose = convertPose poseVec,
          rqMinimal = minimal\<rparr>))))))))) ())"

definition parseRequest :: "'j render_libs \<Rightarrow> network \<Rightarrow> (socket, RenderPoseRequest) action" where
  "parseRequest lb net =
     andThen (readExact net 4) (\<lambda>lenBytes.
       let jsonLen = bytes_val lenBytes in
       if jsonLen > 2 ^ 20 then yields (Throws ''json too large'')
       else andThen (readExact net (unat jsonLen)) (\<lambda>buf.
         andThen (yields (orThrow ''json'' (lbParse lb buf))) (\<lambda>msg.
           yields (requestOf lb msg))))"

section \<open>Replies\<close>

text \<open>The row offset is computed in 32 bits; a row is three bytes for each pixel of the width.\<close>

definition scanline :: "u8 list \<Rightarrow> int \<Rightarrow> u32 \<Rightarrow> u8 list option" where
  "scanline rgb width row =
     (let offset = unat (row * word_of_int width * 3 :: u32); n = 3 * unat (word_of_int width :: u32) in
      if offset + n \<le> length rgb then Some (take n (drop offset rgb)) else None)"

fun scanlines :: "u8 list \<Rightarrow> int \<Rightarrow> nat list \<Rightarrow> u8 list list option" where
  "scanlines rgb width [] = Some []"
| "scanlines rgb width (r # rs) =
     (case scanline rgb width (of_nat r) of
        None \<Rightarrow> None
      | Some line \<Rightarrow> map_option (\<lambda>lines. line # lines) (scanlines rgb width rs))"

definition encodeJpeg :: "'j render_libs \<Rightarrow> u8 list \<Rightarrow> int \<Rightarrow> int \<Rightarrow> int \<Rightarrow> u8 list outcome" where
  "encodeJpeg lb rgb width height quality =
     (let w = word_of_int width; h = word_of_int height in
      if \<not> lbJpegAccepts lb w h then Exits
      else case scanlines rgb width [0..<unat h] of
        None \<Rightarrow> Undefined
      | Some lines \<Rightarrow> Returns (lbJpeg lb w h quality lines))"

definition kJpegQuality :: int where
  "kJpegQuality = 70"

definition sendTrailers :: "network \<Rightarrow> RenderPoseRequest \<Rightarrow> (socket, unit) action" where
  "sendTrailers net req =
     andThen (writeExact net (float_bytes
       [f32_one, f32_zero, f32_zero, f32_zero, f32_one, f32_zero, f32_zero, f32_zero, f32_one])) (\<lambda>_.
     andThen (writeExact net (float_bytes [rqPose req ! 3, rqPose req ! 7, rqPose req ! 11])) (\<lambda>_.
     andThen (writeVal net (of_nat (length ''edgevision''))) (\<lambda>_.
     andThen (writeExact net (map (\<lambda>c. of_char c) ''edgevision'')) (\<lambda>_.
     writeExact net (float_bytes (rqPose req))))))"

definition sendImage :: "network \<Rightarrow> RenderPoseRequest \<Rightarrow> u8 list \<Rightarrow> (socket, unit) action" where
  "sendImage net req jpeg =
     andThen (writeVal net (word_of_int (rqWidth req))) (\<lambda>_.
     andThen (writeVal net (word_of_int (rqHeight req))) (\<lambda>_.
     andThen (writeVal net (of_nat (length jpeg))) (\<lambda>_.
     writeExact net jpeg)))"

text \<open>
  The render callback works on a state \<open>'a\<close> of its own; \<open>None\<close> is an exception.  \<open>max_size\<close> of a
  vector of bytes is \<open>2^63 - 1\<close>.
\<close>

type_synonym 'a render_callback = "RenderPoseRequest \<Rightarrow> u8 list \<Rightarrow> 'a \<Rightarrow> ('a \<times> bool \<times> u8 list) option"

definition frameBuffer :: "'j render_libs \<Rightarrow> RenderPoseRequest \<Rightarrow> u8 list outcome" where
  "frameBuffer lb req =
     (case checked_i32 (rqWidth req * rqHeight req) of
        None \<Rightarrow> Undefined
      | Some numPixels \<Rightarrow>
          let n = unat ((word_of_int numPixels :: u64) * 3) in
          if n > 2 ^ 63 - 1 then Throws ''vector''
          else if \<not> lbAllocates lb n then Throws ''bad_alloc''
          else Returns (replicate n 0))"

definition callRender ::
    "'a render_callback \<Rightarrow> RenderPoseRequest \<Rightarrow> u8 list \<Rightarrow> (socket \<times> 'a, u8 list) action" where
  "callRender onRender req rgb sa =
     (case onRender req rgb (snd sa) of
        None \<Rightarrow> (sa, Throws ''render'')
      | Some (a, _, rgb) \<Rightarrow> ((fst sa, a), Returns rgb))"

definition onSocket :: "(socket, 'x) action \<Rightarrow> (socket \<times> 'a, 'x) action" where
  "onSocket m sa = (case m (fst sa) of (s, x) \<Rightarrow> ((s, snd sa), x))"

text \<open>One round of the loop, after the request was read and as a whole.\<close>

definition replyTo ::
    "'j render_libs \<Rightarrow> network \<Rightarrow> 'a render_callback \<Rightarrow> RenderPoseRequest \<Rightarrow> (socket \<times> 'a, unit) action" where
  "replyTo lb net onRender req =
     andThen (yields (frameBuffer lb req)) (\<lambda>rgb.
     andThen (callRender onRender req rgb) (\<lambda>rgb.
     andThen (yields (encodeJpeg lb rgb (rqWidth req) (rqHeight req) kJpegQuality)) (\<lambda>jpeg.
     andThen (onSocket (sendImage net req jpeg)) (\<lambda>_.
     andThen
       (if rqMinimal req then yields (Returns ())
        else andThen (yields (encodeJpeg lb rgb (rqWidth req) (rqHeight req) kJpegQuality)) (\<lambda>black.
          andThen (onSocket (sendImage net req black)) (\<lambda>_.
          andThen (onSocket (sendImage net req black)) (\<lambda>_.
          onSocket (sendImage net req black))))) (\<lambda>_.
     onSocket (sendTrailers net req))))))"

definition answerRequest ::
    "'j render_libs \<Rightarrow> network \<Rightarrow> 'a render_callback \<Rightarrow> (socket \<times> 'a, unit) action" where
  "answerRequest lb net onRender = andThen (onSocket (parseRequest lb net)) (replyTo lb net onRender)"

section \<open>Clients\<close>

text \<open>Answering takes at least the four bytes of a length from the input, so the loop ends.\<close>

lemma andThen_cases:
  assumes "andThen m f s = (s', Returns y)"
  obtains s1 x where "m s = (s1, Returns x)" "f x s1 = (s', Returns y)"
  using assms by (auto simp: andThen_def split: prod.splits outcome.splits)

lemma readExact_consumes:
  "readExact net len s = (s', Returns bs) \<Longrightarrow>
     length bs = len \<and> skIn s = bs @ skIn s' \<and> skOut s' = skOut s"
proof (induction net len s arbitrary: s' bs rule: readExact.induct)
  case (1 net len s)
  show ?case
  proof (cases "len = 0")
    case True
    then show ?thesis using "1.prems" by (auto simp: readExact.simps [of net 0])
  next
    case False
    let ?r = "sys_read net len s"
    have got: "skIn s = snd ?r @ skIn (fst ?r)" "skOut (fst ?r) = skOut s" "length (snd ?r) \<le> len"
      by (simp_all add: sys_read_def Let_def)
    have "andThen (readExact net (len - length (snd ?r))) (\<lambda>rest. yields (Returns (snd ?r @ rest))) (fst ?r)
        = (s', Returns bs)" "snd ?r \<noteq> []"
      using "1.prems" False by (subst (asm) readExact.simps, auto simp: case_prod_beta Let_def split: if_splits)+
    then obtain s1 rest where rest: "readExact net (len - length (snd ?r)) (fst ?r) = (s1, Returns rest)"
      "s' = s1" "bs = snd ?r @ rest"
      by (auto elim!: andThen_cases simp: yields_def)
    have "length rest = len - length (snd ?r) \<and> skIn (fst ?r) = rest @ skIn s1 \<and> skOut s1 = skOut (fst ?r)"
      by (rule "1.IH" [OF False refl prod.collapse \<open>snd ?r \<noteq> []\<close> rest(1)])
    then show ?thesis using got rest(2,3) by simp
  qed
qed

lemma writeExact_keeps_input: "skIn (fst (writeExact net bs s)) = skIn s"
proof (induction net bs s rule: writeExact.induct)
  case (1 net bs s)
  then show ?case
    by (subst writeExact.simps) (simp add: sys_write_def Let_def case_prod_beta)
qed

definition keeps :: "('s \<Rightarrow> 'k) \<Rightarrow> ('s, 'x) action \<Rightarrow> bool" where
  "keeps g m \<longleftrightarrow> (\<forall>s. g (fst (m s)) = g s)"

lemma keepsD: "keeps g m \<Longrightarrow> m s = (s', x) \<Longrightarrow> g s' = g s"
  unfolding keeps_def by (metis fst_conv)

lemma keeps_andThen [intro]:
  assumes "keeps g m" "\<And>x. keeps g (f x)"
  shows "keeps g (andThen m f)"
  unfolding keeps_def
proof
  fix s
  have "g (fst (m s)) = g s" "\<And>x. g (fst (f x (fst (m s)))) = g (fst (m s))" using assms by (auto simp: keeps_def)
  then show "g (fst (andThen m f s)) = g s" by (auto simp: andThen_def case_prod_beta split: outcome.split)
qed

lemma keeps_yields [intro]: "keeps g (yields x)"
  by (simp add: keeps_def yields_def)

lemma keeps_onSocket [intro]: "keeps g m \<Longrightarrow> keeps (g \<circ> fst) (onSocket m)"
  by (simp add: keeps_def onSocket_def case_prod_beta)

lemma keeps_callRender [intro]: "keeps (g \<circ> fst) (callRender onRender req rgb)"
  by (auto simp: keeps_def callRender_def split: option.split)

lemma keeps_if [intro]: "keeps g m \<Longrightarrow> keeps g n \<Longrightarrow> keeps g (if b then m else n)"
  by simp

lemma write_keeps_input [intro]: "keeps skIn (writeExact net bs)" "keeps skIn (writeVal net v)"
  by (simp_all add: keeps_def writeVal_def writeExact_keeps_input)

lemma send_keeps_input [intro]: "keeps skIn (sendImage net req jpeg)" "keeps skIn (sendTrailers net req)"
  unfolding sendImage_def sendTrailers_def by (intro keeps_andThen write_keeps_input)+

lemma parseRequest_consumes:
  assumes "parseRequest lb net s = (s', Returns req)"
  shows "length (skIn s') < length (skIn s)"
proof -
  obtain s1 lb4 where l: "readExact net 4 s = (s1, Returns lb4)"
    and r: "(let jsonLen = bytes_val lb4 in
       if jsonLen > 2 ^ 20 then yields (Throws ''json too large'')
       else andThen (readExact net (unat jsonLen)) (\<lambda>buf.
         andThen (yields (orThrow ''json'' (lbParse lb buf))) (\<lambda>msg. yields (requestOf lb msg)))) s1
      = (s', Returns req)"
    using assms unfolding parseRequest_def by (rule andThen_cases)
  obtain s2 buf where b: "readExact net (unat (bytes_val lb4)) s1 = (s2, Returns buf)"
    and e: "andThen (yields (orThrow ''json'' (lbParse lb buf))) (\<lambda>msg. yields (requestOf lb msg)) s2 = (s', Returns req)"
  proof (cases "bytes_val lb4 > 2 ^ 20")
    case True
    then show thesis using r by (simp add: Let_def yields_def)
  next
    case False
    then show thesis using r that by (auto simp: Let_def elim!: andThen_cases [where m = "readExact net (unat (bytes_val lb4))"])
  qed
  have "s' = s2" using e by (auto elim!: andThen_cases simp: yields_def)
  then show ?thesis using readExact_consumes [OF l] readExact_consumes [OF b] by simp
qed

lemma replyTo_keeps_input: "keeps (skIn \<circ> fst) (replyTo lb net onRender req)"
  unfolding replyTo_def
  by (intro keeps_andThen keeps_if keeps_yields keeps_onSocket [where g = skIn]
      keeps_callRender [where g = skIn] send_keeps_input)

lemma answerRequest_consumes:
  assumes "answerRequest lb net onRender sa = (sa', Returns ())"
  shows "length (skIn (fst sa')) < length (skIn (fst sa))"
proof -
  obtain sa1 req where p: "onSocket (parseRequest lb net) sa = (sa1, Returns req)"
    and rest: "replyTo lb net onRender req sa1 = (sa', Returns ())"
    using assms unfolding answerRequest_def by (rule andThen_cases)
  have "length (skIn (fst sa1)) < length (skIn (fst sa))"
    using p parseRequest_consumes [of lb net "fst sa"] by (auto simp: onSocket_def split: prod.splits)
  then show ?thesis using keepsD [OF replyTo_keeps_input rest] by simp
qed

function handleClient ::
    "'j render_libs \<Rightarrow> network \<Rightarrow> 'a render_callback \<Rightarrow> (socket \<times> 'a, unit) action" where
  "handleClient lb net onRender sa =
     (case answerRequest lb net onRender sa of
        (sa, Returns _) \<Rightarrow> handleClient lb net onRender sa
      | (sa, e) \<Rightarrow> (sa, e))"
  by pat_completeness auto
termination
  by (relation "measure (\<lambda>(lb, net, onRender, sa). length (skIn (fst sa)))")
    (auto dest!: sym [of "(_, _)"] answerRequest_consumes)

declare handleClient.simps [simp del]

section \<open>The server\<close>

text \<open>
  The answers of the operating system to setting up the listening socket, and the open file
  descriptors; a failing \<open>setsockopt\<close> is only logged.  The accept loop does not end: the model stops
  where no further call of \<open>accept\<close> has returned.  \<open>None\<close> is a failed \<open>accept\<close>.
\<close>

record listen_env =
  leSocket :: "nat option"
  leBinds :: "u16 \<Rightarrow> bool"
  leListens :: bool

record 'a RenderServer =
  rsOpen :: "nat list"
  rsReplies :: "u8 list list"
  rsRender :: 'a

type_synonym arrival = "(nat \<times> network \<times> u8 list) option"

definition closeFd :: "nat \<Rightarrow> 'a RenderServer \<Rightarrow> 'a RenderServer" where
  "closeFd fd S = S\<lparr>rsOpen := remove1 fd (rsOpen S)\<rparr>"

fun acceptLoop ::
    "'j render_libs \<Rightarrow> 'a render_callback \<Rightarrow> arrival list \<Rightarrow> 'a RenderServer \<Rightarrow> 'a RenderServer \<times> unit outcome" where
  "acceptLoop lb onRender [] S = (S, Returns ())"
| "acceptLoop lb onRender (None # arrivals) S = acceptLoop lb onRender arrivals S"
| "acceptLoop lb onRender (Some (fd, net, input) # arrivals) S =
     (case handleClient lb net onRender (\<lparr>skIn = input, skOut = [], skCalls = 0\<rparr>, rsRender S) of
        ((sk, a), r) \<Rightarrow>
          let S = S\<lparr>rsOpen := fd # rsOpen S, rsReplies := rsReplies S @ [skOut sk], rsRender := a\<rparr> in
          case r of
            Exits \<Rightarrow> (S, Exits)
          | Undefined \<Rightarrow> (S, Undefined)
          | _ \<Rightarrow> acceptLoop lb onRender arrivals (closeFd fd S))"

definition serve ::
    "'j render_libs \<Rightarrow> 'a render_callback \<Rightarrow> listen_env \<Rightarrow> int \<Rightarrow> arrival list \<Rightarrow> 'a RenderServer
     \<Rightarrow> 'a RenderServer \<times> unit outcome" where
  "serve lb onRender le port arrivals S =
     (case leSocket le of
        None \<Rightarrow> (S, Throws ''socket() failed'')
      | Some serverFd \<Rightarrow>
          let S = S\<lparr>rsOpen := serverFd # rsOpen S\<rparr> in
          if \<not> leBinds le (word_of_int port)
          then (closeFd serverFd S, Throws (''bind() failed on port '' @ to_string port))
          else if \<not> leListens le then (closeFd serverFd S, Throws ''listen() failed'')
          else acceptLoop lb onRender arrivals S)"

end
