(* ===== verification/RenderServerProperties.thy ===== *)
theory RenderServerProperties
  imports RenderServer "HOL-Library.Monad_Syntax"
begin

text \<open>
  The wire protocol of the TCP server: a session answers its requests in order however the network
  cuts the bytes, a client can read a reply back, and one client does not disturb the next.
\<close>

section \<open>Reading and writing\<close>

definition reads_ok :: "network \<Rightarrow> bool" where
  "reads_ok net \<longleftrightarrow> (\<forall>k. 0 < netRead net k)"

definition net_ok :: "network \<Rightarrow> bool" where
  "net_ok net \<longleftrightarrow> reads_ok net \<and> (\<forall>k. 0 < netWrite net k \<and> \<not> netBroken net k)"

lemma net_ok_reads: "net_ok net \<Longrightarrow> reads_ok net"
  by (simp add: net_ok_def)

lemma bytes_val_bytes [simp]: "bytes_val (val_bytes w) = w"
proof (rule bit_word_eqI)
  fix n
  assume "n < LENGTH(32)"
  then have n: "n < 32" by simp
  have "bit (bytes_val (val_bytes w)) n =
      (if n < 8 then bit w n else if n < 16 then bit w (8 + (n - 8))
       else if n < 24 then bit w (16 + (n - 16)) else bit w (24 + (n - 24)))"
    using n by (auto simp: bytes_val_def val_bytes_def bit_or_iff bit_push_bit_iff bit_ucast_iff bit_drop_bit_eq)
  then show "bit (bytes_val (val_bytes w)) n = bit w n" using n by (auto split: if_splits)
qed

lemma val_bytes_length [simp]: "length (val_bytes w) = 4"
  by (simp add: val_bytes_def)

lemma float_bytes_length [simp]: "length (float_bytes fs) = 4 * length fs"
  by (induction fs) (simp_all add: float_bytes_def)





lemma readExact_ok:
  assumes "reads_ok net" "skIn s = bs @ rest" "length bs = n"
  shows "\<exists>k. readExact net n s = (s\<lparr>skIn := rest, skCalls := k\<rparr>, Returns bs)"
  using assms
proof (induction net n s arbitrary: bs rule: readExact.induct)
  case (1 net n s)
  show ?case
  proof (cases "n = 0")
    case True
    then show ?thesis using "1.prems"
      by (intro exI [of _ "skCalls s"]) (simp add: readExact.simps [of net 0])
  next
    case False
    let ?r = "sys_read net n s"
    define m where "m = min n (netRead net (skCalls s))"
    have m: "0 < m" "m \<le> length bs" using "1.prems" False by (auto simp: m_def reads_ok_def)
    have r: "?r = (s\<lparr>skIn := drop m bs @ rest, skCalls := skCalls s + 1\<rparr>, take m bs)"
      using "1.prems"(2) m by (simp add: sys_read_def Let_def m_def [symmetric])
    have ne: "snd ?r \<noteq> []" using r m by auto
    have "length (drop m bs) = n - length (snd ?r)" using r m "1.prems"(3) by simp
    moreover have "skIn (fst ?r) = drop m bs @ rest" by (simp add: r)
    ultimately obtain k where
      "readExact net (n - length (snd ?r)) (fst ?r) = ((fst ?r)\<lparr>skIn := rest, skCalls := k\<rparr>, Returns (drop m bs))"
      using "1.IH" [OF False refl prod.collapse ne "1.prems"(1)] by blast
    moreover have "readExact net n s =
        andThen (readExact net (n - length (snd ?r))) (\<lambda>rest. yields (Returns (snd ?r @ rest))) (fst ?r)"
      using False ne by (subst readExact.simps) (simp add: case_prod_beta)
    ultimately show ?thesis using r by (intro exI [of _ k]) (simp add: andThen_def yields_def)
  qed
qed


section \<open>Replies\<close>

definition request_bytes :: "u8 list \<Rightarrow> u8 list" where
  "request_bytes json = val_bytes (of_nat (length json)) @ json"







text \<open>The scan lines that an encoder should get: the rows of the image.\<close>

definition image_rows :: "nat \<Rightarrow> nat \<Rightarrow> u8 list \<Rightarrow> u8 list list" where
  "image_rows w h rgb = map (\<lambda>r. take (3 * w) (drop (r * (3 * w)) rgb)) [0..<h]"

definition jpegOf :: "'j render_libs \<Rightarrow> RenderPoseRequest \<Rightarrow> u8 list \<Rightarrow> u8 list" where
  "jpegOf lb req rgb =
     lbJpeg lb (word_of_int (rqWidth req)) (word_of_int (rqHeight req)) 70
       (image_rows (nat (rqWidth req)) (nat (rqHeight req)) rgb)"

text \<open>A request that can be rendered: a positive size, small enough for 32-bit row offsets.\<close>

definition size_ok :: "'j render_libs \<Rightarrow> RenderPoseRequest \<Rightarrow> bool" where
  "size_ok lb req \<longleftrightarrow>
     0 < rqWidth req \<and> 0 < rqHeight req \<and> 3 * (rqWidth req * rqHeight req) < 2 ^ 31
     \<and> lbAllocates lb (nat (3 * (rqWidth req * rqHeight req)))
     \<and> lbJpegAccepts lb (word_of_int (rqWidth req)) (word_of_int (rqHeight req))"

definition blankFrame :: "RenderPoseRequest \<Rightarrow> u8 list" where
  "blankFrame req = replicate (nat (3 * (rqWidth req * rqHeight req))) 0"

lemma unat_u32: "0 \<le> x \<Longrightarrow> x < 2 ^ 32 \<Longrightarrow> unat (word_of_int x :: u32) = nat x"
  by (simp add: unat_eq_nat_uint take_bit_int_eq_self uint_word_of_int_eq)

lemma size_bounds:
  assumes "size_ok lb req"
  shows "rqWidth req < 2 ^ 31" "rqHeight req < 2 ^ 31"
proof -
  have pos: "0 < rqWidth req" "0 < rqHeight req" "3 * (rqWidth req * rqHeight req) < 2 ^ 31"
    using assms by (simp_all add: size_ok_def)
  have "rqWidth req * 1 \<le> rqWidth req * rqHeight req" "1 * rqHeight req \<le> rqWidth req * rqHeight req"
    using pos by (intro mult_left_mono mult_right_mono; simp)+
  then show "rqWidth req < 2 ^ 31" "rqHeight req < 2 ^ 31" using pos by linarith+
qed

lemma frameBuffer_blank:
  assumes "size_ok lb req"
  shows "frameBuffer lb req = Returns (blankFrame req)"
proof -
  let ?n = "rqWidth req * rqHeight req"
  have n: "0 < ?n" "3 * ?n < 2 ^ 31" using assms by (simp_all add: size_ok_def)
  have "(word_of_int ?n * 3 :: u64) = word_of_int (3 * ?n)" by simp
  then have "unat (word_of_int ?n * 3 :: u64) = nat (3 * ?n)" using n by (simp only:) (rule unat_u64_of_int; simp)
  moreover have "i32_range ?n" "\<not> nat (3 * ?n) > 2 ^ 63 - 1" using n by (simp_all add: i32_range_def)
  ultimately show ?thesis
    using assms by (simp add: frameBuffer_def checked_i32_def Let_def blankFrame_def size_ok_def)
qed

lemma encodeJpeg_rows:
  assumes "size_ok lb req" "length rgb = nat (3 * (rqWidth req * rqHeight req))"
  shows "encodeJpeg lb rgb (rqWidth req) (rqHeight req) kJpegQuality = Returns (jpegOf lb req rgb)"
proof -
  let ?w = "rqWidth req" and ?h = "rqHeight req"
  have pos: "0 < ?w" "0 < ?h" "3 * (?w * ?h) < 2 ^ 31" using assms(1) by (simp_all add: size_ok_def)
  note le = size_bounds [OF assms(1)]
  have w: "unat (word_of_int ?w :: u32) = nat ?w" and h: "unat (word_of_int ?h :: u32) = nat ?h"
    using pos le by (simp_all add: unat_u32)
  have line: "scanline rgb ?w (of_nat r) = Some (take (3 * nat ?w) (drop (r * (3 * nat ?w)) rgb))" if "r < nat ?h" for r
  proof -
    have "int r * (3 * ?w) + 3 * ?w \<le> 3 * (?w * ?h)"
    proof -
      have "(int r + 1) * (3 * ?w) \<le> ?h * (3 * ?w)" using that pos by (intro mult_right_mono) auto
      then show ?thesis by (simp add: algebra_simps)
    qed
    note in_frame = this
    have "(of_nat r * word_of_int ?w * 3 :: u32) = word_of_int (int r * (3 * ?w))" by (simp add: ac_simps)
    moreover have "0 \<le> int r * (3 * ?w)" using pos by simp
    moreover have "int r * (3 * ?w) < 2 ^ 32"
    proof -
      have "int r * (3 * ?w) \<le> 3 * (?w * ?h)" using in_frame pos by linarith
      also have "\<dots> < 2 ^ 32" using pos by simp
      finally show ?thesis .
    qed
    ultimately have off: "unat (of_nat r * word_of_int ?w * 3 :: u32) = r * (3 * nat ?w)"
      using pos by (simp only: unat_u32) (simp add: nat_mult_distrib)
    have "int (r * (3 * nat ?w) + 3 * nat ?w) \<le> int (length rgb)" using in_frame pos assms(2) by simp
    then have "r * (3 * nat ?w) + 3 * nat ?w \<le> length rgb" by linarith
    then show ?thesis by (simp add: scanline_def Let_def off w)
  qed
  have "scanlines rgb ?w rs = Some (map (\<lambda>r. take (3 * nat ?w) (drop (r * (3 * nat ?w)) rgb)) rs)"
    if "\<forall>r \<in> set rs. r < nat ?h" for rs
    using that by (induction rs) (simp_all add: line)
  from this [of "[0..<nat ?h]"] have
    "scanlines rgb ?w [0..<nat ?h] = Some (map (\<lambda>r. take (3 * nat ?w) (drop (r * (3 * nat ?w)) rgb)) [0..<nat ?h])"
    by auto
  then show ?thesis
    using assms(1) by (simp add: encodeJpeg_def Let_def h jpegOf_def image_rows_def kJpegQuality_def size_ok_def)
qed








section \<open>A session\<close>


lemma parseRequest_reads:
  assumes "reads_ok net" "length json \<le> 2 ^ 20" "lbParse lb json = Some msg" "requestOf lb msg = Returns req"
    "skIn s = request_bytes json @ rest"
  shows "\<exists>k. parseRequest lb net s = (s\<lparr>skIn := rest, skCalls := k\<rparr>, Returns req)"
proof -
  let ?n = "of_nat (length json) :: u32"
  have n: "unat ?n = length json" "\<not> ?n > 2 ^ 20"
    using assms(2) by (simp_all add: unat_of_nat take_bit_nat_eq_self not_less word_le_nat_alt)
  obtain k where k: "readExact net 4 s = (s\<lparr>skIn := json @ rest, skCalls := k\<rparr>, Returns (val_bytes ?n))"
    using readExact_ok [OF assms(1), of s "val_bytes ?n" "json @ rest" 4] assms(5) by (auto simp: request_bytes_def)
  obtain k' where k': "readExact net (length json) (s\<lparr>skIn := json @ rest, skCalls := k\<rparr>) =
      (s\<lparr>skIn := rest, skCalls := k'\<rparr>, Returns json)"
    using readExact_ok [OF assms(1), of "s\<lparr>skIn := json @ rest, skCalls := k\<rparr>" json rest "length json"] by auto
  show ?thesis
    using k k' n assms(3,4)
    by (intro exI [of _ k']) (simp add: parseRequest_def andThen_def yields_def orThrow_def Let_def)
qed





section \<open>The client's side\<close>

text \<open>A client that reads a reply as the wire format says.\<close>

definition split_bytes :: "nat \<Rightarrow> u8 list \<Rightarrow> (u8 list \<times> u8 list) option" where
  "split_bytes n bs = (if n \<le> length bs then Some (take n bs, drop n bs) else None)"

fun bytes_floats :: "u8 list \<Rightarrow> f32 list" where
  "bytes_floats (b0 # b1 # b2 # b3 # bs) = F32 (bytes_val [b0, b1, b2, b3]) # bytes_floats bs"
| "bytes_floats _ = []"



lemma split_bytes_append [simp]: "length xs = n \<Longrightarrow> split_bytes n (xs @ ys) = Some (xs, ys)"
  by (simp add: split_bytes_def)

lemma bytes_floats_float_bytes [simp]: "bytes_floats (float_bytes fs) = fs"
proof (induction fs)
  case (Cons f fs)
  have "bytes_floats (val_bytes w @ bs) = F32 w # bytes_floats bs" for w bs
    using bytes_val_bytes [of w] by (simp add: val_bytes_def)
  with Cons show ?case by (simp add: float_bytes_def)
qed (simp add: float_bytes_def)




section \<open>Samples\<close>

definition sample_libs :: "nat render_libs" where
  "sample_libs =
     \<lparr>lbParse = (\<lambda>bs. case bs of [b] \<Rightarrow> Some (unat b) | _ \<Rightarrow> None),
      lbAtFloat = (\<lambda>m key. if key = ''resolution_x'' then Some (if m = 9 then f32_zero else f32_two) else Some f32_one),
      lbContains = (\<lambda>m key. m = 2), lbAtBool = (\<lambda>m key. Some True),
      lbAtFloats = (\<lambda>m key. if m = 7 then None else Some (replicate 16 f32_one)),
      lbTan = (\<lambda>x. x), lbJpegAccepts = (\<lambda>w h. w \<noteq> 0 \<and> h \<noteq> 0),
      lbJpeg = (\<lambda>w h q rows. 255 # concat rows), lbAllocates = (\<lambda>n. True)\<rparr>"


definition sample_net :: network where
  "sample_net = \<lparr>netRead = (\<lambda>k. 1 + k mod 3), netWrite = (\<lambda>k. 2 + k mod 5), netBroken = (\<lambda>k. False)\<rparr>"

definition sample_request :: "nat \<Rightarrow> RenderPoseRequest" where
  "sample_request m =
     \<lparr>rqFx = f32_two, rqFy = f32_one, rqCx = f32_one, rqCy = F32 0x3F000000, rqWidth = 2, rqHeight = 1,
      rqPose = convertPose (replicate 16 f32_one), rqMinimal = (m = 2)\<rparr>"

lemma sample_net_ok: "net_ok sample_net"
  by (simp add: net_ok_def reads_ok_def sample_net_def)


lemma sample_parses:
  "requestOf sample_libs 2 = Returns (sample_request 2)" "requestOf sample_libs 3 = Returns (sample_request 3)"
  by code_simp+



section \<open>Properties\<close>





text \<open>The matrix handed to the renderer is the one of the request with its second and third columns
  negated, entry by entry and exactly, and doing it again gives the request's matrix back.\<close>

theorem request_pose_converted:
  assumes "requestOf lb msg = Returns req" "lbAtFloats lb msg ''pose'' = Some p" "list_all f32_isfinite p"
  shows "rqPose req = map (\<lambda>i. if i mod 4 = 1 \<or> i mod 4 = 2 then f32_neg (p ! i) else p ! i) [0..<16]
    \<and> convertPose (rqPose req) = p"
proof -
  have p: "length p = 16" "rqPose req = convertPose p"
    using assms(1,2) by (auto simp: requestOf_def yields_def orThrow_def orUndefined_def andThen_def
        split: option.splits if_splits)
  have conv: "convertPose q = map (\<lambda>i. if i mod 4 = 1 \<or> i mod 4 = 2 then f32_mul (q ! i) f32_minus_one else q ! i) [0..<16]" for q
    by (simp add: convertPose_def transposed_def negateColumns_def upt_rec) (simp add: eval_nat_numeral)
  have fin: "f32_isfinite (p ! i)" if "i < 16" for i using assms(3) p(1) that by (simp add: list_all_length)
  have once: "convertPose p = map (\<lambda>i. if i mod 4 = 1 \<or> i mod 4 = 2 then f32_neg (p ! i) else p ! i) [0..<16]"
    by (simp add: conv fin f32_mul_minus_one)
  have twice: "convertPose (convertPose p) = map (\<lambda>i. if i mod 4 = 1 \<or> i mod 4 = 2
      then f32_mul (convertPose p ! i) f32_minus_one else convertPose p ! i) [0..<16]"
    by (rule conv)
  have at: "convertPose p ! i = (if i mod 4 = 1 \<or> i mod 4 = 2 then f32_neg (p ! i) else p ! i)" if "i < 16" for i
    using that by (simp add: once)
  have "convertPose (convertPose p) = p"
  proof (rule nth_equalityI)
    show "length (convertPose (convertPose p)) = length p" by (simp only: twice p(1)) simp
    fix i
    assume "i < length (convertPose (convertPose p))"
    then have i: "i < 16" by (simp add: twice)
    then show "convertPose (convertPose p) ! i = p ! i"
      unfolding twice by (simp add: at fin f32_neg_finite f32_mul_minus_one f32_neg_neg)
  qed
  then show ?thesis using once p(2) by simp
qed

theorem request_pose_converted_witness:
  "convertPose (rqPose (sample_request 2)) = replicate 16 f32_one \<and> rqPose (sample_request 2) ! 1 = f32_minus_one"
proof -
  have "lbAtFloats sample_libs 2 ''pose'' = Some (replicate 16 f32_one)" by (simp add: sample_libs_def)
  moreover have "list_all f32_isfinite (replicate 16 f32_one)" by code_simp
  moreover have "rqPose (sample_request 2) ! 1 = f32_minus_one" by code_simp
  ultimately show ?thesis using request_pose_converted [OF sample_parses(1)] by blast
qed








definition sample_unit_render :: "unit render_callback" where
  "sample_unit_render req rgb a = Some ((), True, rgb)"



text \<open>C32: libjpeg's standard error handler ends the process for an image without pixels, so one request
  of width or height zero takes the whole server down: no client that comes later is served.\<close>

theorem empty_frame_ends_the_server:
  assumes "reads_ok net" "\<forall>w h. lbJpegAccepts lb w h \<longrightarrow> w \<noteq> 0 \<and> h \<noteq> 0" "lbAllocates lb 0"
    and "length json \<le> 2 ^ 20" "lbParse lb json = Some msg" "requestOf lb msg = Returns req"
    and "rqWidth req = 0 \<or> rqHeight req = 0" "onRender req [] (rsRender S) = Some (a, b, rgb)"
  shows "\<exists>S'. acceptLoop lb onRender (Some (fd, net, request_bytes json @ rest) # arrivals) S = (S', Exits)
    \<and> rsReplies S' = rsReplies S @ [[]] \<and> fd \<in> set (rsOpen S')"
proof -
  let ?s = "\<lparr>skIn = request_bytes json @ rest, skOut = [], skCalls = 0\<rparr>"
  obtain k where k: "parseRequest lb net ?s = (?s\<lparr>skIn := rest, skCalls := k\<rparr>, Returns req)"
    using parseRequest_reads [OF assms(1,4,5,6), of ?s rest] by auto
  have "\<not> lbJpegAccepts lb (word_of_int (rqWidth req)) (word_of_int (rqHeight req))"
    using assms(2,7) by (metis of_int_0)
  then have "encodeJpeg lb rgb (rqWidth req) (rqHeight req) kJpegQuality = Exits"
    by (simp add: encodeJpeg_def Let_def)
  moreover have "frameBuffer lb req = Returns []"
    using assms(3,7) by (auto simp: frameBuffer_def Let_def checked_i32_def i32_range_def)
  ultimately have "replyTo lb net onRender req (?s\<lparr>skIn := rest, skCalls := k\<rparr>, rsRender S) =
      ((?s\<lparr>skIn := rest, skCalls := k\<rparr>, a), Exits)"
    using assms(8) by (simp add: replyTo_def andThen_def callRender_def yields_def)
  then have "handleClient lb net onRender (?s, rsRender S) = ((?s\<lparr>skIn := rest, skCalls := k\<rparr>, a), Exits)"
    using k by (subst handleClient.simps) (simp add: answerRequest_def andThen_def onSocket_def)
  then show ?thesis by (simp add: Let_def)
qed

theorem empty_frame_ends_the_server_witness:
  "\<exists>S'. acceptLoop sample_libs sample_unit_render
      [Some (4, sample_net, request_bytes [9] @ []), Some (5, sample_net, request_bytes [2])]
      \<lparr>rsOpen = [3], rsReplies = [], rsRender = ()\<rparr> = (S', Exits) \<and> rsReplies S' = [[]]"
proof -
  obtain req where req: "requestOf sample_libs 9 = Returns req" "rqWidth req = 0 \<or> rqHeight req = 0"
  proof -
    have "(case requestOf sample_libs 9 of Returns r \<Rightarrow> rqWidth r = 0 | _ \<Rightarrow> False)" by code_simp
    then show thesis using that by (cases "requestOf sample_libs 9") simp_all
  qed
  have st: "\<forall>w h. lbJpegAccepts sample_libs w h \<longrightarrow> w \<noteq> 0 \<and> h \<noteq> 0" "lbAllocates sample_libs 0"
    "length [9 :: u8] \<le> 2 ^ 20" "lbParse sample_libs [9] = Some 9"
    by (simp_all add: sample_libs_def)
  show ?thesis
    using empty_frame_ends_the_server [OF net_ok_reads [OF sample_net_ok] st req, where onRender = sample_unit_render and fd = 4
        and rest = "[]" and arrivals = "[Some (5, sample_net, request_bytes [2])]"
        and S = "\<lparr>rsOpen = [3], rsReplies = [], rsRender = ()\<rparr>"]
    by (auto simp: sample_unit_render_def)
qed

text \<open>A client that is gone when its reply is written takes the server down as well: \<open>SIGPIPE\<close>.\<close>

lemma writeExact_broken:
  "netBroken net (skCalls s) \<Longrightarrow> bs \<noteq> [] \<Longrightarrow> writeExact net bs s = (s\<lparr>skCalls := skCalls s + 1\<rparr>, Exits)"
  by (subst writeExact.simps) (simp add: sys_write_def Let_def)

theorem hangup_ends_the_server:
  assumes "reads_ok net" "\<forall>k. netBroken net k" "length json \<le> 2 ^ 20" "lbParse lb json = Some msg"
    and "requestOf lb msg = Returns req" "size_ok lb req"
    and "onRender req (blankFrame req) (rsRender S) = Some (a, b, rgb)" "length rgb = length (blankFrame req)"
  shows "\<exists>S'. acceptLoop lb onRender (Some (fd, net, request_bytes json @ rest) # arrivals) S = (S', Exits)
    \<and> rsReplies S' = rsReplies S @ [[]] \<and> fd \<in> set (rsOpen S')"
proof -
  let ?s = "\<lparr>skIn = request_bytes json @ rest, skOut = [], skCalls = 0\<rparr>"
  obtain k where k: "parseRequest lb net ?s = (?s\<lparr>skIn := rest, skCalls := k\<rparr>, Returns req)"
    using parseRequest_reads [OF assms(1,3,4,5), of ?s rest] by auto
  have "sendImage net req jpeg s = (s\<lparr>skCalls := skCalls s + 1\<rparr>, Exits)" for jpeg s
  proof -
    have "writeVal net v s = (s\<lparr>skCalls := skCalls s + 1\<rparr>, Exits)" for v
      unfolding writeVal_def using assms(2) by (intro writeExact_broken) (simp_all add: val_bytes_def)
    then show ?thesis by (simp add: sendImage_def andThen_def)
  qed
  then have "replyTo lb net onRender req (?s\<lparr>skIn := rest, skCalls := k\<rparr>, rsRender S) =
      ((?s\<lparr>skIn := rest, skCalls := k + 1\<rparr>, a), Exits)"
    using assms(7) encodeJpeg_rows [OF assms(6), of rgb] assms(8) frameBuffer_blank [OF assms(6)]
    by (simp add: replyTo_def andThen_def callRender_def yields_def onSocket_def blankFrame_def)
  then have "handleClient lb net onRender (?s, rsRender S) = ((?s\<lparr>skIn := rest, skCalls := k + 1\<rparr>, a), Exits)"
    using k by (subst handleClient.simps) (simp add: answerRequest_def andThen_def onSocket_def)
  then show ?thesis by (simp add: Let_def)
qed

end
