(* ===== verification/FrameFlow.thy ===== *)
theory FrameFlow
  imports FrameIngestProofs SceneBuilderRunner SceneViewerRunner
begin

text \<open>
  The way of a frame through the three loops: the ingestor's \<open>runLoop\<close> captures and submits it, the
  builder's takes it from the store, builds it, acknowledges and records it, the viewer's renders the
  scene that results.  The loops share the frame store and the scene; each call of the builder's loop
  is a step of its own, so the ingestor and the viewer act between any two of them.  The objects are
  those of \<open>main.cpp\<close>; whether a loop runs is left open, so that every schedule has a run.
\<close>

section \<open>State\<close>

text \<open>Where the builder's loop is: before the dequeue, or after it, the build or the acknowledgement.\<close>

datatype build_phase = NoFrame | TakenFrame Frame | BuiltFrame SceneBuildResult | AcknowledgedFrame SceneBuildResult

text \<open>
  The store is the ingestor's, the scene the builder's.  The last two fields are history: the frames
  that the store accepted and the builds with their results, in order.
\<close>

record ('w, 'sc, 'p, 'd, 'q, 'r) FrameFlow =
  ffIngestor :: "('w, 'q) IngestRunner"
  ffBuilder :: "('sc, 'p, 'd, 'q) BuilderRunner"
  ffPhase :: build_phase
  ffViewer :: "'r SceneViewerRunner"
  ffAccepted :: "Frame list"
  ffBuilt :: "(Frame \<times> SceneBuildResult) list"

record ('w, 'sc, 'p, 'd, 'q, 'r) flow_libs =
  flK4a :: "'w k4a_ops"
  flRing :: "'q ring_ops"
  flItm :: "('sc, 'p, 'd) itm_ops"
  flVis :: "('sc, 'r) vis_ops"
  flScene :: nat
  flCamera :: CameraCapture

record flow_config =
  fcStore :: FrameStoreConfig
  fcCapture :: CaptureRuntimeConfig
  fcBuilder :: BuilderRuntimeConfig
  fcViewer :: ViewerRuntimeConfig
  fcPolicy :: SceneReadPolicy
  fcVersions :: nat
  fcOutputs :: nat

definition flow_new ::
    "('w, 'sc, 'p, 'd, 'q, 'r) flow_libs \<Rightarrow> flow_config \<Rightarrow> 'w \<Rightarrow> 'sc \<Rightarrow> ('w, 'sc, 'p, 'd, 'q, 'r) FrameFlow" where
  "flow_new libs config w sc =
     \<lparr>ffIngestor = FrameIngestorRunner_new (fcCapture config) (new_ingest (flRing libs) (fcStore config) w),
      ffBuilder = SceneBuilderRunner_new (fcBuilder config) (FrameStore_new (flRing libs) (fcStore config))
        (SharedSceneState_new (fcPolicy config) sc) (SceneVersionStore_new (fcVersions config)),
      ffPhase = NoFrame,
      ffViewer = SceneViewerRunner_new (fcViewer config) (RenderOutputStore_new (fcOutputs config)),
      ffAccepted = [], ffBuilt = []\<rparr>"

abbreviation flowStore :: "('w, 'sc, 'p, 'd, 'q, 'r) FrameFlow \<Rightarrow> 'q FrameStore" where
  "flowStore F \<equiv> isStore (irIngest (ffIngestor F))"

abbreviation flowScene :: "('w, 'sc, 'p, 'd, 'q, 'r) FrameFlow \<Rightarrow> 'sc SharedSceneState" where
  "flowScene F \<equiv> bsShared (brBuilder (ffBuilder F))"

definition putStore ::
    "'q FrameStore \<Rightarrow> ('w, 'sc, 'p, 'd, 'q, 'r) FrameFlow \<Rightarrow> ('w, 'sc, 'p, 'd, 'q, 'r) FrameFlow" where
  "putStore s F =
     F\<lparr>ffIngestor := (ffIngestor F)\<lparr>irIngest := (irIngest (ffIngestor F))\<lparr>isStore := s\<rparr>\<rparr>\<rparr>"

section \<open>Steps\<close>

text \<open>A submitted frame is the latest of the store.\<close>

definition newlyAccepted :: "('w, 'q) IngestRunner \<Rightarrow> ('w, 'q) IngestRunner \<Rightarrow> Frame list" where
  "newlyAccepted r r' =
     (if irSubmittedFrameCount r' = irSubmittedFrameCount r then []
      else case FrameStore_getLastFrame (isStore (irIngest r')) of None \<Rightarrow> [] | Some f \<Rightarrow> [f])"

definition flowIngest ::
    "('w, 'sc, 'p, 'd, 'q, 'r) flow_libs \<Rightarrow> int \<Rightarrow> ('w, 'sc, 'p, 'd, 'q, 'r) FrameFlow
     \<Rightarrow> ('w, 'sc, 'p, 'd, 'q, 'r) FrameFlow" where
  "flowIngest libs now F =
     (let r = ingestIteration (flK4a libs) (flRing libs) (flCamera libs) now (ffIngestor F) in
      F\<lparr>ffIngestor := r, ffAccepted := ffAccepted F @ newlyAccepted (ffIngestor F) r\<rparr>)"

definition flowTake ::
    "('w, 'sc, 'p, 'd, 'q, 'r) flow_libs \<Rightarrow> ('w, 'sc, 'p, 'd, 'q, 'r) FrameFlow
     \<Rightarrow> ('w, 'sc, 'p, 'd, 'q, 'r) FrameFlow" where
  "flowTake libs F =
     (case waitDequeueReadyFrame (flRing libs) (max (readyFrameTimeoutMs (brConfig (ffBuilder F))) 0) (flowStore F) of
        (s, None) \<Rightarrow> putStore s F
      | (s, Some f) \<Rightarrow> (putStore s F)\<lparr>ffPhase := TakenFrame f\<rparr>)"

definition flowBuild ::
    "('w, 'sc, 'p, 'd, 'q, 'r) flow_libs \<Rightarrow> Frame \<Rightarrow> ('w, 'sc, 'p, 'd, 'q, 'r) FrameFlow
     \<Rightarrow> ('w, 'sc, 'p, 'd, 'q, 'r) FrameFlow option" where
  "flowBuild libs f F =
     map_option (\<lambda>(B, res). F\<lparr>ffBuilder := (ffBuilder F)\<lparr>brBuilder := B\<rparr>, ffPhase := BuiltFrame res,
         ffBuilt := ffBuilt F @ [(f, res)]\<rparr>)
       (buildFrame (flItm libs) (flScene libs) f (brBuilder (ffBuilder F)))"

datatype 'sc flow_event =
  FlowIngest int | FlowTake | FlowBuild | FlowAcknowledge | FlowRecord | FlowRender "'sc ViewerEvent"

text \<open>\<open>None\<close>: not the builder's next call, or a build that waits or runs into undefined behaviour.\<close>

fun flow_step ::
    "('w, 'sc, 'p, 'd, 'q, 'r) flow_libs \<Rightarrow> 'sc flow_event \<Rightarrow> ('w, 'sc, 'p, 'd, 'q, 'r) FrameFlow
     \<Rightarrow> ('w, 'sc, 'p, 'd, 'q, 'r) FrameFlow option" where
  "flow_step libs (FlowIngest now) F = Some (flowIngest libs now F)"
| "flow_step libs FlowTake F = (case ffPhase F of NoFrame \<Rightarrow> Some (flowTake libs F) | _ \<Rightarrow> None)"
| "flow_step libs FlowBuild F = (case ffPhase F of TakenFrame f \<Rightarrow> flowBuild libs f F | _ \<Rightarrow> None)"
| "flow_step libs FlowAcknowledge F =
     (case ffPhase F of
        BuiltFrame res \<Rightarrow> Some ((putStore (acknowledge res (flowStore F)) F)\<lparr>ffPhase := AcknowledgedFrame res\<rparr>)
      | _ \<Rightarrow> None)"
| "flow_step libs FlowRecord F =
     (case ffPhase F of
        AcknowledgedFrame res \<Rightarrow>
          Some (F\<lparr>ffBuilder := builder_recordResult res (ffBuilder F), ffPhase := NoFrame\<rparr>)
      | _ \<Rightarrow> None)"
| "flow_step libs (FlowRender e) F =
     Some (F\<lparr>ffViewer := viewerIteration (flVis libs) (flScene libs) (e\<lparr>veShared := flowScene F\<rparr>) (ffViewer F)\<rparr>)"

fun flow_run ::
    "('w, 'sc, 'p, 'd, 'q, 'r) flow_libs \<Rightarrow> 'sc flow_event list \<Rightarrow> ('w, 'sc, 'p, 'd, 'q, 'r) FrameFlow
     \<Rightarrow> ('w, 'sc, 'p, 'd, 'q, 'r) FrameFlow option" where
  "flow_run libs [] F = Some F"
| "flow_run libs (ev # evs) F = (case flow_step libs ev F of None \<Rightarrow> None | Some F \<Rightarrow> flow_run libs evs F)"

section \<open>The builder's calls in a row are its loop iteration\<close>

definition iteration_of :: "('w, 'sc, 'p, 'd, 'q, 'r) flow_libs \<Rightarrow> ('w, 'sc, 'p, 'd, 'q, 'r) FrameFlow
    \<Rightarrow> ('sc, 'p, 'd, 'q) BuilderRunner" where
  "iteration_of libs F =
     builderIteration (flItm libs) (flScene libs) (flRing libs) ([], []) ((ffBuilder F)\<lparr>brStore := flowStore F\<rparr>)"

lemma recordResult_store [simp]:
  "builder_recordResult res (r\<lparr>brStore := s\<rparr>) = (builder_recordResult res r)\<lparr>brStore := s\<rparr>"
  by (simp add: builder_recordResult_def Let_def)

lemma flow_builder_iteration:
  assumes "ffPhase F = NoFrame" "flow_step libs FlowTake F = Some F1"
  shows "ffPhase F1 = NoFrame \<Longrightarrow>
      (ffBuilder F1)\<lparr>brStore := flowStore F1\<rparr> = iteration_of libs F"
    and "ffPhase F1 \<noteq> NoFrame \<Longrightarrow> flow_run libs [FlowBuild, FlowAcknowledge, FlowRecord] F1 = Some F2 \<Longrightarrow>
      (ffBuilder F2)\<lparr>brStore := flowStore F2\<rparr> = iteration_of libs F \<and> ffPhase F2 = NoFrame"
proof -
  let ?t = "max (readyFrameTimeoutMs (brConfig (ffBuilder F))) 0"
  obtain s fo where d: "waitDequeueReadyFrame (flRing libs) ?t (flowStore F) = (s, fo)" by fastforce
  have F1: "F1 = (case fo of None \<Rightarrow> putStore s F | Some f \<Rightarrow> (putStore s F)\<lparr>ffPhase := TakenFrame f\<rparr>)"
    using assms d by (simp add: flowTake_def split: option.split)
  have it: "iteration_of libs F = (case fo of
      None \<Rightarrow> (ffBuilder F)\<lparr>brStore := s\<rparr>
    | Some f \<Rightarrow> (case buildFrame (flItm libs) (flScene libs) f (brBuilder (ffBuilder F)) of
         None \<Rightarrow> (ffBuilder F)\<lparr>brStore := s\<rparr>
       | Some (B, res) \<Rightarrow> builder_recordResult res ((ffBuilder F)\<lparr>brStore := acknowledge res s, brBuilder := B\<rparr>)))"
    using d by (simp add: iteration_of_def builderIteration_def others_def split: option.split)
  show "(ffBuilder F1)\<lparr>brStore := flowStore F1\<rparr> = iteration_of libs F" if "ffPhase F1 = NoFrame"
    using that F1 it assms(1) by (simp add: putStore_def split: option.splits)
  show "(ffBuilder F2)\<lparr>brStore := flowStore F2\<rparr> = iteration_of libs F \<and> ffPhase F2 = NoFrame"
    if taken: "ffPhase F1 \<noteq> NoFrame" and run: "flow_run libs [FlowBuild, FlowAcknowledge, FlowRecord] F1 = Some F2"
  proof -
    obtain f where f: "fo = Some f" using taken F1 assms(1) by (cases fo) (simp_all add: putStore_def)
    obtain B res where b: "buildFrame (flItm libs) (flScene libs) f (brBuilder (ffBuilder F)) = Some (B, res)"
      using run F1 f by (auto simp: flowBuild_def putStore_def split: option.splits)
    have swap: "(ffBuilder F)\<lparr>brStore := acknowledge res s, brBuilder := B\<rparr> =
        (ffBuilder F)\<lparr>brBuilder := B\<rparr>\<lparr>brStore := acknowledge res s\<rparr>" by simp
    have "F2 = F\<lparr>ffBuilt := ffBuilt F @ [(f, res)],
        ffIngestor := (ffIngestor F)\<lparr>irIngest := (irIngest (ffIngestor F))\<lparr>isStore := acknowledge res s\<rparr>\<rparr>,
        ffBuilder := builder_recordResult res ((ffBuilder F)\<lparr>brBuilder := B\<rparr>), ffPhase := NoFrame\<rparr>"
      using run F1 f b by (simp add: flowBuild_def putStore_def eq_commute)
    then show ?thesis using it f b by (simp add: swap)
  qed
qed

end
