(* ===== verification/FrameFlowProofs.thy ===== *)
theory FrameFlowProofs
  imports FrameFlow FrameStoreProperties
begin

text \<open>
  What the composition of the three loops keeps, in three parts: the frames between the ingestor and
  the builder, the scene the builder makes of them, and the outputs the viewer makes of the scene.
\<close>

section \<open>The frames of the store\<close>

definition newer_frame :: "Frame \<Rightarrow> Frame \<Rightarrow> bool" where
  "newer_frame f g \<longleftrightarrow> frameId f < frameId g \<and> frameTimestamp f < frameTimestamp g"

definition stamped :: "FrameIngestor \<Rightarrow> Frame \<Rightarrow> bool" where
  "stamped g f \<longleftrightarrow> frameId f < ingNextFrameId g \<and> ticks (frameTimestamp f) \<le> ingLastTimestampTicks g"

text \<open>The accepted frames have left the store for the builder (\<open>passed\<close>) or wait in it.\<close>

definition frames_ok ::
    "'q ring_ops \<Rightarrow> ('q \<Rightarrow> bool) \<Rightarrow> ('q \<Rightarrow> Frame list) \<Rightarrow> ('q \<Rightarrow> nat) \<Rightarrow> 'q FrameStore \<Rightarrow> FrameIngestor \<Rightarrow>
       Frame list \<Rightarrow> Frame list \<Rightarrow> FrameId set \<Rightarrow> bool" where
  "frames_ok ops valid elems cap s g acc passed taken \<longleftrightarrow>
     FrameStore_inv ops valid elems cap s \<and> producer_inv s g
     \<and> spHeld (store_abs elems s) = taken \<and> acc = passed @ spWaiting (store_abs elems s)
     \<and> sorted_wrt newer_frame acc \<and> (\<forall>f \<in> set acc. frame_wellformed f \<and> stamped g f)
     \<and> length acc < unat (ingNextFrameId g)"

lemma frames_okD:
  assumes "frames_ok ops valid elems cap s g acc passed taken"
  shows "FrameStore_inv ops valid elems cap s" "producer_inv s g" "spHeld (store_abs elems s) = taken"
    "acc = passed @ spWaiting (store_abs elems s)" "sorted_wrt newer_frame acc"
    "\<forall>f \<in> set acc. frame_wellformed f" "\<forall>f \<in> set acc. stamped g f" "length acc < unat (ingNextFrameId g)"
  using assms unfolding frames_ok_def by blast+

abbreviation spend :: "int \<Rightarrow> FrameIngestor \<Rightarrow> FrameIngestor" where
  "spend newest g \<equiv> \<lparr>ingNextFrameId = ingNextFrameId g + 1, ingLastTimestampTicks = newest\<rparr>"

lemma stamped_spend:
  assumes "unat (ingNextFrameId g) + 1 < 2 ^ 64" "ingLastTimestampTicks g < newest"
  shows "stamped g f \<Longrightarrow> stamped (spend newest g) f"
    and "frameId f = ingNextFrameId g \<Longrightarrow> ticks (frameTimestamp f) = newest \<Longrightarrow>
      stamped (spend newest g) f \<and> (\<forall>h. stamped g h \<longrightarrow> newer_frame h f)"
proof -
  have "ingNextFrameId g < ingNextFrameId g + 1"
    using u64_succ [OF assms(1)] by (simp add: word_less_nat_alt)
  then show "stamped g f \<Longrightarrow> stamped (spend newest g) f"
    and "frameId f = ingNextFrameId g \<Longrightarrow> ticks (frameTimestamp f) = newest \<Longrightarrow>
      stamped (spend newest g) f \<and> (\<forall>h. stamped g h \<longrightarrow> newer_frame h f)"
    using assms(2) by (auto simp: stamped_def newer_frame_def less_FrameTimestamp_def)
qed

lemma frames_ok_spent:
  assumes ok: "frames_ok ops valid elems cap s g acc passed taken"
    and n: "unat (ingNextFrameId g) + 1 < 2 ^ 64" "ingLastTimestampTicks g < newest"
  shows "frames_ok ops valid elems cap s (spend newest g) acc passed taken"
  using frames_okD [OF ok] producer_inv_spent [OF _ n, of s] stamped_spend(1) [OF n] u64_succ [OF n(1)]
  by (simp add: frames_ok_def)

lemma frames_ok_submit:
  assumes ok: "frames_ok ops valid elems cap s g acc passed taken"
    and n: "unat (ingNextFrameId g) + 1 < 2 ^ 64" "ingLastTimestampTicks g < newest"
    and f: "frame_wellformed f" "frameId f = ingNextFrameId g" "ticks (frameTimestamp f) = newest"
    and r: "submitFrame ops f s = (s', r)"
  shows "frames_ok ops valid elems cap s' (spend newest g) (if accepted r then acc @ [f] else acc) passed taken"
proof -
  note d = frames_okD [OF ok]
  note st = submit_stored [OF d(1) r]
  have p: "producer_inv s' (spend newest g)" using producer_inv_spend [OF d(2) n _ f(2,3)] st(2) by blast
  have a: "store_abs elems s' = fst (spec_submit f (store_abs elems s))"
    "accepted r = snd (spec_submit f (store_abs elems s))"
    using submit_refines [OF d(1), of f] r by simp_all
  have h: "spHeld (store_abs elems s') = taken"
    "spWaiting (store_abs elems s') = spWaiting (store_abs elems s) @ (if accepted r then [f] else [])"
    unfolding a by (auto simp: spec_submit_def d(3))
  note new = stamped_spend(2) [OF n f(2,3)]
  have "sorted_wrt newer_frame (acc @ [f])"
    using d(5,7) new by (simp add: sorted_wrt_append)
  then show ?thesis
    using st(1) p h d(4-8) new f(1) stamped_spend(1) [OF n] u64_succ [OF n(1)]
    by (simp add: frames_ok_def)
qed

lemma frames_ok_take:
  assumes ok: "frames_ok ops valid elems cap s g acc passed taken"
    and d: "waitDequeueReadyFrame ops t s = (s', fo)"
  shows "frames_ok ops valid elems cap s' g acc (passed @ (case fo of None \<Rightarrow> [] | Some f \<Rightarrow> [f]))
      (taken \<union> (case fo of None \<Rightarrow> {} | Some f \<Rightarrow> {frameId f}))"
    and "fo = (case spWaiting (store_abs elems s) of [] \<Rightarrow> None | f # _ \<Rightarrow> Some f)"
proof -
  note k = frames_okD [OF ok]
  have a: "store_abs elems s' = fst (spec_dequeue (store_abs elems s))"
    and fo: "fo = snd (spec_dequeue (store_abs elems s))"
    using wait_refines [OF k(1), of t] d by simp_all
  then show "fo = (case spWaiting (store_abs elems s) of [] \<Rightarrow> None | f # _ \<Rightarrow> Some f)"
    by (simp add: spec_dequeue_def split: list.split)
  have "producer_inv s' g"
    using producer_inv_subset [OF k(2)] stored_after_call [OF k(1), of "CallWaitDequeue t"] d by simp
  then show "frames_ok ops valid elems cap s' g acc (passed @ (case fo of None \<Rightarrow> [] | Some f \<Rightarrow> [f]))
      (taken \<union> (case fo of None \<Rightarrow> {} | Some f \<Rightarrow> {frameId f}))"
    using wait_taken(1) [OF k(1), of t] k d
    by (simp add: frames_ok_def a fo spec_dequeue_def split: list.split)
qed

lemma frames_ok_acknowledge:
  assumes ok: "frames_ok ops valid elems cap s g acc passed taken"
  shows "frames_ok ops valid elems cap (acknowledge res s) g acc passed (taken - {sbFrameId res})"
proof -
  note k = frames_okD [OF ok]
  note a = acknowledge_keeps [OF k(1) refl, of res]
  have "spStored (store_abs elems (acknowledge res s)) = spStored (store_abs elems s)"
    using a by (simp add: spec_complete_def)
  then have "producer_inv (acknowledge res s) g"
    using k(2) by (simp add: store_abs_def producer_inv_def)
  then show ?thesis using a k by (simp add: frames_ok_def spec_complete_def)
qed


lemma wellformed_readable:
  assumes "frame_wellformed f"
  shows "frame_readable f" "frame_convertible f"
  using assms
  by (auto simp: frame_wellformed_def image_layout_def frame_readable_def image_readable_def
      frame_convertible_def hasMatchingImageSizes_def)

section \<open>The scene\<close>

definition integrated :: "(Frame \<times> SceneBuildResult) list \<Rightarrow> Frame list" where
  "integrated bs = map fst (filter (\<lambda>(f, res). sbStatus res = FrameConsumed) bs)"

lemma integrated_snoc:
  "integrated (bs @ [(f, res)]) = integrated bs @ (if sbStatus res = FrameConsumed then [f] else [])"
  by (simp add: integrated_def)

lemma lock_of_published:
  "canAcquireRead (s\<lparr>sceneContents := sc, sceneVersionId := i\<rparr>) = canAcquireRead s"
  "canAcquireWrite (s\<lparr>sceneContents := sc, sceneVersionId := i\<rparr>) = canAcquireWrite s"
  by (simp_all add: canAcquireRead_def canAcquireWrite_def split: SceneReadPolicy.split)

text \<open>The version of the scene after the first, the second, \<dots> integrated frame.\<close>

definition versions_of :: "Frame list \<Rightarrow> SceneVersion list \<Rightarrow> bool" where
  "versions_of fs vs \<longleftrightarrow>
     length vs = length fs \<and> (\<forall>i < length fs. version_of_build (fs ! i) (of_nat (Suc i)) (vs ! i))"

definition built_ok :: "nat \<Rightarrow> ('sc, 'p, 'd) BuilderState \<Rightarrow> (Frame \<times> SceneBuildResult) list \<Rightarrow> bool" where
  "built_ok n B bs \<longleftrightarrow>
     pipeline_ok (bsPipeline B) \<and> canAcquireWrite (bsShared B) \<and> canAcquireRead (bsShared B)
     \<and> sceneVersionId (bsShared B) = of_nat (length (integrated bs))
     \<and> (\<exists>vs. bsVersions B = storeVersions n vs \<and> versions_of (integrated bs) vs)
     \<and> (\<forall>(f, res) \<in> set bs. sbFrameId res = frameId f
          \<and> (sbStatus res = FrameFailed \<longrightarrow> sbFailureReason res = TrackingLost))"

lemma built_okD:
  assumes "built_ok n B bs"
  shows "pipeline_ok (bsPipeline B)" "canAcquireWrite (bsShared B)" "canAcquireRead (bsShared B)"
    "sceneVersionId (bsShared B) = of_nat (length (integrated bs))"
    "\<exists>vs. bsVersions B = storeVersions n vs \<and> versions_of (integrated bs) vs"
    "\<forall>(f, res) \<in> set bs. sbFrameId res = frameId f
       \<and> (sbStatus res = FrameFailed \<longrightarrow> sbFailureReason res = TrackingLost)"
  using assms unfolding built_ok_def by blast+

lemma versions_of_add:
  assumes "versions_of fs vs" "version_of_build f (of_nat (length fs) + 1) v"
  shows "versions_of (fs @ [f]) (vs @ [v])"
  using assms by (auto simp: versions_of_def nth_append less_Suc_eq add.commute)

lemma storeVersions_add: "SceneVersionStore_add v (storeVersions n vs) = storeVersions n (vs @ [v])"
  by (simp add: storeVersions_def)

lemma build_wellformed:
  assumes laws: "itm_laws itm" and ok: "built_ok n B bs" and f: "frame_wellformed f"
  obtains B' res where "buildFrame itm this f B = Some (B', res)" "built_ok n B' (bs @ [(f, res)])"
    "sbFrameId res = frameId f"
proof -
  note d = built_okD [OF ok]
  note r = wellformed_readable [OF f]
  show thesis
  proof (cases rule: buildFrame_outcome [OF laws d(1) r(1) d(2), of this, case_names failed consumed])
    case (failed pl reason)
    then have reason: "reason = TrackingLost" using r(2) by simp
    show thesis
    proof (rule that [OF failed(4)])
      show "built_ok n (B\<lparr>bsPipeline := pl\<rparr>) (bs @ [(f, failedBuild f reason)])"
        using d failed(3) reason by (simp add: built_ok_def integrated_snoc failedBuild_def)
      show "sbFrameId (failedBuild f reason) = frameId f" by (simp add: failedBuild_def)
    qed
  next
    case (consumed pl sc version)
    let ?i = "sceneVersionId (bsShared B) + 1"
    let ?res = "\<lparr>sbStatus = FrameConsumed, sbFailureReason = NoBuildFailure, sbFrameId = frameId f,
      sbSceneVersionId = Some ?i\<rparr>"
    obtain vs where vs: "bsVersions B = storeVersions n vs" "versions_of (integrated bs) vs" using d(5) by blast
    have "versions_of (integrated bs @ [f]) (vs @ [version])"
      using versions_of_add [OF vs(2)] consumed(4) d(4) by simp
    then have v: "\<exists>vs'. SceneVersionStore_add version (bsVersions B) = storeVersions n vs'
        \<and> versions_of (integrated bs @ [f]) vs'"
      unfolding vs(1) storeVersions_add by blast
    show thesis
    proof (rule that [OF consumed(5)])
      show "built_ok n \<lparr>bsPipeline = pl,
          bsShared = (bsShared B)\<lparr>sceneContents := sc, sceneVersionId := ?i\<rparr>,
          bsVersions = SceneVersionStore_add version (bsVersions B)\<rparr> (bs @ [(f, ?res)])"
        using d consumed(2) v by (simp add: built_ok_def integrated_snoc lock_of_published)
    qed simp
  qed
qed

section \<open>The outputs\<close>

text \<open>The outputs show versions that exist, none older than the output before.\<close>

definition outputs_versioned :: "nat \<Rightarrow> RenderOutput list \<Rightarrow> bool" where
  "outputs_versioned n outs \<longleftrightarrow>
     sorted (map (\<lambda>out. unat (roSceneVersionId out)) outs) \<and> (\<forall>out \<in> set outs. unat (roSceneVersionId out) \<le> n)"

lemma outputs_versioned_mono: "outputs_versioned m outs \<Longrightarrow> m \<le> n \<Longrightarrow> outputs_versioned n outs"
  by (auto simp: outputs_versioned_def intro: le_trans)

lemma outputs_versioned_drop: "outputs_versioned n outs \<Longrightarrow> outputs_versioned n (drop d outs)"
  using sorted_wrt_drop [of "(\<le>)" "map (\<lambda>out. unat (roSceneVersionId out)) outs" d]
  by (auto simp: outputs_versioned_def drop_map dest: in_set_dropD)

lemma outputs_versioned_publish:
  assumes "outputs_versioned n outs" "unat (roSceneVersionId out) = n"
  shows "outputs_versioned n (drop d outs @ [out])"
  using outputs_versioned_drop [OF assms(1), of d] assms(2) by (auto simp: outputs_versioned_def sorted_append)

lemma renderAndRecord_versioned:
  assumes inv: "viewer_inv vis r" and e: "viewer_event_ok e"
    and v: "outputs_versioned n (published r)" "unat (sceneVersionId (veShared e)) = n"
  shows "outputs_versioned n (published (renderAndRecord vis this e idle p r))"
proof (cases rule: renderAndRecord_outcome [OF inv e, of p this idle, case_names refused rendered])
  case (refused V)
  then show ?thesis using v by (simp add: recordIdle_def)
next
  case (rendered vl out)
  have ok: "outputs_ok (vwOutputs (vrViewer r))" using inv by (simp add: viewer_inv_def)
  obtain d where d: "osHistory (RenderOutputStore_publish out (vwOutputs (vrViewer r))) = drop d (published r) @ [out]"
    using publish_outputs(2) [OF ok] by blast
  have "published (renderAndRecord vis this e idle p r) = drop d (published r) @ [out]"
    using d by (simp add: rendered(5) recordOutput_def Let_def)
  moreover have "unat (roSceneVersionId out) = n" using rendered(3) v(2) by (simp add: output_for_def)
  ultimately show ?thesis using outputs_versioned_publish [OF v(1)] by simp
qed

lemma viewerIteration_versioned:
  assumes "viewer_inv vis r" "viewer_event_ok e"
    and "outputs_versioned n (published r)" "unat (sceneVersionId (veShared e)) = n"
  shows "outputs_versioned n (published (viewerIteration vis this e r))"
  using renderAndRecord_versioned [OF assms] assms(3)
  by (simp add: viewerIteration_def recordIdle_def split: ViewerLoopPolicy.split option.split)


section \<open>One ingest\<close>

lemma ingestIteration_frames:
  assumes laws: "k4a_laws api held"
    and ok: "frames_ok ops valid elems cap (isStore (irIngest r)) (isIngestor (irIngest r)) acc passed taken"
    and n: "unat (ingNextFrameId (isIngestor (irIngest r))) + 1 < 2 ^ 64"
    and r': "r' = ingestIteration api ops cam now r"
  shows "frames_ok ops valid elems cap (isStore (irIngest r')) (isIngestor (irIngest r'))
      (acc @ newlyAccepted r r') passed taken
    \<and> irSubmittedFrameCount r' = irSubmittedFrameCount r + of_nat (length (newlyAccepted r r'))
    \<and> unat (ingNextFrameId (isIngestor (irIngest r'))) \<le> unat (ingNextFrameId (isIngestor (irIngest r))) + 1"
proof -
  let ?S = "irIngest r"
  obtain S' res where c: "captureAndSubmit api ops cam (captureTimeoutMs (irConfig r)) now ?S = (S', Some res)"
    using captureAndSubmit_live(2) [OF laws] by (metis option.exhaust prod.exhaust)
  have fields: "irIngest r' = S'"
    "irSubmittedFrameCount r' = irSubmittedFrameCount r + (if submitted res then 1 else 0)"
    using r' c by (simp_all add: ingestIteration_def ingest_recordResult_def Let_def)
  have kept: "newlyAccepted r r' = []" if "\<not> submitted res"
    using fields that by (simp add: newlyAccepted_def)
  show ?thesis
  proof (cases rule: captureAndSubmit_cases [OF laws c, case_names unchanged spent offered])
    case unchanged
    then show ?thesis using fields kept ok by (simp add: submitted_def)
  next
    case (spent newest)
    have "\<not> submitted res" using spent(4) by (simp add: submitted_def)
    then show ?thesis
      using fields kept spent(1,3) frames_ok_spent [OF ok n spent(2)] u64_succ [OF n] by simp
  next
    case (offered newest f sr)
    have s: "submitted res = accepted sr"
      by (simp add: offered(7) submitted_def makeSubmittedResult_def makeModelRejectedResult_def)
    have new: "newlyAccepted r r' = (if accepted sr then [f] else [])"
      using accept_effect [OF frames_okD(1) [OF ok], of f] offered(1) fields s by (simp add: newlyAccepted_def)
    then show ?thesis
      using frames_ok_submit [OF ok n offered(2,4,5,6,1)] fields s offered(3) u64_succ [OF n]
      by (cases "accepted sr") simp_all
  qed
qed

section \<open>The composition\<close>

fun inProgress :: "build_phase \<Rightarrow> Frame list" where
  "inProgress (TakenFrame f) = [f]"
| "inProgress _ = []"

fun unacknowledged :: "build_phase \<Rightarrow> FrameId set" where
  "unacknowledged (TakenFrame f) = {frameId f}"
| "unacknowledged (BuiltFrame res) = {sbFrameId res}"
| "unacknowledged _ = {}"

fun unrecorded :: "build_phase \<Rightarrow> SceneBuildResult list" where
  "unrecorded (BuiltFrame res) = [res]"
| "unrecorded (AcknowledgedFrame res) = [res]"
| "unrecorded _ = []"

abbreviation flowIngestor :: "('w, 'sc, 'p, 'd, 'q, 'r) FrameFlow \<Rightarrow> FrameIngestor" where
  "flowIngestor F \<equiv> isIngestor (irIngest (ffIngestor F))"

definition consumed_of :: "SceneBuildResult list \<Rightarrow> u64" where
  "consumed_of rs = of_nat (length (filter (\<lambda>res. sbStatus res = FrameConsumed) rs))"

definition counts_ok :: "('w, 'sc, 'p, 'd, 'q, 'r) FrameFlow \<Rightarrow> bool" where
  "counts_ok F \<longleftrightarrow>
     irSubmittedFrameCount (ffIngestor F) = of_nat (length (ffAccepted F))
     \<and> brBuildAttemptCount (ffBuilder F) + of_nat (length (unrecorded (ffPhase F))) = of_nat (length (ffBuilt F))
     \<and> brConsumedFrameCount (ffBuilder F) + consumed_of (unrecorded (ffPhase F))
         = of_nat (length (integrated (ffBuilt F)))"

definition flow_laws ::
    "('w, 'sc, 'p, 'd, 'q, 'r) flow_libs \<Rightarrow> ('w \<Rightarrow> handle multiset) \<Rightarrow> bool" where
  "flow_laws libs held \<longleftrightarrow> k4a_laws (flK4a libs) held \<and> itm_laws (flItm libs)"

definition flow_inv ::
    "('w, 'sc, 'p, 'd, 'q, 'r) flow_libs \<Rightarrow> ('q \<Rightarrow> bool) \<Rightarrow> ('q \<Rightarrow> Frame list) \<Rightarrow> ('q \<Rightarrow> nat) \<Rightarrow> nat \<Rightarrow>
       ('w, 'sc, 'p, 'd, 'q, 'r) FrameFlow \<Rightarrow> bool" where
  "flow_inv libs valid elems cap n F \<longleftrightarrow>
     frames_ok (flRing libs) valid elems cap (flowStore F) (flowIngestor F) (ffAccepted F)
       (map fst (ffBuilt F) @ inProgress (ffPhase F)) (unacknowledged (ffPhase F))
     \<and> counts_ok F \<and> built_ok n (brBuilder (ffBuilder F)) (ffBuilt F)
     \<and> viewer_inv (flVis libs) (ffViewer F)
     \<and> outputs_versioned (length (integrated (ffBuilt F))) (published (ffViewer F))"

lemma flow_invD:
  assumes "flow_inv libs valid elems cap n F"
  shows "frames_ok (flRing libs) valid elems cap (flowStore F) (flowIngestor F) (ffAccepted F)
       (map fst (ffBuilt F) @ inProgress (ffPhase F)) (unacknowledged (ffPhase F))"
    "counts_ok F" "built_ok n (brBuilder (ffBuilder F)) (ffBuilt F)" "viewer_inv (flVis libs) (ffViewer F)"
    "outputs_versioned (length (integrated (ffBuilt F))) (published (ffViewer F))"
  using assms unfolding flow_inv_def by blast+

lemma flow_inv_new:
  assumes "ring_laws (flRing libs) valid elems cap" "vis_laws (flVis libs)"
  shows "flow_inv libs valid elems cap (fcVersions config) (flow_new libs config w sc)"
proof -
  let ?s = "FrameStore_new (flRing libs) (fcStore config)"
  have s: "FrameStore_inv (flRing libs) valid elems cap ?s"
    "producer_inv ?s FrameIngestor_new"
    using ingest_inv_new [OF assms(1), of "fcStore config"] by (simp_all add: ingest_inv_def new_ingest_def)
  have "frames_ok (flRing libs) valid elems cap ?s FrameIngestor_new [] [] {}"
    using s store_abs_new [OF assms(1), of "fcStore config"]
    by (simp add: frames_ok_def spec_new_def FrameIngestor_new_def)
  moreover have "versions_of [] []" "storeVersions n [] = SceneVersionStore_new n" for n
    by (simp_all add: versions_of_def storeVersions_def)
  then have "built_ok (fcVersions config)
      \<lparr>bsPipeline = InfiniTamPipeline_new (fcBuilder config),
       bsShared = SharedSceneState_new (fcPolicy config) sc,
       bsVersions = SceneVersionStore_new (fcVersions config)\<rparr> []"
    by (auto simp: built_ok_def pipeline_ok_new canAcquireWrite_def canAcquireRead_def
        SharedSceneState_new_def integrated_def split: SceneReadPolicy.split intro!: exI [of _ "[]"])
  moreover have "viewer_inv (flVis libs) (SceneViewerRunner_new (fcViewer config) (RenderOutputStore_new (fcOutputs config)))"
    using assms(2) outputs_ok_new [of "fcOutputs config"]
    by (simp add: SceneViewerRunner_new_def viewer_inv_def viewer_ok_new RenderOutputStore_new_def)
  ultimately show ?thesis
    by (simp add: flow_inv_def flow_new_def new_ingest_def FrameIngestorRunner_new_def SceneBuilderRunner_new_def
        counts_ok_def consumed_of_def integrated_def outputs_versioned_def SceneViewerRunner_new_def
        RenderOutputStore_new_def)
qed


lemma length_integrated: "length (integrated bs) \<le> length bs"
  by (simp add: integrated_def)

lemma built_bounded:
  assumes "flow_inv libs valid elems cap n F"
  shows "length (ffBuilt F) < 2 ^ 64"
proof -
  note k = frames_okD [OF flow_invD(1) [OF assms]]
  have "length (ffBuilt F) \<le> length (ffAccepted F)" using k(4) by simp
  also have "\<dots> < unat (ingNextFrameId (flowIngestor F))" by (rule k(8))
  also have "\<dots> < 2 ^ 64" using unsigned_less [of "ingNextFrameId (flowIngestor F)"] by simp
  finally show ?thesis .
qed

lemma flow_ingest_inv:
  assumes laws: "flow_laws libs held" and inv: "flow_inv libs valid elems cap n F"
    and u: "unat (ingNextFrameId (flowIngestor F)) + 1 < 2 ^ 64"
  shows "flow_inv libs valid elems cap n (flowIngest libs now F)
    \<and> unat (ingNextFrameId (flowIngestor (flowIngest libs now F))) \<le> unat (ingNextFrameId (flowIngestor F)) + 1"
proof -
  note d = flow_invD [OF inv]
  have "k4a_laws (flK4a libs) held" using laws by (simp add: flow_laws_def)
  note i = ingestIteration_frames [OF this d(1) u refl, of "flCamera libs" now]
  show ?thesis
    using i d(2-5) by (simp add: flow_inv_def flowIngest_def Let_def counts_ok_def)
qed

lemma flow_take_inv:
  assumes inv: "flow_inv libs valid elems cap n F" and ph: "ffPhase F = NoFrame"
  shows "flow_inv libs valid elems cap n (flowTake libs F)"
    and "flowIngestor (flowTake libs F) = flowIngestor F"
proof -
  note d = flow_invD [OF inv]
  let ?t = "max (readyFrameTimeoutMs (brConfig (ffBuilder F))) 0"
  obtain s fo where w: "waitDequeueReadyFrame (flRing libs) ?t (flowStore F) = (s, fo)" by fastforce
  note t = frames_ok_take(1) [OF d(1) w]
  show "flow_inv libs valid elems cap n (flowTake libs F)"
    using t d(2-5) w ph
    by (cases fo) (simp_all add: flow_inv_def flowTake_def putStore_def counts_ok_def consumed_of_def)
  show "flowIngestor (flowTake libs F) = flowIngestor F"
    using w by (cases fo) (simp_all add: flowTake_def putStore_def)
qed

lemma flow_build_inv:
  assumes laws: "flow_laws libs held" and inv: "flow_inv libs valid elems cap n F"
    and ph: "ffPhase F = TakenFrame f"
  obtains F' res where "flowBuild libs f F = Some F'" "flow_inv libs valid elems cap n F'"
    "flowIngestor F' = flowIngestor F" "ffPhase F' = BuiltFrame res"
proof -
  note d = flow_invD [OF inv]
  note k = frames_okD [OF d(1)]
  have "f \<in> set (ffAccepted F)" using k(4) ph by simp
  then have f: "frame_wellformed f" using k(6) by blast
  have itm: "itm_laws (flItm libs)" using laws by (simp add: flow_laws_def)
  obtain B res where b: "buildFrame (flItm libs) (flScene libs) f (brBuilder (ffBuilder F)) = Some (B, res)"
    "built_ok n B (ffBuilt F @ [(f, res)])" "sbFrameId res = frameId f"
    by (rule build_wellformed [OF itm d(3) f])
  let ?F = "F\<lparr>ffBuilder := (ffBuilder F)\<lparr>brBuilder := B\<rparr>, ffPhase := BuiltFrame res,
    ffBuilt := ffBuilt F @ [(f, res)]\<rparr>"
  have "frames_ok (flRing libs) valid elems cap (flowStore F) (flowIngestor F) (ffAccepted F)
      (map fst (ffBuilt F @ [(f, res)])) {sbFrameId res}"
    using d(1) ph b(3) by simp
  moreover have "counts_ok ?F"
    using d(2) ph by (simp add: counts_ok_def consumed_of_def integrated_snoc)
  moreover have "outputs_versioned (length (integrated (ffBuilt F @ [(f, res)]))) (published (ffViewer F))"
    using outputs_versioned_mono [OF d(5)] by (simp add: integrated_snoc)
  ultimately have "flow_inv libs valid elems cap n ?F" using b(2) d(4) by (simp add: flow_inv_def)
  then show thesis using that [of ?F res] b(1) by (simp add: flowBuild_def)
qed

lemma flow_render_inv:
  assumes inv: "flow_inv libs valid elems cap n F"
  shows "flow_inv libs valid elems cap n (F\<lparr>ffViewer :=
    viewerIteration (flVis libs) (flScene libs) (e\<lparr>veShared := flowScene F\<rparr>) (ffViewer F)\<rparr>)"
proof -
  note d = flow_invD [OF inv]
  have e: "viewer_event_ok (e\<lparr>veShared := flowScene F\<rparr>)"
    using built_okD(3) [OF d(3)] by (simp add: viewer_event_ok_def)
  have "length (integrated (ffBuilt F)) < 2 ^ 64"
    using built_bounded [OF inv] length_integrated [of "ffBuilt F"] by simp
  then have v: "unat (sceneVersionId (flowScene F)) = length (integrated (ffBuilt F))"
    using built_okD(4) [OF d(3)] by (simp add: unat_of_nat take_bit_nat_eq_self)
  show ?thesis
    using d viewerIteration_inv [OF e d(4)] viewerIteration_versioned [OF d(4) e d(5)] v
    by (simp add: flow_inv_def counts_ok_def)
qed

lemma flow_step_inv:
  assumes laws: "flow_laws libs held" and inv: "flow_inv libs valid elems cap n F"
    and step: "flow_step libs ev F = Some F'"
    and u: "\<And>now. ev = FlowIngest now \<Longrightarrow> unat (ingNextFrameId (flowIngestor F)) + 1 < 2 ^ 64"
  shows "flow_inv libs valid elems cap n F'
    \<and> unat (ingNextFrameId (flowIngestor F')) \<le> unat (ingNextFrameId (flowIngestor F)) + 1"
proof (cases ev)
  case (FlowIngest now)
  then show ?thesis using flow_ingest_inv [OF laws inv u [OF FlowIngest], of now] step by auto
next
  case FlowTake
  then have "ffPhase F = NoFrame" "F' = flowTake libs F"
    using step by (auto split: build_phase.splits)
  then show ?thesis using flow_take_inv [OF inv] by simp
next
  case FlowBuild
  then obtain f where f: "ffPhase F = TakenFrame f" "flowBuild libs f F = Some F'"
    using step by (auto split: build_phase.splits)
  then obtain F2 where "flowBuild libs f F = Some F2" "flow_inv libs valid elems cap n F2"
    "flowIngestor F2 = flowIngestor F"
    using flow_build_inv [OF laws inv f(1)] by blast
  then show ?thesis using f(2) by simp
next
  case FlowAcknowledge
  then obtain res where r: "ffPhase F = BuiltFrame res"
    "F' = (putStore (acknowledge res (flowStore F)) F)\<lparr>ffPhase := AcknowledgedFrame res\<rparr>"
    using step by (auto split: build_phase.splits)
  note d = flow_invD [OF inv]
  show ?thesis
    using frames_ok_acknowledge [OF d(1), of res] d(2-5) r(1)
    by (simp add: r(2) flow_inv_def putStore_def counts_ok_def)
next
  case FlowRecord
  then obtain res where r: "ffPhase F = AcknowledgedFrame res"
    "F' = F\<lparr>ffBuilder := builder_recordResult res (ffBuilder F), ffPhase := NoFrame\<rparr>"
    using step by (auto split: build_phase.splits)
  have keep: "brBuilder (builder_recordResult res r) = brBuilder r" for r
    by (simp add: builder_recordResult_def Let_def)
  have "counts_ok F'"
    using flow_invD(2) [OF inv] r(1)
    by (auto simp: r(2) counts_ok_def builder_recordResult_def Let_def consumed_of_def)
  then show ?thesis
    using flow_invD [OF inv] r(1) by (simp add: r(2) flow_inv_def keep)
next
  case (FlowRender e)
  then have "F' = F\<lparr>ffViewer :=
      viewerIteration (flVis libs) (flScene libs) (e\<lparr>veShared := flowScene F\<rparr>) (ffViewer F)\<rparr>"
    using step by simp
  then show ?thesis using flow_render_inv [OF inv, of e] by simp
qed

lemma flow_run_inv:
  assumes laws: "flow_laws libs held"
  shows "flow_inv libs valid elems cap n F \<Longrightarrow>
    unat (ingNextFrameId (flowIngestor F)) + length evs < 2 ^ 64 \<Longrightarrow> flow_run libs evs F = Some F' \<Longrightarrow>
    flow_inv libs valid elems cap n F'"
proof (induction evs arbitrary: F)
  case (Cons ev evs)
  then obtain F1 where F1: "flow_step libs ev F = Some F1" "flow_run libs evs F1 = Some F'"
    by (auto split: option.splits)
  have "unat (ingNextFrameId (flowIngestor F)) + 1 < 2 ^ 64" using Cons.prems(2) by simp
  note i = flow_step_inv [OF laws Cons.prems(1) F1(1) this]
  show ?case by (rule Cons.IH [OF conjunct1 [OF i] _ F1(2)]) (use i Cons.prems(2) in simp)
qed simp


section \<open>Draining the store\<close>

lemma flow_run_append:
  "flow_run libs (as @ bs) F = (case flow_run libs as F of None \<Rightarrow> None | Some F \<Rightarrow> flow_run libs bs F)"
  by (induction as arbitrary: F) (simp_all split: option.split)

text \<open>What is left of the builder's iteration, and the schedule that empties a store of \<open>k\<close> frames.\<close>

fun rest_of_iteration :: "build_phase \<Rightarrow> 'sc flow_event list" where
  "rest_of_iteration NoFrame = []"
| "rest_of_iteration (TakenFrame f) = [FlowBuild, FlowAcknowledge, FlowRecord]"
| "rest_of_iteration (BuiltFrame res) = [FlowAcknowledge, FlowRecord]"
| "rest_of_iteration (AcknowledgedFrame res) = [FlowRecord]"

definition drain :: "build_phase \<Rightarrow> nat \<Rightarrow> 'sc flow_event list" where
  "drain ph k =
     rest_of_iteration ph @ concat (replicate k [FlowTake, FlowBuild, FlowAcknowledge, FlowRecord])"

lemma drain_phase: "drain ph k = rest_of_iteration ph @ drain NoFrame k"
  by (simp add: drain_def)

lemma drain_Suc:
  "drain NoFrame (Suc k) = [FlowTake, FlowBuild, FlowAcknowledge, FlowRecord] @ drain NoFrame k"
  by (simp add: drain_def)

definition settled ::
    "('w, 'sc, 'p, 'd, 'q, 'r) flow_libs \<Rightarrow> ('q \<Rightarrow> bool) \<Rightarrow> ('q \<Rightarrow> Frame list) \<Rightarrow> ('q \<Rightarrow> nat) \<Rightarrow> nat \<Rightarrow>
       ('w, 'sc, 'p, 'd, 'q, 'r) FrameFlow \<Rightarrow> Frame list \<Rightarrow> ('w, 'sc, 'p, 'd, 'q, 'r) FrameFlow \<Rightarrow> bool" where
  "settled libs valid elems cap n F fs F' \<longleftrightarrow>
     flow_inv libs valid elems cap n F' \<and> ffPhase F' = NoFrame \<and> ffAccepted F' = ffAccepted F
     \<and> map fst (ffBuilt F') = map fst (ffBuilt F) @ fs \<and> ffViewer F' = ffViewer F"

lemma settle_acknowledged:
  assumes laws: "flow_laws libs held" and inv: "flow_inv libs valid elems cap n F"
    and ph: "ffPhase F = AcknowledgedFrame res"
  shows "\<exists>F'. flow_run libs [FlowRecord] F = Some F' \<and> settled libs valid elems cap n F [] F'"
proof -
  obtain F' where F': "flow_step libs FlowRecord F = Some F'" "ffPhase F' = NoFrame"
    "ffAccepted F' = ffAccepted F" "ffBuilt F' = ffBuilt F" "ffViewer F' = ffViewer F"
    using ph by simp
  then show ?thesis using flow_step_inv [OF laws inv F'(1)] by (simp add: settled_def)
qed

lemma settle_built:
  assumes laws: "flow_laws libs held" and inv: "flow_inv libs valid elems cap n F"
    and ph: "ffPhase F = BuiltFrame res"
  shows "\<exists>F'. flow_run libs [FlowAcknowledge, FlowRecord] F = Some F' \<and> settled libs valid elems cap n F [] F'"
proof -
  obtain F1 where F1: "flow_step libs FlowAcknowledge F = Some F1" "ffPhase F1 = AcknowledgedFrame res"
    "ffAccepted F1 = ffAccepted F" "ffBuilt F1 = ffBuilt F" "ffViewer F1 = ffViewer F"
    using ph by (simp add: putStore_def)
  have "flow_inv libs valid elems cap n F1" using flow_step_inv [OF laws inv F1(1)] by simp
  from settle_acknowledged [OF laws this F1(2)] show ?thesis
    using F1(1,3-5) by (simp add: settled_def)
qed

lemma settle_taken:
  assumes laws: "flow_laws libs held" and inv: "flow_inv libs valid elems cap n F"
    and ph: "ffPhase F = TakenFrame f"
  shows "\<exists>F'. flow_run libs [FlowBuild, FlowAcknowledge, FlowRecord] F = Some F'
    \<and> settled libs valid elems cap n F [f] F'"
proof -
  obtain F1 res where F1: "flowBuild libs f F = Some F1" "flow_inv libs valid elems cap n F1"
    "ffPhase F1 = BuiltFrame res"
    by (rule flow_build_inv [OF laws inv ph])
  then have same: "ffAccepted F1 = ffAccepted F" "map fst (ffBuilt F1) = map fst (ffBuilt F) @ [f]"
    "ffViewer F1 = ffViewer F"
    by (auto simp: flowBuild_def)
  have step: "flow_step libs FlowBuild F = Some F1" using F1(1) ph by simp
  show ?thesis
    using settle_built [OF laws F1(2,3)] same
    by (simp only: flow_run.simps(2) [of libs FlowBuild] step option.case settled_def append_Nil2)
qed

lemma settle:
  assumes laws: "flow_laws libs held" and inv: "flow_inv libs valid elems cap n F"
  shows "\<exists>F'. flow_run libs (rest_of_iteration (ffPhase F)) F = Some F'
    \<and> settled libs valid elems cap n F (inProgress (ffPhase F)) F'"
proof (cases "ffPhase F")
  case NoFrame
  then show ?thesis using inv by (simp add: settled_def)
next
  case (TakenFrame f)
  then show ?thesis
    using settle_taken [OF laws inv TakenFrame]
    by (simp only: rest_of_iteration.simps inProgress.simps)
next
  case (BuiltFrame res)
  then show ?thesis
    using settle_built [OF laws inv BuiltFrame] by (simp only: rest_of_iteration.simps inProgress.simps)
next
  case (AcknowledgedFrame res)
  then show ?thesis
    using settle_acknowledged [OF laws inv AcknowledgedFrame]
    by (simp only: rest_of_iteration.simps inProgress.simps)
qed

lemma drain_waiting:
  assumes laws: "flow_laws libs held"
  shows "flow_inv libs valid elems cap n F \<Longrightarrow> ffPhase F = NoFrame \<Longrightarrow>
    spWaiting (store_abs elems (flowStore F)) = ws \<Longrightarrow>
    \<exists>F'. flow_run libs (drain NoFrame (length ws)) F = Some F' \<and> settled libs valid elems cap n F ws F'"
proof (induction ws arbitrary: F)
  case Nil
  then show ?case by (simp add: drain_def settled_def)
next
  case (Cons f ws)
  note d = flow_invD [OF Cons.prems(1)]
  let ?F1 = "flowTake libs F"
  let ?t = "max (readyFrameTimeoutMs (brConfig (ffBuilder F))) 0"
  obtain s fo where w: "waitDequeueReadyFrame (flRing libs) ?t (flowStore F) = (s, fo)" by fastforce
  have fo: "fo = Some f" using frames_ok_take(2) [OF d(1) w] Cons.prems(3) by simp
  have F1: "ffPhase ?F1 = TakenFrame f" "ffAccepted ?F1 = ffAccepted F" "ffBuilt ?F1 = ffBuilt F"
    "ffViewer ?F1 = ffViewer F"
    using w by (simp_all add: fo flowTake_def putStore_def)
  obtain F2 where F2: "flow_run libs [FlowBuild, FlowAcknowledge, FlowRecord] ?F1 = Some F2"
    "settled libs valid elems cap n ?F1 [f] F2"
    using settle_taken [OF laws flow_take_inv(1) [OF Cons.prems(1,2)] F1(1)] by blast
  have inv2: "flow_inv libs valid elems cap n F2" "ffPhase F2 = NoFrame"
    and same2: "ffAccepted F2 = ffAccepted F" "map fst (ffBuilt F2) = map fst (ffBuilt F) @ [f]"
      "ffViewer F2 = ffViewer F"
    using F2(2) F1 by (simp_all add: settled_def)
  have "spWaiting (store_abs elems (flowStore F2)) = ws"
    using frames_okD(4) [OF flow_invD(1) [OF inv2(1)]] frames_okD(4) [OF d(1)] inv2(2) same2
      Cons.prems(2,3) by simp
  from Cons.IH [OF inv2 this] obtain F3 where F3: "flow_run libs (drain NoFrame (length ws)) F2 = Some F3"
    "settled libs valid elems cap n F2 ws F3" by blast
  have "flow_step libs FlowTake F = Some ?F1" using Cons.prems(2) by simp
  then have "flow_run libs [FlowTake, FlowBuild, FlowAcknowledge, FlowRecord] F = Some F2"
    by (simp only: flow_run.simps(2) [of libs FlowTake] option.case F2(1))
  then have "flow_run libs (drain NoFrame (length (f # ws))) F = Some F3"
    by (simp only: list.size(4) add_Suc_right add_0_right drain_Suc flow_run_append option.case F3(1))
  then show ?case using F3(2) same2 by (simp add: settled_def)
qed

lemma drain_all:
  assumes laws: "flow_laws libs held" and inv: "flow_inv libs valid elems cap n F"
  obtains F' where
    "flow_run libs (drain (ffPhase F) (length (spWaiting (store_abs elems (flowStore F))))) F = Some F'"
    "flow_inv libs valid elems cap n F'" "ffPhase F' = NoFrame" "ffAccepted F' = ffAccepted F"
    "map fst (ffBuilt F') = ffAccepted F" "ffViewer F' = ffViewer F"
proof -
  let ?ws = "spWaiting (store_abs elems (flowStore F))"
  note k = frames_okD [OF flow_invD(1) [OF inv]]
  obtain F1 where F1: "flow_run libs (rest_of_iteration (ffPhase F)) F = Some F1"
    "settled libs valid elems cap n F (inProgress (ffPhase F)) F1"
    using settle [OF laws inv] by blast
  have i: "flow_inv libs valid elems cap n F1" "ffPhase F1 = NoFrame"
    and same: "ffAccepted F1 = ffAccepted F" "map fst (ffBuilt F1) = map fst (ffBuilt F) @ inProgress (ffPhase F)"
    using F1(2) by (simp_all add: settled_def)
  have "ffAccepted F1 = map fst (ffBuilt F1) @ spWaiting (store_abs elems (flowStore F1))"
    using frames_okD(4) [OF flow_invD(1) [OF i(1)]] i(2) by simp
  then have "spWaiting (store_abs elems (flowStore F1)) = ?ws"
    unfolding same using k(4) by simp
  from drain_waiting [OF laws i this] obtain F2 where
    F2: "flow_run libs (drain NoFrame (length ?ws)) F1 = Some F2" "settled libs valid elems cap n F1 ?ws F2"
    by blast
  show thesis
  proof (rule that)
    show "flow_run libs (drain (ffPhase F) (length ?ws)) F = Some F2"
      by (subst drain_phase) (simp only: flow_run_append F1(1) option.case F2(1))
  qed (use F1(2) F2(2) k(4) in \<open>simp_all add: settled_def\<close>)
qed

end
