(* ===== verification/MainProgram.thy ===== *)
theory MainProgram
  imports CommandLine FrameIngestProofs SceneBuilderRunner SceneViewerRunner ViewerPoseSeeder ViewerDebugSession
    WebRtcFrame
begin

text \<open>
  \<open>src/main.cpp\<close>: the program as one transition system.  The main thread goes through the start
  sequence, the wait and the cleanup, one call for each step; between two of its steps the loop threads
  of the three runners, the WebRTC server and the signal handler act in any order.

  The objects that \<open>main\<close> shares are held once: the camera's world and the frame store in the ingestor,
  the scene and its versions in the builder, the output store in the viewer, the pose store in
  \<open>mnPoses\<close>; a step of another component works on them by way of \<open>builder_call\<close> and \<open>webrtc_call\<close>.  An
  iteration of a loop is one step; what other threads do while it waits or computes (frames submitted,
  poses and scenes as it sees them) is part of its event, so that every interleaving has a run.
  Console output is not modelled.
\<close>

section \<open>State\<close>

datatype cleanup_step =
  StopWebRtc | RequestViewerStop | JoinViewer | RequestBuilderStop | JoinBuilder
  | RequestIngestorStop | JoinIngestor | StopCameras | CloseDevice

datatype main_pc =
  OpeningCamera | StartingCamera | StartingIngestor | StartingBuilder | StartingViewer
  | StartingWebRtc | SeedingPose | Watching | Cleaning cleanup_step int | Exited int

record ('w, 'q, 'sc, 'p, 'd, 'r, 'j) MainState =
  mnPc :: main_pc
  mnConfig :: AppConfig
  mnShouldStop :: bool
  mnCamera :: CameraCapture
  mnIngestor :: "('w, 'q) IngestRunner"
  mnBuilder :: "('sc, 'p, 'd, 'q) BuilderRunner"
  mnViewer :: "'r SceneViewerRunner"
  mnPoses :: ViewerPoseStore
  mnWebRtc :: "(SignallingHandler option \<times> 'j WebRtcServer) option"
  mnDebug :: "ViewerFrameDumper \<times> ViewerDebugSession"
  mnDisk :: Disk

text \<open>The libraries, the SDK's initial configuration and the address of the shared scene.\<close>

record ('w, 'q, 'sc, 'p, 'd, 'r, 'j) main_libs =
  mlK4a :: "'w k4a_ops"
  mlRing :: "'q ring_ops"
  mlItm :: "('sc, 'p, 'd) itm_ops"
  mlVis :: "('sc, 'r) vis_ops"
  mlJson :: "'j json_ops"
  mlInitConfig :: k4a_device_configuration
  mlScene :: nat

text \<open>What the constructors and the main thread's steps get from outside.\<close>

record ('w, 'sc) startup_env =
  suWorld :: 'w
  suScene :: 'sc
  suDisk :: Disk
  suNow :: int
  suOutputDirectory :: string
  suDirError :: bool
  suLogOpens :: bool

record 'q main_env =
  meGst :: gst_ops
  meListens :: bool
  meDirectIpv4 :: "string option"
  meSeed :: "'q seed_env"
  meSeedStart :: int
  meDump :: session_env
  meDumpStart :: int

definition kViewerSeedTimeout :: int where
  "kViewerSeedTimeout = 30000"

definition kViewerOutputTimeout :: int where
  "kViewerOutputTimeout = 30000"

section \<open>Entry\<close>

definition renderOutputHistoryCapacity :: "AppConfig \<Rightarrow> nat" where
  "renderOutputHistoryCapacity config =
     max (outputHistoryCapacity (appViewer config))
       (if dumpEnabled (viewerDump (appDebug config)) then dumpMaxFrames (viewerDump (appDebug config)) else 0)"

text \<open>What the debug session samples: the counters of the three runners' statuses.\<close>

definition debugCounters ::
    "('w, 'q) IngestRunner \<Rightarrow> ('sc, 'p, 'd, 'q) BuilderRunner \<Rightarrow> 'r SceneViewerRunner \<Rightarrow> ViewerDebugCounters" where
  "debugCounters ingestor builder viewer =
     \<lparr>dcSubmittedFrameCount = unat (irSubmittedFrameCount ingestor),
      dcConsumedFrameCount = unat (brConsumedFrameCount builder),
      dcPublishedOutputCount = unat (vrPublishedOutputCount viewer),
      dcCachedOutputCount = unat (vrCachedOutputCount viewer)\<rparr>"

text \<open>The default capacity of the version store is 32.\<close>

definition main_objects ::
    "('w, 'q, 'sc, 'p, 'd, 'r, 'j) main_libs \<Rightarrow> ('w, 'sc) startup_env \<Rightarrow> AppConfig
     \<Rightarrow> ('w, 'q, 'sc, 'p, 'd, 'r, 'j) MainState" where
  "main_objects libs env config =
     (let frameStore = FrameStore_new (mlRing libs) defaultFrameStoreConfig;
          ingestor = FrameIngestorRunner_new (captureRuntime (appCapture config))
            \<lparr>isWorld = suWorld env, isStore = frameStore, isIngestor = FrameIngestor_new\<rparr>;
          builder = SceneBuilderRunner_new (appBuilder config) frameStore
            (SharedSceneState_new (sceneReadPolicy (appScene config)) (suScene env)) (SceneVersionStore_new 32);
          viewer = SceneViewerRunner_new (appViewer config)
            (RenderOutputStore_new (renderOutputHistoryCapacity config))
      in \<lparr>mnPc = OpeningCamera, mnConfig = config, mnShouldStop = False,
          mnCamera = CameraCapture_new (mlInitConfig libs), mnIngestor = ingestor, mnBuilder = builder,
          mnViewer = viewer, mnPoses = ViewerPoseStore_new, mnWebRtc = None,
          mnDebug = ViewerDebugSession_new (viewerDump (appDebug config)) True (suOutputDirectory env) (suNow env)
            (debugCounters ingestor builder viewer) (suDirError env) (suLogOpens env),
          mnDisk = suDisk env\<rparr>)"

text \<open>The exit code of a refused start, or the objects.\<close>

definition main_enter ::
    "('w, 'q, 'sc, 'p, 'd, 'r, 'j) main_libs \<Rightarrow> ('w, 'sc) startup_env \<Rightarrow> string list \<Rightarrow> AppConfig
     \<Rightarrow> int + ('w, 'q, 'sc, 'p, 'd, 'r, 'j) MainState" where
  "main_enter libs env argv defaults =
     (let parseResult = parseCommandLine argv defaults in
      if \<not> parsed parseResult then Inl 1
      else if \<not> captureEnabled (appCapture (resultConfig parseResult)) then Inl 1
      else Inr (main_objects libs env (resultConfig parseResult)))"

section \<open>The main thread\<close>

definition cameraState ::
    "('w, 'q, 'sc, 'p, 'd, 'r, 'j) MainState \<Rightarrow> 'w \<times> CameraCapture" where
  "cameraState S = (isWorld (irIngest (mnIngestor S)), mnCamera S)"

definition putCamera ::
    "'w \<times> CameraCapture \<Rightarrow> ('w, 'q, 'sc, 'p, 'd, 'r, 'j) MainState \<Rightarrow> ('w, 'q, 'sc, 'p, 'd, 'r, 'j) MainState" where
  "putCamera wc S =
     S\<lparr>mnCamera := snd wc,
       mnIngestor := (mnIngestor S)\<lparr>irIngest := (irIngest (mnIngestor S))\<lparr>isWorld := fst wc\<rparr>\<rparr>\<rparr>"

text \<open>A start either goes on to \<open>next\<close> or to the cleanup with exit code 1.\<close>

definition goes_on ::
    "bool \<Rightarrow> main_pc \<Rightarrow> ('w, 'q, 'sc, 'p, 'd, 'r, 'j) MainState \<Rightarrow> ('w, 'q, 'sc, 'p, 'd, 'r, 'j) MainState" where
  "goes_on ok next S = S\<lparr>mnPc := (if ok then next else Cleaning StopWebRtc 1)\<rparr>"

definition openCamera ::
    "'w k4a_ops \<Rightarrow> ('w, 'q, 'sc, 'p, 'd, 'r, 'j) MainState \<Rightarrow> ('w, 'q, 'sc, 'p, 'd, 'r, 'j) MainState" where
  "openCamera api S =
     (case CameraCapture_open api (deviceIndex (captureCamera (appCapture (mnConfig S)))) (cameraState S) of
        (wc, ok) \<Rightarrow> goes_on ok StartingCamera (putCamera wc S))"

definition startCamera ::
    "'w k4a_ops \<Rightarrow> k4a_device_configuration \<Rightarrow> ('w, 'q, 'sc, 'p, 'd, 'r, 'j) MainState
     \<Rightarrow> ('w, 'q, 'sc, 'p, 'd, 'r, 'j) MainState" where
  "startCamera api init S =
     (case makeK4aDeviceConfig init (captureCamera (appCapture (mnConfig S))) (appImageSize (mnConfig S)) of
        None \<Rightarrow> goes_on False StartingIngestor S
      | Some config \<Rightarrow>
          (case CameraCapture_start api config (cameraState S) of
             (wc, ok) \<Rightarrow> goes_on ok StartingIngestor (putCamera wc S)))"

definition startWebRtc ::
    "'q main_env \<Rightarrow> ('w, 'q, 'sc, 'p, 'd, 'r, 'j) MainState \<Rightarrow> ('w, 'q, 'sc, 'p, 'd, 'r, 'j) MainState" where
  "startWebRtc env S =
     (let config = streamWebrtc (appStreaming (mnConfig S)) in
      if rtcEnabled config then
        S\<lparr>mnPc := SeedingPose,
          mnWebRtc := Some (WebRtcServer_start (meListens env)
            (None, WebRtcServer_new config (appImageSize (mnConfig S)) (meDirectIpv4 env) (mnPoses S)))\<rparr>
      else S\<lparr>mnPc := SeedingPose\<rparr>)"

text \<open>\<open>None\<close>: the call does not return or is undefined.\<close>

definition seedPose ::
    "'q main_env \<Rightarrow> ('w, 'q, 'sc, 'p, 'd, 'r, 'j) MainState \<Rightarrow> ('w, 'q, 'sc, 'p, 'd, 'r, 'j) MainState option" where
  "seedPose env S =
     map_option (\<lambda>(poses, ok). goes_on ok Watching (S\<lparr>mnPoses := poses\<rparr>))
       (seedOnce (meSeed env) (appImageSize (mnConfig S)) (meSeedStart env) kViewerSeedTimeout (mnPoses S))"

text \<open>Without dumping the main thread polls the flag of the signal handler.\<close>

definition watch ::
    "'q main_env \<Rightarrow> ('w, 'q, 'sc, 'p, 'd, 'r, 'j) MainState \<Rightarrow> ('w, 'q, 'sc, 'p, 'd, 'r, 'j) MainState option" where
  "watch env S =
     (if dumpingEnabled (fst (mnDebug S)) then
        map_option (\<lambda>(session, disk, ok). goes_on ok (Cleaning StopWebRtc 0) (S\<lparr>mnDebug := session, mnDisk := disk\<rparr>))
          (waitForCompletion (meDump env) (meDumpStart env) kViewerOutputTimeout (mnDebug S) (mnDisk S))
      else if mnShouldStop S then Some (S\<lparr>mnPc := Cleaning StopWebRtc 0\<rparr>)
      else Some S)"

text \<open>One call of \<open>cleanup\<close>; a \<open>join\<close> blocks (\<open>None\<close>) while its thread runs.\<close>

fun cleanup ::
    "'w k4a_ops \<Rightarrow> gst_ops \<Rightarrow> cleanup_step \<Rightarrow> int \<Rightarrow> ('w, 'q, 'sc, 'p, 'd, 'r, 'j) MainState
     \<Rightarrow> ('w, 'q, 'sc, 'p, 'd, 'r, 'j) MainState option" where
  "cleanup api gst StopWebRtc code S =
     (case mnWebRtc S of
        None \<Rightarrow> Some (S\<lparr>mnPc := Cleaning RequestViewerStop code\<rparr>)
      | Some server \<Rightarrow>
          map_option (\<lambda>server. S\<lparr>mnPc := Cleaning RequestViewerStop code, mnWebRtc := Some server\<rparr>)
            (WebRtcServer_stop gst server))"
| "cleanup api gst RequestViewerStop code S =
     Some (S\<lparr>mnPc := Cleaning JoinViewer code, mnViewer := SceneViewerRunner_requestStop (mnViewer S)\<rparr>)"
| "cleanup api gst JoinViewer code S =
     map_option (\<lambda>r. S\<lparr>mnPc := Cleaning RequestBuilderStop code, mnViewer := r\<rparr>) (SceneViewerRunner_join (mnViewer S))"
| "cleanup api gst RequestBuilderStop code S =
     Some (S\<lparr>mnPc := Cleaning JoinBuilder code, mnBuilder := SceneBuilderRunner_requestStop (mnBuilder S)\<rparr>)"
| "cleanup api gst JoinBuilder code S =
     map_option (\<lambda>r. S\<lparr>mnPc := Cleaning RequestIngestorStop code, mnBuilder := r\<rparr>) (SceneBuilderRunner_join (mnBuilder S))"
| "cleanup api gst RequestIngestorStop code S =
     Some (S\<lparr>mnPc := Cleaning JoinIngestor code, mnIngestor := FrameIngestorRunner_requestStop (mnIngestor S)\<rparr>)"
| "cleanup api gst JoinIngestor code S =
     map_option (\<lambda>r. S\<lparr>mnPc := Cleaning StopCameras code, mnIngestor := r\<rparr>) (FrameIngestorRunner_join (mnIngestor S))"
| "cleanup api gst StopCameras code S =
     Some ((if CameraCapture_isStarted (mnCamera S) then putCamera (CameraCapture_stop api (cameraState S)) S else S)
       \<lparr>mnPc := Cleaning CloseDevice code\<rparr>)"
| "cleanup api gst CloseDevice code S =
     Some ((if CameraCapture_isOpen (mnCamera S) then putCamera (CameraCapture_close api (cameraState S)) S else S)
       \<lparr>mnPc := Exited code\<rparr>)"

definition main_call ::
    "('w, 'q, 'sc, 'p, 'd, 'r, 'j) main_libs \<Rightarrow> 'q main_env \<Rightarrow> ('w, 'q, 'sc, 'p, 'd, 'r, 'j) MainState
     \<Rightarrow> ('w, 'q, 'sc, 'p, 'd, 'r, 'j) MainState option" where
  "main_call libs env S =
     (case mnPc S of
        OpeningCamera \<Rightarrow> Some (openCamera (mlK4a libs) S)
      | StartingCamera \<Rightarrow> Some (startCamera (mlK4a libs) (mlInitConfig libs) S)
      | StartingIngestor \<Rightarrow>
          (case FrameIngestorRunner_start (mnIngestor S) of
             (r, ok) \<Rightarrow> Some (goes_on ok StartingBuilder (S\<lparr>mnIngestor := r\<rparr>)))
      | StartingBuilder \<Rightarrow>
          (case SceneBuilderRunner_start (mnBuilder S) of
             (r, ok) \<Rightarrow> Some (goes_on ok StartingViewer (S\<lparr>mnBuilder := r\<rparr>)))
      | StartingViewer \<Rightarrow>
          (case SceneViewerRunner_start (mnViewer S) of
             (r, ok) \<Rightarrow> Some (goes_on ok StartingWebRtc (S\<lparr>mnViewer := r\<rparr>)))
      | StartingWebRtc \<Rightarrow> Some (startWebRtc env S)
      | SeedingPose \<Rightarrow> seedPose env S
      | Watching \<Rightarrow> watch env S
      | Cleaning c code \<Rightarrow> cleanup (mlK4a libs) (meGst env) c code S
      | Exited code \<Rightarrow> None)"

section \<open>The other threads\<close>

text \<open>A loop thread tests its flag, or runs one iteration in the given environment.\<close>

datatype 'e loop_event = AtHead | Iterates 'e

fun runner_event_of :: "'e loop_event \<Rightarrow> 'e runner_event" where
  "runner_event_of AtHead = LoopHead"
| "runner_event_of (Iterates e) = LoopIteration e"

datatype ('q, 'sc, 'j) main_event =
    MainThread "'q main_env"
  | IngestThread "int loop_event"
  | BuilderThread "(store_call list \<times> store_call list) loop_event"
  | ViewerThread "'sc ViewerEvent loop_event"
  | WebRtcThreads "'j rtc_event"
  | TerminationSignal

text \<open>The builder works on the ingestor's frame store.\<close>

definition builder_call ::
    "(('sc, 'p, 'd, 'q) BuilderRunner \<Rightarrow> ('sc, 'p, 'd, 'q) BuilderRunner option)
     \<Rightarrow> ('w, 'q, 'sc, 'p, 'd, 'r, 'j) MainState \<Rightarrow> ('w, 'q, 'sc, 'p, 'd, 'r, 'j) MainState option" where
  "builder_call f S =
     map_option (\<lambda>r. S\<lparr>mnBuilder := r,
         mnIngestor := (mnIngestor S)\<lparr>irIngest := (irIngest (mnIngestor S))\<lparr>isStore := brStore r\<rparr>\<rparr>\<rparr>)
       (f ((mnBuilder S)\<lparr>brStore := isStore (irIngest (mnIngestor S))\<rparr>))"

text \<open>The threads of the WebRTC server run from its start to its stop, and work on the pose store.\<close>

definition webrtc_call ::
    "('j WebRtcServer \<Rightarrow> 'j WebRtcServer option) \<Rightarrow> ('w, 'q, 'sc, 'p, 'd, 'r, 'j) MainState
     \<Rightarrow> ('w, 'q, 'sc, 'p, 'd, 'r, 'j) MainState option" where
  "webrtc_call f S =
     (case mnWebRtc S of
        None \<Rightarrow> None
      | Some (sig, server) \<Rightarrow>
          if \<not> wsRunning server then None
          else map_option (\<lambda>server. S\<lparr>mnWebRtc := Some (sig, server), mnPoses := wsPoses server\<rparr>)
            (f (server\<lparr>wsPoses := mnPoses S\<rparr>)))"

definition onTerminationSignal ::
    "('w, 'q, 'sc, 'p, 'd, 'r, 'j) MainState \<Rightarrow> ('w, 'q, 'sc, 'p, 'd, 'r, 'j) MainState" where
  "onTerminationSignal S = S\<lparr>mnShouldStop := True\<rparr>"

fun main_step ::
    "('w, 'q, 'sc, 'p, 'd, 'r, 'j) main_libs \<Rightarrow> ('q, 'sc, 'j) main_event
     \<Rightarrow> ('w, 'q, 'sc, 'p, 'd, 'r, 'j) MainState \<Rightarrow> ('w, 'q, 'sc, 'p, 'd, 'r, 'j) MainState option" where
  "main_step libs (MainThread env) S = main_call libs env S"
| "main_step libs (IngestThread e) S =
     map_option (\<lambda>r. S\<lparr>mnIngestor := r\<rparr>)
       (runner_step (ingestIteration (mlK4a libs) (mlRing libs) (mnCamera S)) (runner_event_of e) (mnIngestor S))"
| "main_step libs (BuilderThread e) S =
     builder_call
       (runner_step (builderIteration (mlItm libs) (mlScene libs) (mlRing libs)) (runner_event_of e)) S"
| "main_step libs (ViewerThread e) S =
     map_option (\<lambda>r. S\<lparr>mnViewer := r\<rparr>)
       (runner_step (viewerIteration (mlVis libs) (mlScene libs)) (runner_event_of e) (mnViewer S))"
| "main_step libs (WebRtcThreads e) S = webrtc_call (rtc_step (mlJson libs) e) S"
| "main_step libs TerminationSignal S = Some (onTerminationSignal S)"

fun main_run ::
    "('w, 'q, 'sc, 'p, 'd, 'r, 'j) main_libs \<Rightarrow> ('q, 'sc, 'j) main_event list
     \<Rightarrow> ('w, 'q, 'sc, 'p, 'd, 'r, 'j) MainState \<Rightarrow> ('w, 'q, 'sc, 'p, 'd, 'r, 'j) MainState option" where
  "main_run libs [] S = Some S"
| "main_run libs (ev # evs) S = (case main_step libs ev S of None \<Rightarrow> None | Some S \<Rightarrow> main_run libs evs S)"

end
