(* ===== verification/FrameFlowProperties.thy ===== *)
theory FrameFlowProperties
  imports FrameFlowProofs FrameIngestProperties SceneBuilderProperties SceneViewerProperties MainProgram
begin

text \<open>
  The properties of the composed loops: what becomes of every frame that the store accepts, on every
  interleaving of the ingestor, the builder's calls and the viewer.
\<close>

section \<open>A run for the witnesses\<close>

definition sample_flow_libs ::
    "(handle list, nat, nat, unit, Frame list \<times> nat, nat) flow_libs" where
  "sample_flow_libs =
     \<lparr>flK4a = sample_k4a, flRing = list_ring, flItm = sample_itm, flVis = sample_vis,
      flScene = this_scene, flCamera = sampleCamera\<rparr>"

definition sample_flow_config :: flow_config where
  "sample_flow_config =
     \<lparr>fcStore = sampleConfig, fcCapture = captureRuntime defaultCaptureConfig, fcBuilder = defaultBuilderConfig,
      fcViewer = \<lparr>loopPolicy = EventLoop, loopPeriodMs = 5, outputHistoryCapacity = 8\<rparr>,
      fcPolicy = Balanced, fcVersions = 4, fcOutputs = 8\<rparr>"

definition sample_flow_start ::
    "(handle list, nat, nat, unit, Frame list \<times> nat, nat) FrameFlow" where
  "sample_flow_start = flow_new sample_flow_libs sample_flow_config [DeviceRef 1] 0"

text \<open>
  The store holds two frames: it refuses a third while the first is being built, and takes one once
  the first is acknowledged.  The viewer renders before and after that build.
\<close>

definition sample_flow_events :: "nat flow_event list" where
  "sample_flow_events =
     [FlowIngest 7, FlowIngest 7, FlowTake, FlowIngest 9, FlowRender (sampleEvent (Some (sampleRequest 3))),
      FlowBuild, FlowAcknowledge, FlowIngest 9, FlowRender (sampleEvent (Some (sampleRequest 4))),
      FlowRecord, FlowTake, FlowBuild]"

lemma sample_flow_run:
  "map_option (\<lambda>F. (map frameId (ffAccepted F), map (frameId \<circ> fst) (ffBuilt F),
       sceneVersionId (flowScene F), map roSceneVersionId (published (ffViewer F)),
       vrLoopPoseGeneration (ffViewer F)))
     (flow_run sample_flow_libs sample_flow_events sample_flow_start) =
   Some ([1, 2, 4], [1, 2], 2, [0, 1], 4)"
  by code_simp


section \<open>The objects of the main program\<close>

definition main_flow_libs ::
    "('w, 'q, 'sc, 'p, 'd, 'r, 'j) main_libs \<Rightarrow> CameraCapture \<Rightarrow> ('w, 'sc, 'p, 'd, 'q, 'r) flow_libs" where
  "main_flow_libs libs cam =
     \<lparr>flK4a = mlK4a libs, flRing = mlRing libs, flItm = mlItm libs, flVis = mlVis libs,
      flScene = mlScene libs, flCamera = cam\<rparr>"

definition main_flow_config :: "AppConfig \<Rightarrow> flow_config" where
  "main_flow_config config =
     \<lparr>fcStore = defaultFrameStoreConfig, fcCapture = captureRuntime (appCapture config),
      fcBuilder = appBuilder config, fcViewer = appViewer config,
      fcPolicy = sceneReadPolicy (appScene config), fcVersions = 32,
      fcOutputs = renderOutputHistoryCapacity config\<rparr>"

lemma main_objects_flow:
  assumes "F = flow_new (main_flow_libs libs cam) (main_flow_config config) (suWorld env) (suScene env)"
  shows "ffIngestor F = mnIngestor (main_objects libs env config)"
    "ffBuilder F = mnBuilder (main_objects libs env config)"
    "ffViewer F = mnViewer (main_objects libs env config)"
  by (simp_all add: assms flow_new_def main_objects_def Let_def new_ingest_def main_flow_libs_def
      main_flow_config_def)

section \<open>Reachable states\<close>

lemma flow_reached:
  assumes "k4a_laws (flK4a libs) owned" "ring_laws (flRing libs) valid elems cap"
    "itm_laws (flItm libs)" "vis_laws (flVis libs)"
    and "length evs < 2 ^ 64 - 1" "flow_run libs evs (flow_new libs config w sc) = Some F"
  shows "flow_laws libs owned" "flow_inv libs valid elems cap (fcVersions config) F"
proof -
  show laws: "flow_laws libs owned" using assms(1,3) by (simp add: flow_laws_def)
  have "unat (ingNextFrameId (flowIngestor (flow_new libs config w sc))) + length evs < 2 ^ 64"
    using assms(5) by (simp add: flow_new_def FrameIngestorRunner_new_def new_ingest_def FrameIngestor_new_def)
  then show "flow_inv libs valid elems cap (fcVersions config) F"
    by (rule flow_run_inv [OF laws flow_inv_new [OF assms(2,4)] _ assms(6)])
qed

lemma flow_version:
  assumes "flow_inv libs valid elems cap n F"
  shows "unat (SharedScene_version (flowScene F)) = length (integrated (ffBuilt F))"
proof -
  have "length (integrated (ffBuilt F)) < 2 ^ 64"
    using built_bounded [OF assms] length_integrated [of "ffBuilt F"] by simp
  then show ?thesis
    using built_okD(4) [OF flow_invD(3) [OF assms]]
    by (simp add: SharedScene_version_def unat_of_nat take_bit_nat_eq_self)
qed

text \<open>A viewer that finds a newer well-formed request shows the scene it finds.\<close>

lemma viewer_shows_request:
  assumes inv: "viewer_inv vis r" and e: "viewer_event_ok e"
    and p: "psLatestPose (vePosesAtEntry e) = Some p" "pose_valid p" "vrLoopPoseGeneration r < vpGeneration p"
  obtains out where "output_for p (sceneVersionId (veShared e)) out"
    "RenderOutputStore_latest (vwOutputs (vrViewer (viewerIteration vis this e r))) = Some out"
proof -
  obtain idle where it: "viewerIteration vis this e r = renderAndRecord vis this e idle p r"
    using p(1,3)
    by (cases "loopPolicy (vrConfig r)")
      (simp_all add: viewerIteration_def waitForNewer_def hasNewerGeneration_def ViewerPoseStore_latest_def)
  show thesis
  proof (cases rule: renderAndRecord_outcome [OF inv e, of p this idle, case_names refused rendered])
    case refused
    then show thesis using p(2) by simp
  next
    case (rendered vl out)
    show thesis
      by (rule that [OF rendered(3)])
        (simp add: it rendered(5) recordOutput_def Let_def RenderOutputStore_latest_def RenderOutputStore_publish_def)
  qed
qed

text \<open>The version store of \<open>n\<close> versions after any number of integrated frames.\<close>

lemma versions_recalled:
  assumes vs: "versions_of fs vs" and n: "length fs < 2 ^ 64"
    and i: "i < length fs" "length fs \<le> i + max 1 n"
  shows "\<exists>v. SceneVersionStore_get (storeVersions n vs) (of_nat (Suc i)) = Some v
    \<and> version_of_build (fs ! i) (of_nat (Suc i)) v"
proof -
  have len: "length vs = length fs" and b: "version_of_build (fs ! j) (of_nat (Suc j)) (vs ! j)"
    if "j < length fs" for j
    using vs that by (simp_all add: versions_of_def)
  have id: "svVersionId (vs ! j) = of_nat (Suc j)" if "j < length fs" for j
    using b [OF that] by (simp add: version_of_build_def)
  have small: "unat (of_nat (Suc j) :: u64) = Suc j" if "j < length fs" for j
    using that n by (simp add: unat_of_nat take_bit_nat_eq_self del: of_nat_Suc)
  have "distinct (map svVersionId vs)"
    unfolding distinct_conv_nth
  proof (intro allI impI)
    fix j k assume jk: "j < length (map svVersionId vs)" "k < length (map svVersionId vs)" "j \<noteq> k"
    then have l: "j < length fs" "k < length fs" using vs by (simp_all add: versions_of_def)
    have "unat (svVersionId (vs ! j)) \<noteq> unat (svVersionId (vs ! k))"
      using small l jk(3) id by (metis Suc_inject)
    then show "map svVersionId vs ! j \<noteq> map svVersionId vs ! k" using jk by auto
  qed
  moreover have "vs ! i \<in> set (drop (length vs - max 1 n) vs)"
  proof -
    have l: "length vs = length fs" using vs by (simp add: versions_of_def)
    have "drop (length vs - max 1 n) vs ! (i - (length vs - max 1 n)) = vs ! i"
      "i - (length vs - max 1 n) < length (drop (length vs - max 1 n) vs)"
      using i l by simp_all
    then show ?thesis by (metis nth_mem)
  qed
  ultimately have "SceneVersionStore_get (storeVersions n vs) (of_nat (Suc i)) = Some (vs ! i)"
    using version_store_keeps_newest [of vs n "of_nat (Suc i)" "vs ! i"] id [OF i(1)] by simp
  then show ?thesis using b [OF i(1)] by blast
qed

section \<open>Properties\<close>

text \<open>C1: No frame is lost, repeated or reordered on its way into the scene, whatever the interleaving.
  After any run of fewer than 2^64 - 1 steps the frames that the store accepted, in order, are those
  that were built, the one that is being built and those that wait, with strictly increasing ids and
  timestamps; a build fails only when InfiniTAM lost track; the scene version counts the integrated
  frames, and each of the last ones that the version store has room for is recorded under its number;
  the viewer's outputs show versions that exist, none older than the output before.\<close>

theorem frames_reach_the_scene:
  assumes "k4a_laws (flK4a libs) owned" "ring_laws (flRing libs) valid elems cap"
    "itm_laws (flItm libs)" "vis_laws (flVis libs)"
    and "length evs < 2 ^ 64 - 1" "flow_run libs evs (flow_new libs config w sc) = Some F"
  shows "ffAccepted F =
      map fst (ffBuilt F) @ inProgress (ffPhase F) @ elems (rqQueue (fsQueue (flowStore F)))
    \<and> sorted_wrt newer_frame (ffAccepted F)
    \<and> (\<forall>(f, res) \<in> set (ffBuilt F). sbFrameId res = frameId f
         \<and> (sbStatus res = FrameFailed \<longrightarrow> sbFailureReason res = TrackingLost))
    \<and> unat (SharedScene_version (flowScene F)) = length (integrated (ffBuilt F))
    \<and> (\<forall>i < length (integrated (ffBuilt F)).
         length (integrated (ffBuilt F)) \<le> i + max 1 (fcVersions config) \<longrightarrow>
           (\<exists>v. SceneVersionStore_get (bsVersions (brBuilder (ffBuilder F))) (of_nat (Suc i)) = Some v
              \<and> version_of_build (integrated (ffBuilt F) ! i) (of_nat (Suc i)) v))
    \<and> outputs_versioned (length (integrated (ffBuilt F))) (RenderOutputStore_recent n (vwOutputs (vrViewer (ffViewer F))))"
proof -
  note inv = flow_reached(2) [OF assms]
  note d = flow_invD [OF inv]
  note k = frames_okD [OF d(1)]
  note b = built_okD [OF d(3)]
  have n: "length (integrated (ffBuilt F)) < 2 ^ 64"
    using built_bounded [OF inv] length_integrated [of "ffBuilt F"] by simp
  have recent: "RenderOutputStore_recent n (vwOutputs (vrViewer (ffViewer F))) =
      drop (length (published (ffViewer F)) - n) (published (ffViewer F))"
    by (simp add: recent_drop)
  have versions: "\<exists>v. SceneVersionStore_get (bsVersions (brBuilder (ffBuilder F))) (of_nat (Suc i)) = Some v
      \<and> version_of_build (integrated (ffBuilt F) ! i) (of_nat (Suc i)) v"
    if "i < length (integrated (ffBuilt F))"
      "length (integrated (ffBuilt F)) \<le> i + max 1 (fcVersions config)" for i
    using b(5) versions_recalled [OF _ n that] by metis
  have "ffAccepted F =
      map fst (ffBuilt F) @ inProgress (ffPhase F) @ elems (rqQueue (fsQueue (flowStore F)))"
    using k(4) by (simp add: store_abs_def)
  then show ?thesis
    using k(5) b(6) flow_version [OF inv] versions outputs_versioned_drop [OF d(5)] unfolding recent by blast
qed


lemma sample_flow_laws:
  "k4a_laws (flK4a sample_flow_libs) mset" "ring_laws (flRing sample_flow_libs) (\<lambda>_. True) fst snd"
  "itm_laws (flItm sample_flow_libs)" "vis_laws (flVis sample_flow_libs)"
  using sample_k4a_laws list_ring_laws sample_itm_laws sample_vis_laws by (simp_all add: sample_flow_libs_def)

theorem frames_reach_the_scene_witness:
  "\<exists>F. flow_run sample_flow_libs sample_flow_events sample_flow_start = Some F
     \<and> map frameId (ffAccepted F) = [1, 2, 4] \<and> map (frameId \<circ> fst) (ffBuilt F) = [1, 2]
     \<and> sorted_wrt newer_frame (ffAccepted F) \<and> length (integrated (ffBuilt F)) = 2"
proof -
  obtain F where F: "flow_run sample_flow_libs sample_flow_events sample_flow_start = Some F"
    "map frameId (ffAccepted F) = [1, 2, 4]" "map (frameId \<circ> fst) (ffBuilt F) = [1, 2]"
    "sceneVersionId (flowScene F) = 2"
    using sample_flow_run by auto
  have "length sample_flow_events < 2 ^ 64 - 1" by (simp add: sample_flow_events_def)
  from frames_reach_the_scene [OF sample_flow_laws this F(1) [unfolded sample_flow_start_def]]
  have "sorted_wrt newer_frame (ffAccepted F)"
    "unat (SharedScene_version (flowScene F)) = length (integrated (ffBuilt F))" by blast+
  then show ?thesis using F by (simp add: SharedScene_version_def)
qed

text \<open>C2: Every frame that was accepted is built and shown.  From any state of such a run the builder's
  next calls, four for each waiting frame after the rest of its iteration, all return; they build every
  accepted frame and give all of them back to the store; and the next iteration of the viewer that finds
  a newer well-formed request publishes an output of the scene into which all of them went, under the
  version that counts the integrated frames.\<close>

theorem accepted_frames_are_shown:
  assumes "k4a_laws (flK4a libs) owned" "ring_laws (flRing libs) valid elems cap"
    "itm_laws (flItm libs)" "vis_laws (flVis libs)"
    and "length evs < 2 ^ 64 - 1" "flow_run libs evs (flow_new libs config w sc) = Some F"
    and "psLatestPose (vePosesAtEntry e) = Some p" "pose_valid p"
    "vrLoopPoseGeneration (ffViewer F) < vpGeneration p"
  shows "\<exists>F' out. flow_run libs
        (drain (ffPhase F) (length (elems (rqQueue (fsQueue (flowStore F))))) @ [FlowRender e]) F = Some F'
    \<and> ffAccepted F' = ffAccepted F \<and> map fst (ffBuilt F') = ffAccepted F
    \<and> brBuildAttemptCount (ffBuilder F') = of_nat (length (ffAccepted F))
    \<and> elems (rqQueue (fsQueue (flowStore F'))) = [] \<and> rqInFlightFrameIds (fsQueue (flowStore F')) = {}
    \<and> RenderOutputStore_latest (vwOutputs (vrViewer (ffViewer F'))) = Some out
    \<and> output_for p (SharedScene_version (flowScene F')) out
    \<and> unat (roSceneVersionId out) = length (integrated (ffBuilt F'))"
proof -
  note inv = flow_reached [OF assms(1-6)]
  have waiting: "spWaiting (store_abs elems s) = elems (rqQueue (fsQueue s))" for s
    by (simp add: store_abs_def)
  obtain F1 where F1:
    "flow_run libs (drain (ffPhase F) (length (elems (rqQueue (fsQueue (flowStore F)))))) F = Some F1"
    "flow_inv libs valid elems cap (fcVersions config) F1" "ffPhase F1 = NoFrame"
    "ffAccepted F1 = ffAccepted F" "map fst (ffBuilt F1) = ffAccepted F" "ffViewer F1 = ffViewer F"
    using drain_all [OF inv] unfolding waiting by blast
  note d = flow_invD [OF F1(2)]
  note k = frames_okD [OF d(1)]
  have built: "brBuildAttemptCount (ffBuilder F1) = of_nat (length (ffAccepted F))"
    using d(2) F1(3) arg_cong [OF F1(5), of length] by (simp add: counts_ok_def)
  have empty: "elems (rqQueue (fsQueue (flowStore F1))) = []" "rqInFlightFrameIds (fsQueue (flowStore F1)) = {}"
    using k(3,4) F1(3-5) by (simp_all add: store_abs_def)
  let ?e = "e\<lparr>veShared := flowScene F1\<rparr>"
  let ?F = "F1\<lparr>ffViewer := viewerIteration (flVis libs) (flScene libs) ?e (ffViewer F1)\<rparr>"
  have run: "flow_run libs
      (drain (ffPhase F) (length (elems (rqQueue (fsQueue (flowStore F))))) @ [FlowRender e]) F = Some ?F"
    by (simp add: flow_run_append F1(1))
  have "viewer_event_ok ?e" using built_okD(3) [OF d(3)] by (simp add: viewer_event_ok_def)
  then obtain out where out: "output_for p (SharedScene_version (flowScene F1)) out"
    "RenderOutputStore_latest (vwOutputs (vrViewer (ffViewer ?F))) = Some out"
    using viewer_shows_request [OF d(4), of ?e p "flScene libs"] assms(7-9) F1(6)
    by (auto simp: SharedScene_version_def)
  have "unat (SharedScene_version (flowScene F1)) = length (integrated (ffBuilt F1))"
    by (rule flow_version [OF F1(2)])
  then have "unat (roSceneVersionId out) = length (integrated (ffBuilt ?F))"
    using out(1) by (simp add: output_for_def)
  then show ?thesis
    using run out F1(4,5) built empty by (intro exI [of _ ?F] exI [of _ out]) simp
qed

theorem accepted_frames_are_shown_witness:
  "\<exists>F F' out. flow_run sample_flow_libs sample_flow_events sample_flow_start = Some F
     \<and> flow_run sample_flow_libs (drain (ffPhase F) (length (fst (rqQueue (fsQueue (flowStore F)))))
          @ [FlowRender (sampleEvent (Some (sampleRequest 5)))]) F = Some F'
     \<and> map (frameId \<circ> fst) (ffBuilt F') = [1, 2, 4]
     \<and> RenderOutputStore_latest (vwOutputs (vrViewer (ffViewer F'))) = Some out \<and> roPoseGeneration out = 5"
proof -
  obtain F where F: "flow_run sample_flow_libs sample_flow_events sample_flow_start = Some F"
    "map frameId (ffAccepted F) = [1, 2, 4]" "vrLoopPoseGeneration (ffViewer F) = 4"
    using sample_flow_run by auto
  have len: "length sample_flow_events < 2 ^ 64 - 1" by (simp add: sample_flow_events_def)
  have e: "psLatestPose (vePosesAtEntry (sampleEvent (Some (sampleRequest 5)))) = Some (sampleRequest 5)"
    "pose_valid (sampleRequest 5)" "vrLoopPoseGeneration (ffViewer F) < vpGeneration (sampleRequest 5)"
    by (simp add: sampleEvent_def posesWith_def, code_simp, simp add: F(3) sampleRequest_def)
  from accepted_frames_are_shown [OF sample_flow_laws len F(1) [unfolded sample_flow_start_def] e]
  obtain F' out where "flow_run sample_flow_libs (drain (ffPhase F) (length (fst (rqQueue (fsQueue (flowStore F)))))
          @ [FlowRender (sampleEvent (Some (sampleRequest 5)))]) F = Some F'"
    "map fst (ffBuilt F') = ffAccepted F" "output_for (sampleRequest 5) (SharedScene_version (flowScene F')) out"
    "RenderOutputStore_latest (vwOutputs (vrViewer (ffViewer F'))) = Some out" by blast
  then show ?thesis
    using F(1,2) by (auto simp: output_for_def sampleRequest_def simp flip: map_map)
qed

end
