(* ===== verification/MainProgramProofs.thy ===== *)
theory MainProgramProofs
  imports MainProgram
begin

text \<open>
  The invariant of the running program: its resources nest like a stack, and at each point of the main
  thread it is known how far the stack has been built up or taken down.
\<close>

section \<open>Reachable states\<close>

definition main_event_ok ::
    "('q, 'sc, 'j) main_event \<Rightarrow> ('w, 'q, 'sc, 'p, 'd, 'r, 'j) MainState \<Rightarrow> bool" where
  "main_event_ok ev S \<longleftrightarrow>
     (case (ev, mnWebRtc S) of
        (WebRtcThreads e, Some (sig, server)) \<Rightarrow> event_ok e (server\<lparr>wsPoses := mnPoses S\<rparr>)
      | _ \<Rightarrow> True)"

inductive main_reach ::
    "('w, 'q, 'sc, 'p, 'd, 'r, 'j) main_libs \<Rightarrow> ('w, 'q, 'sc, 'p, 'd, 'r, 'j) MainState
     \<Rightarrow> ('w, 'q, 'sc, 'p, 'd, 'r, 'j) MainState \<Rightarrow> bool" for libs S0 where
  entered: "main_reach libs S0 S0"
| moved: "main_reach libs S0 S \<Longrightarrow> main_event_ok ev S \<Longrightarrow> main_step libs ev S = Some S' \<Longrightarrow> main_reach libs S0 S'"

section \<open>The invariant\<close>

abbreviation sdkWorld :: "('w, 'q, 'sc, 'p, 'd, 'r, 'j) MainState \<Rightarrow> 'w" where
  "sdkWorld S \<equiv> isWorld (irIngest (mnIngestor S))"

definition webRtcRunning :: "('w, 'q, 'sc, 'p, 'd, 'r, 'j) MainState \<Rightarrow> bool" where
  "webRtcRunning S \<longleftrightarrow> (case mnWebRtc S of None \<Rightarrow> False | Some (sig, server) \<Rightarrow> wsRunning server)"

text \<open>What exists needs what was set up before it.\<close>

definition nested :: "('w, 'q, 'sc, 'p, 'd, 'r, 'j) MainState \<Rightarrow> bool" where
  "nested S \<longleftrightarrow>
     (webRtcRunning S \<longrightarrow> joinable (mnViewer S)) \<and> (joinable (mnViewer S) \<longrightarrow> joinable (mnBuilder S))
     \<and> (joinable (mnBuilder S) \<longrightarrow> joinable (mnIngestor S))
     \<and> (joinable (mnIngestor S) \<longrightarrow> CameraCapture_isStarted (mnCamera S))
     \<and> (CameraCapture_isStarted (mnCamera S) \<longrightarrow> CameraCapture_isOpen (mnCamera S))"

definition wantsDump :: "('w, 'q, 'sc, 'p, 'd, 'r, 'j) MainState \<Rightarrow> bool" where
  "wantsDump S \<longleftrightarrow> dumpEnabled (viewerDump (appDebug (mnConfig S)))"

text \<open>Exit code 0: the configured outputs were seen, or without dumping a signal has arrived.\<close>

definition exit_ok :: "int \<Rightarrow> ('w, 'q, 'sc, 'p, 'd, 'r, 'j) MainState \<Rightarrow> bool" where
  "exit_ok code S \<longleftrightarrow>
     code = 1 \<or> code = 0 \<and> (if wantsDump S then configuredOutputsSeen (fst (mnDebug S)) else mnShouldStop S)"

fun cleaned :: "cleanup_step \<Rightarrow> ('w, 'q, 'sc, 'p, 'd, 'r, 'j) MainState \<Rightarrow> bool" where
  "cleaned StopWebRtc S = True"
| "cleaned RequestViewerStop S = (\<not> webRtcRunning S)"
| "cleaned JoinViewer S = (\<not> webRtcRunning S \<and> rnStopRequested (mnViewer S))"
| "cleaned RequestBuilderStop S = (\<not> joinable (mnViewer S))"
| "cleaned JoinBuilder S = (\<not> joinable (mnViewer S) \<and> rnStopRequested (mnBuilder S))"
| "cleaned RequestIngestorStop S = (\<not> joinable (mnBuilder S))"
| "cleaned JoinIngestor S = (\<not> joinable (mnBuilder S) \<and> rnStopRequested (mnIngestor S))"
| "cleaned StopCameras S = (\<not> joinable (mnIngestor S))"
| "cleaned CloseDevice S = (\<not> CameraCapture_isStarted (mnCamera S))"

text \<open>What the main thread knows at each point.\<close>

fun pc_ok :: "main_pc \<Rightarrow> ('w, 'q, 'sc, 'p, 'd, 'r, 'j) MainState \<Rightarrow> bool" where
  "pc_ok OpeningCamera S = (\<not> CameraCapture_isOpen (mnCamera S))"
| "pc_ok StartingCamera S = (\<not> CameraCapture_isStarted (mnCamera S))"
| "pc_ok StartingIngestor S = (CameraCapture_isStarted (mnCamera S) \<and> \<not> joinable (mnIngestor S))"
| "pc_ok StartingBuilder S = (joinable (mnIngestor S) \<and> \<not> joinable (mnBuilder S))"
| "pc_ok StartingViewer S = (joinable (mnBuilder S) \<and> \<not> joinable (mnViewer S))"
| "pc_ok StartingWebRtc S = (joinable (mnViewer S) \<and> mnWebRtc S = None)"
| "pc_ok SeedingPose S = joinable (mnViewer S)"
| "pc_ok Watching S = joinable (mnViewer S)"
| "pc_ok (Cleaning c code) S = (cleaned c S \<and> exit_ok code S)"
| "pc_ok (Exited code) S = (\<not> CameraCapture_isOpen (mnCamera S) \<and> exit_ok code S)"

fun before_webrtc :: "main_pc \<Rightarrow> bool" where
  "before_webrtc SeedingPose = False"
| "before_webrtc Watching = False"
| "before_webrtc (Cleaning c code) = False"
| "before_webrtc (Exited code) = False"
| "before_webrtc pc = True"

fun before_cleanup :: "main_pc \<Rightarrow> bool" where
  "before_cleanup (Cleaning c code) = False"
| "before_cleanup (Exited code) = False"
| "before_cleanup pc = True"

definition controls_ok :: "('w, 'q, 'sc, 'p, 'd, 'r, 'j) MainState \<Rightarrow> bool" where
  "controls_ok S \<longleftrightarrow> flags_ok (mnIngestor S) \<and> flags_ok (mnBuilder S) \<and> flags_ok (mnViewer S)"

definition webrtc_ok :: "'j json_ops \<Rightarrow> ('w, 'q, 'sc, 'p, 'd, 'r, 'j) MainState \<Rightarrow> bool" where
  "webrtc_ok js S \<longleftrightarrow>
     (case mnWebRtc S of
        None \<Rightarrow> True
      | Some (sig, server) \<Rightarrow> rtc_inv js {#} server \<and> (\<not> wsRunning server \<longrightarrow> rtc_idle server))"

text \<open>The camera runs under the configuration that \<open>main\<close> made for it.\<close>

definition camera_ok ::
    "('w, 'q, 'sc, 'p, 'd, 'r, 'j) main_libs \<Rightarrow> ('w \<Rightarrow> handle multiset) \<Rightarrow> handle multiset
     \<Rightarrow> ('w, 'q, 'sc, 'p, 'd, 'r, 'j) MainState \<Rightarrow> bool" where
  "camera_ok libs refs_of base S \<longleftrightarrow>
     camera_inv refs_of base (cameraState S)
     \<and> (CameraCapture_isStarted (mnCamera S) \<longrightarrow>
          makeK4aDeviceConfig (mlInitConfig libs) (captureCamera (appCapture (mnConfig S)))
            (appImageSize (mnConfig S)) = Some (camConfig (mnCamera S)))"

definition main_inv ::
    "('w, 'q, 'sc, 'p, 'd, 'r, 'j) main_libs \<Rightarrow> ('w \<Rightarrow> handle multiset) \<Rightarrow> handle multiset
     \<Rightarrow> ('w, 'q, 'sc, 'p, 'd, 'r, 'j) MainState \<Rightarrow> bool" where
  "main_inv libs refs_of base S \<longleftrightarrow>
     camera_ok libs refs_of base S \<and> controls_ok S \<and> webrtc_ok (mlJson libs) S
     \<and> nested S \<and> pc_ok (mnPc S) S
     \<and> (before_webrtc (mnPc S) \<longrightarrow> mnWebRtc S = None)
     \<and> (before_cleanup (mnPc S) \<longrightarrow> dumpingEnabled (fst (mnDebug S)) = wantsDump S)"


section \<open>Steps of the loop threads\<close>

lemma main_inv_thread:
  assumes "main_inv libs refs_of base S" "refs_of (sdkWorld S') = refs_of (sdkWorld S)" "controls_ok S'"
    and "joinable (mnIngestor S') = joinable (mnIngestor S)" "joinable (mnBuilder S') = joinable (mnBuilder S)"
    "joinable (mnViewer S') = joinable (mnViewer S)"
    and "rnStopRequested (mnIngestor S') = rnStopRequested (mnIngestor S)"
    "rnStopRequested (mnBuilder S') = rnStopRequested (mnBuilder S)"
    "rnStopRequested (mnViewer S') = rnStopRequested (mnViewer S)"
    and "mnPc S' = mnPc S" "mnConfig S' = mnConfig S" "mnCamera S' = mnCamera S" "mnWebRtc S' = mnWebRtc S"
    "mnDebug S' = mnDebug S" "mnShouldStop S' = mnShouldStop S"
  shows "main_inv libs refs_of base S'"
proof -
  have same: "webRtcRunning S' = webRtcRunning S" "wantsDump S' = wantsDump S" "exit_ok code S' = exit_ok code S"
    "webrtc_ok js S' = webrtc_ok js S" for code js
    using assms(10-15) by (simp_all add: webRtcRunning_def wantsDump_def exit_ok_def webrtc_ok_def)
  have "cleaned c S' = cleaned c S" for c using assms same by (cases c) simp_all
  then have "pc_ok pc S' = pc_ok pc S" for pc using assms same by (cases pc) simp_all
  moreover have "camera_ok libs refs_of base S' = camera_ok libs refs_of base S"
    using assms by (simp add: camera_ok_def camera_inv_def cameraState_def)
  ultimately show ?thesis using assms same by (simp add: main_inv_def nested_def)
qed

lemma runner_event_of_loop:
  "runner_event_of e = LoopHead \<or> runner_event_of e = LoopIteration (case e of Iterates x \<Rightarrow> x | AtHead \<Rightarrow> d)"
  by (cases e) simp_all

lemma ingest_thread_world:
  assumes "k4a_laws api refs_of" "runner_step (ingestIteration api ops cam) (runner_event_of e) r = Some r'"
  shows "refs_of (isWorld (irIngest r')) = refs_of (isWorld (irIngest r))"
proof (cases e)
  case AtHead
  then show ?thesis
    using assms(2) by (auto simp: Runner_loopHead_def Runner_setRunning_def split: if_splits)
next
  case (Iterates now)
  note same = captureAndSubmit_live(1) [OF assms(1), of ops cam _ now "irIngest r"]
  show ?thesis
    using assms(2) Iterates same
    by (auto simp: ingestIteration_def ingest_recordResult_def Let_def split: if_splits prod.splits option.splits)
qed

lemma ingest_thread_inv:
  assumes "main_inv libs refs_of base S" "k4a_laws (mlK4a libs) refs_of"
    and "main_step libs (IngestThread e) S = Some S'"
  shows "main_inv libs refs_of base S'"
proof -
  obtain r where r: "runner_step (ingestIteration (mlK4a libs) (mlRing libs) (mnCamera S)) (runner_event_of e)
      (mnIngestor S) = Some r" and S': "S' = S\<lparr>mnIngestor := r\<rparr>"
    using assms(3) by auto
  have "flags_ok r" using ir.step_flags [OF _ r] assms(1) by (simp add: main_inv_def controls_ok_def)
  then show ?thesis
    using ir.loop_step [OF r runner_event_of_loop] ingest_thread_world [OF assms(2) r] assms(1)
    by (intro main_inv_thread [OF assms(1)]) (simp_all add: S' main_inv_def controls_ok_def)
qed

lemma store_update_control [simp]:
  "flags_ok (r\<lparr>brStore := s\<rparr>) = flags_ok r" "joinable (r\<lparr>brStore := s\<rparr>) = joinable r"
  "flags_ok (i\<lparr>irIngest := x\<rparr>) = flags_ok i" "joinable (i\<lparr>irIngest := x\<rparr>) = joinable i"
  "steps_to_join (r\<lparr>brStore := s\<rparr>) = steps_to_join r"
  by (simp_all add: flags_ok_def joinable_def steps_to_join_def)

lemma builder_thread_inv:
  assumes "main_inv libs refs_of base S" "main_step libs (BuilderThread e) S = Some S'"
  shows "main_inv libs refs_of base S'"
proof -
  let ?r0 = "(mnBuilder S)\<lparr>brStore := isStore (irIngest (mnIngestor S))\<rparr>"
  obtain r where r: "runner_step (builderIteration (mlItm libs) (mlScene libs) (mlRing libs))
      (runner_event_of e) ?r0 = Some r"
    and S': "S' = S\<lparr>mnBuilder := r,
      mnIngestor := (mnIngestor S)\<lparr>irIngest := (irIngest (mnIngestor S))\<lparr>isStore := brStore r\<rparr>\<rparr>\<rparr>"
    using assms(2) by (auto simp: builder_call_def)
  have "flags_ok r" using br.step_flags [OF _ r] assms(1) by (simp add: main_inv_def controls_ok_def)
  then show ?thesis
    using br.loop_step [OF r runner_event_of_loop] assms(1)
    by (intro main_inv_thread [OF assms(1)]) (simp_all add: S' main_inv_def controls_ok_def)
qed

lemma viewer_thread_inv:
  assumes "main_inv libs refs_of base S" "main_step libs (ViewerThread e) S = Some S'"
  shows "main_inv libs refs_of base S'"
proof -
  obtain r where r: "runner_step (viewerIteration (mlVis libs) (mlScene libs)) (runner_event_of e)
      (mnViewer S) = Some r" and S': "S' = S\<lparr>mnViewer := r\<rparr>"
    using assms(2) by auto
  have "flags_ok r" using vr.step_flags [OF _ r] assms(1) by (simp add: main_inv_def controls_ok_def)
  then show ?thesis
    using vr.loop_step [OF r runner_event_of_loop] assms(1)
    by (intro main_inv_thread [OF assms(1)]) (simp_all add: S' main_inv_def controls_ok_def)
qed

section \<open>The other threads and the entry\<close>

lemma webrtc_threads_inv:
  assumes "main_inv libs refs_of base S" "main_event_ok (WebRtcThreads e) S"
    and "main_step libs (WebRtcThreads e) S = Some S'"
  shows "main_inv libs refs_of base S'"
proof -
  obtain sig server server' where w: "mnWebRtc S = Some (sig, server)" "wsRunning server"
    and step: "rtc_step (mlJson libs) e (server\<lparr>wsPoses := mnPoses S\<rparr>) = Some server'"
    and S': "S' = S\<lparr>mnWebRtc := Some (sig, server'), mnPoses := wsPoses server'\<rparr>"
    using assms(3) by (auto simp: webrtc_call_def split: option.splits prod.splits if_splits)
  have ok: "rtc_inv (mlJson libs) {#} (server\<lparr>wsPoses := mnPoses S\<rparr>)" "event_ok e (server\<lparr>wsPoses := mnPoses S\<rparr>)"
    using assms(1,2) w by (simp_all add: main_inv_def webrtc_ok_def main_event_ok_def)
  have inv: "rtc_inv (mlJson libs) {#} server'" using rtc_step_inv [OF ok] step by auto
  have run: "wsRunning server'" using rtc_step_framed [OF ok step] w(2) by (simp add: rtc_step_frame_def)
  have same: "webRtcRunning S' = webRtcRunning S" "wantsDump S' = wantsDump S" "exit_ok code S' = exit_ok code S" for code
    using w run by (simp_all add: S' webRtcRunning_def wantsDump_def exit_ok_def)
  have "cleaned c S' = cleaned c S" for c using same by (cases c) (simp_all add: S')
  moreover have pc: "\<not> before_webrtc (mnPc S)" using assms(1) w by (auto simp: main_inv_def)
  ultimately have "pc_ok (mnPc S) S' = pc_ok (mnPc S) S" using same by (cases "mnPc S") (simp_all add: S')
  then show ?thesis
    using assms(1) same inv run pc
    by (simp add: main_inv_def nested_def webrtc_ok_def camera_ok_def cameraState_def controls_ok_def S')
qed

lemma signal_inv:
  assumes "main_inv libs refs_of base S"
  shows "main_inv libs refs_of base (onTerminationSignal S)"
proof -
  let ?S = "onTerminationSignal S"
  have same: "webRtcRunning ?S = webRtcRunning S" "wantsDump ?S = wantsDump S" "exit_ok code S \<Longrightarrow> exit_ok code ?S" for code
    by (auto simp: onTerminationSignal_def webRtcRunning_def wantsDump_def exit_ok_def)
  have "cleaned c ?S = cleaned c S" for c using same by (cases c) (simp_all add: onTerminationSignal_def)
  then have "pc_ok pc S \<Longrightarrow> pc_ok pc ?S" for pc using same by (cases pc) (simp_all add: onTerminationSignal_def)
  then show ?thesis
    using assms same
    by (simp add: main_inv_def nested_def webrtc_ok_def camera_ok_def cameraState_def controls_ok_def)
      (simp add: onTerminationSignal_def)
qed

lemma new_runners [simp]:
  "\<not> joinable (FrameIngestorRunner_new a b)" "flags_ok (FrameIngestorRunner_new a b)"
  "\<not> joinable (SceneBuilderRunner_new c d e f)" "flags_ok (SceneBuilderRunner_new c d e f)"
  "\<not> joinable (SceneViewerRunner_new g h)" "flags_ok (SceneViewerRunner_new g h)"
  by (simp_all add: FrameIngestorRunner_new_def SceneBuilderRunner_new_def SceneViewerRunner_new_def
      joinable_def flags_ok_def)

lemma main_inv_entered:
  assumes "main_enter libs env argv defaults = Inr S0"
  shows "main_inv libs refs_of (refs_of (suWorld env)) S0" "sdkWorld S0 = suWorld env"
proof -
  obtain config where S0: "S0 = main_objects libs env config"
    using assms by (auto simp: main_enter_def Let_def split: if_splits)
  show w: "sdkWorld S0 = suWorld env" by (simp add: S0 main_objects_def Let_def FrameIngestorRunner_new_def)
  then show "main_inv libs refs_of (refs_of (suWorld env)) S0"
    by (simp add: S0 main_objects_def Let_def main_inv_def camera_ok_def camera_inv_def cameraState_def
        CameraCapture_new_def acquired_def CameraCapture_isStarted_def CameraCapture_isOpen_def controls_ok_def
        webrtc_ok_def nested_def webRtcRunning_def wantsDump_def ViewerDebugSession_new_def dumpingEnabled_def
        ViewerFrameDumper_new_def)
qed

section \<open>The start sequence\<close>

lemmas main_inv_defs = main_inv_def camera_ok_def cameraState_def controls_ok_def webrtc_ok_def nested_def
  webRtcRunning_def wantsDump_def exit_ok_def

lemma started_runner:
  assumes "flags_ok r" "\<not> joinable r"
  obtains r' where "Runner_start r = (r', True)" "flags_ok r'" "joinable r'"
proof -
  have "Runner_start r = (fst (Runner_start r), True)" "joinable (fst (Runner_start r))"
    using assms by (simp_all add: Runner_start_def flags_ok_def joinable_def)
  then show thesis using that [of "fst (Runner_start r)"] flags_ok_control(1) [OF assms(1)] by blast
qed

lemma camera_device_laws: "k4a_laws api refs_of \<Longrightarrow> device_laws api refs_of"
  by (simp add: k4a_laws_def)

lemma putCamera_fields [simp]:
  "mnPc (putCamera wc S) = mnPc S" "mnConfig (putCamera wc S) = mnConfig S" "mnShouldStop (putCamera wc S) = mnShouldStop S"
  "mnCamera (putCamera wc S) = snd wc" "mnBuilder (putCamera wc S) = mnBuilder S"
  "mnViewer (putCamera wc S) = mnViewer S" "mnWebRtc (putCamera wc S) = mnWebRtc S"
  "mnDebug (putCamera wc S) = mnDebug S" "flags_ok (mnIngestor (putCamera wc S)) = flags_ok (mnIngestor S)"
  "joinable (mnIngestor (putCamera wc S)) = joinable (mnIngestor S)" "cameraState (putCamera wc S) = wc"
  by (simp_all add: putCamera_def cameraState_def)

text \<open>Cleaning up can begin anywhere in the start sequence.\<close>

lemma main_inv_fails:
  assumes "main_inv libs refs_of base S"
  shows "main_inv libs refs_of base (S\<lparr>mnPc := Cleaning StopWebRtc 1\<rparr>)"
  using assms by (simp add: main_inv_defs)

lemma pc_update [simp]:
  "webRtcRunning (S\<lparr>mnPc := pc\<rparr>) = webRtcRunning S" "wantsDump (S\<lparr>mnPc := pc\<rparr>) = wantsDump S"
  "exit_ok code (S\<lparr>mnPc := pc\<rparr>) = exit_ok code S" "cleaned c (S\<lparr>mnPc := pc\<rparr>) = cleaned c S"
  "pc_ok pc' (S\<lparr>mnPc := pc\<rparr>) = pc_ok pc' S" "camera_ok libs refs_of base (S\<lparr>mnPc := pc\<rparr>) = camera_ok libs refs_of base S"
  "controls_ok (S\<lparr>mnPc := pc\<rparr>) = controls_ok S" "webrtc_ok js (S\<lparr>mnPc := pc\<rparr>) = webrtc_ok js S"
  "nested (S\<lparr>mnPc := pc\<rparr>) = nested S" "cameraState (S\<lparr>mnPc := pc\<rparr>) = cameraState S"
proof -
  show w: "webRtcRunning (S\<lparr>mnPc := pc\<rparr>) = webRtcRunning S" "wantsDump (S\<lparr>mnPc := pc\<rparr>) = wantsDump S"
    by (simp_all add: webRtcRunning_def wantsDump_def)
  then show e: "exit_ok code (S\<lparr>mnPc := pc\<rparr>) = exit_ok code S" for code by (simp add: exit_ok_def)
  show c: "cleaned c (S\<lparr>mnPc := pc\<rparr>) = cleaned c S" for c by (cases c) (simp_all add: w)
  show "pc_ok pc' (S\<lparr>mnPc := pc\<rparr>) = pc_ok pc' S" by (cases pc') (simp_all add: e c)
qed (simp_all add: main_inv_defs)

lemma exit_ok_updates [simp]:
  "exit_ok code (S\<lparr>mnWebRtc := w\<rparr>) = exit_ok code S" "exit_ok code (S\<lparr>mnViewer := v\<rparr>) = exit_ok code S"
  "exit_ok code (S\<lparr>mnBuilder := b\<rparr>) = exit_ok code S" "exit_ok code (S\<lparr>mnIngestor := i\<rparr>) = exit_ok code S"
  "wantsDump (S\<lparr>mnWebRtc := w\<rparr>) = wantsDump S" "webRtcRunning (S\<lparr>mnViewer := v\<rparr>) = webRtcRunning S"
  "webRtcRunning (S\<lparr>mnBuilder := b\<rparr>) = webRtcRunning S" "webRtcRunning (S\<lparr>mnIngestor := i\<rparr>) = webRtcRunning S"
  "exit_ok code (putCamera wc S) = exit_ok code S"
  by (simp_all add: exit_ok_def wantsDump_def webRtcRunning_def)

text \<open>A call on the camera while no ingestor uses it.\<close>

lemma main_inv_camera:
  assumes "main_inv libs refs_of base S" "\<not> joinable (mnIngestor S)" "camera_inv refs_of base wc"
    and "camStarted (snd wc) \<Longrightarrow> makeK4aDeviceConfig (mlInitConfig libs) (captureCamera (appCapture (mnConfig S)))
      (appImageSize (mnConfig S)) = Some (camConfig (snd wc))"
    and "pc_ok pc (putCamera wc S)" "before_webrtc pc \<Longrightarrow> before_webrtc (mnPc S)"
    "before_cleanup pc \<Longrightarrow> before_cleanup (mnPc S)"
  shows "main_inv libs refs_of base ((putCamera wc S)\<lparr>mnPc := pc\<rparr>)"
proof -
  have same: "webRtcRunning (putCamera wc S) = webRtcRunning S" "wantsDump (putCamera wc S) = wantsDump S"
    by (simp_all add: webRtcRunning_def wantsDump_def)
  have "camStarted (snd wc) \<longrightarrow> camDevice (snd wc) \<noteq> 0" using assms(3) by (simp add: camera_inv_def)
  then have "nested (putCamera wc S)"
    using assms(1,2) same
    by (auto simp: main_inv_def nested_def CameraCapture_isStarted_def CameraCapture_isOpen_def)
  then show ?thesis
    using assms same
    by (simp add: main_inv_def camera_ok_def controls_ok_def webrtc_ok_def CameraCapture_isStarted_def)
qed

lemma openCamera_inv:
  assumes inv: "main_inv libs refs_of base S" and laws: "k4a_laws (mlK4a libs) refs_of" and pc: "mnPc S = OpeningCamera"
  shows "main_inv libs refs_of base (openCamera (mlK4a libs) S)"
proof -
  let ?i = "deviceIndex (captureCamera (appCapture (mnConfig S)))"
  obtain wc ok where o: "CameraCapture_open (mlK4a libs) ?i (cameraState S) = (wc, ok)" by fastforce
  have cam: "\<not> camStarted (mnCamera S)" "\<not> joinable (mnIngestor S)"
    using inv pc by (auto simp: main_inv_def nested_def CameraCapture_isStarted_def)
  have "camera_inv refs_of base wc"
    using camera_step_inv [OF camera_device_laws [OF laws], of base "cameraState S" "OpenCamera ?i"] inv o
    by (simp add: main_inv_def camera_ok_def)
  moreover have "\<not> camStarted (snd wc)"
    using o cam(1) by (auto simp: CameraCapture_open_def cameraState_def split: prod.splits if_splits)
  ultimately show ?thesis
    using pc o cam(2)
    by (simp add: openCamera_def goes_on_def)
      (intro conjI impI main_inv_camera [OF inv]; simp add: CameraCapture_isStarted_def exit_ok_def)
qed

lemma startCamera_inv:
  assumes inv: "main_inv libs refs_of base S" and laws: "k4a_laws (mlK4a libs) refs_of" and pc: "mnPc S = StartingCamera"
  shows "main_inv libs refs_of base (startCamera (mlK4a libs) (mlInitConfig libs) S)"
proof (cases "makeK4aDeviceConfig (mlInitConfig libs) (captureCamera (appCapture (mnConfig S))) (appImageSize (mnConfig S))")
  case None
  then show ?thesis using main_inv_fails [OF inv] by (simp add: startCamera_def goes_on_def)
next
  case (Some config)
  obtain wc ok where o: "CameraCapture_start (mlK4a libs) config (cameraState S) = (wc, ok)" by fastforce
  have cam: "\<not> camStarted (mnCamera S)" "\<not> joinable (mnIngestor S)"
    using inv pc by (auto simp: main_inv_def nested_def CameraCapture_isStarted_def)
  have "camera_inv refs_of base wc"
    using camera_step_inv [OF camera_device_laws [OF laws], of base "cameraState S" "StartCamera config"] inv o
    by (simp add: main_inv_def camera_ok_def)
  moreover have "camStarted (snd wc) \<longleftrightarrow> ok" "ok \<Longrightarrow> camConfig (snd wc) = config"
    using o cam(1) by (auto simp: CameraCapture_start_def cameraState_def split: prod.splits if_splits)
  ultimately show ?thesis
    using pc o cam(2) Some
    by (simp add: startCamera_def goes_on_def)
      (intro conjI impI main_inv_camera [OF inv]; simp add: CameraCapture_isStarted_def exit_ok_def)
qed

text \<open>The runners.\<close>

lemma runner_calls_keep_world:
  "irIngest (fst (Runner_start i)) = irIngest i" "irIngest (Runner_requestStop i) = irIngest i"
  "Runner_join i = Some j \<Longrightarrow> irIngest j = irIngest i"
  by (auto simp: Runner_start_def Runner_requestStop_def Runner_join_def Runner_setRunning_def split: loop_thread.splits)

lemma main_inv_runners:
  assumes "main_inv libs refs_of base S" "mnCamera S' = mnCamera S" "mnConfig S' = mnConfig S" "mnWebRtc S' = mnWebRtc S"
    "mnDebug S' = mnDebug S" "sdkWorld S' = sdkWorld S"
    and "controls_ok S'" "nested S'" "pc_ok (mnPc S') S'"
    "before_webrtc (mnPc S') \<Longrightarrow> before_webrtc (mnPc S)" "before_cleanup (mnPc S') \<Longrightarrow> before_cleanup (mnPc S)"
  shows "main_inv libs refs_of base S'"
  using assms by (simp add: main_inv_def camera_ok_def cameraState_def webrtc_ok_def wantsDump_def)

lemma start_runner_inv:
  assumes inv: "main_inv libs refs_of base S"
  shows "mnPc S = StartingIngestor \<Longrightarrow> main_call libs env S = Some S' \<Longrightarrow> main_inv libs refs_of base S'"
    and "mnPc S = StartingBuilder \<Longrightarrow> main_call libs env S = Some S' \<Longrightarrow> main_inv libs refs_of base S'"
    and "mnPc S = StartingViewer \<Longrightarrow> main_call libs env S = Some S' \<Longrightarrow> main_inv libs refs_of base S'"
proof -
  have parts: "controls_ok S" "nested S" "pc_ok (mnPc S) S" "before_webrtc (mnPc S) \<Longrightarrow> mnWebRtc S = None"
    using inv by (simp_all add: main_inv_def)
  show "main_inv libs refs_of base S'" if pc: "mnPc S = StartingIngestor" and call: "main_call libs env S = Some S'"
  proof -
    obtain r where r: "Runner_start (mnIngestor S) = (r, True)" "flags_ok r" "joinable r"
      using started_runner [of "mnIngestor S"] parts pc by (auto simp: controls_ok_def)
    have "irIngest r = irIngest (mnIngestor S)" using r(1) runner_calls_keep_world(1) by (metis fst_conv)
    then show ?thesis
      using call pc r parts
      by (intro main_inv_runners [OF inv])
        (auto simp: main_call_def FrameIngestorRunner_start_def goes_on_def controls_ok_def nested_def webRtcRunning_def)
  qed
  show "main_inv libs refs_of base S'" if pc: "mnPc S = StartingBuilder" and call: "main_call libs env S = Some S'"
  proof -
    obtain r where r: "Runner_start (mnBuilder S) = (r, True)" "flags_ok r" "joinable r"
      using started_runner [of "mnBuilder S"] parts pc by (auto simp: controls_ok_def)
    then show ?thesis
      using call pc parts
      by (intro main_inv_runners [OF inv])
        (auto simp: main_call_def SceneBuilderRunner_start_def goes_on_def controls_ok_def nested_def webRtcRunning_def)
  qed
  show "main_inv libs refs_of base S'" if pc: "mnPc S = StartingViewer" and call: "main_call libs env S = Some S'"
  proof -
    obtain r where r: "Runner_start (mnViewer S) = (r, True)" "flags_ok r" "joinable r"
      using started_runner [of "mnViewer S"] parts pc by (auto simp: controls_ok_def)
    then show ?thesis
      using call pc parts
      by (intro main_inv_runners [OF inv])
        (auto simp: main_call_def SceneViewerRunner_start_def goes_on_def controls_ok_def nested_def webRtcRunning_def)
  qed
qed

text \<open>The WebRTC server, the seed and the wait.\<close>

lemma new_server_stopped [simp]: "\<not> wsRunning (WebRtcServer_new config imageSize env poses)"
  by (simp add: WebRtcServer_new_def)

lemma startWebRtc_inv:
  assumes inv: "main_inv libs refs_of base S" and pc: "mnPc S = StartingWebRtc"
  shows "main_inv libs refs_of base (startWebRtc env S)"
  using inv pc
  by (auto simp: startWebRtc_def Let_def main_inv_def camera_ok_def cameraState_def controls_ok_def webrtc_ok_def
      nested_def webRtcRunning_def wantsDump_def WebRtcServer_start_def rtc_inv_new)

lemma waitLoop_done:
  assumes "waitLoop env onTick deadline k d disk t = Some (d', disk', t', True)"
  shows "configuredOutputsSeen d'"
proof -
  let ?P = "\<lambda>env onTick (deadline :: int) k d disk t r. snd (snd (snd r)) \<longrightarrow> configuredOutputsSeen (fst r)"
  have "?P env onTick deadline k d disk t (d', disk', t', True)"
    by (rule waitLoop.raw_induct [where P = ?P, OF _ assms]) (auto split: if_splits option.splits)
  then show ?thesis by simp
qed

lemma waitForCompletion_done:
  "waitForCompletion env start timeout session disk = Some ((dumper, s), disk', True) \<Longrightarrow> configuredOutputsSeen dumper"
  by (auto simp: waitForCompletion_def waitForConfiguredOutputs_def split: option.splits dest: waitLoop_done)

lemma seedPose_inv:
  assumes inv: "main_inv libs refs_of base S" and pc: "mnPc S = SeedingPose" and call: "seedPose env S = Some S'"
  shows "main_inv libs refs_of base S'"
  using inv pc call
  by (auto simp: seedPose_def goes_on_def main_inv_def camera_ok_def cameraState_def controls_ok_def webrtc_ok_def
      nested_def webRtcRunning_def wantsDump_def exit_ok_def split: if_splits)

lemma watch_inv:
  assumes inv: "main_inv libs refs_of base S" and pc: "mnPc S = Watching" and call: "watch env S = Some S'"
  shows "main_inv libs refs_of base S'"
proof (cases "dumpingEnabled (fst (mnDebug S))")
  case True
  then obtain session disk ok where
    w: "waitForCompletion (meDump env) (meDumpStart env) kViewerOutputTimeout (mnDebug S) (mnDisk S) = Some (session, disk, ok)"
    and S': "S' = goes_on ok (Cleaning StopWebRtc 0) (S\<lparr>mnDebug := session, mnDisk := disk\<rparr>)"
    using call by (auto simp: watch_def)
  have "configuredOutputsSeen (fst session)" if ok
    using w that waitForCompletion_done by (metis (full_types) prod.collapse)
  moreover have "wantsDump S" using True inv pc by (simp add: main_inv_def)
  ultimately show ?thesis
    using inv pc unfolding S'
    by (cases ok) (simp_all add: goes_on_def main_inv_def camera_ok_def cameraState_def controls_ok_def webrtc_ok_def
      nested_def webRtcRunning_def wantsDump_def exit_ok_def)
next
  case False
  then show ?thesis using inv pc call by (auto simp: watch_def main_inv_def exit_ok_def split: if_splits)
qed

section \<open>The cleanup\<close>

lemma stopped_server:
  assumes "rtc_inv js {#} s" "\<not> wsRunning s \<longrightarrow> rtc_idle s"
  obtains sig' s' where "WebRtcServer_stop ops (sig, s) = Some (sig', s')" "rtc_inv js {#} s'" "\<not> wsRunning s'" "rtc_idle s'"
proof (cases "wsRunning s")
  case True
  let ?s = "s\<lparr>wsRunning := False\<rparr>"
  have "rtc_base {#} ?s" using rtc_inv_parts(1) [OF assms(1)] by (simp add: rtc_base_def rtc_fresh_def members_held_def)
  note torn = tear_down_inv(1) [OF this, where ops = ops] tear_down_inv(2) [OF this, where js = js]
  show thesis
    by (rule that [of "map_option SignallingHandler_stop sig" "torn (tasks_held (wsTasks ?s) + {#}) ?s"])
      (use True torn in \<open>simp_all add: WebRtcServer_stop_def torn_def rtc_idle_def\<close>)
qed (use assms that [of sig s] in \<open>simp add: WebRtcServer_stop_def\<close>)

lemma joined_runner:
  assumes "flags_ok r" "Runner_join r = Some r'"
  shows "flags_ok r'" "\<not> joinable r'"
  using flags_ok_control(3) [OF assms] assms(2)
  by (auto simp: joinable_def Runner_join_def split: loop_thread.splits)

lemma requested_runner [simp]:
  "joinable (Runner_requestStop r) = joinable r" "rnStopRequested (Runner_requestStop r)"
  "flags_ok r \<Longrightarrow> flags_ok (Runner_requestStop r)"
  using flags_ok_control(2) [of r]
  by (simp_all add: Runner_requestStop_def joinable_def)

lemma cleanup_camera_inv:
  assumes inv: "main_inv libs refs_of base S" and laws: "k4a_laws (mlK4a libs) refs_of"
    and pc: "mnPc S = Cleaning c code" "c = StopCameras \<or> c = CloseDevice"
    and call: "cleanup (mlK4a libs) gst c code S = Some S'"
  shows "main_inv libs refs_of base S'"
proof -
  have idle: "\<not> joinable (mnIngestor S)" and code: "exit_ok code S"
    using inv pc by (auto simp: main_inv_def nested_def)
  have cam: "camera_inv refs_of base (cameraState S)" using inv by (simp add: main_inv_def camera_ok_def)
  note step = camera_step_inv [OF camera_device_laws [OF laws] cam]
  have exit': "exit_ok code (putCamera wc S)" for wc
    using code by simp
  from pc(2) show ?thesis
  proof
    assume c: "c = StopCameras"
    let ?wc = "CameraCapture_stop (mlK4a libs) (cameraState S)"
    have "camera_inv refs_of base ?wc" using step [of StopCamera] by simp
    moreover have "\<not> camStarted (snd ?wc)"
      using cam by (auto simp: CameraCapture_stop_def camera_inv_def split: prod.split)
    ultimately have "main_inv libs refs_of base ((putCamera ?wc S)\<lparr>mnPc := Cleaning CloseDevice code\<rparr>)"
      using exit' idle by (intro main_inv_camera [OF inv]) (simp_all add: CameraCapture_isStarted_def)
    then show ?thesis using call c inv code by (auto simp: main_inv_def split: if_splits)
  next
    assume c: "c = CloseDevice"
    let ?wc = "CameraCapture_close (mlK4a libs) (cameraState S)"
    have "camera_inv refs_of base ?wc" using step [of CloseCamera] by simp
    moreover have "camDevice (snd ?wc) = 0" by (auto simp: CameraCapture_close_def split: prod.split)
    moreover have "\<not> camStarted (snd ?wc)" using calculation by (auto simp: camera_inv_def)
    ultimately have "main_inv libs refs_of base ((putCamera ?wc S)\<lparr>mnPc := Exited code\<rparr>)"
      using exit' idle by (intro main_inv_camera [OF inv]) (simp_all add: CameraCapture_isOpen_def)
    then show ?thesis using call c inv code by (auto simp: main_inv_def split: if_splits)
  qed
qed

lemma cleanup_inv:
  assumes inv: "main_inv libs refs_of base S" and laws: "k4a_laws (mlK4a libs) refs_of"
    and pc: "mnPc S = Cleaning c code" and call: "cleanup (mlK4a libs) gst c code S = Some S'"
  shows "main_inv libs refs_of base S'"
proof (cases "c = StopCameras \<or> c = CloseDevice")
  case True
  then show ?thesis using cleanup_camera_inv [OF inv laws pc _ call] by blast
next
  case False
  have parts: "controls_ok S" "nested S" "cleaned c S" "exit_ok code S" using inv pc by (simp_all add: main_inv_def)
  show ?thesis
  proof (cases c)
    case StopWebRtc
    show ?thesis
    proof (cases "mnWebRtc S")
      case None
      then show ?thesis using call inv pc StopWebRtc by (auto simp: main_inv_def webRtcRunning_def)
    next
      case (Some ss)
      obtain sig s where ss: "ss = (sig, s)" by fastforce
      have "rtc_inv (mlJson libs) {#} s" "\<not> wsRunning s \<longrightarrow> rtc_idle s"
        using inv Some ss by (simp_all add: main_inv_def webrtc_ok_def)
      from stopped_server [OF this, of gst sig] obtain sig' s' where
        "WebRtcServer_stop gst (sig, s) = Some (sig', s')" "rtc_inv (mlJson libs) {#} s'" "\<not> wsRunning s'" "rtc_idle s'" .
      note stop = this
      then have S': "S' = S\<lparr>mnPc := Cleaning RequestViewerStop code, mnWebRtc := Some (sig', s')\<rparr>"
        using call StopWebRtc Some ss by simp
      have "\<not> webRtcRunning S'" using stop(3) by (simp add: S' webRtcRunning_def)
      moreover have "webrtc_ok (mlJson libs) S'" using stop(2,4) by (simp add: S' webrtc_ok_def)
      moreover have "nested S'" using parts calculation(1) by (simp add: nested_def S')
      moreover have "camera_ok libs refs_of base S'" "controls_ok S'"
        using inv by (simp_all add: main_inv_def S' camera_ok_def cameraState_def controls_ok_def)
      ultimately show ?thesis using parts(4) by (simp add: main_inv_def) (simp add: S')
    qed
  next
    case RequestViewerStop
    then show ?thesis
      using call parts
      by (intro main_inv_runners [OF inv])
        (auto simp: SceneViewerRunner_requestStop_def controls_ok_def nested_def)
  next
    case JoinViewer
    then obtain r where r: "Runner_join (mnViewer S) = Some r"
      and S': "S' = S\<lparr>mnPc := Cleaning RequestBuilderStop code, mnViewer := r\<rparr>"
      using call by (auto simp: SceneViewerRunner_join_def)
    have "flags_ok r" "\<not> joinable r" using joined_runner [OF _ r] parts by (simp_all add: controls_ok_def)
    then show ?thesis
      using parts JoinViewer
      by (intro main_inv_runners [OF inv])
        (auto simp: S' controls_ok_def nested_def)
  next
    case RequestBuilderStop
    then show ?thesis
      using call parts
      by (intro main_inv_runners [OF inv])
        (auto simp: SceneBuilderRunner_requestStop_def controls_ok_def nested_def)
  next
    case JoinBuilder
    then obtain r where r: "Runner_join (mnBuilder S) = Some r"
      and S': "S' = S\<lparr>mnPc := Cleaning RequestIngestorStop code, mnBuilder := r\<rparr>"
      using call by (auto simp: SceneBuilderRunner_join_def)
    have "flags_ok r" "\<not> joinable r" using joined_runner [OF _ r] parts by (simp_all add: controls_ok_def)
    then show ?thesis
      using parts JoinBuilder
      by (intro main_inv_runners [OF inv])
        (auto simp: S' controls_ok_def nested_def)
  next
    case RequestIngestorStop
    then show ?thesis
      using call parts
      by (intro main_inv_runners [OF inv])
        (auto simp: FrameIngestorRunner_requestStop_def runner_calls_keep_world controls_ok_def nested_def
         )
  next
    case JoinIngestor
    then obtain r where r: "Runner_join (mnIngestor S) = Some r"
      and S': "S' = S\<lparr>mnPc := Cleaning StopCameras code, mnIngestor := r\<rparr>"
      using call by (auto simp: FrameIngestorRunner_join_def)
    have "flags_ok r" "\<not> joinable r" "irIngest r = irIngest (mnIngestor S)"
      using joined_runner [OF _ r] parts runner_calls_keep_world(3) [OF r] by (simp_all add: controls_ok_def)
    then show ?thesis
      using parts JoinIngestor
      by (intro main_inv_runners [OF inv])
        (auto simp: S' controls_ok_def nested_def)
  qed (use False in simp_all)
qed

section \<open>All steps\<close>

lemma main_call_inv:
  assumes inv: "main_inv libs refs_of base S" and laws: "k4a_laws (mlK4a libs) refs_of"
    and call: "main_call libs env S = Some S'"
  shows "main_inv libs refs_of base S'"
proof (cases "mnPc S")
  case OpeningCamera
  then show ?thesis using call openCamera_inv [OF inv laws] by (simp add: main_call_def)
next
  case StartingCamera
  then show ?thesis using call startCamera_inv [OF inv laws] by (simp add: main_call_def)
next
  case StartingWebRtc
  then show ?thesis using call startWebRtc_inv [OF inv, of env] by (simp add: main_call_def)
next
  case SeedingPose
  then show ?thesis using call seedPose_inv [OF inv] by (simp add: main_call_def)
next
  case Watching
  then show ?thesis using call watch_inv [OF inv] by (simp add: main_call_def)
next
  case (Cleaning c code)
  then show ?thesis using call cleanup_inv [OF inv laws] by (simp add: main_call_def)
next
  case (Exited code)
  then show ?thesis using call by (simp add: main_call_def)
qed (use call start_runner_inv [OF inv] in blast)+

lemma main_step_inv:
  assumes inv: "main_inv libs refs_of base S" and laws: "k4a_laws (mlK4a libs) refs_of"
    and ev: "main_event_ok ev S" and step: "main_step libs ev S = Some S'"
  shows "main_inv libs refs_of base S'"
proof (cases ev)
  case (MainThread env)
  then show ?thesis using step main_call_inv [OF inv laws] by simp
next
  case (IngestThread e)
  then show ?thesis using step ingest_thread_inv [OF inv laws] by blast
next
  case (BuilderThread e)
  then show ?thesis using step builder_thread_inv [OF inv] by blast
next
  case (ViewerThread e)
  then show ?thesis using step viewer_thread_inv [OF inv] by blast
next
  case (WebRtcThreads e)
  then show ?thesis using step ev webrtc_threads_inv [OF inv] by blast
next
  case TerminationSignal
  then show ?thesis using step signal_inv [OF inv] by simp
qed

lemma main_reach_inv:
  assumes "main_reach libs S0 S" "main_inv libs refs_of base S0" "k4a_laws (mlK4a libs) refs_of"
  shows "main_inv libs refs_of base S"
  using assms by (induction rule: main_reach.induct) (blast intro: main_step_inv)+

section \<open>The cleanup ends\<close>

text \<open>Steps left: the calls of the main thread, and the steps of the loop threads that it waits for.\<close>

fun cleanup_left :: "cleanup_step \<Rightarrow> ('w, 'q, 'sc, 'p, 'd, 'r, 'j) MainState \<Rightarrow> nat" where
  "cleanup_left StopWebRtc S = 15"
| "cleanup_left RequestViewerStop S = 14"
| "cleanup_left JoinViewer S = 11 + steps_to_join (mnViewer S)"
| "cleanup_left RequestBuilderStop S = 10"
| "cleanup_left JoinBuilder S = 7 + steps_to_join (mnBuilder S)"
| "cleanup_left RequestIngestorStop S = 6"
| "cleanup_left JoinIngestor S = 3 + steps_to_join (mnIngestor S)"
| "cleanup_left StopCameras S = 2"
| "cleanup_left CloseDevice S = 1"

definition steps_left :: "('w, 'q, 'sc, 'p, 'd, 'r, 'j) MainState \<Rightarrow> nat" where
  "steps_left S = (case mnPc S of Cleaning c code \<Rightarrow> cleanup_left c S | _ \<Rightarrow> 0)"

definition cleanup_events ::
    "'q main_env \<Rightarrow> int \<Rightarrow> store_call list \<times> store_call list \<Rightarrow> 'sc ViewerEvent \<Rightarrow> ('q, 'sc, 'j) main_event set" where
  "cleanup_events env now be ve =
     {MainThread env, IngestThread AtHead, IngestThread (Iterates now), BuilderThread AtHead,
      BuilderThread (Iterates be), ViewerThread AtHead, ViewerThread (Iterates ve)}"

definition cleanup_moves_to ::
    "int \<Rightarrow> ('w, 'q, 'sc, 'p, 'd, 'r, 'j) MainState \<Rightarrow> ('w, 'q, 'sc, 'p, 'd, 'r, 'j) MainState \<Rightarrow> bool" where
  "cleanup_moves_to code S S' \<longleftrightarrow>
     steps_left S' < steps_left S \<and> (mnPc S' = Exited code \<or> (\<exists>c. mnPc S' = Cleaning c code))"

lemma steps_to_join_less: "steps_to_join r < 3"
  by (simp add: steps_to_join_def split: loop_thread.split)

context loop_control
begin

lemma loop_towards_join:
  assumes "rnStopRequested r" "0 < steps_to_join r"
  shows "\<exists>le r'. (le = AtHead \<or> le = Iterates e) \<and> runner_step iterate (runner_event_of le) r = Some r'
    \<and> steps_to_join r' + 1 = steps_to_join r"
proof -
  obtain ev r' where "ev = LoopHead \<or> ev = LoopIteration e" "runner_step iterate ev r = Some r'"
    "steps_to_join r' + 1 = steps_to_join r"
    using step_towards_join [OF assms] by blast
  then show ?thesis
    by (elim disjE) (intro exI [of _ AtHead] exI [of _ r'], simp, intro exI [of _ "Iterates e"] exI [of _ r'], simp)
qed

end

lemma joining_moves:
  assumes inv: "main_inv libs refs_of base S" and pc: "mnPc S = Cleaning c code"
    and c: "c = JoinViewer \<or> c = JoinBuilder \<or> c = JoinIngestor"
  shows "\<exists>ev S'. ev \<in> cleanup_events env now be ve \<and> main_step libs ev S = Some S' \<and> cleanup_moves_to code S S'"
proof -
  have known: "cleaned c S" using inv pc by (simp add: main_inv_def)
  from c consider (v) "c = JoinViewer" | (b) "c = JoinBuilder" | (i) "c = JoinIngestor" by blast
  then show ?thesis
  proof cases
    case v
    show ?thesis
    proof (cases "steps_to_join (mnViewer S) = 0")
      case True
      then obtain r where "Runner_join (mnViewer S) = Some r" using join_when_finished by blast
      then show ?thesis
        using pc v by (intro exI [of _ "MainThread env"])
          (simp add: cleanup_events_def main_call_def SceneViewerRunner_join_def cleanup_moves_to_def steps_left_def)
    next
      case False
      then obtain e r where "e = AtHead \<or> e = Iterates ve"
        "runner_step (viewerIteration (mlVis libs) (mlScene libs)) (runner_event_of e) (mnViewer S) = Some r"
        "steps_to_join r + 1 = steps_to_join (mnViewer S)"
        using vr.loop_towards_join [of "mnViewer S" ve] known v by fastforce
      then show ?thesis
        using pc v by (intro exI [of _ "ViewerThread e"])
          (auto simp: cleanup_events_def cleanup_moves_to_def steps_left_def)
    qed
  next
    case b
    let ?r = "(mnBuilder S)\<lparr>brStore := isStore (irIngest (mnIngestor S))\<rparr>"
    show ?thesis
    proof (cases "steps_to_join (mnBuilder S) = 0")
      case True
      then obtain r where "Runner_join (mnBuilder S) = Some r" using join_when_finished by blast
      then show ?thesis
        using pc b by (intro exI [of _ "MainThread env"])
          (simp add: cleanup_events_def main_call_def SceneBuilderRunner_join_def cleanup_moves_to_def steps_left_def)
    next
      case False
      then obtain e r where "e = AtHead \<or> e = Iterates be"
        "runner_step (builderIteration (mlItm libs) (mlScene libs) (mlRing libs)) (runner_event_of e) ?r = Some r"
        "steps_to_join r + 1 = steps_to_join (mnBuilder S)"
        using br.loop_towards_join [of ?r be] known b by fastforce
      then show ?thesis
        using pc b by (intro exI [of _ "BuilderThread e"])
          (auto simp: cleanup_events_def builder_call_def cleanup_moves_to_def steps_left_def)
    qed
  next
    case i
    show ?thesis
    proof (cases "steps_to_join (mnIngestor S) = 0")
      case True
      then obtain r where "Runner_join (mnIngestor S) = Some r" using join_when_finished by blast
      then show ?thesis
        using pc i by (intro exI [of _ "MainThread env"])
          (simp add: cleanup_events_def main_call_def FrameIngestorRunner_join_def cleanup_moves_to_def steps_left_def)
    next
      case False
      then obtain e r where "e = AtHead \<or> e = Iterates now"
        "runner_step (ingestIteration (mlK4a libs) (mlRing libs) (mnCamera S)) (runner_event_of e) (mnIngestor S) = Some r"
        "steps_to_join r + 1 = steps_to_join (mnIngestor S)"
        using ir.loop_towards_join [of "mnIngestor S" now] known i by fastforce
      then show ?thesis
        using pc i by (intro exI [of _ "IngestThread e"])
          (auto simp: cleanup_events_def cleanup_moves_to_def steps_left_def)
    qed
  qed
qed

lemma cleanup_moves:
  assumes inv: "main_inv libs refs_of base S" and pc: "mnPc S = Cleaning c code"
  shows "\<exists>ev S'. ev \<in> cleanup_events env now be ve \<and> main_step libs ev S = Some S' \<and> cleanup_moves_to code S S'"
proof (cases "c = JoinViewer \<or> c = JoinBuilder \<or> c = JoinIngestor")
  case True
  then show ?thesis using joining_moves [OF inv pc] by blast
next
  case False
  have "\<exists>S'. main_call libs env S = Some S' \<and> cleanup_moves_to code S S'"
  proof (cases "c = StopWebRtc")
    case True
    show ?thesis
    proof (cases "mnWebRtc S")
      case None
      then show ?thesis using True pc by (simp add: main_call_def cleanup_moves_to_def steps_left_def)
    next
      case (Some ss)
      obtain sig s where ss: "ss = (sig, s)" by fastforce
      have "rtc_inv (mlJson libs) {#} s" "\<not> wsRunning s \<longrightarrow> rtc_idle s"
        using inv Some ss by (simp_all add: main_inv_def webrtc_ok_def)
      then obtain sig' s' where "WebRtcServer_stop (meGst env) (sig, s) = Some (sig', s')"
        using stopped_server [of "mlJson libs" s "meGst env" sig] by blast
      then show ?thesis
        using Some ss True pc by (simp add: main_call_def cleanup_moves_to_def steps_left_def)
    qed
  next
    case stop: False
    show ?thesis
      using False stop pc steps_to_join_less [of "mnViewer S"] steps_to_join_less [of "mnBuilder S"]
        steps_to_join_less [of "mnIngestor S"]
      by (cases c) (simp_all add: main_call_def cleanup_moves_to_def steps_left_def SceneViewerRunner_requestStop_def
          SceneBuilderRunner_requestStop_def FrameIngestorRunner_requestStop_def)
  qed
  then show ?thesis by (auto simp: cleanup_events_def)
qed

lemma cleanup_event_ok: "ev \<in> cleanup_events env now be ve \<Longrightarrow> main_event_ok ev S"
  by (auto simp: cleanup_events_def main_event_ok_def)

lemma cleanup_exits:
  assumes "main_inv libs refs_of base S" "k4a_laws (mlK4a libs) refs_of" "mnPc S = Cleaning c code"
  shows "\<exists>evs S'. set evs \<subseteq> cleanup_events env now be ve \<and> length evs \<le> steps_left S
    \<and> main_run libs evs S = Some S' \<and> mnPc S' = Exited code"
  using assms
proof (induction "steps_left S" arbitrary: S c rule: less_induct)
  case less
  obtain ev S' where ev: "ev \<in> cleanup_events env now be ve" "main_step libs ev S = Some S'" "cleanup_moves_to code S S'"
    using cleanup_moves [OF less.prems(1,3), of env now be ve] by blast
  have inv: "main_inv libs refs_of base S'"
    using main_step_inv [OF less.prems(1,2) cleanup_event_ok [OF ev(1)] ev(2)] .
  have fewer: "steps_left S' < steps_left S" using ev(3) by (simp add: cleanup_moves_to_def)
  show ?case
  proof (cases "mnPc S' = Exited code")
    case True
    then show ?thesis using ev fewer by (intro exI [of _ "[ev]"] exI [of _ S']) auto
  next
    case False
    then obtain c' where "mnPc S' = Cleaning c' code" using ev(3) by (auto simp: cleanup_moves_to_def)
    from less.hyps [OF fewer inv less.prems(2) this] obtain evs S'' where
      "set evs \<subseteq> cleanup_events env now be ve" "length evs \<le> steps_left S'" "main_run libs evs S' = Some S''"
      "mnPc S'' = Exited code" by blast
    then show ?thesis using ev fewer by (intro exI [of _ "ev # evs"] exI [of _ S'']) auto
  qed
qed

lemma steps_left_bound: "steps_left S \<le> 15"
proof -
  have "cleanup_left c S \<le> 15" for c
    using steps_to_join_less [of "mnViewer S"] steps_to_join_less [of "mnBuilder S"]
      steps_to_join_less [of "mnIngestor S"]
    by (cases c) simp_all
  then show ?thesis by (simp add: steps_left_def split: main_pc.split)
qed

end
