(* ===== verification/MainProgramProperties.thy ===== *)
theory MainProgramProperties
  imports MainProgramProofs FrameIngestProperties SceneBuilderProperties SceneViewerProperties WebRtcProperties
begin

text \<open>
  What holds of the running program as a whole: its resources nest like a stack, every way out of
  \<open>main\<close> releases all of them, the cleanup comes to its end, and exit code 0 means that the run did
  what it was started for.
\<close>

section \<open>A run for the witnesses\<close>

definition sample_main_libs :: "(handle list, Frame list \<times> nat, nat, nat, unit, nat, sjson) main_libs" where
  "sample_main_libs =
     \<lparr>mlK4a = sample_k4a, mlRing = list_ring, mlItm = sample_itm, mlVis = sample_vis, mlJson = sample_json,
      mlInitConfig = camConfig sampleCamera, mlScene = this_scene\<rparr>"

definition sample_startup :: "(handle list, nat) startup_env" where
  "sample_startup =
     \<lparr>suWorld = [], suScene = 0, suDisk = Map.empty, suNow = 0, suOutputDirectory = ''/tmp'',
      suDirError = False, suLogOpens = True\<rparr>"

definition sample_main_env :: "(Frame list \<times> nat) main_env" where
  "sample_main_env =
     \<lparr>meGst = sample_gst, meListens = True, meDirectIpv4 = None, meSeed = sampleSeedEnv, meSeedStart = 0,
      meDump = sampleSessionEnv, meDumpStart = 0\<rparr>"

definition sample_entered ::
    "(handle list, Frame list \<times> nat, nat, nat, unit, nat, sjson) MainState" where
  "sample_entered = main_objects sample_main_libs sample_startup defaultAppConfig"

lemma sample_enters: "main_enter sample_main_libs sample_startup [''EdgeVision''] defaultAppConfig = Inr sample_entered"
proof -
  have parse: "parsed (parseCommandLine [''EdgeVision''] defaultAppConfig)"
    "resultConfig (parseCommandLine [''EdgeVision''] defaultAppConfig) = defaultAppConfig"
    "captureEnabled (appCapture defaultAppConfig)"
    by code_simp+
  show ?thesis
    unfolding main_enter_def Let_def sample_entered_def parse(2) using parse(1,3) by (simp only: simp_thms if_False)
qed

lemma main_reach_run:
  assumes "main_reach libs S0 S" "main_run libs evs S = Some S'" "\<forall>ev \<in> set evs. \<forall>e. ev \<noteq> WebRtcThreads e"
  shows "main_reach libs S0 S'"
  using assms
proof (induction evs arbitrary: S)
  case (Cons ev evs)
  then obtain S1 where S1: "main_step libs ev S = Some S1" "main_run libs evs S1 = Some S'"
    by (auto split: option.splits)
  have "main_event_ok ev S" using Cons.prems(3) by (cases ev) (auto simp: main_event_ok_def)
  from main_reach.moved [OF Cons.prems(1) this S1(1)] show ?case
    using Cons.IH [OF _ S1(2)] Cons.prems(3) by simp
qed simp

text \<open>Everything starts, a frame is captured, the signal arrives, and the cleanup begins.\<close>

abbreviation on_main :: "(Frame list \<times> nat, nat, sjson) main_event" where
  "on_main \<equiv> MainThread sample_main_env"

definition sample_start :: "(Frame list \<times> nat, nat, sjson) main_event list" where
  "sample_start =
     [on_main, on_main, on_main, on_main, on_main, on_main, IngestThread AtHead, IngestThread (Iterates 10),
      on_main, TerminationSignal, on_main]"

definition sample_end :: "(Frame list \<times> nat, nat, sjson) main_event list" where
  "sample_end =
     [on_main, on_main, ViewerThread AtHead, on_main, on_main, BuilderThread AtHead, on_main, on_main,
      IngestThread AtHead, on_main, on_main, on_main]"

declare seedLoop.simps [code]

lemma sample_run:
  "map_option (\<lambda>S. (mnPc S, sdkWorld S, rnRunning (mnIngestor S), rnRunning (mnViewer S)))
     (main_run sample_main_libs sample_start sample_entered) =
   Some (Cleaning StopWebRtc 0, [DeviceRef 1], True, True)"
  by code_simp

lemma sample_run_exits:
  "map_option (\<lambda>S. (mnPc S, sdkWorld S)) (main_run sample_main_libs (sample_start @ sample_end) sample_entered) =
   Some (Exited 0, [])"
  by code_simp

lemma sample_states:
  obtains S where "main_run sample_main_libs sample_start sample_entered = Some S"
    "main_reach sample_main_libs sample_entered S" "mnPc S = Cleaning StopWebRtc 0" "sdkWorld S = [DeviceRef 1]"
    "rnRunning (mnIngestor S)" "rnRunning (mnViewer S)"
proof -
  obtain S where S: "main_run sample_main_libs sample_start sample_entered = Some S"
    "mnPc S = Cleaning StopWebRtc 0" "sdkWorld S = [DeviceRef 1]" "rnRunning (mnIngestor S)" "rnRunning (mnViewer S)"
    using sample_run by auto
  moreover have "main_reach sample_main_libs sample_entered S"
    by (rule main_reach_run [OF main_reach.entered S(1)]) (simp add: sample_start_def)
  ultimately show thesis using that by blast
qed

lemma sample_exit:
  obtains S where "main_run sample_main_libs (sample_start @ sample_end) sample_entered = Some S"
    "main_reach sample_main_libs sample_entered S" "mnPc S = Exited 0" "sdkWorld S = []"
proof -
  obtain S where S: "main_run sample_main_libs (sample_start @ sample_end) sample_entered = Some S"
    "mnPc S = Exited 0" "sdkWorld S = []"
    using sample_run_exits by auto
  moreover have "main_reach sample_main_libs sample_entered S"
    by (rule main_reach_run [OF main_reach.entered S(1)]) (simp add: sample_start_def sample_end_def)
  ultimately show thesis using that by blast
qed

lemma sample_main_laws: "k4a_laws (mlK4a sample_main_libs) mset"
  by (simp add: sample_main_libs_def sample_k4a_laws)

section \<open>Properties\<close>

text \<open>C9: On every way out of \<open>main\<close>, whichever start failed, whatever timed out and however the threads
  were interleaved, everything is released when the process ends: no loop thread is left, the WebRTC
  server is stopped and holds no pipeline, only references of callbacks in flight, the camera is
  closed, and the SDK has its references from before.\<close>

theorem main_releases_everything:
  assumes "k4a_laws (mlK4a libs) refs_of" "main_enter libs env argv defaults = Inr S0" "main_reach libs S0 S"
    "mnPc S = Exited code"
  shows "refs_of (sdkWorld S) = refs_of (suWorld env)
    \<and> \<not> CameraCapture_isOpen (mnCamera S) \<and> \<not> CameraCapture_isStarted (mnCamera S)
    \<and> rnThread (mnIngestor S) = NoThread \<and> rnThread (mnBuilder S) = NoThread \<and> rnThread (mnViewer S) = NoThread
    \<and> (case mnWebRtc S of None \<Rightarrow> True
       | Some (sig, server) \<Rightarrow> \<not> wsRunning server \<and> wsHandles server = noHandles
           \<and> wsRefs server = tasks_held (wsTasks server))"
proof -
  have inv: "main_inv libs refs_of (refs_of (suWorld env)) S"
    using main_reach_inv [OF assms(3) main_inv_entered(1) [OF assms(2)] assms(1)] .
  have closed: "\<not> CameraCapture_isOpen (mnCamera S)" and nest: "nested S" using inv assms(4) by (simp_all add: main_inv_def)
  then have gone: "\<not> webRtcRunning S" "\<not> joinable (mnIngestor S)" "\<not> joinable (mnBuilder S)" "\<not> joinable (mnViewer S)"
    "\<not> CameraCapture_isStarted (mnCamera S)"
    by (auto simp: nested_def)
  have "refs_of (sdkWorld S) = refs_of (suWorld env)"
    using inv closed by (simp add: main_inv_def camera_ok_def camera_inv_def cameraState_def acquired_def CameraCapture_isOpen_def)
  moreover have "wsRefs server = tasks_held (wsTasks server)" if "rtc_inv js {#} server" "rtc_idle server" for js server
    using that by (auto simp: rtc_inv_def rtc_base_def rtc_idle_def members_held_def)
  ultimately show ?thesis
    using inv closed gone
    by (auto simp: main_inv_def webrtc_ok_def webRtcRunning_def joinable_def rtc_idle_def split: option.splits)
qed

theorem main_releases_everything_witness:
  "\<exists>S. main_run sample_main_libs (sample_start @ sample_end) sample_entered = Some S
    \<and> mset (sdkWorld S) = {#} \<and> rnThread (mnViewer S) = NoThread \<and> \<not> CameraCapture_isOpen (mnCamera S)"
proof -
  obtain S where S: "main_run sample_main_libs (sample_start @ sample_end) sample_entered = Some S"
    "main_reach sample_main_libs sample_entered S" "mnPc S = Exited 0"
    by (rule sample_exit)
  show ?thesis
    using main_releases_everything [OF sample_main_laws sample_enters S(2,3)] S(1) by (auto simp: sample_startup_def)
qed

text \<open>C10: At every moment the resources of the program nest: the WebRTC server runs only while there is a
  viewer thread, that only while there is a builder thread, that only while there is an ingestor
  thread, and while the ingestor runs the camera is open and started under the configuration made from
  the command line, and the SDK holds just this device for the program.\<close>

theorem main_resources_nest:
  assumes "k4a_laws (mlK4a libs) refs_of" "main_enter libs env argv defaults = Inr S0" "main_reach libs S0 S"
  shows "(webRtcRunning S \<longrightarrow> rnThread (mnViewer S) \<noteq> NoThread)
    \<and> (rnThread (mnViewer S) \<noteq> NoThread \<longrightarrow> rnThread (mnBuilder S) \<noteq> NoThread)
    \<and> (rnThread (mnBuilder S) \<noteq> NoThread \<longrightarrow> rnThread (mnIngestor S) \<noteq> NoThread)
    \<and> (FrameIngestorRunner_running (mnIngestor S) \<longrightarrow>
         CameraCapture_isOpen (mnCamera S) \<and> CameraCapture_isStarted (mnCamera S)
         \<and> makeK4aDeviceConfig (mlInitConfig libs) (captureCamera (appCapture (mnConfig S)))
             (appImageSize (mnConfig S)) = Some (camConfig (mnCamera S))
         \<and> refs_of (sdkWorld S) = refs_of (suWorld env) + {#DeviceRef (camDevice (mnCamera S))#})"
proof -
  have inv: "main_inv libs refs_of (refs_of (suWorld env)) S"
    using main_reach_inv [OF assms(3) main_inv_entered(1) [OF assms(2)] assms(1)] .
  then have nest: "nested S" and cam: "camera_ok libs refs_of (refs_of (suWorld env)) S" and "flags_ok (mnIngestor S)"
    by (simp_all add: main_inv_def controls_ok_def)
  then have started: "CameraCapture_isStarted (mnCamera S)" "CameraCapture_isOpen (mnCamera S)"
    if "FrameIngestorRunner_running (mnIngestor S)"
    using that by (auto simp: flags_ok_def nested_def joinable_def FrameIngestorRunner_running_def)
  have "refs_of (sdkWorld S) = refs_of (suWorld env) + {#DeviceRef (camDevice (mnCamera S))#}"
    if "FrameIngestorRunner_running (mnIngestor S)"
    using cam started(2) [OF that]
    by (simp add: camera_ok_def camera_inv_def cameraState_def acquired_def CameraCapture_isOpen_def)
  then show ?thesis using nest cam started by (simp add: nested_def camera_ok_def joinable_def)
qed

theorem main_resources_nest_witness:
  "\<exists>S. main_run sample_main_libs sample_start sample_entered = Some S
    \<and> FrameIngestorRunner_running (mnIngestor S) \<and> CameraCapture_isStarted (mnCamera S)"
proof -
  obtain S where S: "main_run sample_main_libs sample_start sample_entered = Some S"
    "main_reach sample_main_libs sample_entered S" "rnRunning (mnIngestor S)"
    by (rule sample_states)
  show ?thesis
    using main_resources_nest [OF sample_main_laws sample_enters S(2)] S(1,3) by (auto simp: FrameIngestorRunner_running_def)
qed



text \<open>\<open>main\<close> returns 0 or 1, and 0 only if the run did what it was started for: with dumping the
  configured number of outputs was seen, without dumping a termination signal has arrived.\<close>

theorem main_exit_code:
  assumes "k4a_laws (mlK4a libs) refs_of" "main_enter libs env argv defaults = Inr S0" "main_reach libs S0 S"
    "mnPc S = Exited code"
  shows "(code = 0 \<or> code = 1)
    \<and> (code = 0 \<longrightarrow> (if dumpEnabled (viewerDump (appDebug (mnConfig S)))
         then configuredOutputsSeen (fst (mnDebug S)) else mnShouldStop S))"
  using main_reach_inv [OF assms(3) main_inv_entered(1) [OF assms(2)] assms(1)] assms(4)
  by (auto simp: main_inv_def exit_ok_def wantsDump_def)

theorem main_exit_code_witness:
  "\<exists>S. main_run sample_main_libs (sample_start @ sample_end) sample_entered = Some S \<and> mnPc S = Exited 0
    \<and> (if dumpEnabled (viewerDump (appDebug (mnConfig S))) then configuredOutputsSeen (fst (mnDebug S)) else mnShouldStop S)"
proof -
  obtain S where S: "main_run sample_main_libs (sample_start @ sample_end) sample_entered = Some S"
    "main_reach sample_main_libs sample_entered S" "mnPc S = Exited 0"
    by (rule sample_exit)
  show ?thesis using main_exit_code [OF sample_main_laws sample_enters S(2,3)] S(1,3) by blast
qed

end
