(* ===== verification/Spec2Isabelle.thy ===== *)
theory Spec2Isabelle
  imports CommandLine FrameStoreProperties FrameStoreConcurrentProperties SceneLockProperties SceneAccess SceneVersions ViewerStores
    FrameIngestProperties SceneBuilderProperties SceneViewerProperties
    ViewerFrameDumperProperties ViewerPoseSeeder ViewerDebugSession SignallingProperties WebRtcProperties
    RenderServerProperties FrameFlowProperties MainProgramProperties
begin

text \<open>
  EdgeVision: a verification development of the C++ code of the repository (paths are under \<open>src/\<close>).

  \<^bold>\<open>The program.\<close>  A camera thread captures pairs of color and depth images, builds frames from them
  and submits them to the frame store.  A builder thread takes the frames in order, integrates each
  into the shared InfiniTAM scene and publishes a scene version for it.  A viewer thread renders the
  scene at the latest pose of the pose store into the output store.  A WebRTC server negotiates one
  session at a time with a client, pushes the newest output as video and receives poses over a data
  channel.  \<open>main.cpp\<close> starts these in order, seeds the first pose, waits for a signal or for the
  configured number of dumped frames, and takes everything down in the opposite order.  A TCP render
  server of an older protocol is in the repository and not started by \<open>main\<close>.

  \<^bold>\<open>Theories and sources.\<close>

  \<^item> \<open>Prelude\<close>, \<open>Float32\<close>, \<open>CxxStrings\<close>, \<open>ByteLoops\<close>: machine integers, floats as bit patterns,
    the string functions of the standard library, loops over arrays that may leave their bounds.
  \<^item> \<open>Config\<close>, \<open>CommandLine\<close>: \<open>config/\<close>.  One step for one argument; parsing a rendered
    configuration gives it back and parsed numbers are in range.
  \<^item> \<open>FrameTypes\<close>, \<open>FrameValidator\<close>, \<open>FrameHistory\<close> (over the interface \<open>KeyedHistory\<close>),
    \<open>LifecycleTracker\<close>, \<open>ReadyFrameQueue\<close>, \<open>FrameStore\<close>: \<open>model/.../frame\<close>.  \<open>FrameStoreInvariant\<close>
    has the invariant, \<open>FrameStoreSpec\<close> the specification that the store refines over whole runs,
    \<open>FrameStoreProperties\<close> what follows for every run, and \<open>FrameStoreConcurrent\<close> with its properties
    the steps between the two mutexes, reduced to calls that run one after the other.
  \<^item> \<open>SceneTypes\<close>, \<open>SceneLock\<close>, \<open>SceneLockInvariant\<close>, \<open>SceneLockProperties\<close>, \<open>SceneAccess\<close>,
    \<open>SceneVersions\<close>: \<open>model/.../scene\<close>.  The readers and writers of the scene as a step relation with
    parked and notified threads; the access handles as objects that own leases; the version history.
  \<^item> \<open>ViewerStores\<close>: \<open>model/.../viewer\<close>, the pose and output stores.
  \<^item> \<open>K4a\<close>, \<open>FrameBuild\<close>, \<open>FrameIngest\<close>, their proofs and \<open>FrameIngestProperties\<close>: \<open>capture/\<close>.
    References taken from the camera SDK are a multiset that every path balances.
  \<^item> \<open>BackgroundRunner\<close>: the thread control that the three loops share, as the locales \<open>loop_control\<close>
    and \<open>background_runner\<close>, interpreted by the ingestor, the builder and the viewer.
  \<^item> \<open>ViewConverter\<close>, \<open>SceneBuilder\<close>, \<open>SceneBuilderRunner\<close> and their proofs: \<open>builder/\<close>.
  \<^item> \<open>SceneViewer\<close>, \<open>SceneViewerRunner\<close> and their properties: \<open>viewer/\<close>.
  \<^item> \<open>ViewerFrameDumper\<close>, \<open>ViewerPoseSeeder\<close>, \<open>ViewerDebugSession\<close>: \<open>app/\<close>.
  \<^item> \<open>IceFilter\<close>, \<open>JsonMessages\<close>, \<open>SignallingHandler\<close>, \<open>GstPipeline\<close>, \<open>WebRtcServer\<close>,
    \<open>WebRtcNegotiation\<close>: \<open>streaming/webrtc\<close>.  \<open>WebRtcFrame\<close> says what an event leaves alone,
    \<open>WebRtcInvariant\<close> and its proofs keep references, order and watchdog, the properties follow.
  \<^item> \<open>RenderServer\<close>: \<open>streaming/src/streaming\<close>, with outcomes for exceptions, the end of the process
    and undefined behaviour.
  \<^item> \<open>FrameFlow\<close>, its proofs and properties: the three loops over one frame store and one scene.  Each
    call of the builder's loop is a step, so captures and renders fall between any two of them; the
    invariant joins the parts that the theories above keep, and says what becomes of every accepted
    frame up to the outputs that show it.
  \<^item> \<open>MainProgram\<close>, its invariant and properties: \<open>main.cpp\<close> over the models above.

  \<^bold>\<open>State and operations.\<close>  A class is a record with one field for each member (named with the initials
  of the class), an operation is a function that returns the new state with the result, and operations
  keep the C++ names, with the class name in front where two classes share one.  Unsigned integers
  that may wrap are words; sizes of containers are \<open>nat\<close>; a C++ \<open>int\<close> is an \<open>int\<close> whose range is a
  hypothesis or shown where the code relies on it.  A mutex makes its critical section one step; what
  happens between critical sections is a step of its own wherever another thread can see it.  An
  exception or a refusal is a value; \<open>None\<close> is undefined behaviour, a wait that does not end, or a
  step that is not enabled, as the definition says.

  \<^bold>\<open>Parameters.\<close>  Code outside the repository is a record of operations with a predicate that states its
  documented behaviour: the moodycamel ring buffer (\<open>ring_laws\<close>), the camera SDK (\<open>k4a_laws\<close>),
  InfiniTAM (\<open>itm_laws\<close>, \<open>vis_laws\<close>), GStreamer, the WebSocket and JSON libraries, libjpeg, the file
  system, the sockets and the clocks.  The laws that are hypotheses of a property have a concrete
  instance, on which its witness runs the code.

  \<^bold>\<open>Loops.\<close>  Loops that are bounded by their data are recursions with a measure; the eviction loop ends
  because each turn removes a frame.  The dumper's and the seeder's waiting loops may run forever if the
  clock stands still: they are partial functions, and \<open>dump_wait_terminates\<close> bounds the rounds by the
  timeout divided by the poll interval.  The loops of the three runners are step relations: each
  iteration is one event and a requested stop ends the loop at its next head.  The client loop of the
  TCP server ends because its input is finite.  No definition uses fuel.

  \<^bold>\<open>The main program.\<close>  An iteration of a loop is one step of \<open>main_step\<close>; what other threads do during
  it is part of its event.  The event may choose any poses, frames and scenes, so the model has every
  run of the program and some that it has not; its properties hold for all of them.  \<open>FrameFlow\<close> starts
  from the same objects (\<open>main_objects_flow\<close>) and ties their stores together: an ingest is one step, as
  only its submission touches what others see, a build is one step, as it holds the scene's write lock.

  \<^bold>\<open>Not modelled.\<close>
  \<^item> \<open>capture/src/interfaces/K4aInterface.cpp\<close> forwards each call to the SDK; its interface is the
    parameter \<open>k4a_ops\<close>.
  \<^item> Console output, the text of log lines, the bus messages, core pinning, and the rounding and
    formatting of the \<open>double\<close> values in the debug log.
  \<^item> The inside of InfiniTAM (the builder's and the viewer's scene is a type parameter), of GStreamer,
    the encoder, websocketpp, nlohmann::json and libjpeg.
  \<^item> The contraction of a product and a sum into one rounding, which a compiler may use in the pose
    product, and the payload of a NaN.
  \<^item> \<open>startRenderServer\<close> only runs \<open>serve\<close> on a thread; moving a \<open>SharedScene\<close> moves a pointer to the
    state that the model is about.
  \<^item> Tests, toolchain smoke tests, build files, scripts and patches.
\<close>

end
